(* ===== verification/Kahya_Prelude.thy ===== *)
theory Kahya_Prelude
  imports Main "HOL-Library.State_Monad" "HOL-Library.Char_ord"
    "HOL-Library.List_Lexorder" "HOL-Library.Product_Lexorder"
begin

text \<open>
  Shared vocabulary of the development.

  Go functions that read or write the daemon's database are state-monad computations
  (\<open>State_Monad\<close> of the library): the result of a fallible call is a value of
  \<open>go_error + 'a\<close>, with \<open>Inl\<close> for a non-nil error, and the state after a failing
  call is the state the call left behind, exactly as in Go, where returning an error rolls
  nothing back.  This theory holds

  \<^item> the error values of the program and the result type,
  \<^item> timestamps, with the order SQLite gives to their stored text,
  \<^item> byte-string helpers (prefixes, \<open>strings.Index\<close>, hexadecimal),
  \<^item> a small weakest-precondition calculus for the monad (\<open>wp\<close>), and
  \<^item> the locale \<open>state_preorder\<close>: facts of the form "this computation only ever moves the
    state forward in \<open>R\<close>" compose along every construct of the monad.
\<close>

named_theorems wp_rules "simplification rules of the weakest-precondition calculus"
named_theorems keeps_rules "introduction rules for relations kept by computations"

section \<open>Errors\<close>

text \<open>
  One constructor per sentinel error of the modelled packages, and one for each kind of
  failure of a library call the packages react to.  The text a \<open>fmt.Errorf\<close> wraps around a
  cause is not modelled; the identity \<open>errors.Is\<close> tests is.
\<close>

datatype go_error =
    DbError                   \<comment> \<open>any failure of a database statement or commit\<close>
  | ConstraintError           \<comment> \<open>\<open>sqlite3.ErrConstraint\<close>\<close>
  | NoRows                    \<comment> \<open>\<open>sql.ErrNoRows\<close>\<close>
  | RandError                 \<comment> \<open>\<open>rand.Read\<close> failed\<close>
  | DecodeError               \<comment> \<open>stored JSON does not decode\<close>
  | InvalidArgument           \<comment> \<open>an anonymous \<open>fmt.Errorf\<close> that rejects an argument\<close>
  | ErrInvalidPendingApproval
  | ErrTokenInvalid
  | ErrNoOpenUndoWindow
  | ErrW3RequiresLocalSurface
  | ErrW3RequiresTypedOnayla
  | ErrLowerAttempt
  | ErrIllegalTransition
  | ErrLostTransitionRace
  | ErrTaskNotResolvable
  | ErrReadOnlyClass
  | ErrToolCallClaimTimeout
  | EffectError string        \<comment> \<open>the error of a tool's own effect\<close>

type_synonym 'a res = "go_error + 'a"

abbreviation ret :: "'a \<Rightarrow> ('s, 'a) state" where
  "ret \<equiv> State_Monad.return"

section \<open>Timestamps\<close>

text \<open>
  A Go \<open>time.Time\<close> in UTC is its number of nanoseconds since the epoch.  A timestamp column
  holds text: either the \<open>RFC3339Nano\<close> text of an instant, or text that \<open>time.Parse\<close> rejects.
\<close>

datatype stamp = Stamp int | Unparsable

fun parse_stamp :: "stamp \<Rightarrow> int option" where
  "parse_stamp (Stamp t) = Some t"
| "parse_stamp Unparsable = None"

definition second_ns :: int where "second_ns = 1000000000"
definition minute_ns :: int where "minute_ns = 60 * second_ns"
definition hour_ns :: int where "hour_ns = 60 * minute_ns"

text \<open>
  SQLite compares these columns as text.  \<open>RFC3339Nano\<close> writes a fixed-width prefix up to the
  second (for the years 0 to 9999 it is ordered as the second is) and then the fraction
  with its trailing zeros removed, or nothing at all, and a closing \<open>Z\<close>.  Two such texts
  therefore compare by the second first and then by the text of the fraction.
\<close>

definition digit_char :: "nat \<Rightarrow> char" where
  "digit_char d = char_of (48 + d mod 10)"

fun fixed_digits :: "nat \<Rightarrow> nat \<Rightarrow> string" where
  "fixed_digits 0 n = []"
| "fixed_digits (Suc k) n = fixed_digits k (n div 10) @ [digit_char n]"

definition trim_zeros :: "string \<Rightarrow> string" where
  "trim_zeros ds = rev (dropWhile (\<lambda>c. c = CHR ''0'') (rev ds))"

text \<open>Decimal numbers; an \<open>int64\<close> has at most 19 digits.\<close>

definition nat_text :: "nat \<Rightarrow> string" where
  "nat_text n = (if n = 0 then ''0'' else dropWhile (\<lambda>c. c = CHR ''0'') (fixed_digits 20 n))"

definition int_text :: "int \<Rightarrow> string" where
  "int_text i = (if i < 0 then CHR ''-'' # nat_text (nat (- i)) else nat_text (nat i))"

definition frac_text :: "int \<Rightarrow> string" where
  "frac_text ns =
     (if ns = 0 then ''Z'' else ''.'' @ trim_zeros (fixed_digits 9 (nat ns)) @ ''Z'')"

fun text_key :: "stamp \<Rightarrow> int \<times> string" where
  "text_key (Stamp t) = (t div second_ns, frac_text (t mod second_ns))"
| "text_key Unparsable = (0, '''')"

section \<open>Byte strings\<close>

fun is_prefix :: "string \<Rightarrow> string \<Rightarrow> bool" where
  "is_prefix [] ys = True"
| "is_prefix (x # xs) [] = False"
| "is_prefix (x # xs) (y # ys) = (x = y \<and> is_prefix xs ys)"

text \<open>\<open>strings.Index\<close>: the offset of the first occurrence, \<open>None\<close> for Go's \<open>-1\<close>.\<close>

fun str_index :: "string \<Rightarrow> string \<Rightarrow> nat option" where
  "str_index [] pat = (if pat = [] then Some 0 else None)"
| "str_index (c # cs) pat =
     (if is_prefix pat (c # cs) then Some 0 else map_option Suc (str_index cs pat))"

text \<open>\<open>strings.Contains\<close>.\<close>

definition contains_text :: "string \<Rightarrow> string \<Rightarrow> bool" where
  "contains_text s pat \<longleftrightarrow> str_index s pat \<noteq> None"

text \<open>
  \<open>strings.TrimSpace\<close>: removes the runes of the Unicode property \<open>White_Space\<close>, given by their
  UTF-8 encodings, from both ends; each round of \<open>trim_by\<close> removes one rune, so the length of the
  text is fuel enough.  \<open>is_space\<close> is the property on ASCII.
\<close>

definition is_space :: "char \<Rightarrow> bool" where
  "is_space c \<longleftrightarrow> (let n = of_char c :: nat in 9 \<le> n \<and> n \<le> 13 \<or> n = 32)"

definition space_runes :: "string list" where
  "space_runes = [
     [CHR 0x09], [CHR 0x0A], [CHR 0x0B], [CHR 0x0C], [CHR 0x0D], [CHR 0x20], [CHR 0xC2, CHR 0x85],
     [CHR 0xC2, CHR 0xA0], [CHR 0xE1, CHR 0x9A, CHR 0x80], [CHR 0xE2, CHR 0x80, CHR 0x80],
     [CHR 0xE2, CHR 0x80, CHR 0x81], [CHR 0xE2, CHR 0x80, CHR 0x82], [CHR 0xE2, CHR 0x80, CHR 0x83],
     [CHR 0xE2, CHR 0x80, CHR 0x84], [CHR 0xE2, CHR 0x80, CHR 0x85], [CHR 0xE2, CHR 0x80, CHR 0x86],
     [CHR 0xE2, CHR 0x80, CHR 0x87], [CHR 0xE2, CHR 0x80, CHR 0x88], [CHR 0xE2, CHR 0x80, CHR 0x89],
     [CHR 0xE2, CHR 0x80, CHR 0x8A], [CHR 0xE2, CHR 0x80, CHR 0xA8], [CHR 0xE2, CHR 0x80, CHR 0xA9],
     [CHR 0xE2, CHR 0x80, CHR 0xAF], [CHR 0xE2, CHR 0x81, CHR 0x9F], [CHR 0xE3, CHR 0x80, CHR 0x80]]"

primrec trim_by :: "string list \<Rightarrow> nat \<Rightarrow> string \<Rightarrow> string" where
  "trim_by ws 0 s = s"
| "trim_by ws (Suc k) s = (case find (\<lambda>w. is_prefix w s) ws of
     None \<Rightarrow> s
   | Some w \<Rightarrow> trim_by ws k (drop (length w) s))"

definition trim_space :: "string \<Rightarrow> string" where
  "trim_space s = (let t = trim_by space_runes (length s) s
     in rev (trim_by (map rev space_runes) (length t) (rev t)))"

text \<open>\<open>strings.Split\<close> on one byte, and \<open>strings.FieldsFunc\<close>.\<close>

fun split_on :: "char \<Rightarrow> string \<Rightarrow> string list" where
  "split_on d [] = [[]]"
| "split_on d (c # cs) =
     (if c = d then [] # split_on d cs
      else case split_on d cs of [] \<Rightarrow> [[c]] | w # ws \<Rightarrow> (c # w) # ws)"

function fields_by :: "('a \<Rightarrow> bool) \<Rightarrow> 'a list \<Rightarrow> 'a list list" where
  "fields_by sep xs =
     (case dropWhile sep xs of
        [] \<Rightarrow> []
      | y # ys \<Rightarrow> takeWhile (\<lambda>x. \<not> sep x) (y # ys)
                   # fields_by sep (dropWhile (\<lambda>x. \<not> sep x) (y # ys)))"
  by pat_completeness auto
termination
proof (relation "measure (\<lambda>(sep, xs). length xs)")
  fix sep :: "'a \<Rightarrow> bool" and xs y ys
  assume eq: "dropWhile sep xs = y # ys"
  then have "\<not> sep y" by (metis dropWhile_eq_Cons_conv)
  then have "length (dropWhile (\<lambda>x. \<not> sep x) (y # ys)) \<le> length ys"
    by (simp add: length_dropWhile_le)
  also have "length ys < length xs"
    using length_dropWhile_le [of sep xs] eq by simp
  finally show "((sep, dropWhile (\<lambda>x. \<not> sep x) (y # ys)), sep, xs)
      \<in> measure (\<lambda>(sep, xs). length xs)"
    by simp
qed simp

declare fields_by.simps [simp del]

definition hex_char :: "nat \<Rightarrow> char" where
  "hex_char d = (if d < 10 then char_of (48 + d) else char_of (87 + d))"

definition hex_value :: "char \<Rightarrow> nat option" where
  "hex_value c = (let n = of_char c in
     if 48 \<le> n \<and> n \<le> 57 then Some (n - 48)
     else if 97 \<le> n \<and> n \<le> 102 then Some (n - 87)
     else if 65 \<le> n \<and> n \<le> 70 then Some (n - 55)
     else None)"

fun hex_encode :: "string \<Rightarrow> string" where
  "hex_encode [] = []"
| "hex_encode (c # cs) =
     (let n = of_char c :: nat in hex_char (n div 16) # hex_char (n mod 16) # hex_encode cs)"

fun hex_decode :: "string \<Rightarrow> string option" where
  "hex_decode [] = Some []"
| "hex_decode [c] = None"
| "hex_decode (a # b # cs) =
     (case (hex_value a, hex_value b, hex_decode cs) of
        (Some x, Some y, Some r) \<Rightarrow> Some (char_of (16 * x + y) # r)
      | _ \<Rightarrow> None)"

lemma hex_value_hex_char: "d < 16 \<Longrightarrow> hex_value (hex_char d) = Some d"
  by (auto simp: hex_value_def hex_char_def Let_def)

lemma hex_decode_encode [simp]: "hex_decode (hex_encode cs) = Some cs"
proof (induction cs)
  case (Cons c cs)
  have "(of_char c :: nat) < 256" by simp
  then have "(of_char c :: nat) div 16 < 16" "(of_char c :: nat) mod 16 < 16" by arith+
  with Cons show ?case by (simp add: Let_def hex_value_hex_char)
qed simp

lemma hex_encode_inject [simp]: "hex_encode a = hex_encode b \<longleftrightarrow> a = b"
  by (metis hex_decode_encode option.inject)

lemma length_hex_encode [simp]: "length (hex_encode cs) = 2 * length cs"
  by (induction cs) (simp_all add: Let_def)

section \<open>Weakest preconditions\<close>

definition wp :: "('s, 'a) state \<Rightarrow> ('a \<Rightarrow> 's \<Rightarrow> bool) \<Rightarrow> 's \<Rightarrow> bool" where
  "wp m Q s \<longleftrightarrow> (case run_state m s of (a, s') \<Rightarrow> Q a s')"

lemma wp_return [wp_rules]: "wp (ret x) Q s \<longleftrightarrow> Q x s"
  by (simp add: wp_def)

lemma wp_return_eq: "wp (ret x) Q = Q x"
  by (rule ext) (rule wp_return)

lemma wp_bind [wp_rules]:
  "wp (State_Monad.bind m f) Q s \<longleftrightarrow> wp m (\<lambda>a. wp (f a) Q) s"
  by (simp add: wp_def split: prod.splits)

lemma wp_get [wp_rules]: "wp State_Monad.get Q s \<longleftrightarrow> Q s s"
  by (simp add: wp_def)

lemma wp_State [wp_rules]: "wp (State f) Q s \<longleftrightarrow> (case f s of (a, s') \<Rightarrow> Q a s')"
  by (simp add: wp_def)

lemma wp_mono: "wp m P s \<Longrightarrow> (\<And>a s'. P a s' \<Longrightarrow> Q a s') \<Longrightarrow> wp m Q s"
  by (auto simp: wp_def)

lemma wp_any: "(\<And>a s'. Q a s') \<Longrightarrow> wp m Q s"
  by (auto simp: wp_def)

lemma wp_conj: "wp m P s \<Longrightarrow> wp m Q s \<Longrightarrow> wp m (\<lambda>a s'. P a s' \<and> Q a s') s"
  by (auto simp: wp_def)

lemma wp_run: "wp m Q s \<Longrightarrow> run_state m s = (a, s') \<Longrightarrow> Q a s'"
  by (auto simp: wp_def)

lemma wpI: "(\<And>a s'. run_state m s = (a, s') \<Longrightarrow> Q a s') \<Longrightarrow> wp m Q s"
  by (auto simp: wp_def)

lemma wp_io_rel: "state_io_rel R m \<Longrightarrow> (\<And>a s'. R s s' \<Longrightarrow> Q a s') \<Longrightarrow> wp m Q s"
  by (rule wpI) (auto dest: state_io_relD)

lemma wp_keeps: "(\<And>s. wp m (\<lambda>_ s'. R s s') s) \<Longrightarrow> state_io_rel R m"
  by (auto simp: state_io_rel_def wp_def split_beta)

text \<open>What a call returns does not matter, or only what relation it keeps.\<close>

lemma wp_bindI: "(\<And>a s'. wp (f a) Q s') \<Longrightarrow> wp (State_Monad.bind m f) Q s"
  by (simp add: wp_bind wp_any)

lemma wp_bind_rel:
  "state_io_rel R m \<Longrightarrow> (\<And>a s'. R s s' \<Longrightarrow> wp (f a) Q s') \<Longrightarrow> wp (State_Monad.bind m f) Q s"
  unfolding wp_bind by (rule wp_io_rel)

lemma wp_bind_mono:
  "wp m P s \<Longrightarrow> (\<And>a s'. P a s' \<Longrightarrow> wp (f a) Q s') \<Longrightarrow> wp (State_Monad.bind m f) Q s"
  unfolding wp_bind by (rule wp_mono)

lemma wp_case_sum [wp_rules]:
  "wp (case r of Inl e \<Rightarrow> f e | Inr x \<Rightarrow> g x) Q s \<longleftrightarrow>
     (case r of Inl e \<Rightarrow> wp (f e) Q s | Inr x \<Rightarrow> wp (g x) Q s)"
  by (cases r) simp_all

lemma wp_case_option [wp_rules]:
  "wp (case r of None \<Rightarrow> f | Some x \<Rightarrow> g x) Q s \<longleftrightarrow>
     (case r of None \<Rightarrow> wp f Q s | Some x \<Rightarrow> wp (g x) Q s)"
  by (cases r) simp_all

lemma wp_if [wp_rules]:
  "wp (if b then m else n) Q s \<longleftrightarrow> (if b then wp m Q s else wp n Q s)"
  by simp

section \<open>Loops over a list\<close>

text \<open>\<open>for _, x := range xs\<close>, with the loop's variables as an accumulator.\<close>

fun for_each :: "'x list \<Rightarrow> ('x \<Rightarrow> 'b \<Rightarrow> ('s, 'b) state) \<Rightarrow> 'b \<Rightarrow> ('s, 'b) state" where
  "for_each [] f acc = ret acc"
| "for_each (x # xs) f acc = State_Monad.bind (f x acc) (\<lambda>acc'. for_each xs f acc')"

section \<open>Relations kept by computations\<close>

text \<open>
  \<open>state_io_rel R m\<close> (of the library) says that \<open>m\<close> takes every state to an \<open>R\<close>-related one.
  For a preorder \<open>R\<close> this is closed under everything a computation is built from.
\<close>

locale state_preorder =
  fixes R :: "'s \<Rightarrow> 's \<Rightarrow> bool"
  assumes R_refl: "R s s"
    and R_trans: "R s t \<Longrightarrow> R t u \<Longrightarrow> R s u"
begin

lemma keeps_return [keeps_rules]: "state_io_rel R (State_Monad.return x)"
  by (simp add: state_io_rel_def R_refl)

lemma keeps_get [keeps_rules]: "state_io_rel R State_Monad.get"
  by (simp add: state_io_rel_def R_refl)

lemma keeps_bind [keeps_rules]:
  assumes "state_io_rel R m" and "\<And>a. state_io_rel R (f a)"
  shows "state_io_rel R (State_Monad.bind m f)"
proof (rule state_io_relI)
  fix b s u
  assume run: "run_state (State_Monad.bind m f) s = (b, u)"
  obtain a t where mt: "run_state m s = (a, t)" by (cases "run_state m s")
  with run have "run_state (f a) t = (b, u)" by simp
  with assms mt show "R s u" by (meson R_trans state_io_relD)
qed

lemma keeps_if [keeps_rules]:
  "state_io_rel R m \<Longrightarrow> state_io_rel R n \<Longrightarrow> state_io_rel R (if b then m else n)"
  by simp

lemma keeps_case_sum [keeps_rules]:
  "(\<And>e. state_io_rel R (f e)) \<Longrightarrow> (\<And>x. state_io_rel R (g x)) \<Longrightarrow>
   state_io_rel R (case r of Inl e \<Rightarrow> f e | Inr x \<Rightarrow> g x)"
  by (cases r) simp_all

lemma keeps_case_option [keeps_rules]:
  "state_io_rel R f \<Longrightarrow> (\<And>x. state_io_rel R (g x)) \<Longrightarrow>
   state_io_rel R (case r of None \<Rightarrow> f | Some x \<Rightarrow> g x)"
  by (cases r) simp_all

lemma keeps_case_prod [keeps_rules]:
  "(\<And>a b. state_io_rel R (f a b)) \<Longrightarrow> state_io_rel R (case p of (a, b) \<Rightarrow> f a b)"
  by (cases p) simp

lemma keeps_case_list [keeps_rules]:
  "state_io_rel R f \<Longrightarrow> (\<And>x xs. state_io_rel R (g x xs)) \<Longrightarrow>
   state_io_rel R (case l of [] \<Rightarrow> f | x # xs \<Rightarrow> g x xs)"
  by (cases l) simp_all

lemma keeps_let [keeps_rules]:
  "(\<And>x. state_io_rel R (f x)) \<Longrightarrow> state_io_rel R (let x = v in f x)"
  by (simp add: Let_def)

lemma keeps_for_each [keeps_rules]:
  "(\<And>x acc. state_io_rel R (f x acc)) \<Longrightarrow> state_io_rel R (for_each xs f acc)"
  by (induction xs arbitrary: acc) (auto intro: keeps_return keeps_bind)

text \<open>Each round of a loop establishes its goal, and \<open>R\<close> carries the goals of earlier rounds.\<close>

lemma for_each_wp:
  assumes step: "\<And>x acc s. x \<in> set xs \<Longrightarrow> I s \<Longrightarrow> wp (f x acc) (\<lambda>_ s'. R s s' \<and> I s' \<and> G x s') s"
    and stable: "\<And>x s s'. R s s' \<Longrightarrow> G x s \<Longrightarrow> G x s'"
  shows "I s \<Longrightarrow> wp (for_each xs f acc) (\<lambda>_ s'. R s s' \<and> I s' \<and> (\<forall>x \<in> set xs. G x s')) s"
  using step
proof (induction xs arbitrary: acc s)
  case Nil
  then show ?case by (simp add: wp_return R_refl)
next
  case (Cons x xs)
  have head: "wp (f x acc) (\<lambda>_ s'. R s s' \<and> I s' \<and> G x s') s"
    by (rule Cons.prems) (use Cons.prems in simp_all)
  show ?case
    unfolding for_each.simps
  proof (rule wp_bind_mono [OF head], elim conjE)
    fix acc' s1
    assume s1: "R s s1" "I s1" "G x s1"
    show "wp (for_each xs f acc') (\<lambda>_ s'. R s s' \<and> I s' \<and> (\<forall>x \<in> set (x # xs). G x s')) s1"
      by (rule wp_mono [OF Cons.IH [OF s1(2)]])
         (use Cons.prems(2) R_trans [OF s1(1)] stable [OF _ s1(3)] in \<open>simp_all\<close>)
  qed
qed

lemma keeps_fold: "(\<And>x s. x \<in> set xs \<Longrightarrow> R s (f x s)) \<Longrightarrow> R s (fold f xs s)"
proof (induction xs arbitrary: s)
  case (Cons x xs)
  have "R s (f x s)" "R (f x s) (fold f xs (f x s))" using Cons by simp_all
  then show ?case by (simp add: R_trans)
qed (simp add: R_refl)

lemma keeps_run: "state_io_rel R m \<Longrightarrow> run_state m s = (a, t) \<Longrightarrow> R s t"
  by (rule state_io_relD)

lemma keeps_snd: "state_io_rel R m \<Longrightarrow> R s (snd (run_state m s))"
  by (metis keeps_run prod.collapse)

end

section \<open>Rows of a table\<close>

text \<open>
  A table is the list of its rows in insertion order.  \<open>UPDATE ... WHERE p\<close> rewrites the rows
  that satisfy \<open>p\<close> and reports how many there were.
\<close>

definition update_where :: "('r \<Rightarrow> bool) \<Rightarrow> ('r \<Rightarrow> 'r) \<Rightarrow> 'r list \<Rightarrow> 'r list" where
  "update_where p f rows = map (\<lambda>r. if p r then f r else r) rows"

definition count_where :: "('r \<Rightarrow> bool) \<Rightarrow> 'r list \<Rightarrow> nat" where
  "count_where p rows = length (filter p rows)"

lemma set_update_where:
  "set (update_where p f rows) = {r \<in> set rows. \<not> p r} \<union> f ` {r \<in> set rows. p r}"
  by (auto simp: update_where_def)

lemma map_update_where [simp]:
  "(\<And>r. key (f r) = key r) \<Longrightarrow> map key (update_where p f rows) = map key rows"
  by (simp add: update_where_def)

lemma count_where_pos: "0 < count_where p rows \<longleftrightarrow> (\<exists>r \<in> set rows. p r)"
  by (auto simp: count_where_def filter_empty_conv)

lemma count_where_zero: "count_where p rows = 0 \<longleftrightarrow> (\<forall>r \<in> set rows. \<not> p r)"
  by (auto simp: count_where_def filter_empty_conv)

lemma update_where_zero: "count_where p rows = 0 \<Longrightarrow> update_where p f rows = rows"
  by (auto simp: count_where_zero update_where_def intro!: map_idI)

lemma find_Some_in: "find p rows = Some r \<Longrightarrow> r \<in> set rows \<and> p r"
  by (induction rows) (auto split: if_splits)

lemma find_key_None: "k \<notin> key ` set rows \<Longrightarrow> find (\<lambda>r. key r = k) rows = None"
  by (auto simp: find_None_iff)

lemma find_append: "find p (xs @ ys) = (case find p xs of None \<Rightarrow> find p ys | Some x \<Rightarrow> Some x)"
  by (induction xs) auto

text \<open>Updating rows without touching the key is seen through a lookup by key.\<close>

lemma find_update_where:
  assumes "\<And>r. key (f r) = key r"
  shows "find (\<lambda>r. key r = k) (update_where p f rows) =
    map_option (\<lambda>r. if p r then f r else r) (find (\<lambda>r. key r = k) rows)"
  by (induction rows) (auto simp: update_where_def assms)

lemma distinct_map_inj: "distinct (map key rows) \<Longrightarrow> r \<in> set rows \<Longrightarrow> r' \<in> set rows \<Longrightarrow>
    key r = key r' \<Longrightarrow> r = r'"
  by (metis distinct_map inj_on_contraD)

lemma find_key: "distinct (map key rows) \<Longrightarrow> r \<in> set rows \<Longrightarrow> key r = k \<Longrightarrow>
    find (\<lambda>x. key x = k) rows = Some r"
  by (induction rows) (auto simp: image_iff)

end
