(* ===== verification/Sha256.thy ===== *)
theory Sha256
  imports Kahya_Prelude "HOL-Library.Word"
begin

text \<open>
  The standard library's \<open>sha256.Sum256\<close>, on byte strings: padding, the message schedule and
  the compression function on 32-bit words.  The daemon stores only hashes of credentials and
  binds an approval to the hash of the approved bytes, so the model computes the real digest;
  nothing in the development assumes that it has no collisions.
\<close>

unbundle bit_operations_syntax

type_synonym u32 = "32 word"

text \<open>The standard's constants, in decimal.\<close>

definition round_constants :: "u32 list" where
  "round_constants =
    [1116352408, 1899447441, 3049323471, 3921009573, 961987163, 1508970993, 2453635748,
     2870763221, 3624381080, 310598401, 607225278, 1426881987, 1925078388, 2162078206,
     2614888103, 3248222580, 3835390401, 4022224774, 264347078, 604807628, 770255983,
     1249150122, 1555081692, 1996064986, 2554220882, 2821834349, 2952996808, 3210313671,
     3336571891, 3584528711, 113926993, 338241895, 666307205, 773529912, 1294757372,
     1396182291, 1695183700, 1986661051, 2177026350, 2456956037, 2730485921, 2820302411,
     3259730800, 3345764771, 3516065817, 3600352804, 4094571909, 275423344, 430227734,
     506948616, 659060556, 883997877, 958139571, 1322822218, 1537002063, 1747873779,
     1955562222, 2024104815, 2227730452, 2361852424, 2428436474, 2756734187, 3204031479,
     3329325298]"

definition small_sigma0 :: "u32 \<Rightarrow> u32" where
  "small_sigma0 x = word_rotr 7 x XOR word_rotr 18 x XOR drop_bit 3 x"

definition small_sigma1 :: "u32 \<Rightarrow> u32" where
  "small_sigma1 x = word_rotr 17 x XOR word_rotr 19 x XOR drop_bit 10 x"

definition big_sigma0 :: "u32 \<Rightarrow> u32" where
  "big_sigma0 x = word_rotr 2 x XOR word_rotr 13 x XOR word_rotr 22 x"

definition big_sigma1 :: "u32 \<Rightarrow> u32" where
  "big_sigma1 x = word_rotr 6 x XOR word_rotr 11 x XOR word_rotr 25 x"

text \<open>The schedule is kept newest first: the \<open>w\<close> of 2, 7, 15 and 16 steps ago.\<close>

fun extend_schedule :: "nat \<Rightarrow> u32 list \<Rightarrow> u32 list" where
  "extend_schedule 0 ws = ws"
| "extend_schedule (Suc n) ws =
     extend_schedule n
       ((small_sigma1 (ws ! 1) + ws ! 6 + small_sigma0 (ws ! 14) + ws ! 15) # ws)"

type_synonym sha_state = "u32 \<times> u32 \<times> u32 \<times> u32 \<times> u32 \<times> u32 \<times> u32 \<times> u32"

definition sha_round :: "u32 \<times> u32 \<Rightarrow> sha_state \<Rightarrow> sha_state" where
  "sha_round kw st = (case (kw, st) of ((k, w), (a, b, c, d, e, f, g, h)) \<Rightarrow>
     (let t1 = h + big_sigma1 e + ((e AND f) XOR (NOT e AND g)) + k + w;
          t2 = big_sigma0 a + ((a AND b) XOR (a AND c) XOR (b AND c))
      in (t1 + t2, a, b, c, d + t1, e, f, g)))"

definition add_state :: "sha_state \<Rightarrow> sha_state \<Rightarrow> sha_state" where
  "add_state x y = (case (x, y) of ((a, b, c, d, e, f, g, h), (a', b', c', d', e', f', g', h')) \<Rightarrow>
     (a + a', b + b', c + c', d + d', e + e', f + f', g + g', h + h'))"

definition compress :: "sha_state \<Rightarrow> u32 list \<Rightarrow> sha_state" where
  "compress st block =
     (let ws = rev (extend_schedule 48 (rev block))
      in add_state st (fold sha_round (zip round_constants ws) st))"

fun bytes_to_words :: "string \<Rightarrow> u32 list" where
  "bytes_to_words (a # b # c # d # rest) =
     (of_int (of_char a * 16777216 + of_char b * 65536 + of_char c * 256 + of_char d) :: u32)
       # bytes_to_words rest"
| "bytes_to_words _ = []"

definition word_to_bytes :: "u32 \<Rightarrow> string" where
  "word_to_bytes w = (let n = uint w in
     [char_of (n div 16777216), char_of (n div 65536), char_of (n div 256), char_of n])"

fun big_endian :: "nat \<Rightarrow> int \<Rightarrow> string" where
  "big_endian 0 n = []"
| "big_endian (Suc k) n = big_endian k (n div 256) @ [char_of n]"

definition initial_hash :: sha_state where
  "initial_hash =
    (1779033703, 3144134277, 1013904242, 2773480762,
     1359893119, 2600822924, 528734635, 1541459225)"

definition state_words :: "sha_state \<Rightarrow> u32 list" where
  "state_words st = (case st of (a, b, c, d, e, f, g, h) \<Rightarrow> [a, b, c, d, e, f, g, h])"

definition sha_pad :: "string \<Rightarrow> string" where
  "sha_pad msg = msg @ [char_of (128 :: int)]
     @ replicate ((119 - length msg mod 64) mod 64) (char_of (0 :: int))
     @ big_endian 8 (8 * int (length msg))"

function sha_blocks :: "sha_state \<Rightarrow> u32 list \<Rightarrow> sha_state" where
  "sha_blocks st ws =
     (if length ws < 16 then st else sha_blocks (compress st (take 16 ws)) (drop 16 ws))"
  by pat_completeness auto
termination
  by (relation "measure (\<lambda>(st, ws). length ws)") auto

declare sha_blocks.simps [simp del]

definition sha256 :: "string \<Rightarrow> string" where
  "sha256 msg =
     concat (map word_to_bytes (state_words (sha_blocks initial_hash (bytes_to_words (sha_pad msg)))))"

text \<open>\<open>hex.EncodeToString(sum[:])\<close>, the form every stored hash has.\<close>

definition sha256_hex :: "string \<Rightarrow> string" where
  "sha256_hex msg = hex_encode (sha256 msg)"

end
