(* ===== verification/Canon.thy ===== *)
theory Canon
  imports Sha256
begin

text \<open>
  \<open>kahyad/internal/canon\<close>: the text canonicalisation every approval hash goes through.

  Go strings are byte strings here too, so the decoding a \<open>range\<close> loop performs and the
  encoding of \<open>WriteRune\<close> are part of the model (\<open>utf8_decode\<close>, \<open>utf8_encode\<close>).  The NFC
  normaliser (\<open>golang.org/x/text/unicode/norm\<close>), the character tables of package \<open>unicode\<close>
  and the parsed confusables file are the fields of the record \<open>unicode_env\<close>; the Cf
  category, which decides what is stripped from the hash basis, is written out.
\<close>

section \<open>UTF-8\<close>

type_synonym rune = nat

definition valid_rune :: "rune \<Rightarrow> bool" where
  "valid_rune r \<longleftrightarrow> r < 0xD800 \<or> (0xDFFF < r \<and> r \<le> 0x10FFFF)"

definition rune_error :: rune where "rune_error = 0xFFFD"

definition encode_rune :: "rune \<Rightarrow> nat list" where
  "encode_rune r0 = (let r = (if valid_rune r0 then r0 else rune_error) in
     if r < 0x80 then [r]
     else if r < 0x800 then [0xC0 + r div 64, 0x80 + r mod 64]
     else if r < 0x10000 then [0xE0 + r div 4096, 0x80 + r div 64 mod 64, 0x80 + r mod 64]
     else [0xF0 + r div 262144, 0x80 + r div 4096 mod 64, 0x80 + r div 64 mod 64, 0x80 + r mod 64])"

definition cont :: "nat \<Rightarrow> bool" where "cont b \<longleftrightarrow> 0x80 \<le> b \<and> b \<le> 0xBF"

text \<open>The second byte's range depends on the first one (no overlong forms, no surrogates).\<close>

definition second_ok :: "nat \<Rightarrow> nat \<Rightarrow> bool" where
  "second_ok b0 b1 \<longleftrightarrow>
     (if b0 = 0xE0 then 0xA0 \<le> b1 \<and> b1 \<le> 0xBF
      else if b0 = 0xED then 0x80 \<le> b1 \<and> b1 \<le> 0x9F
      else if b0 = 0xF0 then 0x90 \<le> b1 \<and> b1 \<le> 0xBF
      else if b0 = 0xF4 then 0x80 \<le> b1 \<and> b1 \<le> 0x8F
      else cont b1)"

text \<open>One step of the loop: the rune and its width; a malformed byte is U+FFFD of width 1.\<close>

definition decode_rune :: "nat list \<Rightarrow> rune \<times> nat" where
  "decode_rune bs = (case bs of
     b0 # rest \<Rightarrow>
       (if b0 < 0x80 then (b0, 1)
        else if 0xC2 \<le> b0 \<and> b0 \<le> 0xDF then
          (case rest of b1 # _ \<Rightarrow>
             if cont b1 then ((b0 - 0xC0) * 64 + (b1 - 0x80), 2) else (rune_error, 1)
           | [] \<Rightarrow> (rune_error, 1))
        else if 0xE0 \<le> b0 \<and> b0 \<le> 0xEF then
          (case rest of b1 # b2 # _ \<Rightarrow>
             if second_ok b0 b1 \<and> cont b2
             then ((b0 - 0xE0) * 4096 + (b1 - 0x80) * 64 + (b2 - 0x80), 3) else (rune_error, 1)
           | _ \<Rightarrow> (rune_error, 1))
        else if 0xF0 \<le> b0 \<and> b0 \<le> 0xF4 then
          (case rest of b1 # b2 # b3 # _ \<Rightarrow>
             if second_ok b0 b1 \<and> cont b2 \<and> cont b3
             then ((b0 - 0xF0) * 262144 + (b1 - 0x80) * 4096 + (b2 - 0x80) * 64 + (b3 - 0x80), 4)
             else (rune_error, 1)
           | _ \<Rightarrow> (rune_error, 1))
        else (rune_error, 1))
   | [] \<Rightarrow> (rune_error, 0))"

function utf8_decode_bytes :: "nat list \<Rightarrow> rune list" where
  "utf8_decode_bytes bs =
     (if bs = [] then []
      else case decode_rune bs of (r, n) \<Rightarrow> r # utf8_decode_bytes (drop (max 1 n) bs))"
  by pat_completeness auto
termination
  by (relation "measure length") auto

declare utf8_decode_bytes.simps [simp del]

definition utf8_decode :: "string \<Rightarrow> rune list" where
  "utf8_decode s = utf8_decode_bytes (map of_char s)"

definition utf8_encode :: "rune list \<Rightarrow> string" where
  "utf8_encode rs = map char_of (concat (map encode_rune rs))"

lemma encode_rune_bytes: "b \<in> set (encode_rune r) \<Longrightarrow> b < 256"
  by (auto simp: encode_rune_def Let_def valid_rune_def rune_error_def split: if_splits)

lemma decode_encode_rune:
  assumes "valid_rune r"
  shows "decode_rune (encode_rune r @ bs) = (r, length (encode_rune r)) \<and> encode_rune r \<noteq> []"
proof -
  consider "r < 0x80" | "0x80 \<le> r" "r < 0x800" | "0x800 \<le> r" "r < 0x10000" | "0x10000 \<le> r"
    by linarith
  moreover have m: "x mod 64 \<le> 63" for x :: nat
    using mod_less_divisor [of 64 x] by linarith
  ultimately show ?thesis
  proof cases
    case 1
    with assms show ?thesis by (simp add: encode_rune_def decode_rune_def Let_def)
  next
    case 2
    then have "2 \<le> r div 64" "r div 64 \<le> 31" by auto
    then show ?thesis
      using assms 2 m [of r] by (simp add: encode_rune_def decode_rune_def Let_def cont_def)
  next
    case 3
    have b: "0xE0 + r div 4096 \<le> 0xEF" using 3 by auto
    have q: "r div 64 = 64 * (r div 4096) + r div 64 mod 64"
      using div_mult2_eq [of r 64 64] mult_div_mod_eq [of 64 "r div 64"] by simp
    have g: "r div 4096 = 0 \<Longrightarrow> 32 \<le> r div 64 mod 64" using 3 q by linarith
    have h: "r div 4096 = 13 \<Longrightarrow> r div 64 mod 64 \<le> 31"
      using assms 3 q unfolding valid_rune_def by linarith
    have s: "second_ok (0xE0 + r div 4096) (0x80 + r div 64 mod 64)"
      using b g h m [of "r div 64"] by (auto simp: second_ok_def cont_def)
    have e: "r div 4096 * 4096 + r div 64 mod 64 * 64 + r mod 64 = r"
      using q mult_div_mod_eq [of 64 r] by linarith
    show ?thesis
      using assms 3 b s e m [of r] by (simp add: encode_rune_def decode_rune_def Let_def cont_def)
  next
    case 4
    have r: "r \<le> 0x10FFFF" using assms 4 by (auto simp: valid_rune_def)
    then have b: "0xF0 + r div 262144 \<le> 0xF4" by auto
    have p: "r div 64 = 64 * (r div 4096) + r div 64 mod 64"
      using div_mult2_eq [of r 64 64] mult_div_mod_eq [of 64 "r div 64"] by simp
    have q: "r div 4096 = 64 * (r div 262144) + r div 4096 mod 64"
      using div_mult2_eq [of r 4096 64] mult_div_mod_eq [of 64 "r div 4096"] by simp
    have g: "r div 262144 = 0 \<Longrightarrow> 16 \<le> r div 4096 mod 64" using 4 q by linarith
    have h: "r div 262144 = 4 \<Longrightarrow> r div 4096 mod 64 \<le> 15" using r q by linarith
    have s: "second_ok (0xF0 + r div 262144) (0x80 + r div 4096 mod 64)"
      using g h m [of "r div 4096"] by (auto simp: second_ok_def cont_def)
    have e: "r div 262144 * 262144 + r div 4096 mod 64 * 4096 + r div 64 mod 64 * 64 + r mod 64 = r"
      using q p mult_div_mod_eq [of 64 r] by linarith
    show ?thesis
      using assms 4 b s e m [of r] m [of "r div 64"] m [of "r div 4096"]
      by (simp add: encode_rune_def decode_rune_def Let_def cont_def)
  qed
qed

lemma decode_encode_bytes:
  "list_all valid_rune rs \<Longrightarrow> utf8_decode_bytes (concat (map encode_rune rs)) = rs"
proof (induction rs)
  case Nil
  show ?case by (simp add: utf8_decode_bytes.simps)
next
  case (Cons r rs)
  let ?rest = "concat (map encode_rune rs)"
  have d: "decode_rune (encode_rune r @ ?rest) = (r, length (encode_rune r))" "encode_rune r \<noteq> []"
    using Cons.prems decode_encode_rune by simp_all
  then have "max 1 (length (encode_rune r)) = length (encode_rune r)"
    by (cases "encode_rune r") auto
  with d Cons show ?case
    by (subst utf8_decode_bytes.simps) simp
qed

lemma utf8_decode_encode [simp]: "list_all valid_rune rs \<Longrightarrow> utf8_decode (utf8_encode rs) = rs"
proof -
  assume v: "list_all valid_rune rs"
  have "map of_char (utf8_encode rs) = concat (map encode_rune rs)"
    unfolding utf8_encode_def map_map
    by (rule map_idI) (auto dest: encode_rune_bytes)
  with v show ?thesis by (simp add: utf8_decode_def decode_encode_bytes)
qed

section \<open>Control code points\<close>

datatype flag_kind = FlagBidi | FlagZeroWidth | FlagFormatOther | FlagMixedScript | FlagConfusable

text \<open>\<open>fl_rune\<close> is set for the control flags, \<open>fl_token\<close> for the token flags.\<close>

record flag =
  fl_kind :: flag_kind
  fl_rune :: rune
  fl_token :: "rune list"

record canon_result =
  cr_raw :: string
  cr_nfc :: string
  cr_canonical :: string
  cr_display :: string
  cr_flags :: "flag list"

record unicode_env =
  nfc :: "string \<Rightarrow> string"
  is_letter :: "rune \<Rightarrow> bool"
  is_digit :: "rune \<Rightarrow> bool"
  in_script :: "string \<Rightarrow> rune \<Rightarrow> bool"
  confusables_raw :: string

definition has_control_flags :: "canon_result \<Rightarrow> bool" where
  "has_control_flags r \<longleftrightarrow>
     list_ex (\<lambda>f. fl_kind f \<in> {FlagBidi, FlagZeroWidth, FlagFormatOther}) (cr_flags r)"

definition bidi_control_runes :: "rune list" where
  "bidi_control_runes =
     [0x200E, 0x200F, 0x202A, 0x202B, 0x202C, 0x202D, 0x202E, 0x2066, 0x2067, 0x2068, 0x2069]"

definition zero_width_runes :: "rune list" where
  "zero_width_runes = [0x200B, 0x200C, 0x200D, 0x2060, 0xFEFF]"

text \<open>The table \<open>unicode.Cf\<close> as ranges.\<close>

definition cf_ranges :: "(rune \<times> rune) list" where
  "cf_ranges =
     [(0xAD, 0xAD), (0x600, 0x605), (0x61C, 0x61C), (0x6DD, 0x6DD), (0x70F, 0x70F),
      (0x890, 0x891), (0x8E2, 0x8E2), (0x180E, 0x180E), (0x200B, 0x200F), (0x202A, 0x202E),
      (0x2060, 0x2064), (0x2066, 0x206F), (0xFEFF, 0xFEFF), (0xFFF9, 0xFFFB),
      (0x110BD, 0x110BD), (0x110CD, 0x110CD), (0x13430, 0x1343F), (0x1BCA0, 0x1BCA3),
      (0x1D173, 0x1D17A), (0xE0001, 0xE0001), (0xE0020, 0xE007F)]"

definition is_cf :: "rune \<Rightarrow> bool" where
  "is_cf r \<longleftrightarrow> list_ex (\<lambda>(lo, hi). lo \<le> r \<and> r \<le> hi) cf_ranges"

definition control_flag_kind :: "rune \<Rightarrow> flag_kind option" where
  "control_flag_kind r =
     (if r \<in> set bidi_control_runes then Some FlagBidi
      else if r \<in> set zero_width_runes then Some FlagZeroWidth
      else if is_cf r then Some FlagFormatOther
      else None)"

definition hex_upper :: "nat \<Rightarrow> char" where
  "hex_upper d = (if d < 10 then char_of (48 + d) else char_of (55 + d))"

fun hex_digits :: "nat \<Rightarrow> nat \<Rightarrow> string" where
  "hex_digits 0 n = []"
| "hex_digits (Suc k) n = hex_digits k (n div 16) @ [hex_upper (n mod 16)]"

text \<open>\<open>%04X\<close>: at least four upper-case digits.\<close>

definition escape_rune :: "rune \<Rightarrow> string" where
  "escape_rune r = ''<U+'' @
     hex_digits (if r < 0x10000 then 4 else if r < 0x100000 then 5 else 6) r @ ''>''"

section \<open>Token flags\<close>

definition is_token_rune :: "unicode_env \<Rightarrow> rune \<Rightarrow> bool" where
  "is_token_rune u r \<longleftrightarrow> is_letter u r \<or> is_digit u r"

definition split_tokens :: "unicode_env \<Rightarrow> rune list \<Rightarrow> rune list list" where
  "split_tokens u rs = fields_by (\<lambda>r. \<not> is_token_rune u r) rs"

definition is_ascii_string :: "rune list \<Rightarrow> bool" where
  "is_ascii_string rs \<longleftrightarrow> list_all (\<lambda>r. r \<le> 127) rs"

definition scripts_of_interest :: "string list" where
  "scripts_of_interest =
     [''Latin'', ''Cyrillic'', ''Greek'', ''Armenian'', ''Hebrew'', ''Arabic'',
      ''Han'', ''Hiragana'', ''Katakana'', ''Hangul'', ''Devanagari'', ''Thai'',
      ''Georgian'', ''Cherokee'']"

text \<open>The empty string stands for "no script of interest", as in the code.\<close>

definition script_of :: "unicode_env \<Rightarrow> rune \<Rightarrow> string" where
  "script_of u r =
     (case find (\<lambda>n. in_script u n r) scripts_of_interest of Some n \<Rightarrow> n | None \<Rightarrow> '''')"

definition parse_hex_digits :: "string \<Rightarrow> nat option" where
  "parse_hex_digits p =
     (if p = [] then None
      else fold (\<lambda>c acc. case (acc, hex_value c) of
                   (Some n, Some d) \<Rightarrow> if 16 * n + d < 0x100000000 then Some (16 * n + d) else None
                 | _ \<Rightarrow> None) p (Some 0))"

definition parse_hex_runes :: "string \<Rightarrow> rune list" where
  "parse_hex_runes field = List.map_filter parse_hex_digits (fields_by is_space field)"

text \<open>One line of the confusables file; \<open>None\<close> where the loop goes on to the next line.\<close>

definition parse_confusables_line :: "string \<Rightarrow> (rune \<times> string) option" where
  "parse_confusables_line raw =
     (let line = trim_space raw in
      if line = '''' \<or> is_prefix ''#'' line then None
      else case split_on (CHR '';'') line of
             f0 # f1 # _ \<Rightarrow>
               (case (parse_hex_runes (trim_space f0), parse_hex_runes (trim_space f1)) of
                  ([src], t # ts) \<Rightarrow> Some (src, utf8_encode (t # ts))
                | _ \<Rightarrow> None)
           | _ \<Rightarrow> None)"

definition parse_confusables :: "string \<Rightarrow> (rune \<rightharpoonup> string)" where
  "parse_confusables raw =
     fold (\<lambda>l m. case parse_confusables_line l of None \<Rightarrow> m | Some (src, t) \<Rightarrow> m(src \<mapsto> t))
       (split_on (CHR 0x0A) raw) Map.empty"

definition confusable_skeleton_for :: "unicode_env \<Rightarrow> rune \<Rightarrow> string option" where
  "confusable_skeleton_for u r = parse_confusables (confusables_raw u) r"

definition classify_token :: "unicode_env \<Rightarrow> rune list \<Rightarrow> flag_kind option" where
  "classify_token u tok =
     (let scripts = remdups (filter (\<lambda>n. n \<noteq> '''') (map (script_of u) tok)) in
      if 1 < length scripts then Some FlagMixedScript
      else if list_ex (\<lambda>r. 127 < r \<and> script_of u r \<noteq> ''Latin'' \<and>
                 (case confusable_skeleton_for u r of
                    Some sk \<Rightarrow> is_ascii_string (utf8_decode sk) | None \<Rightarrow> False)) tok
      then Some FlagConfusable
      else None)"

definition scan_token_flags :: "unicode_env \<Rightarrow> string \<Rightarrow> flag list" where
  "scan_token_flags u s =
     List.map_filter
       (\<lambda>tok. if is_ascii_string tok then None
              else map_option (\<lambda>k. \<lparr>fl_kind = k, fl_rune = 0, fl_token = tok\<rparr>) (classify_token u tok))
       (split_tokens u (utf8_decode s))"

section \<open>Normalize\<close>

text \<open>The loop of \<open>Normalize\<close>, with its two builders and the flag list as accumulators.\<close>

fun normalize_loop :: "rune list \<Rightarrow> string \<Rightarrow> string \<Rightarrow> flag list \<Rightarrow> string \<times> string \<times> flag list" where
  "normalize_loop [] canonical display flags = (canonical, display, flags)"
| "normalize_loop (r # rs) canonical display flags =
     (case control_flag_kind r of
        Some k \<Rightarrow> normalize_loop rs canonical (display @ escape_rune r)
                    (flags @ [\<lparr>fl_kind = k, fl_rune = r, fl_token = []\<rparr>])
      | None \<Rightarrow> normalize_loop rs (canonical @ utf8_encode [r]) (display @ utf8_encode [r]) flags)"

definition normalize :: "unicode_env \<Rightarrow> string \<Rightarrow> canon_result" where
  "normalize u s =
     (let n = nfc u s;
          (canonical, display, flags) = normalize_loop (utf8_decode n) [] [] []
      in \<lparr>cr_raw = s, cr_nfc = n, cr_canonical = canonical, cr_display = display,
           cr_flags = flags @ scan_token_flags u n\<rparr>)"

definition canonicalize_bytes :: "unicode_env \<Rightarrow> string \<Rightarrow> string" where
  "canonicalize_bytes u b = cr_canonical (normalize u b)"

subsection \<open>What the loop computes\<close>

abbreviation plain_rune :: "rune \<Rightarrow> bool" where
  "plain_rune r \<equiv> control_flag_kind r = None"

lemma utf8_encode_append [simp]: "utf8_encode (a @ b) = utf8_encode a @ utf8_encode b"
  by (simp add: utf8_encode_def)

lemma utf8_encode_Cons: "utf8_encode (a # b) = utf8_encode [a] @ utf8_encode b"
  by (simp add: utf8_encode_def)

lemma utf8_encode_Nil [simp]: "utf8_encode [] = []"
  by (simp add: utf8_encode_def)

lemma normalize_loop_canonical:
  "fst (normalize_loop rs c d f) = c @ utf8_encode (filter plain_rune rs)"
  by (induction rs c d f rule: normalize_loop.induct)
     (auto simp: utf8_encode_Cons [of _ "filter _ _"] split: option.splits)

lemma normalize_loop_flags:
  "snd (snd (normalize_loop rs c d f)) =
     f @ List.map_filter (\<lambda>r. map_option (\<lambda>k. \<lparr>fl_kind = k, fl_rune = r, fl_token = []\<rparr>)
           (control_flag_kind r)) rs"
  by (induction rs c d f rule: normalize_loop.induct) (auto simp: map_filter_simps split: option.splits)

lemma canonical_eq:
  "cr_canonical (normalize u s) = utf8_encode (filter plain_rune (utf8_decode (nfc u s)))"
  using normalize_loop_canonical [of "utf8_decode (nfc u s)" "[]" "[]" "[]"]
  by (auto simp: normalize_def Let_def split: prod.splits)

lemma control_kinds: "control_flag_kind r = Some k \<Longrightarrow> k \<in> {FlagBidi, FlagZeroWidth, FlagFormatOther}"
  by (auto simp: control_flag_kind_def split: if_splits)

lemma classify_token_kinds:
  "classify_token u tok = Some k \<Longrightarrow> k \<notin> {FlagBidi, FlagZeroWidth, FlagFormatOther}"
  by (auto simp: classify_token_def Let_def split: if_splits)

lemma scan_flags_kinds:
  "f \<in> set (scan_token_flags u s) \<Longrightarrow> fl_kind f \<notin> {FlagBidi, FlagZeroWidth, FlagFormatOther}"
  by (auto simp: scan_token_flags_def List.map_filter_def dest: classify_token_kinds split: if_splits)

lemma set_map_filter_flags:
  "set (List.map_filter (\<lambda>r. map_option (g r) (h r)) rs) = {g r k |r k. r \<in> set rs \<and> h r = Some k}"
  by (induction rs) (auto simp: map_filter_simps split: option.splits)

lemma has_control_flags_iff:
  "has_control_flags (normalize u s) \<longleftrightarrow> \<not> list_all plain_rune (utf8_decode (nfc u s))"
proof -
  let ?rs = "utf8_decode (nfc u s)"
  obtain c d f where loop: "normalize_loop ?rs [] [] [] = (c, d, f)" by (cases "normalize_loop ?rs [] [] []")
  have f: "f = List.map_filter (\<lambda>r. map_option (\<lambda>k. \<lparr>fl_kind = k, fl_rune = r, fl_token = []\<rparr>)
           (control_flag_kind r)) ?rs"
    using normalize_loop_flags [of ?rs "[]" "[]" "[]"] loop by simp
  have "has_control_flags (normalize u s) \<longleftrightarrow>
      (\<exists>g \<in> set f. fl_kind g \<in> {FlagBidi, FlagZeroWidth, FlagFormatOther})"
    using loop scan_flags_kinds
    by (auto simp: has_control_flags_def normalize_def Let_def list_ex_iff)
  also have "\<dots> \<longleftrightarrow> (\<exists>r \<in> set ?rs. control_flag_kind r \<noteq> None)"
    unfolding f set_map_filter_flags using control_kinds by fastforce
  also have "\<dots> \<longleftrightarrow> \<not> list_all plain_rune ?rs"
    by (simp add: list_all_iff)
  finally show ?thesis .
qed

end
