(* ===== verification/Store.thy ===== *)
theory Store
  imports Kahya_Prelude
begin

text \<open>
  The daemon's database (\<open>brain.db\<close>) and the statements the modelled packages run on it: one
  record per table row, and one computation per query of
  \<open>kahyad/internal/store/sqlcgen/queries.sql.go\<close>, under the query's own name.  A table is the
  list of its rows in rowid order; constraints of the schema (primary keys, \<open>CHECK\<close>s, the
  partial unique index on live tool calls, foreign keys) are the \<open>ConstraintError\<close> branches of
  the inserting queries.

  Every statement is atomic and may fail: \<open>faults\<close> is a schedule that says, call by call,
  whether the next database call fails (a used-up schedule means no further failures), so a
  theorem that does not constrain \<open>faults\<close> holds whatever database calls fail.
  \<open>entropy\<close> is what \<open>crypto/rand\<close> will return, \<open>clock\<close> the time \<open>time.Now\<close> reads (one
  instant per modelled call), \<open>notices\<close> the calls of the hooks and notifiers a component is
  wired to, and \<open>marked\<close> the sessions the daemon remembers, in memory, as having read secrets.
\<close>

section \<open>Rows\<close>

text \<open>\<open>ActionClass\<close> is a string type with four valid values.\<close>

datatype action_class = ClassR | ClassW1 | ClassW2 | ClassW3 | ClassOther string

datatype task_status =
    StatusIntent | StatusExecuting | StatusRetryWait | StatusBlockedUser
  | StatusUserHalted | StatusDone | StatusFailed

datatype call_status = CallIntent | CallExecuting | CallReceipt | CallFailed

datatype undo_state = UndoOpen | UndoTriggered | UndoExpired

datatype taint_tier = TierClean | TierTainted

record autonomy_row =
  au_tool :: string
  au_class :: action_class
  au_scope :: string
  au_level :: int
  au_approvals :: int
  au_updated :: stamp

record token_row =
  tk_hash :: string
  tk_task :: string
  tk_trace :: string
  tk_tool :: string
  tk_class :: action_class
  tk_scope :: string
  tk_bytes_hash :: string
  tk_minted :: stamp
  tk_expires :: stamp
  tk_consumed :: "stamp option"
  tk_revoked :: "stamp option"

record pending_row =
  pa_id :: string
  pa_task :: string
  pa_trace :: string
  pa_tool :: string
  pa_class :: action_class
  pa_scope :: string
  pa_bytes_hash :: string
  pa_input :: string
  pa_minted :: stamp
  pa_expires :: stamp
  pa_consumed :: "stamp option"

record undo_row =
  uw_id :: int
  uw_task :: string
  uw_tool :: string
  uw_trace :: string
  uw_opened :: stamp
  uw_deadline :: stamp
  uw_state :: undo_state

text \<open>
  \<open>spawn.Envelope\<close>, the JSON document a worker is started with, and the column it is stored
  in: a document that decodes, or text that does not.
\<close>

record envelope =
  en_schema_version :: int
  en_task_id :: string
  en_trace_id :: string
  en_session_id :: "string option"
  en_kind :: string
  en_prompt :: string
  en_model :: string
  en_memory_injection :: bool
  en_created_at :: stamp
  en_lane :: string
  en_category :: string
  en_resume :: bool
  en_mode :: string
  en_schema :: string
  en_intent :: string
  en_deep_think :: bool
  en_input_audio_path :: string

datatype envelope_column = EnvelopeJSON envelope | EnvelopeGarbage

datatype outbox_payload = ResumePayload string | PayloadGarbage

record task_row =
  t_id :: string
  t_trace :: string
  t_session :: "string option"
  t_state :: string
  t_model :: "string option"
  t_lane :: string
  t_secret_category :: "string option"
  t_status :: task_status
  t_next_retry :: "stamp option"
  t_attempts :: int
  t_created :: stamp
  t_updated :: stamp
  t_worker_pgid :: "int option"
  t_halted_at :: "stamp option"
  t_envelope :: "envelope_column option"

record call_row =
  tc_id :: int
  tc_task :: string
  tc_seq :: int
  tc_tool :: string
  tc_class :: action_class
  tc_args_hash :: string
  tc_token :: "string option"
  tc_status :: call_status
  tc_receipt :: "string option"
  tc_started :: "stamp option"
  tc_finished :: "stamp option"
  tc_created :: stamp

record outbox_row =
  ob_id :: int
  ob_trace :: string
  ob_kind :: string
  ob_payload :: outbox_payload
  ob_dispatched :: "stamp option"
  ob_created :: stamp
  ob_available :: "stamp option"
  ob_lease :: "stamp option"
  ob_attempts :: int
  ob_task :: "string option"
  ob_canceled :: "stamp option"

record taint_row =
  st_session :: string
  st_tier :: taint_tier
  st_reason :: "string option"
  st_updated :: stamp

record budget_row =
  bg_host :: string
  bg_day :: string
  bg_bytes :: int

text \<open>The reasons the egress gate gives for a denial, by their format and its argument.\<close>

datatype egress_reason =
    ReasonSensitive string
  | ReasonAllowlist string
  | ReasonPrivate string
  | ReasonBudget string
  | ReasonDNSRebind string

text \<open>Values of a ledger payload.\<close>

datatype jval = JStr string | JInt int | JBool bool | JClass action_class | JErr go_error
  | JTime stamp | JStatus task_status | JDenial egress_reason

type_synonym payload = "(string \<times> jval) list"

record event_row =
  ev_trace :: string
  ev_kind :: string
  ev_payload :: payload

text \<open>\<open>PendingApprovalInfo\<close> of the policy package, the argument of its hooks.\<close>

record pending_info =
  pi_id :: string
  pi_tool :: string
  pi_class :: action_class
  pi_scope :: string
  pi_input :: string
  pi_minted :: stamp
  pi_trace :: string
  pi_task :: string

text \<open>The user-facing messages of the task package, by their format and its arguments.\<close>

datatype task_message =
    MsgW1RetryCapExceeded string string int
  | MsgW2W3Receiptless string string
  | MsgCloudParked
  | MsgCloudNonRetryable string
  | MsgCloudGiveUp string

datatype notice =
    PendingApprovalHook pending_info
  | InvalidatedHook pending_info
  | UndoExpiryHook string string string
  | Notified string string task_message payload
  | KilledSpeech string
  | KilledAllSpeech
  | KilledGroup int
  | KilledContainers string
  | Alarmed string string egress_reason payload
  | Dialed string

record store =
  autonomy :: "autonomy_row list"
  tokens :: "token_row list"
  pendings :: "pending_row list"
  undos :: "undo_row list"
  tasks :: "task_row list"
  calls :: "call_row list"
  outbox :: "outbox_row list"
  taints :: "taint_row list"
  budgets :: "budget_row list"
  events :: "event_row list"
  next_undo :: int
  next_call :: int
  next_outbox :: int
  notices :: "notice list"
  marked :: "string list"
  faults :: "bool list"
  entropy :: "string option list"
  clock :: int

definition empty_store :: store where
  "empty_store = \<lparr>autonomy = [], tokens = [], pendings = [], undos = [], tasks = [], calls = [],
     outbox = [], taints = [], budgets = [], events = [], next_undo = 1, next_call = 1, next_outbox = 1,
     notices = [], marked = [], faults = [], entropy = [], clock = 0\<rparr>"

section \<open>Primitive effects\<close>

definition db :: "(store \<Rightarrow> 'a res \<times> store) \<Rightarrow> (store, 'a res) state" where
  "db f = State (\<lambda>s. case faults s of
     [] \<Rightarrow> f s
   | b # bs \<Rightarrow> (let s' = s\<lparr>faults := bs\<rparr> in if b then (Inl DbError, s') else f s'))"

text \<open>A statement that reads only, and one that updates and returns a value.\<close>

definition query :: "(store \<Rightarrow> 'a) \<Rightarrow> (store, 'a res) state" where
  "query f = db (\<lambda>s. (Inr (f s), s))"

definition now :: "(store, int) state" where
  "now = State (\<lambda>s. (clock s, s))"

text \<open>\<open>rand.Read\<close> into a buffer of \<open>n\<close> bytes.\<close>

definition rand_read :: "nat \<Rightarrow> (store, string res) state" where
  "rand_read n = State (\<lambda>s. case entropy s of
     Some b # es \<Rightarrow> (Inr (take n (b @ replicate n (char_of (0 :: nat)))), s\<lparr>entropy := es\<rparr>)
   | None # es \<Rightarrow> (Inl RandError, s\<lparr>entropy := es\<rparr>)
   | [] \<Rightarrow> (Inl RandError, s))"

definition notice :: "notice \<Rightarrow> (store, unit) state" where
  "notice n = State (\<lambda>s. ((), s\<lparr>notices := notices s @ [n]\<rparr>))"

text \<open>\<open>store.LogEvent\<close>: append one row to the events table.\<close>

definition LogEvent :: "string \<Rightarrow> string \<Rightarrow> payload \<Rightarrow> (store, unit res) state" where
  "LogEvent trace kind p =
     db (\<lambda>s. (Inr (), s\<lparr>events := events s @ [\<lparr>ev_trace = trace, ev_kind = kind, ev_payload = p\<rparr>]\<rparr>))"

lemma wp_db [wp_rules]:
  "wp (db f) Q s \<longleftrightarrow> (case faults s of
      [] \<Rightarrow> (case f s of (a, s') \<Rightarrow> Q a s')
    | b # bs \<Rightarrow> (if b then Q (Inl DbError) (s\<lparr>faults := bs\<rparr>)
                else (case f (s\<lparr>faults := bs\<rparr>) of (a, s') \<Rightarrow> Q a s')))"
  by (simp add: db_def wp_def Let_def split: list.splits)

text \<open>Whatever the fault schedule: the call fails, or it runs on a shorter schedule.\<close>

lemma wp_dbI:
  assumes "\<And>fs. Q (Inl DbError) (s\<lparr>faults := fs\<rparr>)"
    and "\<And>fs a s'. f (s\<lparr>faults := fs\<rparr>) = (a, s') \<Longrightarrow> Q a s'"
  shows "wp (db f) Q s"
proof (cases "faults s")
  case Nil
  then have "s\<lparr>faults := []\<rparr> = s" by simp
  with Nil assms(2) [of "[]"] show ?thesis by (simp add: wp_db split: prod.splits)
next
  case (Cons b bs)
  with assms show ?thesis by (auto simp: wp_db split: prod.splits)
qed

lemma wp_queryI:
  assumes "\<And>fs. Q (Inl DbError) (s\<lparr>faults := fs\<rparr>)" and "\<And>fs. Q (Inr (f s)) (s\<lparr>faults := fs\<rparr>)"
    and "\<And>fs. f (s\<lparr>faults := fs\<rparr>) = f s"
  shows "wp (query f) Q s"
  unfolding query_def by (rule wp_dbI) (use assms in auto)

lemma run_db_no_faults: "faults s = [] \<Longrightarrow> run_state (db f) s = f s"
  by (simp add: db_def)

lemma wp_now [wp_rules]: "wp now Q s \<longleftrightarrow> Q (clock s) s"
  by (simp add: now_def wp_def)

lemma wp_notice [wp_rules]: "wp (notice n) Q s \<longleftrightarrow> Q () (s\<lparr>notices := notices s @ [n]\<rparr>)"
  by (simp add: notice_def wp_def)

lemma wp_rand_readI:
  assumes "\<And>es. Q (Inl RandError) (s\<lparr>entropy := es\<rparr>)"
    and "\<And>b es. length b = n \<Longrightarrow> Q (Inr b) (s\<lparr>entropy := es\<rparr>)"
  shows "wp (rand_read n) Q s"
proof -
  have "s\<lparr>entropy := entropy s\<rparr> = s" by simp
  with assms(1) [of "entropy s"] have "Q (Inl RandError) s" by simp
  then show ?thesis
    using assms by (auto simp: rand_read_def wp_def split: list.splits option.splits)
qed

section \<open>Relations every statement has to keep\<close>

text \<open>
  A preorder on database states that tolerates the fault schedule being used up, and ignores
  the entropy, the notices and new ledger events: to show that a component keeps it, only the statements that touch the related
  tables have to be looked at.
\<close>

locale store_preorder = state_preorder R for R :: "store \<Rightarrow> store \<Rightarrow> bool" +
  assumes R_faults: "R s (s\<lparr>faults := tl (faults s)\<rparr>)"
    and R_entropy: "R s (s\<lparr>entropy := es\<rparr>)"
    and R_notices: "R s (s\<lparr>notices := ns\<rparr>)"
    and R_events: "R s (s\<lparr>events := events s @ evs\<rparr>)"
begin

lemma keeps_db: "(\<And>s. R s (snd (f s))) \<Longrightarrow> state_io_rel R (db f)"
  unfolding db_def state_io_rel_def
  by (auto simp: Let_def split: list.splits)
     (metis R_faults R_trans list.sel(3) snd_conv)+

lemma keeps_query [keeps_rules]: "state_io_rel R (query f)"
  unfolding query_def by (rule keeps_db) (simp add: R_refl)

lemma keeps_now [keeps_rules]: "state_io_rel R now"
  by (simp add: now_def state_io_rel_def R_refl)

lemma keeps_rand_read [keeps_rules]: "state_io_rel R (rand_read n)"
  by (auto simp: rand_read_def state_io_rel_def R_refl R_entropy split: list.splits option.splits)

lemma keeps_notice [keeps_rules]: "state_io_rel R (notice n)"
  by (simp add: notice_def state_io_rel_def R_notices)

lemma keeps_LogEvent [keeps_rules]: "state_io_rel R (LogEvent trace kind p)"
  unfolding LogEvent_def by (rule keeps_db) (simp add: R_events)

end

end
