(* ===== verification/Policy_Store.thy ===== *)
theory Policy_Store
  imports Store
begin

text \<open>
  The queries of the policy and taint packages: autonomy state, one-time tokens, pending
  approvals, undo windows, session taint, and the two reads of the tasks table a session is
  resolved with.  The two single-use tables share one contract, the locale \<open>one_shot\<close>:
  a row is burnt by an \<open>UPDATE ... WHERE consumed_at IS NULL\<close>, once, for good.
\<close>

definition valid_class :: "action_class \<Rightarrow> bool" where
  "valid_class c \<longleftrightarrow> (case c of ClassOther _ \<Rightarrow> False | _ \<Rightarrow> True)"

text \<open>A \<open>:one\<close> query: \<open>sql.ErrNoRows\<close> when nothing matches.\<close>

definition select_one :: "(store \<Rightarrow> 'r option) \<Rightarrow> (store, 'r res) state" where
  "select_one f = db (\<lambda>s. (case f s of None \<Rightarrow> Inl NoRows | Some r \<Rightarrow> Inr r, s))"

text \<open>\<open>ORDER BY\<close> a timestamp column, oldest first; \<open>ORDER BY ... DESC LIMIT 1\<close>.\<close>

definition order_by :: "('r \<Rightarrow> stamp) \<Rightarrow> 'r list \<Rightarrow> 'r list" where
  "order_by f rows = sort_key (\<lambda>r. text_key (f r)) rows"

definition newest_by :: "('r \<Rightarrow> stamp) \<Rightarrow> 'r list \<Rightarrow> 'r option" where
  "newest_by f rows = (if rows = [] then None else Some (last (order_by f rows)))"

lemma set_order_by [simp]: "set (order_by f rows) = set rows"
  by (simp add: order_by_def)

lemma order_by_Nil [simp]: "order_by f rows = [] \<longleftrightarrow> rows = []"
  by (metis set_empty set_order_by)

lemma newest_by_in: "newest_by f rows = Some r \<Longrightarrow> r \<in> set rows"
  using last_in_set [of "order_by f rows"] set_order_by [of f rows]
  by (auto simp: newest_by_def split: if_splits)

section \<open>Autonomy state\<close>

definition au_key :: "autonomy_row \<Rightarrow> string \<times> action_class \<times> string" where
  "au_key r = (au_tool r, au_class r, au_scope r)"

definition GetAutonomyState :: "string \<Rightarrow> action_class \<Rightarrow> string \<Rightarrow> (store, autonomy_row res) state" where
  "GetAutonomyState tool class scope =
     select_one (\<lambda>s. find (\<lambda>r. au_key r = (tool, class, scope)) (autonomy s))"

definition ListAutonomyState :: "(store, autonomy_row list res) state" where
  "ListAutonomyState = query autonomy"

definition InsertAutonomyState :: "autonomy_row \<Rightarrow> (store, unit res) state" where
  "InsertAutonomyState r = db (\<lambda>s.
     if au_key r \<in> set (map au_key (autonomy s)) \<or> \<not> valid_class (au_class r)
        \<or> au_level r < 0 \<or> 4 < au_level r
     then (Inl ConstraintError, s)
     else (Inr (), s\<lparr>autonomy := autonomy s @ [r]\<rparr>))"

definition UpdateAutonomyState :: "int \<Rightarrow> int \<Rightarrow> stamp \<Rightarrow> string \<Rightarrow> action_class \<Rightarrow> string
    \<Rightarrow> (store, nat res) state" where
  "UpdateAutonomyState level approvals updated tool class scope = db (\<lambda>s.
     let hit = (\<lambda>r. au_key r = (tool, class, scope));
         n = count_where hit (autonomy s)
     in if n \<noteq> 0 \<and> (level < 0 \<or> 4 < level) then (Inl ConstraintError, s)
        else (Inr n, s\<lparr>autonomy := update_where hit
               (\<lambda>r. r\<lparr>au_level := level, au_approvals := approvals, au_updated := updated\<rparr>)
               (autonomy s)\<rparr>))"

section \<open>Single-use credentials\<close>

text \<open>
  \<open>burn\<close> is the atomic update both tables are consumed with.  The laws are about one column
  pair: the key, and whether the row has been consumed.
\<close>

definition burn :: "('r \<Rightarrow> 'k) \<Rightarrow> ('r \<Rightarrow> bool) \<Rightarrow> ('r \<Rightarrow> 'r) \<Rightarrow> 'k \<Rightarrow> 'r list \<Rightarrow> nat \<times> 'r list" where
  "burn key used mark k rows =
     (let hit = (\<lambda>r. key r = k \<and> \<not> used r) in (count_where hit rows, update_where hit mark rows))"

definition burnt_in :: "('r \<Rightarrow> 'k) \<Rightarrow> ('r \<Rightarrow> bool) \<Rightarrow> 'k \<Rightarrow> 'r list \<Rightarrow> bool" where
  "burnt_in key used k rows \<longleftrightarrow> k \<in> key ` set rows \<and> (\<forall>r \<in> set rows. key r = k \<longrightarrow> used r)"

lemma burnt_in_append:
  "key r \<notin> key ` set rows \<Longrightarrow> burnt_in key used k rows \<Longrightarrow> burnt_in key used k (rows @ [r])"
  by (auto simp: burnt_in_def)

locale one_shot =
  fixes key :: "'r \<Rightarrow> 'k" and used :: "'r \<Rightarrow> bool" and mark :: "'r \<Rightarrow> 'r"
  assumes key_mark: "key (mark r) = key r"
    and used_mark: "used (mark r)"
begin

lemma keys_burn: "map key (snd (burn key used mark k rows)) = map key rows"
  by (simp add: burn_def Let_def key_mark)

lemma burn_only_fresh: "0 < fst (burn key used mark k rows) \<Longrightarrow> \<exists>r \<in> set rows. key r = k \<and> \<not> used r"
  by (simp add: burn_def Let_def count_where_pos)

lemma burnt_after: "r \<in> set (snd (burn key used mark k rows)) \<Longrightarrow> key r = k \<Longrightarrow> used r"
  using used_mark by (simp add: burn_def Let_def set_update_where) blast

lemma burn_twice: "fst (burn key used mark k (snd (burn key used mark k rows))) = 0"
proof (rule ccontr)
  assume "fst (burn key used mark k (snd (burn key used mark k rows))) \<noteq> 0"
  then have "0 < fst (burn key used mark k (snd (burn key used mark k rows)))" by simp
  from burn_only_fresh [OF this] burnt_after show False by blast
qed

lemma burn_keeps_used: "r \<in> set rows \<Longrightarrow> used r \<Longrightarrow> r \<in> set (snd (burn key used mark k rows))"
  by (auto simp: burn_def Let_def set_update_where)

lemma burn_used_iff:
  "r \<in> set (snd (burn key used mark k rows)) \<Longrightarrow> key r \<noteq> k \<Longrightarrow> r \<in> set rows"
  by (auto simp: burn_def Let_def set_update_where key_mark)

text \<open>What is burnt stays burnt under the burn of any key, and a successful burn burns.\<close>

lemma keys_image_burn: "key ` set (snd (burn key used mark k rows)) = key ` set rows"
  by (metis keys_burn set_map)

lemma burn_keeps_burnt:
  assumes "burnt_in key used j rows"
  shows "burnt_in key used j (snd (burn key used mark k rows))"
proof -
  have "used r" if "r \<in> set (snd (burn key used mark k rows))" "key r = j" for r
    using that assms used_mark by (auto simp: burnt_in_def burn_def Let_def set_update_where)
  then show ?thesis
    using assms by (simp add: burnt_in_def keys_image_burn)
qed

lemma burn_burns: "0 < fst (burn key used mark k rows) \<Longrightarrow> burnt_in key used k (snd (burn key used mark k rows))"
  unfolding burnt_in_def keys_image_burn
  using burn_only_fresh burnt_after by blast

lemma burnt_no_burn: "burnt_in key used k rows \<Longrightarrow> fst (burn key used mark k rows) = 0"
  by (auto simp: burnt_in_def burn_def Let_def count_where_zero)

end

definition tk_used :: "token_row \<Rightarrow> bool" where "tk_used r \<longleftrightarrow> tk_consumed r \<noteq> None"
definition pa_used :: "pending_row \<Rightarrow> bool" where "pa_used r \<longleftrightarrow> pa_consumed r \<noteq> None"

definition consume_token :: "stamp \<Rightarrow> token_row \<Rightarrow> token_row" where
  "consume_token at r = r\<lparr>tk_consumed := Some at\<rparr>"

definition consume_pending :: "stamp \<Rightarrow> pending_row \<Rightarrow> pending_row" where
  "consume_pending at r = r\<lparr>pa_consumed := Some at\<rparr>"

definition revoke_token :: "stamp \<Rightarrow> token_row \<Rightarrow> token_row" where
  "revoke_token at r = r\<lparr>tk_consumed := Some at, tk_revoked := Some at\<rparr>"

interpretation token_shot: one_shot tk_hash tk_used "consume_token at" for at
  by unfold_locales (simp_all add: consume_token_def tk_used_def)

interpretation pending_shot: one_shot pa_id pa_used "consume_pending at" for at
  by unfold_locales (simp_all add: consume_pending_def pa_used_def)

interpretation revoke_shot: one_shot tk_task tk_used "revoke_token at" for at
  by unfold_locales (simp_all add: revoke_token_def tk_used_def)

subsection \<open>Tokens\<close>

definition InsertApprovalToken :: "token_row \<Rightarrow> (store, unit res) state" where
  "InsertApprovalToken r = db (\<lambda>s.
     if tk_hash r \<in> tk_hash ` set (tokens s) \<or> \<not> valid_class (tk_class r)
     then (Inl ConstraintError, s)
     else (Inr (), s\<lparr>tokens := tokens s @ [r\<lparr>tk_consumed := None, tk_revoked := None\<rparr>]\<rparr>))"

definition GetApprovalToken :: "string \<Rightarrow> (store, token_row res) state" where
  "GetApprovalToken h = select_one (\<lambda>s. find (\<lambda>r. tk_hash r = h) (tokens s))"

definition ConsumeApprovalToken :: "stamp \<Rightarrow> string \<Rightarrow> (store, nat res) state" where
  "ConsumeApprovalToken at h = db (\<lambda>s.
     let (n, rows) = burn tk_hash tk_used (consume_token at) h (tokens s)
     in (Inr n, s\<lparr>tokens := rows\<rparr>))"

definition RevokeApprovalTokensByTask :: "stamp \<Rightarrow> string \<Rightarrow> (store, nat res) state" where
  "RevokeApprovalTokensByTask at task = db (\<lambda>s.
     let (n, rows) = burn tk_task tk_used (revoke_token at) task (tokens s)
     in (Inr n, s\<lparr>tokens := rows\<rparr>))"

subsection \<open>Pending approvals\<close>

definition InsertPendingApproval :: "pending_row \<Rightarrow> (store, unit res) state" where
  "InsertPendingApproval r = db (\<lambda>s.
     if pa_id r \<in> pa_id ` set (pendings s) \<or> \<not> valid_class (pa_class r)
     then (Inl ConstraintError, s)
     else (Inr (), s\<lparr>pendings := pendings s @ [r\<lparr>pa_consumed := None\<rparr>]\<rparr>))"

definition GetPendingApproval :: "string \<Rightarrow> (store, pending_row res) state" where
  "GetPendingApproval i = select_one (\<lambda>s. find (\<lambda>r. pa_id r = i) (pendings s))"

definition ConsumePendingApproval :: "stamp \<Rightarrow> string \<Rightarrow> (store, nat res) state" where
  "ConsumePendingApproval at i = db (\<lambda>s.
     let (n, rows) = burn pa_id pa_used (consume_pending at) i (pendings s)
     in (Inr n, s\<lparr>pendings := rows\<rparr>))"

definition ListUnconsumedPendingApprovals :: "(store, pending_row list res) state" where
  "ListUnconsumedPendingApprovals =
     query (\<lambda>s. order_by pa_minted (filter (\<lambda>r. pa_consumed r = None) (pendings s)))"

definition ListUnconsumedPendingApprovalsByTask :: "string \<Rightarrow> (store, pending_row list res) state" where
  "ListUnconsumedPendingApprovalsByTask task =
     query (\<lambda>s. order_by pa_minted
              (filter (\<lambda>r. pa_task r = task \<and> pa_consumed r = None) (pendings s)))"

section \<open>Undo windows\<close>

definition InsertUndoWindow :: "string \<Rightarrow> string \<Rightarrow> string \<Rightarrow> stamp \<Rightarrow> stamp \<Rightarrow> (store, undo_row res) state" where
  "InsertUndoWindow task tool trace opened deadline = db (\<lambda>s.
     let r = \<lparr>uw_id = next_undo s, uw_task = task, uw_tool = tool, uw_trace = trace,
              uw_opened = opened, uw_deadline = deadline, uw_state = UndoOpen\<rparr>
     in (Inr r, s\<lparr>undos := undos s @ [r], next_undo := next_undo s + 1\<rparr>))"

definition GetOpenUndoWindowByTrace :: "string \<Rightarrow> (store, undo_row res) state" where
  "GetOpenUndoWindowByTrace trace = select_one (\<lambda>s. newest_by uw_opened
     (filter (\<lambda>r. uw_trace r = trace \<and> uw_state r = UndoOpen) (undos s)))"

definition GetOpenUndoWindowByTaskToolTrace :: "string \<Rightarrow> string \<Rightarrow> string \<Rightarrow> (store, undo_row res) state" where
  "GetOpenUndoWindowByTaskToolTrace task tool trace = select_one (\<lambda>s. newest_by uw_opened
     (filter (\<lambda>r. uw_task r = task \<and> uw_tool r = tool \<and> uw_trace r = trace \<and> uw_state r = UndoOpen)
        (undos s)))"

definition ListOpenUndoWindows :: "(store, undo_row list res) state" where
  "ListOpenUndoWindows = query (\<lambda>s. filter (\<lambda>r. uw_state r = UndoOpen) (undos s))"

definition SetUndoWindowState :: "undo_state \<Rightarrow> int \<Rightarrow> (store, unit res) state" where
  "SetUndoWindowState st i = db (\<lambda>s.
     (Inr (), s\<lparr>undos := update_where (\<lambda>r. uw_id r = i) (\<lambda>r. r\<lparr>uw_state := st\<rparr>) (undos s)\<rparr>))"

section \<open>Tasks, as far as a session is resolved from them\<close>

definition GetTaskByID :: "string \<Rightarrow> (store, task_row res) state" where
  "GetTaskByID i = select_one (\<lambda>s. find (\<lambda>r. t_id r = i) (tasks s))"

definition GetTaskSessionByTrace :: "string \<Rightarrow> (store, string option res) state" where
  "GetTaskSessionByTrace trace = select_one (\<lambda>s.
     map_option t_session (newest_by t_updated (filter (\<lambda>r. t_trace r = trace) (tasks s))))"

section \<open>Session taint\<close>

definition GetSessionTaint :: "string \<Rightarrow> (store, taint_row res) state" where
  "GetSessionTaint sid = select_one (\<lambda>s. find (\<lambda>r. st_session r = sid) (taints s))"

definition insert_taint :: "taint_row \<Rightarrow> store \<Rightarrow> unit res \<times> store" where
  "insert_taint r s =
     (if st_session r \<in> st_session ` set (taints s) then (Inl ConstraintError, s)
      else (Inr (), s\<lparr>taints := taints s @ [r]\<rparr>))"

definition InsertSessionTaintClean :: "string \<Rightarrow> stamp \<Rightarrow> (store, unit res) state" where
  "InsertSessionTaintClean sid at =
     db (insert_taint \<lparr>st_session = sid, st_tier = TierClean, st_reason = None, st_updated = at\<rparr>)"

definition InsertSessionTaintTainted :: "string \<Rightarrow> string option \<Rightarrow> stamp \<Rightarrow> (store, unit res) state" where
  "InsertSessionTaintTainted sid reason at =
     db (insert_taint \<lparr>st_session = sid, st_tier = TierTainted, st_reason = reason, st_updated = at\<rparr>)"

definition RaiseSessionTaint :: "string \<Rightarrow> string option \<Rightarrow> stamp \<Rightarrow> (store, unit res) state" where
  "RaiseSessionTaint sid reason at = db (\<lambda>s.
     let r = \<lparr>st_session = sid, st_tier = TierTainted, st_reason = reason, st_updated = at\<rparr>
     in if sid \<in> st_session ` set (taints s)
        then (Inr (), s\<lparr>taints := update_where (\<lambda>x. st_session x = sid) (\<lambda>_. r) (taints s)\<rparr>)
        else (Inr (), s\<lparr>taints := taints s @ [r]\<rparr>))"

section \<open>Reads keep everything\<close>

context store_preorder
begin

lemma keeps_select_one [keeps_rules]: "state_io_rel R (select_one f)"
  unfolding select_one_def by (rule keeps_db) (simp add: R_refl)

lemma keeps_reads [keeps_rules]:
  "state_io_rel R (GetAutonomyState a b c)" "state_io_rel R ListAutonomyState"
  "state_io_rel R (GetApprovalToken h)" "state_io_rel R (GetPendingApproval i)"
  "state_io_rel R ListUnconsumedPendingApprovals"
  "state_io_rel R (ListUnconsumedPendingApprovalsByTask t)"
  "state_io_rel R (GetOpenUndoWindowByTrace t)" "state_io_rel R (GetOpenUndoWindowByTaskToolTrace t t' t'')"
  "state_io_rel R ListOpenUndoWindows" "state_io_rel R (GetTaskByID t)"
  "state_io_rel R (GetTaskSessionByTrace t)" "state_io_rel R (GetSessionTaint t)"
  unfolding GetAutonomyState_def ListAutonomyState_def GetApprovalToken_def GetPendingApproval_def
    ListUnconsumedPendingApprovals_def ListUnconsumedPendingApprovalsByTask_def
    GetOpenUndoWindowByTrace_def GetOpenUndoWindowByTaskToolTrace_def ListOpenUndoWindows_def
    GetTaskByID_def GetTaskSessionByTrace_def GetSessionTaint_def
  by (rule keeps_select_one keeps_query)+

end

end
