(* ===== verification/Taint.thy ===== *)
theory Taint
  imports Policy_Store
begin

text \<open>
  \<open>kahyad/internal/taint\<close>: the session taint ledger.  A session without a row, and a session
  whose row cannot be read, is tainted; rows are born clean or tainted by a plain insert, and
  the only update there is raises a row to tainted.  \<open>ledgered\<close> says whether the tracker was
  constructed with a ledger.
\<close>

definition taint_ledger :: "bool \<Rightarrow> string \<Rightarrow> string \<Rightarrow> payload \<Rightarrow> (store, unit) state" where
  "taint_ledger ledgered trace kind p =
     (if ledgered then do { _ \<leftarrow> LogEvent trace kind p; ret () } else ret ())"

text \<open>\<open>Tracker.Get\<close> returns a tier and an error.\<close>

definition taint_Get :: "string \<Rightarrow> (store, taint_tier \<times> go_error option) state" where
  "taint_Get sid = do {
     r \<leftarrow> GetSessionTaint sid;
     ret (case r of
            Inl NoRows \<Rightarrow> (TierTainted, None)
          | Inl e \<Rightarrow> (TierTainted, Some e)
          | Inr row \<Rightarrow> (st_tier row, None))
   }"

definition taint_InsertClean :: "bool \<Rightarrow> string \<Rightarrow> string \<Rightarrow> (store, unit res) state" where
  "taint_InsertClean ledgered trace sid = do {
     t \<leftarrow> now;
     r \<leftarrow> InsertSessionTaintClean sid (Stamp t);
     case r of
       Inr _ \<Rightarrow> ret (Inr ())
     | Inl e \<Rightarrow>
         if e = ConstraintError then do {
           taint_ledger ledgered trace ''taint.lower_attempt''
             [(''event'', JStr ''taint.lower_attempt''), (''session_id'', JStr sid)];
           ret (Inl ErrLowerAttempt)
         } else ret (Inl e)
   }"

definition taint_Raise :: "bool \<Rightarrow> string \<Rightarrow> string \<Rightarrow> string \<Rightarrow> (store, unit res) state" where
  "taint_Raise ledgered trace sid reason = do {
     t \<leftarrow> now;
     r \<leftarrow> RaiseSessionTaint sid (if reason = '''' then None else Some reason) (Stamp t);
     case r of
       Inl e \<Rightarrow> ret (Inl e)
     | Inr _ \<Rightarrow> do {
         taint_ledger ledgered trace ''taint.raised''
           [(''event'', JStr ''taint.raised''), (''session_id'', JStr sid), (''reason'', JStr reason)];
         ret (Inr ())
       }
   }"

definition taint_InsertUntrusted :: "bool \<Rightarrow> string \<Rightarrow> string \<Rightarrow> string \<Rightarrow> (store, unit res) state" where
  "taint_InsertUntrusted ledgered trace sid reason = do {
     t \<leftarrow> now;
     r \<leftarrow> InsertSessionTaintTainted sid (if reason = '''' then None else Some reason) (Stamp t);
     case r of
       Inr _ \<Rightarrow> ret (Inr ())
     | Inl e \<Rightarrow>
         if e = ConstraintError then do {
           taint_ledger ledgered trace ''taint.lower_attempt''
             [(''event'', JStr ''taint.lower_attempt''), (''session_id'', JStr sid),
              (''attempted_tier'', JStr ''tainted'')];
           ret (Inl ErrLowerAttempt)
         } else ret (Inl e)
   }"

section \<open>A tier only ever rises\<close>

text \<open>
  The state of one session, as \<open>Get\<close> would report it when the read succeeds: clean only with a
  clean row.
\<close>

definition session_clean :: "store \<Rightarrow> string \<Rightarrow> bool" where
  "session_clean s sid \<longleftrightarrow>
     (case find (\<lambda>r. st_session r = sid) (taints s) of Some r \<Rightarrow> st_tier r = TierClean | None \<Rightarrow> False)"

definition has_taint_row :: "store \<Rightarrow> string \<Rightarrow> bool" where
  "has_taint_row s sid \<longleftrightarrow> sid \<in> st_session ` set (taints s)"

text \<open>Known sessions stay known, and a known session that is not clean never becomes clean.\<close>

definition taint_rises :: "store \<Rightarrow> store \<Rightarrow> bool" where
  "taint_rises s s' \<longleftrightarrow> (\<forall>sid. has_taint_row s sid \<longrightarrow>
     has_taint_row s' sid \<and> (session_clean s' sid \<longrightarrow> session_clean s sid))"

interpretation taint_rises: store_preorder taint_rises
  by unfold_locales (auto simp: taint_rises_def has_taint_row_def session_clean_def)

lemma find_session_None: "find (\<lambda>r. st_session r = sid) rows = None \<longleftrightarrow> sid \<notin> st_session ` set rows"
  by (auto simp: find_None_iff)

lemma insert_taint_rises: "taint_rises s (snd (insert_taint r s))"
proof (cases "st_session r \<in> st_session ` set (taints s)")
  case True
  then show ?thesis by (simp add: insert_taint_def taint_rises.R_refl)
next
  case False
  have "find (\<lambda>r. st_session r = sid) (taints s) \<noteq> None" if "has_taint_row s sid" for sid
    using that unfolding find_session_None has_taint_row_def by simp
  with False show ?thesis
    by (fastforce simp: insert_taint_def taint_rises_def has_taint_row_def session_clean_def find_append
        split: option.splits)
qed

lemma find_update_same:
  "sid \<in> st_session ` set rows \<Longrightarrow> st_session r = sid \<Longrightarrow>
   find (\<lambda>r. st_session r = sid) (update_where (\<lambda>x. st_session x = sid) (\<lambda>_. r) rows) = Some r"
  by (induction rows) (auto simp: update_where_def)

lemma find_update_other:
  "sid \<noteq> sid' \<Longrightarrow> st_session r = sid' \<Longrightarrow>
   find (\<lambda>r. st_session r = sid) (update_where (\<lambda>x. st_session x = sid') (\<lambda>_. r) rows) =
   find (\<lambda>r. st_session r = sid) rows"
  by (induction rows) (auto simp: update_where_def)

lemma raise_taint_rises:
  fixes sid reason at s
  defines "r \<equiv> \<lparr>st_session = sid, st_tier = TierTainted, st_reason = reason, st_updated = at\<rparr>"
  shows "sid \<in> st_session ` set (taints s) \<Longrightarrow>
      taint_rises s (s\<lparr>taints := update_where (\<lambda>x. st_session x = sid) (\<lambda>_. r) (taints s)\<rparr>)"
    and "sid \<notin> st_session ` set (taints s) \<Longrightarrow> taint_rises s (s\<lparr>taints := taints s @ [r]\<rparr>)"
proof -
  have sr: "st_session r = sid" "st_tier r = TierTainted" by (simp_all add: r_def)
  assume known: "sid \<in> st_session ` set (taints s)"
  show "taint_rises s (s\<lparr>taints := update_where (\<lambda>x. st_session x = sid) (\<lambda>_. r) (taints s)\<rparr>)"
    unfolding taint_rises_def
  proof (intro allI impI)
    fix sid'
    assume row: "has_taint_row s sid'"
    show "has_taint_row (s\<lparr>taints := update_where (\<lambda>x. st_session x = sid) (\<lambda>_. r) (taints s)\<rparr>) sid' \<and>
        (session_clean (s\<lparr>taints := update_where (\<lambda>x. st_session x = sid) (\<lambda>_. r) (taints s)\<rparr>) sid'
          \<longrightarrow> session_clean s sid')"
      using row sr known
      by (cases "sid' = sid")
         (auto simp: has_taint_row_def session_clean_def find_update_same find_update_other
            set_update_where image_iff)
  qed
next
  have sr: "st_session r = sid" by (simp add: r_def)
  assume "sid \<notin> st_session ` set (taints s)"
  then show "taint_rises s (s\<lparr>taints := taints s @ [r]\<rparr>)"
    using insert_taint_rises [of s r] sr by (simp add: insert_taint_def)
qed

lemma taint_statements_rise [keeps_rules]:
  "state_io_rel taint_rises (InsertSessionTaintClean sid at)"
  "state_io_rel taint_rises (InsertSessionTaintTainted sid reason at)"
  "state_io_rel taint_rises (RaiseSessionTaint sid reason at)"
  unfolding InsertSessionTaintClean_def InsertSessionTaintTainted_def RaiseSessionTaint_def
  by (rule taint_rises.keeps_db;
      auto simp: insert_taint_rises Let_def raise_taint_rises split: if_splits)+

text \<open>Every operation of the tracker only raises tiers.\<close>

lemma taint_ledger_rises [keeps_rules]: "state_io_rel taint_rises (taint_ledger l trace kind p)"
  unfolding taint_ledger_def by (intro keeps_rules)

lemma taint_ops_rise:
  "state_io_rel taint_rises (taint_Get sid)"
  "state_io_rel taint_rises (taint_InsertClean l trace sid)"
  "state_io_rel taint_rises (taint_Raise l trace sid reason)"
  "state_io_rel taint_rises (taint_InsertUntrusted l trace sid reason)"
  unfolding taint_Get_def taint_InsertClean_def taint_Raise_def taint_InsertUntrusted_def
  by (intro keeps_rules)+

text \<open>A successful \<open>Get\<close> reports clean exactly for a session whose row is clean.\<close>

lemma taint_Get_clean: "wp (taint_Get sid) (\<lambda>(tier, err) s'. tier = TierClean \<longrightarrow> session_clean s sid) s"
  unfolding taint_Get_def GetSessionTaint_def select_one_def wp_bind
  by (rule wp_dbI) (auto simp: wp_rules session_clean_def split: option.splits sum.splits go_error.splits)

section \<open>Sequences of tracker operations\<close>

datatype taint_op =
    TaintGet string
  | TaintInsertClean bool string string
  | TaintRaise bool string string string
  | TaintInsertUntrusted bool string string string

fun exec_taint_op :: "taint_op \<Rightarrow> store \<Rightarrow> store" where
  "exec_taint_op (TaintGet sid) s = snd (run_state (taint_Get sid) s)"
| "exec_taint_op (TaintInsertClean l trace sid) s = snd (run_state (taint_InsertClean l trace sid) s)"
| "exec_taint_op (TaintRaise l trace sid reason) s = snd (run_state (taint_Raise l trace sid reason) s)"
| "exec_taint_op (TaintInsertUntrusted l trace sid reason) s =
     snd (run_state (taint_InsertUntrusted l trace sid reason) s)"

fun exec_taint_ops :: "taint_op list \<Rightarrow> store \<Rightarrow> store" where
  "exec_taint_ops [] s = s"
| "exec_taint_ops (op # ops) s = exec_taint_ops ops (exec_taint_op op s)"

lemma taint_rises_run: "state_io_rel taint_rises m \<Longrightarrow> taint_rises s (snd (run_state m s))"
  by (metis prod.collapse taint_rises.keeps_run)

lemma taint_rises_op: "taint_rises s (exec_taint_op op s)"
  by (cases op) (simp_all add: taint_rises_run taint_ops_rise)

lemma taint_rises_ops: "taint_rises s (exec_taint_ops ops s)"
proof (induction ops arbitrary: s)
  case (Cons op ops)
  then show ?case using taint_rises.R_trans [OF taint_rises_op Cons.IH] by simp
qed (simp add: taint_rises.R_refl)

end
