(* ===== verification/Go_Path.thy ===== *)
theory Go_Path
  imports Kahya_Prelude
begin

text \<open>
  \<open>path/filepath\<close> on a Unix system, as far as the modelled code uses it: the lexical
  \<open>Clean\<close>, and \<open>Join\<close> built on it.  A path is cleaned element by element with a stack.
\<close>

definition slash :: char where "slash = CHR ''/''"

definition is_rooted :: "string \<Rightarrow> bool" where
  "is_rooted p \<longleftrightarrow> (case p of c # _ \<Rightarrow> c = slash | [] \<Rightarrow> False)"

definition path_elements :: "string \<Rightarrow> string list" where
  "path_elements p = filter (\<lambda>e. e \<noteq> '''') (split_on slash p)"

text \<open>The stack holds the kept elements, last one first.\<close>

fun clean_elements :: "bool \<Rightarrow> string list \<Rightarrow> string list \<Rightarrow> string list" where
  "clean_elements rooted stack [] = rev stack"
| "clean_elements rooted stack (e # es) =
     (if e = ''.'' then clean_elements rooted stack es
      else if e = ''..'' then
        (case stack of
           t # ts \<Rightarrow> if t = ''..'' then clean_elements rooted (e # stack) es
                     else clean_elements rooted ts es
         | [] \<Rightarrow> if rooted then clean_elements rooted [] es
                 else clean_elements rooted [e] es)
      else clean_elements rooted (e # stack) es)"

fun join_elements :: "string list \<Rightarrow> string" where
  "join_elements [] = ''''"
| "join_elements [e] = e"
| "join_elements (e # es) = e @ slash # join_elements es"

definition path_clean :: "string \<Rightarrow> string" where
  "path_clean p =
     (let es = clean_elements (is_rooted p) [] (path_elements p)
      in if is_rooted p then slash # join_elements es
         else if es = [] then ''.'' else join_elements es)"

definition path_join :: "string list \<Rightarrow> string" where
  "path_join ps =
     (let qs = filter (\<lambda>p. p \<noteq> '''') ps
      in if qs = [] then '''' else path_clean (join_elements qs))"

section \<open>A cleaned rooted path has no dot elements\<close>

definition plain_element :: "string \<Rightarrow> bool" where
  "plain_element e \<longleftrightarrow> e \<noteq> '''' \<and> e \<noteq> ''.'' \<and> e \<noteq> ''..'' \<and> slash \<notin> set e"

lemma split_on_no_sep: "e \<in> set (split_on d xs) \<Longrightarrow> d \<notin> set e"
proof (induction xs arbitrary: e)
  case (Cons c cs)
  then show ?case
    by (cases "split_on d cs") (auto split: if_splits)
qed simp

lemma split_on_nonempty [simp]: "split_on d xs \<noteq> []"
  by (induction xs) (auto split: list.splits)

lemma clean_elements_rooted_plain:
  "\<forall>e \<in> set stack. plain_element e \<Longrightarrow> \<forall>e \<in> set es. e \<noteq> '''' \<and> slash \<notin> set e \<Longrightarrow>
   \<forall>e \<in> set (clean_elements True stack es). plain_element e"
proof (induction es arbitrary: stack)
  case (Cons e es)
  then have rest: "\<forall>e \<in> set es. e \<noteq> '''' \<and> slash \<notin> set e" by simp
  consider "e = ''.''" | "e = ''..''" | "plain_element e"
    using Cons.prems(2) by (auto simp: plain_element_def)
  then obtain st where st: "\<forall>e \<in> set st. plain_element e"
    and step: "clean_elements True stack (e # es) = clean_elements True st es"
  proof cases
    case 1
    then show ?thesis using that [of stack] Cons.prems(1) by simp
  next
    case 2
    show ?thesis
    proof (cases stack)
      case Nil
      with 2 that [of "[]"] show ?thesis by simp
    next
      case (Cons t ts)
      with \<open>\<forall>e \<in> set stack. plain_element e\<close> have "t \<noteq> ''..''" "\<forall>e \<in> set ts. plain_element e"
        by (auto simp: plain_element_def)
      with 2 Cons that [of ts] show ?thesis by simp
    qed
  next
    case 3
    then have "e \<noteq> ''.''" "e \<noteq> ''..''" by (auto simp: plain_element_def)
    then show ?thesis using that [of "e # stack"] 3 Cons.prems(1) by simp
  qed
  show ?case unfolding step by (rule Cons.IH [OF st rest])
qed simp

lemma path_elements_ok: "\<forall>e \<in> set (path_elements p). e \<noteq> '''' \<and> slash \<notin> set e"
  by (auto simp: path_elements_def dest: split_on_no_sep)

lemma split_on_append_sep: "d \<notin> set a \<Longrightarrow> split_on d (a @ d # b) = a # split_on d b"
  by (induction a) auto

lemma split_on_none: "d \<notin> set a \<Longrightarrow> split_on d a = [a]"
  by (induction a) auto

lemma split_join: "es \<noteq> [] \<Longrightarrow> \<forall>e \<in> set es. slash \<notin> set e \<Longrightarrow> split_on slash (join_elements es) = es"
  by (induction es rule: join_elements.induct) (auto simp: split_on_append_sep split_on_none)

lemma path_elements_join:
  "\<forall>e \<in> set es. e \<noteq> '''' \<and> slash \<notin> set e \<Longrightarrow> path_elements (join_elements es) = es"
  by (cases "es = []") (auto simp: path_elements_def split_join intro: filter_True)

lemma clean_elements_plain_id:
  "\<forall>e \<in> set es. plain_element e \<Longrightarrow> clean_elements rooted stack es = rev stack @ es"
  by (induction es arbitrary: stack) (auto simp: plain_element_def)

lemma path_elements_slash: "path_elements (slash # p) = path_elements p"
  by (simp add: path_elements_def)

lemma path_clean_rooted:
  assumes "is_rooted p"
  obtains es where "path_clean p = slash # join_elements es"
    and "\<forall>e \<in> set es. plain_element e" and "path_elements (path_clean p) = es"
proof -
  let ?es = "clean_elements True [] (path_elements p)"
  have plain: "\<forall>e \<in> set ?es. plain_element e"
    using clean_elements_rooted_plain [of "[]" "path_elements p"] path_elements_ok by simp
  moreover have eq: "path_clean p = slash # join_elements ?es"
    using assms by (simp add: path_clean_def Let_def)
  moreover have "path_elements (path_clean p) = ?es"
    using plain by (simp add: eq path_elements_slash path_elements_join plain_element_def)
  ultimately show thesis using that by blast
qed

lemma path_clean_idem: "is_rooted p \<Longrightarrow> path_clean (path_clean p) = path_clean p"
proof -
  assume r: "is_rooted p"
  then obtain es where eq: "path_clean p = slash # join_elements es"
    and es: "\<forall>e \<in> set es. plain_element e" "path_elements (path_clean p) = es"
    by (rule path_clean_rooted)
  have "is_rooted (path_clean p)" by (simp add: eq is_rooted_def)
  with es show ?thesis
    by (simp add: path_clean_def [of "path_clean p"] clean_elements_plain_id Let_def eq [symmetric])
qed

section \<open>Dir, Base, Ext\<close>

definition path_dir :: "string \<Rightarrow> string" where
  "path_dir p = path_clean (rev (dropWhile (\<lambda>c. c \<noteq> slash) (rev p)))"

definition path_base :: "string \<Rightarrow> string" where
  "path_base p =
     (if p = '''' then ''.''
      else let q = rev (dropWhile (\<lambda>c. c = slash) (rev p));
               e = rev (takeWhile (\<lambda>c. c \<noteq> slash) (rev q))
           in if e = '''' then ''/'' else e)"

text \<open>The suffix from the last dot of the last element on.\<close>

definition path_ext :: "string \<Rightarrow> string" where
  "path_ext p =
     (let e = rev (takeWhile (\<lambda>c. c \<noteq> slash) (rev p))
      in if CHR ''.'' \<in> set e then CHR ''.'' # rev (takeWhile (\<lambda>c. c \<noteq> CHR ''.'') (rev e)) else '''')"

definition path_text :: "string list \<Rightarrow> string" where
  "path_text es = slash # join_elements es"

lemma join_elements_snoc: "es \<noteq> [] \<Longrightarrow> join_elements (es @ [e]) = join_elements es @ slash # e"
  by (induction es rule: join_elements.induct) auto

lemma join_elements_append:
  "es \<noteq> [] \<Longrightarrow> fs \<noteq> [] \<Longrightarrow> join_elements (es @ fs) = join_elements es @ slash # join_elements fs"
proof (induction es rule: join_elements.induct)
  case (2 e)
  then show ?case by (cases fs) auto
qed auto

lemma path_elements_text: "\<forall>e \<in> set es. plain_element e \<Longrightarrow> path_elements (path_text es) = es"
  by (simp add: path_text_def path_elements_slash path_elements_join plain_element_def)

lemma path_clean_text:
  assumes "\<forall>e \<in> set es. plain_element e"
  shows "path_clean (path_text es) = path_text es"
  using assms path_elements_text [OF assms]
  by (simp add: path_clean_def clean_elements_plain_id Let_def path_text_def is_rooted_def)

lemma path_clean_relative:
  assumes "\<forall>e \<in> set es. plain_element e" and "es \<noteq> []"
  shows "path_clean (join_elements es) = join_elements es"
proof -
  obtain e rest where es: "es = e # rest" "plain_element e" using assms by (cases es) auto
  then obtain c cs where c: "e = c # cs" "c \<noteq> slash" by (cases e) (auto simp: plain_element_def)
  have "\<not> is_rooted (join_elements es)" using es(1) c by (cases rest) (simp_all add: is_rooted_def)
  moreover have "path_elements (join_elements es) = es"
    using assms by (simp add: path_elements_join plain_element_def)
  ultimately show ?thesis using assms by (simp add: path_clean_def clean_elements_plain_id Let_def)
qed

lemma path_dir_text:
  assumes "\<forall>e \<in> set es. plain_element e"
  shows "path_dir (path_text es) = path_text (butlast es)"
proof (cases es rule: rev_cases)
  case Nil
  then show ?thesis by (simp add: path_dir_def path_text_def path_clean_def is_rooted_def path_elements_def)
next
  case (snoc fs e)
  then have e: "slash \<notin> set e" and fs: "\<forall>e \<in> set fs. plain_element e" using assms by (auto simp: plain_element_def)
  have "rev (dropWhile (\<lambda>c. c \<noteq> slash) (rev (path_text es))) = (if fs = [] then [slash] else path_text fs @ [slash])"
    using e snoc by (auto simp: path_text_def join_elements_snoc dropWhile_append)
  moreover have "path_elements (path_text fs @ [slash]) = fs" if "fs \<noteq> []"
  proof -
    have "path_elements (path_text fs @ [slash]) = path_elements (join_elements (fs @ ['''']))"
      using that by (simp add: path_text_def path_elements_slash join_elements_snoc)
    also have "\<dots> = filter (\<lambda>e. e \<noteq> '''') (fs @ [''''])"
      using fs that by (subst path_elements_def, subst split_join) (auto simp: plain_element_def)
    also have "\<dots> = fs" using fs by (auto simp: plain_element_def intro: filter_True)
    finally show ?thesis .
  qed
  ultimately show ?thesis
    using fs snoc
    by (auto simp: path_dir_def path_clean_def is_rooted_def clean_elements_plain_id Let_def path_text_def path_elements_def)
qed

lemma path_base_text:
  assumes "\<forall>e \<in> set es. plain_element e" and "es \<noteq> []"
  shows "path_base (path_text es) = last es"
proof (cases es rule: rev_cases)
  case (snoc fs e)
  then have e: "slash \<notin> set e" "e \<noteq> ''''" using assms by (auto simp: plain_element_def)
  have "path_text es = (if fs = [] then [slash] else path_text fs @ [slash]) @ e"
    using snoc by (simp add: path_text_def join_elements_snoc)
  then obtain p where p: "path_text es = p @ slash # e" by (cases "fs = []") auto
  have "dropWhile (\<lambda>c. c = slash) (rev (path_text es)) = rev (path_text es)"
    using e by (cases e rule: rev_cases) (auto simp: p)
  moreover have "takeWhile (\<lambda>c. c \<noteq> slash) (rev (path_text es)) = rev e"
    using e by (simp add: p takeWhile_append2 del: takeWhile.simps) (auto simp: takeWhile_append)
  ultimately show ?thesis using e snoc by (simp add: path_base_def Let_def) (simp add: path_text_def)
qed (use assms in simp)

lemma path_join_text:
  assumes "\<forall>e \<in> set es. plain_element e" and "\<forall>e \<in> set fs. plain_element e" and "fs \<noteq> []"
  shows "path_join [path_text es, join_elements fs] = path_text (es @ fs)"
proof -
  have ne: "join_elements fs \<noteq> ''''"
    using assms by (cases fs rule: join_elements.cases) (auto simp: plain_element_def)
  have "path_elements (path_text es @ slash # join_elements fs) = es @ fs"
  proof (cases "es = []")
    case True
    then show ?thesis using assms by (simp add: path_text_def path_elements_slash path_elements_join plain_element_def)
  next
    case False
    then have "path_text es @ slash # join_elements fs = path_text (es @ fs)"
      using assms(3) by (simp add: path_text_def join_elements_append)
    then show ?thesis using assms by (simp add: path_elements_text ball_Un)
  qed
  moreover have "is_rooted (path_text es @ slash # join_elements fs)" by (simp add: path_text_def is_rooted_def)
  ultimately show ?thesis
    using assms ne by (simp add: path_join_def path_text_def path_clean_def clean_elements_plain_id ball_Un Let_def)
qed

lemma path_join_relative:
  assumes "\<forall>e \<in> set es. plain_element e"
  shows "path_join es = join_elements es"
proof -
  have "filter (\<lambda>p. p \<noteq> '''') es = es" using assms by (auto simp: plain_element_def intro: filter_True)
  then show ?thesis using assms path_clean_relative [OF assms] by (simp add: path_join_def Let_def)
qed

lemma split_on_relative:
  "\<forall>e \<in> set es. plain_element e \<Longrightarrow> es \<noteq> [] \<Longrightarrow> split_on slash (path_clean (join_elements es)) = es"
  by (simp add: path_clean_relative split_join plain_element_def)

end
