(* ===== verification/Policy_Loader.thy ===== *)
theory Policy_Loader
  imports Go_Path Policy_Store
begin

text \<open>
  \<open>kahyad/internal/policy/schema.go\<close> and \<open>loader.go\<close>: the typed policy document, the hard
  validation rules in the order the code runs them, and the normalisation into a \<open>Policy\<close>.
  Decoding the YAML text is the library's; the loader here starts at the parsed document.
  \<open>valid_pattern\<close> is \<open>doublestar.ValidatePattern\<close>, \<open>home\<close> the result of \<open>os.UserHomeDir\<close>.
  An \<open>ActionClass\<close> is the constructor of its string.
\<close>

record tool_rule =
  tr_name :: string
  tr_class :: action_class
  tr_reversible :: bool
  tr_undo :: string
  tr_scope_key :: string
  tr_untrusted_output :: bool

record egress_allow_entry =
  ea_host :: string
  ea_ports :: "int list"
  ea_methods :: "string list"

record egress_config =
  ec_allowlist :: "egress_allow_entry list"
  ec_default_budget :: int
  ec_budget :: "(string \<times> int) list"

record document =
  doc_tools :: "tool_rule list"
  doc_secret_globs :: "string list"
  doc_deny_globs :: "string list"
  doc_egress :: egress_config

record policy =
  pol_tools :: "tool_rule list"
  pol_by_name :: "string \<rightharpoonup> tool_rule"
  pol_secret_globs :: "string list"
  pol_deny_globs :: "string list"
  pol_egress :: egress_config

definition mandatory_deny_globs :: "string list" where
  "mandatory_deny_globs =
     [''~/.zshrc'', ''~/.zprofile'', ''~/.zshenv'', ''~/.bashrc'', ''~/.bash_profile'',
      ''~/.profile'', ''~/Library/LaunchAgents/**'', ''~/.hammerspoon/**'',
      ''~/Library/Application Support/Kahya/**'']"

datatype policy_error =
    EmptyTools | EmptyToolName | InvalidClass | NoUndoRecipe | ReversibleW3 | OsascriptFloor
  | DuplicateTool | InvalidGlob string | MissingMandatoryGlob string
  | EmptyAllowlist | EmptyHost | DuplicateHost | PortOutOfRange
  | BadDefaultBudget | BadBudgetOverride | NoHomeDir

definition osascript_floor_tools :: "string list" where
  "osascript_floor_tools = [''applescript_run'', ''jxa_run'', ''shortcuts_run'']"

definition validate_tool :: "tool_rule \<Rightarrow> policy_error + unit" where
  "validate_tool t =
     (if trim_space (tr_name t) = '''' then Inl EmptyToolName
      else if \<not> valid_class (tr_class t) then Inl InvalidClass
      else if tr_reversible t \<and> trim_space (tr_undo t) = '''' then Inl NoUndoRecipe
      else if tr_class t = ClassW3 \<and> tr_reversible t then Inl ReversibleW3
      else if tr_name t \<in> set osascript_floor_tools \<and> (tr_class t = ClassR \<or> tr_class t = ClassW1)
      then Inl OsascriptFloor
      else Inr ())"

text \<open>The loop over the tools, with the names seen so far.\<close>

fun validate_tools :: "string list \<Rightarrow> tool_rule list \<Rightarrow> policy_error + unit" where
  "validate_tools seen [] = Inr ()"
| "validate_tools seen (t # ts) =
     (case validate_tool t of
        Inl e \<Rightarrow> Inl e
      | Inr _ \<Rightarrow> if tr_name t \<in> set seen then Inl DuplicateTool
                 else validate_tools (tr_name t # seen) ts)"

fun validate_glob_syntax :: "(string \<Rightarrow> bool) \<Rightarrow> string list \<Rightarrow> policy_error + unit" where
  "validate_glob_syntax valid_pattern [] = Inr ()"
| "validate_glob_syntax valid_pattern (g # gs) =
     (if \<not> valid_pattern g then Inl (InvalidGlob g) else validate_glob_syntax valid_pattern gs)"

definition validate_mandatory_deny_globs :: "string list \<Rightarrow> policy_error + unit" where
  "validate_mandatory_deny_globs globs =
     (case find (\<lambda>m. m \<notin> set globs) mandatory_deny_globs of
        Some m \<Rightarrow> Inl (MissingMandatoryGlob m)
      | None \<Rightarrow> Inr ())"

fun validate_allowlist :: "string list \<Rightarrow> egress_allow_entry list \<Rightarrow> policy_error + unit" where
  "validate_allowlist seen [] = Inr ()"
| "validate_allowlist seen (a # as) =
     (if trim_space (ea_host a) = '''' then Inl EmptyHost
      else if ea_host a \<in> set seen then Inl DuplicateHost
      else if list_ex (\<lambda>p. p \<le> 0 \<or> 65535 < p) (ea_ports a) then Inl PortOutOfRange
      else validate_allowlist (ea_host a # seen) as)"

definition validate_egress :: "egress_config \<Rightarrow> policy_error + unit" where
  "validate_egress e =
     (if ec_allowlist e = [] then Inl EmptyAllowlist
      else case validate_allowlist [] (ec_allowlist e) of
        Inl err \<Rightarrow> Inl err
      | Inr _ \<Rightarrow>
          if ec_default_budget e \<le> 0 then Inl BadDefaultBudget
          else if list_ex (\<lambda>(h, b). b \<le> 0) (ec_budget e) then Inl BadBudgetOverride
          else Inr ())"

definition validate :: "(string \<Rightarrow> bool) \<Rightarrow> document \<Rightarrow> policy_error + unit" where
  "validate valid_pattern doc =
     (if doc_tools doc = [] then Inl EmptyTools
      else case validate_tools [] (doc_tools doc) of Inl e \<Rightarrow> Inl e | Inr _ \<Rightarrow>
           (case validate_glob_syntax valid_pattern (doc_secret_globs doc) of Inl e \<Rightarrow> Inl e | Inr _ \<Rightarrow>
           (case validate_glob_syntax valid_pattern (doc_deny_globs doc) of Inl e \<Rightarrow> Inl e | Inr _ \<Rightarrow>
           (case validate_mandatory_deny_globs (doc_deny_globs doc) of Inl e \<Rightarrow> Inl e | Inr _ \<Rightarrow>
            validate_egress (doc_egress doc)))))"

definition expand_home :: "string \<Rightarrow> string \<Rightarrow> string" where
  "expand_home path home =
     (if path = ''~'' then home
      else if is_prefix ''~/'' path then path_join [home, drop 2 path]
      else path)"

definition expand_all :: "string list \<Rightarrow> string \<Rightarrow> string list" where
  "expand_all globs home = map (\<lambda>g. expand_home g home) globs"

definition default_scope_key :: "tool_rule \<Rightarrow> tool_rule" where
  "default_scope_key t = (if tr_scope_key t = '''' then t\<lparr>tr_scope_key := ''global''\<rparr> else t)"

definition policy_normalize :: "string option \<Rightarrow> document \<Rightarrow> policy_error + policy" where
  "policy_normalize home doc = (case home of
     None \<Rightarrow> Inl NoHomeDir
   | Some h \<Rightarrow>
       let tools = map default_scope_key (doc_tools doc)
       in Inr \<lparr>pol_tools = tools,
               pol_by_name = fold (\<lambda>t m. m(tr_name t \<mapsto> t)) tools Map.empty,
               pol_secret_globs = expand_all (doc_secret_globs doc) h,
               pol_deny_globs = expand_all (doc_deny_globs doc) h,
               pol_egress = doc_egress doc\<rparr>)"

text \<open>\<open>Load\<close>, from the parsed document on.\<close>

definition policy_load :: "(string \<Rightarrow> bool) \<Rightarrow> string option \<Rightarrow> document \<Rightarrow> policy_error + policy" where
  "policy_load valid_pattern home doc =
     (case validate valid_pattern doc of
        Inl e \<Rightarrow> Inl e
      | Inr _ \<Rightarrow> policy_normalize home doc)"

section \<open>What a loaded policy satisfies\<close>

definition tool_ok :: "tool_rule \<Rightarrow> bool" where
  "tool_ok t \<longleftrightarrow> trim_space (tr_name t) \<noteq> '''' \<and> valid_class (tr_class t)
     \<and> (tr_reversible t \<longrightarrow> trim_space (tr_undo t) \<noteq> '''')
     \<and> (tr_class t = ClassW3 \<longrightarrow> \<not> tr_reversible t)
     \<and> (tr_name t \<in> set osascript_floor_tools \<longrightarrow> tr_class t = ClassW2 \<or> tr_class t = ClassW3)"

definition egress_ok :: "egress_config \<Rightarrow> bool" where
  "egress_ok e \<longleftrightarrow> ec_allowlist e \<noteq> [] \<and> distinct (map ea_host (ec_allowlist e))
     \<and> (\<forall>a \<in> set (ec_allowlist e). trim_space (ea_host a) \<noteq> '''' \<and> (\<forall>p \<in> set (ea_ports a). 0 < p \<and> p \<le> 65535))
     \<and> 0 < ec_default_budget e \<and> (\<forall>(h, b) \<in> set (ec_budget e). 0 < b)"

lemma then_Inr [simp]:
  "(case r of Inl e \<Rightarrow> Inl e | Inr (_ :: unit) \<Rightarrow> k) = Inr u \<longleftrightarrow> r = Inr () \<and> k = Inr u"
  by (auto split: sum.splits)

lemma ports_in_range [simp]:
  "list_ex (\<lambda>p :: int. p \<le> 0 \<or> 65535 < p) ps \<longleftrightarrow> \<not> (\<forall>p \<in> set ps. 0 < p \<and> p \<le> 65535)"
  by (auto simp: list_ex_iff not_less not_le)

lemma budgets_positive [simp]:
  "list_ex (\<lambda>(h, b :: int). b \<le> 0) bs \<longleftrightarrow> \<not> (\<forall>(h, b) \<in> set bs. 0 < b)"
  by (simp add: list_ex_iff case_prod_beta not_less)

lemma validate_tool_ok: "validate_tool t = Inr u \<longleftrightarrow> tool_ok t"
  by (cases "tr_class t") (auto simp: validate_tool_def tool_ok_def valid_class_def)

lemma validate_tools_ok:
  "validate_tools seen ts = Inr u \<longleftrightarrow>
     (\<forall>t \<in> set ts. tool_ok t) \<and> distinct (map tr_name ts) \<and> set (map tr_name ts) \<inter> set seen = {}"
  by (induction seen ts rule: validate_tools.induct) (auto simp: validate_tool_ok)

lemma validate_glob_syntax_ok: "validate_glob_syntax v gs = Inr u \<longleftrightarrow> (\<forall>g \<in> set gs. v g)"
  by (induction v gs rule: validate_glob_syntax.induct) auto

lemma validate_mandatory_ok:
  "validate_mandatory_deny_globs gs = Inr u \<longleftrightarrow> set mandatory_deny_globs \<subseteq> set gs"
  by (auto simp: validate_mandatory_deny_globs_def find_None_iff split: option.splits
      dest: find_Some_in)

lemma validate_allowlist_ok:
  "validate_allowlist seen as = Inr u \<longleftrightarrow>
     (\<forall>a \<in> set as. trim_space (ea_host a) \<noteq> '''' \<and> (\<forall>p \<in> set (ea_ports a). 0 < p \<and> p \<le> 65535))
     \<and> distinct (map ea_host as) \<and> set (map ea_host as) \<inter> set seen = {}"
  by (induction seen as rule: validate_allowlist.induct) auto

lemma validate_egress_ok: "validate_egress e = Inr u \<longleftrightarrow> egress_ok e"
  by (auto simp: validate_egress_def egress_ok_def validate_allowlist_ok)

definition document_ok :: "(string \<Rightarrow> bool) \<Rightarrow> document \<Rightarrow> bool" where
  "document_ok v doc \<longleftrightarrow> doc_tools doc \<noteq> [] \<and> (\<forall>t \<in> set (doc_tools doc). tool_ok t)
     \<and> distinct (map tr_name (doc_tools doc))
     \<and> (\<forall>g \<in> set (doc_secret_globs doc) \<union> set (doc_deny_globs doc). v g)
     \<and> set mandatory_deny_globs \<subseteq> set (doc_deny_globs doc) \<and> egress_ok (doc_egress doc)"

lemma validate_iff: "validate v doc = Inr u \<longleftrightarrow> document_ok v doc"
  by (auto simp: validate_def document_ok_def validate_tools_ok validate_glob_syntax_ok
      validate_mandatory_ok validate_egress_ok)

lemma fold_by_name:
  "distinct (map tr_name ts) \<Longrightarrow>
   fold (\<lambda>t m. m(tr_name t \<mapsto> t)) ts m n =
     (case find (\<lambda>t. tr_name t = n) ts of Some t \<Rightarrow> Some t | None \<Rightarrow> m n)"
proof (induction ts arbitrary: m)
  case (Cons a ts)
  then have "find (\<lambda>t. tr_name t = tr_name a) ts = None"
    by (auto simp: find_None_iff image_iff)
  with Cons show ?case by (auto split: option.splits)
qed simp

end
