(* ===== verification/Policy_Engine.thy ===== *)
theory Policy_Engine
  imports Canon Taint Policy_Loader
begin

text \<open>
  \<open>kahyad/internal/policy/engine.go\<close>, \<open>tokens.go\<close>, \<open>halt.go\<close> and \<open>session_resolver.go\<close>: the
  binding policy decision, the autonomy ladder, one-time tokens, pending approvals, undo
  windows, and the approval half of the emergency halt.  Every definition has the name of the
  Go function it models.  The engine's fields that never change while it runs are the record
  \<open>engine\<close>; \<open>e_ledger\<close> and the hook fields say whether the corresponding dependency is wired.
\<close>

section \<open>Engine, inputs and decisions\<close>

record engine =
  e_policy :: policy
  e_ledger :: bool
  e_taint_checker :: bool
  e_session_resolver :: bool
  e_pending_hook :: bool
  e_invalidated_hook :: bool
  e_undo_expiry_hook :: bool
  e_undo_window :: int
  e_unicode :: unicode_env

definition Canonicalize :: "string \<Rightarrow> string" where
  "Canonicalize name =
     (if \<not> is_prefix ''mcp__'' name then name
      else let rest = drop 5 name in
        (case str_index rest ''__'' of None \<Rightarrow> name | Some i \<Rightarrow> drop (i + 2) rest))"

datatype decision_result = ResultAllow | ResultNeedsApproval | ResultDeny

datatype rule_id = RuleLadderV1 | RuleTaintedSessionV1

datatype reason = NoReason | ReasonUnknownTool | ReasonNeedsApproval | ReasonW3AlwaysApproval
  | ReasonPolicyStateError | ReasonTaintedSession

fun result_text :: "decision_result \<Rightarrow> string" where
  "result_text ResultAllow = ''allow''"
| "result_text ResultNeedsApproval = ''needs_approval''"
| "result_text ResultDeny = ''deny''"

fun rule_text :: "rule_id \<Rightarrow> string" where
  "rule_text RuleLadderV1 = ''ladder-v1''"
| "rule_text RuleTaintedSessionV1 = ''tainted_session''"

record check_input =
  ci_tool :: string
  ci_scope :: string
  ci_task :: string
  ci_trace :: string
  ci_session :: string
  ci_tool_input :: string

record decision =
  d_result :: decision_result
  d_reason :: reason
  d_rule :: rule_id
  d_class :: action_class
  d_scope :: string
  d_level :: int
  d_pending_id :: string
  d_token :: string

definition no_class :: action_class where "no_class = ClassOther ''''"

text \<open>A decision with the fields a deny sets, the others zero.\<close>

definition deny_decision :: "reason \<Rightarrow> rule_id \<Rightarrow> action_class \<Rightarrow> string \<Rightarrow> int \<Rightarrow> decision" where
  "deny_decision r rule class scope level =
     \<lparr>d_result = ResultDeny, d_reason = r, d_rule = rule, d_class = class, d_scope = scope,
      d_level = level, d_pending_id = '''', d_token = ''''\<rparr>"

definition undo_window_duration :: int where "undo_window_duration = 5 * minute_ns"
definition pending_approval_ttl :: int where "pending_approval_ttl = 10 * minute_ns"
definition token_ttl :: int where "token_ttl = 10 * minute_ns"
definition promotion_threshold :: int where "promotion_threshold = 20"

definition autoLevelFor :: "action_class \<Rightarrow> int option" where
  "autoLevelFor class = (case class of
     ClassR \<Rightarrow> Some 1 | ClassW1 \<Rightarrow> Some 2 | ClassW2 \<Rightarrow> Some 3 | _ \<Rightarrow> None)"

definition normalizeScope :: "string \<Rightarrow> string" where
  "normalizeScope scope = (if scope = '''' then ''global'' else scope)"

section \<open>Ledger and hashes\<close>

definition ledgerRaw :: "engine \<Rightarrow> string \<Rightarrow> string \<Rightarrow> payload \<Rightarrow> (store, unit) state" where
  "ledgerRaw e trace kind p =
     (if e_ledger e then do { _ \<leftarrow> LogEvent trace kind p; ret () } else ret ())"

definition decision_payload :: "check_input \<Rightarrow> action_class \<Rightarrow> string \<Rightarrow> int \<Rightarrow> decision \<Rightarrow> payload" where
  "decision_payload ci class scope level d =
     [(''event'', JStr ''policy_decision''), (''tool'', JStr (ci_tool ci)), (''class'', JClass class),
      (''scope'', JStr scope), (''level'', JInt level), (''decision'', JStr (result_text (d_result d))),
      (''task_id'', JStr (ci_task ci)), (''rule'', JStr (rule_text (d_rule d)))]
     @ (if d_reason d = NoReason then [] else [(''reason'', JBool True)])"

definition ledgerDecision :: "engine \<Rightarrow> check_input \<Rightarrow> action_class \<Rightarrow> string \<Rightarrow> int \<Rightarrow> decision
    \<Rightarrow> (store, unit) state" where
  "ledgerDecision e ci class scope level d =
     ledgerRaw e (ci_trace ci) ''policy_decision'' (decision_payload ci class scope level d)"

definition approvedBytesHash :: "engine \<Rightarrow> string \<Rightarrow> string" where
  "approvedBytesHash e input = sha256_hex (canonicalize_bytes (e_unicode e) input)"

definition rawBytesHash :: "string \<Rightarrow> string" where
  "rawBytesHash b = sha256_hex b"

section \<open>Ladder state\<close>

definition loadState :: "string \<Rightarrow> action_class \<Rightarrow> string \<Rightarrow> (store, autonomy_row res) state" where
  "loadState tool class scope = do {
     r \<leftarrow> GetAutonomyState tool class scope;
     ret (case r of
            Inl err \<Rightarrow> (if err = NoRows
              then Inr \<lparr>au_tool = tool, au_class = class, au_scope = scope, au_level = 0,
                        au_approvals = 0, au_updated = Unparsable\<rparr>
              else Inl err)
          | Inr row \<Rightarrow> Inr row)
   }"

definition saveState :: "string \<Rightarrow> action_class \<Rightarrow> string \<Rightarrow> int \<Rightarrow> int \<Rightarrow> (store, unit res) state" where
  "saveState tool class scope level approvals = do {
     t \<leftarrow> now;
     r \<leftarrow> UpdateAutonomyState level approvals (Stamp t) tool class scope;
     case r of
       Inl err \<Rightarrow> ret (Inl err)
     | Inr n \<Rightarrow>
         if n = 0
         then InsertAutonomyState \<lparr>au_tool = tool, au_class = class, au_scope = scope,
                au_level = level, au_approvals = approvals, au_updated = Stamp t\<rparr>
         else ret (Inr ())
   }"

definition demote :: "engine \<Rightarrow> string \<Rightarrow> action_class \<Rightarrow> string \<Rightarrow> string \<Rightarrow> string \<Rightarrow> (store, unit) state" where
  "demote e tool class scope trace why = do {
     r \<leftarrow> loadState tool class scope;
     case r of
       Inl _ \<Rightarrow> ret ()
     | Inr row \<Rightarrow>
         let from = au_level row; to = (if from - 1 < 0 then 0 else from - 1) in do {
           r2 \<leftarrow> saveState tool class scope to 0;
           case r2 of
             Inl _ \<Rightarrow> ret ()
           | Inr _ \<Rightarrow> ledgerRaw e trace ''demoted''
               [(''event'', JStr ''demoted''), (''tool'', JStr tool), (''class'', JClass class),
                (''scope'', JStr scope), (''from_level'', JInt from), (''to_level'', JInt to),
                (''reason'', JStr why)]
         }
   }"

section \<open>Minting\<close>

definition mintToken :: "engine \<Rightarrow> string \<Rightarrow> string \<Rightarrow> string \<Rightarrow> action_class \<Rightarrow> string \<Rightarrow> string
    \<Rightarrow> (store, string res) state" where
  "mintToken e task trace tool class scope approved_hash = do {
     r \<leftarrow> rand_read 32;
     case r of
       Inl err \<Rightarrow> ret (Inl err)
     | Inr raw \<Rightarrow> do {
         t \<leftarrow> now;
         ins \<leftarrow> InsertApprovalToken
           \<lparr>tk_hash = rawBytesHash raw, tk_task = task, tk_trace = trace, tk_tool = tool,
            tk_class = class, tk_scope = scope, tk_bytes_hash = approved_hash,
            tk_minted = Stamp t, tk_expires = Stamp (t + token_ttl),
            tk_consumed = None, tk_revoked = None\<rparr>;
         ret (case ins of Inl err \<Rightarrow> Inl err | Inr _ \<Rightarrow> Inr (hex_encode raw))
       }
   }"

definition mintPendingApproval :: "engine \<Rightarrow> string \<Rightarrow> string \<Rightarrow> string \<Rightarrow> action_class \<Rightarrow> string \<Rightarrow> string
    \<Rightarrow> string \<Rightarrow> (store, string res) state" where
  "mintPendingApproval e task trace tool class scope hash input = do {
     r \<leftarrow> rand_read 32;
     case r of
       Inl err \<Rightarrow> ret (Inl err)
     | Inr raw \<Rightarrow> do {
         t \<leftarrow> now;
         ins \<leftarrow> InsertPendingApproval
           \<lparr>pa_id = hex_encode raw, pa_task = task, pa_trace = trace, pa_tool = tool,
            pa_class = class, pa_scope = scope, pa_bytes_hash = hash, pa_input = input,
            pa_minted = Stamp t, pa_expires = Stamp (t + pending_approval_ttl),
            pa_consumed = None\<rparr>;
         case ins of
           Inl err \<Rightarrow> ret (Inl err)
         | Inr _ \<Rightarrow> do {
             (if e_pending_hook e
              then notice (PendingApprovalHook \<lparr>pi_id = hex_encode raw, pi_tool = tool,
                     pi_class = class, pi_scope = scope, pi_input = input,
                     pi_minted = Stamp t, pi_trace = trace, pi_task = task\<rparr>)
              else ret ());
             ret (Inr (hex_encode raw))
           }
       }
   }"

definition openUndoWindow :: "engine \<Rightarrow> string \<Rightarrow> string \<Rightarrow> string \<Rightarrow> (store, unit res) state" where
  "openUndoWindow e task tool trace = do {
     r \<leftarrow> GetOpenUndoWindowByTaskToolTrace task tool trace;
     case r of
       Inr _ \<Rightarrow> ret (Inr ())
     | Inl err \<Rightarrow>
         if err \<noteq> NoRows then ret (Inl err)
         else do {
           t \<leftarrow> now;
           w \<leftarrow> InsertUndoWindow task tool trace (Stamp t) (Stamp (t + e_undo_window e));
           case w of
             Inl err' \<Rightarrow> ret (Inl err')
           | Inr row \<Rightarrow> do {
               ledgerRaw e trace ''undo_window_opened''
                 [(''event'', JStr ''undo_window_opened''), (''task_id'', JStr task),
                  (''tool'', JStr tool), (''deadline'', JTime (uw_deadline row))];
               ret (Inr ())
             }
         }
   }"

text \<open>The best-effort window of a W1 write: a failure is ledgered and the decision stands.\<close>

definition openUndoWindowOrLog :: "engine \<Rightarrow> string \<Rightarrow> string \<Rightarrow> string \<Rightarrow> (store, unit) state" where
  "openUndoWindowOrLog e task tool trace = do {
     r \<leftarrow> openUndoWindow e task tool trace;
     case r of
       Inl err \<Rightarrow> ledgerRaw e trace ''undo_window_open_failed''
         [(''event'', JStr ''undo_window_open_failed''), (''task_id'', JStr task),
          (''tool'', JStr tool), (''err'', JErr err)]
     | Inr _ \<Rightarrow> ret ()
   }"

section \<open>Pending approvals\<close>

definition getValidPendingApproval :: "string \<Rightarrow> (store, pending_row res) state" where
  "getValidPendingApproval i = do {
     r \<leftarrow> GetPendingApproval i;
     t \<leftarrow> now;
     ret (case r of
            Inl err \<Rightarrow> Inl (if err = NoRows then ErrInvalidPendingApproval else err)
          | Inr pa \<Rightarrow>
              if pa_consumed pa \<noteq> None then Inl ErrInvalidPendingApproval
              else (case parse_stamp (pa_expires pa) of
                      None \<Rightarrow> Inl ErrInvalidPendingApproval
                    | Some x \<Rightarrow> if x < t then Inl ErrInvalidPendingApproval else Inr pa))
   }"

definition consumePendingApproval :: "string \<Rightarrow> (store, unit res) state" where
  "consumePendingApproval i = do {
     t \<leftarrow> now;
     r \<leftarrow> ConsumePendingApproval (Stamp t) i;
     ret (case r of
            Inl err \<Rightarrow> Inl err
          | Inr n \<Rightarrow> if n = 0 then Inl ErrInvalidPendingApproval else Inr ())
   }"

section \<open>Check\<close>

definition ResolveSession :: "string \<Rightarrow> string \<Rightarrow> (store, string res) state" where
  "ResolveSession trace task = do {
     by_task \<leftarrow> (if task \<noteq> '''' then do {
         r \<leftarrow> GetTaskByID task;
         ret (case r of
                Inr row \<Rightarrow> (case t_session row of
                    Some sid \<Rightarrow> if sid \<noteq> '''' then Some (Inr sid) else None
                  | None \<Rightarrow> None)
              | Inl err \<Rightarrow> if err = NoRows then None else Some (Inl err))
       } else ret None);
     case by_task of
       Some r \<Rightarrow> ret r
     | None \<Rightarrow>
         if trace = '''' then ret (Inr '''')
         else do {
           r \<leftarrow> GetTaskSessionByTrace trace;
           ret (case r of
                  Inl err \<Rightarrow> if err = NoRows then Inr '''' else Inl err
                | Inr None \<Rightarrow> Inr ''''
                | Inr (Some sid) \<Rightarrow> Inr sid)
         }
   }"

definition denyIfTainted :: "engine \<Rightarrow> check_input \<Rightarrow> action_class \<Rightarrow> string \<Rightarrow> string
    \<Rightarrow> (store, decision option) state" where
  "denyIfTainted e ci class scope sid = do {
     g \<leftarrow> taint_Get sid;
     case g of (tier, terr) \<Rightarrow> do {
       (case terr of
          Some err \<Rightarrow> ledgerRaw e (ci_trace ci) ''taint_check_read_error''
            [(''event'', JStr ''taint_check_read_error''), (''session_id'', JStr sid), (''err'', JErr err)]
        | None \<Rightarrow> ret ());
       if tier \<noteq> TierTainted then ret None
       else let d = deny_decision ReasonTaintedSession RuleTaintedSessionV1 class scope 0 in do {
         ledgerDecision e ci class scope 0 d;
         ret (Some d)
       }
     }
   }"

definition needsApproval :: "engine \<Rightarrow> check_input \<Rightarrow> action_class \<Rightarrow> string \<Rightarrow> int \<Rightarrow> string \<Rightarrow> reason
    \<Rightarrow> (store, decision \<times> go_error option) state" where
  "needsApproval e ci class scope level hash why = do {
     r \<leftarrow> mintPendingApproval e (ci_task ci) (ci_trace ci) (ci_tool ci) class scope hash (ci_tool_input ci);
     case r of
       Inl err \<Rightarrow> let d = deny_decision ReasonPolicyStateError RuleLadderV1 class scope level in do {
         ledgerDecision e ci class scope level d;
         ret (d, Some err)
       }
     | Inr i \<Rightarrow> let d = \<lparr>d_result = ResultNeedsApproval, d_reason = why, d_rule = RuleLadderV1,
                         d_class = class, d_scope = scope, d_level = level,
                         d_pending_id = i, d_token = ''''\<rparr> in do {
         ledgerDecision e ci class scope level d;
         ret (d, None)
       }
   }"

text \<open>The switch over how the session is identified; \<open>Some\<close> is its deny.\<close>

definition check_session :: "engine \<Rightarrow> check_input \<Rightarrow> action_class \<Rightarrow> string
    \<Rightarrow> (store, decision option) state" where
  "check_session e ci class scope =
     (if \<not> e_taint_checker e \<or> class = ClassR then ret None
      else if e_session_resolver e then do {
        r \<leftarrow> ResolveSession (ci_trace ci) (ci_task ci);
        (case r of
           Inl err \<Rightarrow> ledgerRaw e (ci_trace ci) ''session_resolve_error''
             [(''event'', JStr ''session_resolve_error''), (''task_id'', JStr (ci_task ci)), (''err'', JErr err)]
         | Inr _ \<Rightarrow> ret ());
        if isl r \<or> r = Inr ''''
        then let d = deny_decision ReasonTaintedSession RuleTaintedSessionV1 class scope 0 in do {
          ledgerDecision e ci class scope 0 d;
          ret (Some d)
        }
        else denyIfTainted e ci class scope (projr r)
      }
      else if ci_session ci \<noteq> '''' then denyIfTainted e ci class scope (ci_session ci)
      else ret None)"

text \<open>From the loaded ladder state on.\<close>

definition check_ladder :: "engine \<Rightarrow> check_input \<Rightarrow> action_class \<Rightarrow> string \<Rightarrow> string
    \<Rightarrow> (store, decision \<times> go_error option) state" where
  "check_ladder e ci class scope hash = do {
     st \<leftarrow> loadState (ci_tool ci) class scope;
     case st of
       Inl err \<Rightarrow> let d = deny_decision ReasonPolicyStateError RuleLadderV1 class scope 0 in do {
         ledgerDecision e ci class scope 0 d;
         ret (d, Some err)
       }
     | Inr row \<Rightarrow>
       let level = au_level row in
       if class = ClassW3 then needsApproval e ci class scope level hash ReasonW3AlwaysApproval
       else let threshold = (case autoLevelFor class of Some l \<Rightarrow> l | None \<Rightarrow> 0) in
       if threshold \<le> level then do {
         tok \<leftarrow> (if class \<noteq> ClassR
                then mintToken e (ci_task ci) (ci_trace ci) (ci_tool ci) class scope hash
                else ret (Inr ''''));
         case tok of
           Inl err \<Rightarrow> let d = deny_decision ReasonPolicyStateError RuleLadderV1 class scope level in do {
             ledgerDecision e ci class scope level d;
             ret (d, Some err)
           }
         | Inr token \<Rightarrow> do {
             (if class = ClassW1 then openUndoWindowOrLog e (ci_task ci) (ci_tool ci) (ci_trace ci)
              else ret ());
             let d = \<lparr>d_result = ResultAllow, d_reason = NoReason, d_rule = RuleLadderV1,
                      d_class = class, d_scope = scope, d_level = level,
                      d_pending_id = '''', d_token = token\<rparr> in do {
               ledgerDecision e ci class scope level d;
               ret (d, None)
             }
           }
       }
       else needsApproval e ci class scope level hash ReasonNeedsApproval
   }"

definition Check :: "engine \<Rightarrow> check_input \<Rightarrow> (store, decision \<times> go_error option) state" where
  "Check e input =
     (let ci = input\<lparr>ci_tool := Canonicalize (ci_tool input)\<rparr>;
          scope = normalizeScope (ci_scope ci)
      in case pol_by_name (e_policy e) (ci_tool ci) of
        None \<Rightarrow>
          let d = deny_decision ReasonUnknownTool RuleLadderV1 no_class scope 0 in do {
            ledgerDecision e ci no_class scope 0 d;
            ret (d, None)
          }
      | Some tool \<Rightarrow>
          let class = tr_class tool;
              hash = approvedBytesHash e (ci_tool_input ci)
          in do {
            dn \<leftarrow> check_session e ci class scope;
            case dn of
              Some d \<Rightarrow> ret (d, None)
            | None \<Rightarrow> check_ladder e ci class scope hash
          })"

section \<open>Approve, deny, promote\<close>

definition isTypedOnayla :: "engine \<Rightarrow> string \<Rightarrow> bool" where
  "isTypedOnayla e typed \<longleftrightarrow> cr_nfc (normalize (e_unicode e) typed) = ''onayla''"

definition pending_payload :: "string \<Rightarrow> pending_row \<Rightarrow> payload" where
  "pending_payload ev pa =
     [(''event'', JStr ev), (''tool'', JStr (pa_tool pa)), (''class'', JClass (pa_class pa)),
      (''scope'', JStr (pa_scope pa))]"

text \<open>The two checks a W3 approval passes before its id is consumed.\<close>

definition approve_w3_gate :: "engine \<Rightarrow> pending_row \<Rightarrow> string \<Rightarrow> string \<Rightarrow> (store, unit res) state" where
  "approve_w3_gate e pa surface typed =
     (if pa_class pa \<noteq> ClassW3 then ret (Inr ())
      else if surface \<noteq> ''local'' then do {
        ledgerRaw e (pa_trace pa) ''w3_nonlocal_approval_rejected''
          (pending_payload ''w3_nonlocal_approval_rejected'' pa @ [(''surface'', JStr surface)]);
        ret (Inl ErrW3RequiresLocalSurface)
      }
      else if \<not> isTypedOnayla e typed then do {
        ledgerRaw e (pa_trace pa) ''w3_invalid_typed_onayla''
          (pending_payload ''w3_invalid_typed_onayla'' pa);
        ret (Inl ErrW3RequiresTypedOnayla)
      }
      else ret (Inr ()))"

text \<open>The bookkeeping at the end of \<open>Approve\<close>: count the approval, suggest a promotion.\<close>

definition approve_bookkeeping :: "engine \<Rightarrow> pending_row \<Rightarrow> string \<Rightarrow> (store, unit) state" where
  "approve_bookkeeping e pa surface = do {
     st \<leftarrow> loadState (pa_tool pa) (pa_class pa) (pa_scope pa);
     case st of
       Inl _ \<Rightarrow> ret ()
     | Inr row \<Rightarrow>
         let n = au_approvals row + 1 in do {
           sv \<leftarrow> saveState (pa_tool pa) (pa_class pa) (pa_scope pa) (au_level row) n;
           case sv of
             Inl _ \<Rightarrow> ret ()
           | Inr _ \<Rightarrow> do {
               ledgerRaw e (pa_trace pa) ''policy_feedback_approved''
                 (pending_payload ''policy_feedback_approved'' pa
                  @ [(''consecutive_approvals'', JInt n), (''surface'', JStr surface)]
                  @ (if surface \<noteq> ''local'' then [(''remote'', JBool True)] else []));
               (if n = promotion_threshold
                then ledgerRaw e (pa_trace pa) ''promotion_suggested''
                       (pending_payload ''promotion_suggested'' pa @ [(''consecutive_approvals'', JInt n)])
                else ret ())
             }
         }
   }"

definition Approve :: "engine \<Rightarrow> string \<Rightarrow> string \<Rightarrow> string \<Rightarrow> (store, string res) state" where
  "Approve e i surface typed = do {
     v \<leftarrow> getValidPendingApproval i;
     case v of
       Inl err \<Rightarrow> ret (Inl err)
     | Inr pa \<Rightarrow> do {
         g \<leftarrow> approve_w3_gate e pa surface typed;
         case g of
           Inl err \<Rightarrow> ret (Inl err)
         | Inr _ \<Rightarrow> do {
             c \<leftarrow> consumePendingApproval i;
             case c of
               Inl err \<Rightarrow> ret (Inl err)
             | Inr _ \<Rightarrow> do {
                 tok \<leftarrow> mintToken e (pa_task pa) (pa_trace pa) (pa_tool pa) (pa_class pa) (pa_scope pa)
                          (pa_bytes_hash pa);
                 case tok of
                   Inl err \<Rightarrow> ret (Inl err)
                 | Inr token \<Rightarrow> do {
                     (if pa_class pa = ClassW1
                      then openUndoWindowOrLog e (pa_task pa) (pa_tool pa) (pa_trace pa)
                      else ret ());
                     approve_bookkeeping e pa surface;
                     ret (Inr token)
                   }
               }
           }
       }
   }"

definition Deny :: "engine \<Rightarrow> string \<Rightarrow> (store, unit res) state" where
  "Deny e i = do {
     v \<leftarrow> getValidPendingApproval i;
     case v of
       Inl err \<Rightarrow> ret (Inl err)
     | Inr pa \<Rightarrow> do {
         c \<leftarrow> consumePendingApproval i;
         case c of
           Inl err \<Rightarrow> ret (Inl err)
         | Inr _ \<Rightarrow> do {
             ledgerRaw e (pa_trace pa) ''policy_feedback_denied'' (pending_payload ''policy_feedback_denied'' pa);
             demote e (pa_tool pa) (pa_class pa) (pa_scope pa) (pa_trace pa) ''denied'';
             ret (Inr ())
           }
       }
   }"

definition Promote :: "engine \<Rightarrow> string \<Rightarrow> string \<Rightarrow> action_class \<Rightarrow> string \<Rightarrow> (store, int res) state" where
  "Promote e trace tool class scope0 =
     (if pol_by_name (e_policy e) tool = None then ret (Inl InvalidArgument)
      else if \<not> valid_class class then ret (Inl InvalidArgument)
      else let scope = normalizeScope scope0 in do {
        st \<leftarrow> loadState tool class scope;
        case st of
          Inl err \<Rightarrow> ret (Inl err)
        | Inr row \<Rightarrow>
            let from = au_level row; to = (if 4 < from + 1 then 4 else from + 1) in do {
              sv \<leftarrow> saveState tool class scope to 0;
              case sv of
                Inl err \<Rightarrow> ret (Inl err)
              | Inr _ \<Rightarrow> do {
                  ledgerRaw e trace ''promoted''
                    [(''event'', JStr ''promoted''), (''tool'', JStr tool), (''class'', JClass class),
                     (''scope'', JStr scope), (''from_level'', JInt from), (''to_level'', JInt to)];
                  ret (Inr to)
                }
            }
      })"

definition ListState :: "(store, autonomy_row list res) state" where
  "ListState = ListAutonomyState"

section \<open>One-time tokens\<close>

record consume_input =
  co_token :: string
  co_tool :: string
  co_class :: action_class
  co_scope :: string
  co_task :: string
  co_trace :: string
  co_tool_input :: string

definition verify_failed :: "engine \<Rightarrow> consume_input \<Rightarrow> string \<Rightarrow> (store, unit) state" where
  "verify_failed e ci why = ledgerRaw e (co_trace ci) ''token_verify_failed''
     [(''event'', JStr ''token_verify_failed''), (''tool'', JStr (co_tool ci)),
      (''task_id'', JStr (co_task ci)), (''reason'', JStr why)]"

definition failFromHash :: "engine \<Rightarrow> consume_input \<Rightarrow> string \<Rightarrow> string \<Rightarrow> (store, unit res) state" where
  "failFromHash e ci hash why = do {
     verify_failed e ci why;
     r \<leftarrow> GetApprovalToken hash;
     case r of
       Inl _ \<Rightarrow> ret (Inl ErrTokenInvalid)
     | Inr row \<Rightarrow>
         if tk_revoked row \<noteq> None then do {
           ledgerRaw e (co_trace ci) ''token_halt_revoked''
             [(''event'', JStr ''token_halt_revoked''), (''tool'', JStr (tk_tool row)),
              (''task_id'', JStr (co_task ci))];
           ret (Inl ErrTokenInvalid)
         } else do {
           demote e (tk_tool row) (tk_class row) (tk_scope row) (co_trace ci)
             (''token_verify_failed:'' @ why);
           ret (Inl ErrTokenInvalid)
         }
   }"

text \<open>The checks on the row of a token that has just been burnt; \<open>Some\<close> is the failure.\<close>

definition token_mismatch :: "engine \<Rightarrow> consume_input \<Rightarrow> int \<Rightarrow> token_row \<Rightarrow> string option" where
  "token_mismatch e ci t row =
     (if tk_task row \<noteq> co_task ci \<or> tk_tool row \<noteq> co_tool ci then Some ''context_mismatch''
      else if (case parse_stamp (tk_expires row) of None \<Rightarrow> True | Some x \<Rightarrow> x < t) then Some ''expired''
      else if tk_bytes_hash row \<noteq> approvedBytesHash e (co_tool_input ci) then Some ''hash_mismatch''
      else None)"

definition ConsumeToken :: "engine \<Rightarrow> consume_input \<Rightarrow> (store, unit res) state" where
  "ConsumeToken e ci =
     (case hex_decode (co_token ci) of
        None \<Rightarrow> do { verify_failed e ci ''malformed_token''; ret (Inl ErrTokenInvalid) }
      | Some raw \<Rightarrow>
          if length raw \<noteq> 32 then do { verify_failed e ci ''malformed_token''; ret (Inl ErrTokenInvalid) }
          else let hash = rawBytesHash raw in do {
            t \<leftarrow> now;
            r \<leftarrow> ConsumeApprovalToken (Stamp t) hash;
            case r of
              Inl _ \<Rightarrow> failFromHash e ci hash ''update_error''
            | Inr n \<Rightarrow>
                if n = 0 then failFromHash e ci hash ''replay_or_unknown''
                else do {
                  g \<leftarrow> GetApprovalToken hash;
                  case g of
                    Inl _ \<Rightarrow> failFromHash e ci hash ''lookup_error''
                  | Inr row \<Rightarrow>
                      (case token_mismatch e ci t row of
                         Some why \<Rightarrow> failFromHash e ci hash why
                       | None \<Rightarrow> ret (Inr ()))
                }
          })"

section \<open>Undo windows\<close>

definition fireUndoExpiryHook :: "engine \<Rightarrow> string \<Rightarrow> string \<Rightarrow> string \<Rightarrow> (store, unit) state" where
  "fireUndoExpiryHook e trace task tool =
     (if e_undo_expiry_hook e then notice (UndoExpiryHook trace task tool) else ret ())"

definition undo_payload :: "string \<Rightarrow> undo_row \<Rightarrow> payload" where
  "undo_payload ev w = [(''event'', JStr ev), (''task_id'', JStr (uw_task w)), (''tool'', JStr (uw_tool w))]"

definition sweep_window :: "engine \<Rightarrow> int \<Rightarrow> undo_row \<Rightarrow> int \<Rightarrow> (store, int) state" where
  "sweep_window e t w n =
     (case parse_stamp (uw_deadline w) of
        None \<Rightarrow> ret n
      | Some deadline \<Rightarrow>
          if t < deadline then ret n
          else do {
            r \<leftarrow> SetUndoWindowState UndoExpired (uw_id w);
            case r of
              Inl _ \<Rightarrow> ret n
            | Inr _ \<Rightarrow> do {
                ledgerRaw e (uw_trace w) ''undo_window_expired'' (undo_payload ''undo_window_expired'' w);
                fireUndoExpiryHook e (uw_trace w) (uw_task w) (uw_tool w);
                ret (n + 1)
              }
          })"

definition SweepExpiredUndoWindows :: "engine \<Rightarrow> (store, int res) state" where
  "SweepExpiredUndoWindows e = do {
     r \<leftarrow> ListOpenUndoWindows;
     case r of
       Inl err \<Rightarrow> ret (Inl err)
     | Inr rows \<Rightarrow> do {
         t \<leftarrow> now;
         n \<leftarrow> for_each rows (sweep_window e t) 0;
         ret (Inr n)
       }
   }"

definition TriggerUndo :: "engine \<Rightarrow> string \<Rightarrow> (store, undo_row res) state" where
  "TriggerUndo e trace = do {
     r \<leftarrow> GetOpenUndoWindowByTrace trace;
     case r of
       Inl err \<Rightarrow> ret (Inl (if err = NoRows then ErrNoOpenUndoWindow else err))
     | Inr row \<Rightarrow> do {
         t \<leftarrow> now;
         (if (case parse_stamp (uw_deadline row) of Some deadline \<Rightarrow> deadline < t | None \<Rightarrow> False)
          then do {
            _ \<leftarrow> SetUndoWindowState UndoExpired (uw_id row);
            ledgerRaw e trace ''undo_window_expired'' (undo_payload ''undo_window_expired'' row);
            fireUndoExpiryHook e trace (uw_task row) (uw_tool row);
            ret (Inl ErrNoOpenUndoWindow)
          }
          else do {
            u \<leftarrow> SetUndoWindowState UndoTriggered (uw_id row);
            case u of
              Inl err \<Rightarrow> ret (Inl err)
            | Inr _ \<Rightarrow> do {
                ledgerRaw e trace ''undo_triggered'' (undo_payload ''undo_triggered'' row);
                (let class = (case pol_by_name (e_policy e) (uw_tool row) of
                    Some t \<Rightarrow> tr_class t | None \<Rightarrow> no_class)
                 in demote e (uw_tool row) class ''global'' trace ''undo'');
                ret (Inr row)
              }
          })
       }
   }"

section \<open>Emergency halt\<close>

definition invalidate_row :: "engine \<Rightarrow> string \<Rightarrow> string \<Rightarrow> int \<Rightarrow> pending_row \<Rightarrow> int \<Rightarrow> (store, int) state" where
  "invalidate_row e trace task t row n = do {
     r \<leftarrow> ConsumePendingApproval (Stamp t) (pa_id row);
     case r of
       Inl err \<Rightarrow> do {
         ledgerRaw e trace ''approval_invalidate_failed''
           [(''event'', JStr ''approval_invalidate_failed''), (''pending_approval_id'', JStr (pa_id row)),
            (''task_id'', JStr task), (''err'', JErr err)];
         ret n
       }
     | Inr affected \<Rightarrow>
         if affected = 0 then ret n
         else do {
           ledgerRaw e trace ''approval.invalidated''
             [(''event'', JStr ''approval.invalidated''), (''pending_approval_id'', JStr (pa_id row)),
              (''task_id'', JStr task), (''tool'', JStr (pa_tool row)), (''class'', JClass (pa_class row))];
           (if e_invalidated_hook e
            then notice (InvalidatedHook \<lparr>pi_id = pa_id row, pi_tool = pa_tool row,
                   pi_class = pa_class row, pi_scope = pa_scope row, pi_input = pa_input row,
                   pi_minted = Unparsable, pi_trace = trace, pi_task = task\<rparr>)
            else ret ());
           ret (n + 1)
         }
   }"

definition InvalidateApprovalsForTask :: "engine \<Rightarrow> string \<Rightarrow> string \<Rightarrow> (store, int res) state" where
  "InvalidateApprovalsForTask e trace task = do {
     l \<leftarrow> ListUnconsumedPendingApprovalsByTask task;
     case l of
       Inl err \<Rightarrow> ret (Inl err)
     | Inr rows \<Rightarrow> do {
         t \<leftarrow> now;
         n \<leftarrow> for_each rows (invalidate_row e trace task t) 0;
         r \<leftarrow> RevokeApprovalTokensByTask (Stamp t) task;
         (case r of
            Inl err \<Rightarrow> ledgerRaw e trace ''approval_token_revoke_failed''
              [(''event'', JStr ''approval_token_revoke_failed''), (''task_id'', JStr task), (''err'', JErr err)]
          | Inr _ \<Rightarrow> ret ());
         ret (Inr n)
       }
   }"

section \<open>Listing and debugging\<close>

definition pending_info_of :: "int \<Rightarrow> pending_row \<Rightarrow> pending_info" where
  "pending_info_of t r =
     \<lparr>pi_id = pa_id r, pi_tool = pa_tool r, pi_class = pa_class r, pi_scope = pa_scope r,
      pi_input = pa_input r,
      pi_minted = (case parse_stamp (pa_minted r) of Some m \<Rightarrow> Stamp m | None \<Rightarrow> Stamp t),
      pi_trace = pa_trace r, pi_task = pa_task r\<rparr>"

definition ListPendingApprovals :: "(store, pending_info list res) state" where
  "ListPendingApprovals = do {
     l \<leftarrow> ListUnconsumedPendingApprovals;
     t \<leftarrow> now;
     ret (case l of
            Inl err \<Rightarrow> Inl err
          | Inr rows \<Rightarrow> Inr (map (pending_info_of t)
              (filter (\<lambda>r. case parse_stamp (pa_expires r) of None \<Rightarrow> False | Some x \<Rightarrow> \<not> x < t) rows)))
   }"

definition GetPendingApprovalDetail :: "string \<Rightarrow> (store, pending_info res) state" where
  "GetPendingApprovalDetail i = do {
     v \<leftarrow> getValidPendingApproval i;
     t \<leftarrow> now;
     ret (case v of Inl err \<Rightarrow> Inl err | Inr pa \<Rightarrow> Inr (pending_info_of t pa))
   }"

definition DebugEmitPendingApproval :: "engine \<Rightarrow> string \<Rightarrow> action_class \<Rightarrow> (store, string res) state" where
  "DebugEmitPendingApproval e trace class =
     (if class \<noteq> ClassW2 \<and> class \<noteq> ClassW3 then ret (Inl InvalidArgument)
      else let name = (if class = ClassW2 then ''w2'' else ''w3'');
               label = (if class = ClassW2 then ''W2'' else ''W3'');
               quote = [CHR 0x22];
               input = ''{'' @ quote @ ''debug_emit_approval'' @ quote @ '':true,'' @ quote @ ''class'' @ quote
                       @ '':'' @ quote @ label @ quote @ ''}''
           in mintPendingApproval e (''debug-emit-approval-'' @ trace) trace (''debug_emit_'' @ name)
                class ''global'' (approvedBytesHash e input) input)"

end
