(* ===== verification/Policy_Laws.thy ===== *)
theory Policy_Laws
  imports Policy_Engine
begin

text \<open>
  What every operation of the policy engine keeps.  The engine's only writes are the ladder's
  (\<open>demote\<close>, the bookkeeping of an approval, \<open>Promote\<close>) and nine statements on three tables;
  the locale \<open>engine_preorder\<close> states what a relation has to tolerate of them, and every
  operation of the engine then keeps the relation.  \<open>engine_writes\<close> is the usual way to get
  there: the two statements on \<open>autonomy_state\<close> keep it as well.  The interpretations are the
  relations the properties need: burnt credentials stay burnt, the ledger grows at its end,
  ladder levels stay in range, levels never rise without \<open>Promote\<close>, the tables of other
  components are untouched.
\<close>

locale engine_preorder = store_preorder +
  assumes keeps_insert_token [keeps_rules]: "state_io_rel R (InsertApprovalToken tk)"
    and keeps_consume_token [keeps_rules]: "state_io_rel R (ConsumeApprovalToken at h)"
    and keeps_revoke_tokens [keeps_rules]: "state_io_rel R (RevokeApprovalTokensByTask at task)"
    and keeps_insert_pending [keeps_rules]: "state_io_rel R (InsertPendingApproval pa)"
    and keeps_consume_pending [keeps_rules]: "state_io_rel R (ConsumePendingApproval at i)"
    and keeps_openUndoWindow [keeps_rules]: "state_io_rel R (openUndoWindow e task tool trace)"
    and keeps_expire_undo [keeps_rules]: "state_io_rel R (SetUndoWindowState UndoExpired wid)"
    and keeps_trigger_undo [keeps_rules]: "state_io_rel R (SetUndoWindowState UndoTriggered wid)"
    and keeps_demote [keeps_rules]: "state_io_rel R (demote e tool class scope trace why)"
    and keeps_bookkeeping [keeps_rules]: "state_io_rel R (approve_bookkeeping e pa surface)"
begin

lemma keeps_ledgerRaw [keeps_rules]: "state_io_rel R (ledgerRaw e trace kind p)"
  unfolding ledgerRaw_def by (intro keeps_rules)

lemma keeps_ledgerDecision [keeps_rules]: "state_io_rel R (ledgerDecision e ci class scope level d)"
  unfolding ledgerDecision_def by (intro keeps_rules)

lemma keeps_mints [keeps_rules]:
  "state_io_rel R (mintToken e a b c d f g)"
  "state_io_rel R (mintPendingApproval e a b c d f g h)"
  unfolding mintToken_def mintPendingApproval_def by (intro keeps_rules)+

lemma keeps_openUndoWindowOrLog [keeps_rules]: "state_io_rel R (openUndoWindowOrLog e a b c)"
  unfolding openUndoWindowOrLog_def by (intro keeps_rules)

lemma keeps_pending_helpers [keeps_rules]:
  "state_io_rel R (getValidPendingApproval i)"
  "state_io_rel R (consumePendingApproval i)"
  "state_io_rel R (ResolveSession trace task)"
  "state_io_rel R (loadState tool class scope)"
  unfolding getValidPendingApproval_def consumePendingApproval_def ResolveSession_def loadState_def
  by (intro keeps_rules)+

lemma keeps_taint_Get [keeps_rules]: "state_io_rel R (taint_Get sid)"
  unfolding taint_Get_def by (intro keeps_rules)

lemma keeps_check_parts [keeps_rules]:
  "state_io_rel R (denyIfTainted e ci class scope sid)"
  "state_io_rel R (needsApproval e ci class scope level hash why)"
  unfolding denyIfTainted_def needsApproval_def by (intro keeps_rules)+

lemma keeps_check_session [keeps_rules]: "state_io_rel R (check_session e ci class scope)"
  unfolding check_session_def by (intro keeps_rules)

lemma keeps_check_ladder [keeps_rules]: "state_io_rel R (check_ladder e ci class scope hash)"
  unfolding check_ladder_def by (intro keeps_rules)

lemma keeps_Check [keeps_rules]: "state_io_rel R (Check e input)"
  unfolding Check_def by (intro keeps_rules)

lemma keeps_Approve [keeps_rules]: "state_io_rel R (Approve e i surface typed)"
  unfolding Approve_def approve_w3_gate_def by (intro keeps_rules)

lemma keeps_Deny [keeps_rules]: "state_io_rel R (Deny e i)"
  unfolding Deny_def by (intro keeps_rules)

lemma keeps_failFromHash [keeps_rules]: "state_io_rel R (failFromHash e ci h why)"
  unfolding failFromHash_def verify_failed_def by (intro keeps_rules)

lemma keeps_ConsumeToken [keeps_rules]: "state_io_rel R (ConsumeToken e ci)"
  unfolding ConsumeToken_def verify_failed_def by (intro keeps_rules)

lemma keeps_sweep_window [keeps_rules]: "state_io_rel R (sweep_window e t w n)"
  unfolding sweep_window_def fireUndoExpiryHook_def by (intro keeps_rules)

lemma keeps_undo_ops [keeps_rules]:
  "state_io_rel R (SweepExpiredUndoWindows e)"
  "state_io_rel R (TriggerUndo e trace)"
  unfolding SweepExpiredUndoWindows_def TriggerUndo_def fireUndoExpiryHook_def
  by (intro keeps_rules)+

lemma keeps_invalidate_row [keeps_rules]: "state_io_rel R (invalidate_row e trace task t row n)"
  unfolding invalidate_row_def by (intro keeps_rules)

lemma keeps_halt [keeps_rules]: "state_io_rel R (InvalidateApprovalsForTask e trace task)"
  unfolding InvalidateApprovalsForTask_def by (intro keeps_rules)

lemma keeps_listing [keeps_rules]:
  "state_io_rel R ListState" "state_io_rel R ListPendingApprovals"
  "state_io_rel R (GetPendingApprovalDetail i)" "state_io_rel R (DebugEmitPendingApproval e trace class)"
  unfolding ListState_def ListPendingApprovals_def GetPendingApprovalDetail_def
    DebugEmitPendingApproval_def
  by (intro keeps_rules)+

end

text \<open>A relation the two statements on the ladder's table keep as well.\<close>

locale engine_writes = store_preorder +
  assumes w_insert_token: "state_io_rel R (InsertApprovalToken tk)"
    and w_consume_token: "state_io_rel R (ConsumeApprovalToken at h)"
    and w_revoke_tokens: "state_io_rel R (RevokeApprovalTokensByTask at task)"
    and w_insert_pending: "state_io_rel R (InsertPendingApproval pa)"
    and w_consume_pending: "state_io_rel R (ConsumePendingApproval at i)"
    and w_insert_undo [keeps_rules]: "state_io_rel R (InsertUndoWindow task tool trace o1 o2)"
    and w_set_undo: "state_io_rel R (SetUndoWindowState st wid)"
    and w_insert_autonomy [keeps_rules]: "state_io_rel R (InsertAutonomyState au)"
    and w_update_autonomy [keeps_rules]: "state_io_rel R (UpdateAutonomyState l a u tool class scope)"
begin

lemma w_saveState [keeps_rules]: "state_io_rel R (saveState tool class scope level approvals)"
  unfolding saveState_def by (intro keeps_rules)

lemma w_loadState [keeps_rules]: "state_io_rel R (loadState tool class scope)"
  unfolding loadState_def by (intro keeps_rules)

lemma w_ledgerRaw [keeps_rules]: "state_io_rel R (ledgerRaw e trace kind p)"
  unfolding ledgerRaw_def by (intro keeps_rules)

lemma w_openUndoWindow: "state_io_rel R (openUndoWindow e task tool trace)"
  unfolding openUndoWindow_def by (intro keeps_rules)

lemma w_demote: "state_io_rel R (demote e tool class scope trace why)"
  unfolding demote_def by (intro keeps_rules)

lemma w_bookkeeping: "state_io_rel R (approve_bookkeeping e pa surface)"
  unfolding approve_bookkeeping_def by (intro keeps_rules)

lemma w_Promote [keeps_rules]: "state_io_rel R (Promote e trace tool class scope)"
  unfolding Promote_def by (intro keeps_rules)

end

sublocale engine_writes \<subseteq> engine_preorder
  by unfold_locales
     (rule w_insert_token w_consume_token w_revoke_tokens w_insert_pending w_consume_pending
        w_openUndoWindow w_set_undo w_demote w_bookkeeping)+

section \<open>Credentials stay burnt\<close>

definition token_burnt :: "string \<Rightarrow> store \<Rightarrow> bool" where
  "token_burnt h s \<longleftrightarrow> burnt_in tk_hash tk_used h (tokens s)"

definition pending_burnt :: "string \<Rightarrow> store \<Rightarrow> bool" where
  "pending_burnt i s \<longleftrightarrow> burnt_in pa_id pa_used i (pendings s)"

definition burnt_forward :: "store \<Rightarrow> store \<Rightarrow> bool" where
  "burnt_forward s s' \<longleftrightarrow> (\<forall>h. token_burnt h s \<longrightarrow> token_burnt h s')
     \<and> (\<forall>i. pending_burnt i s \<longrightarrow> pending_burnt i s')
     \<and> tk_hash ` set (tokens s) \<subseteq> tk_hash ` set (tokens s')
     \<and> pa_id ` set (pendings s) \<subseteq> pa_id ` set (pendings s')"

lemmas burnt_defs = burnt_forward_def token_burnt_def pending_burnt_def

lemma burnt_forward_trans: "burnt_forward s t \<Longrightarrow> burnt_forward t u \<Longrightarrow> burnt_forward s u"
  unfolding burnt_forward_def
  by (elim conjE, intro conjI) (blast | erule (1) subset_trans)+

lemma burnt_forward_same: "tokens s' = tokens s \<Longrightarrow> pendings s' = pendings s \<Longrightarrow> burnt_forward s s'"
  by (simp add: burnt_defs)

interpretation burnt: store_preorder burnt_forward
  by unfold_locales (simp_all add: burnt_forward_same, rule burnt_forward_trans)

text \<open>Revoking a task's tokens is a burn by task; by hash it burns too.\<close>

lemma revoke_keeps_hashes:
  "tk_hash ` set (snd (burn tk_task tk_used (revoke_token at) t rows)) = tk_hash ` set rows"
proof -
  have "map tk_hash (snd (burn tk_task tk_used (revoke_token at) t rows)) = map tk_hash rows"
    by (simp add: burn_def Let_def revoke_token_def)
  then show ?thesis by (metis set_map)
qed

lemma revoke_keeps_burnt:
  assumes "burnt_in tk_hash tk_used h rows"
  shows "burnt_in tk_hash tk_used h (snd (burn tk_task tk_used (revoke_token at) t rows))"
proof -
  let ?rows = "snd (burn tk_task tk_used (revoke_token at) t rows)"
  have "tk_used r" if "r \<in> set ?rows" "tk_hash r = h" for r
    using that assms revoke_shot.used_mark
    by (auto simp: burnt_in_def burn_def Let_def set_update_where)
  then show ?thesis using assms by (simp add: burnt_in_def revoke_keeps_hashes)
qed

interpretation burnt: engine_writes burnt_forward
proof unfold_locales
  show "state_io_rel burnt_forward (InsertApprovalToken tk)" for tk
    unfolding InsertApprovalToken_def
    by (rule burnt.keeps_db) (auto simp: burnt_defs burnt_in_append)
  show "state_io_rel burnt_forward (InsertPendingApproval pa)" for pa
    unfolding InsertPendingApproval_def
    by (rule burnt.keeps_db) (auto simp: burnt_defs burnt_in_append)
  show "state_io_rel burnt_forward (ConsumeApprovalToken at h)" for at h
    unfolding ConsumeApprovalToken_def
    by (rule burnt.keeps_db) (simp add: case_prod_beta burnt_defs token_shot.burn_keeps_burnt
        token_shot.keys_image_burn)
  show "state_io_rel burnt_forward (RevokeApprovalTokensByTask at t)" for at t
    unfolding RevokeApprovalTokensByTask_def
    by (rule burnt.keeps_db) (simp add: case_prod_beta burnt_defs revoke_keeps_burnt revoke_keeps_hashes)
  show "state_io_rel burnt_forward (ConsumePendingApproval at i)" for at i
    unfolding ConsumePendingApproval_def
    by (rule burnt.keeps_db) (simp add: case_prod_beta burnt_defs pending_shot.burn_keeps_burnt
        pending_shot.keys_image_burn)
qed (unfold InsertUndoWindow_def SetUndoWindowState_def InsertAutonomyState_def UpdateAutonomyState_def,
     (rule burnt.keeps_db,
      simp add: burnt_defs Let_def)+)

section \<open>The ledger only grows, and other components' tables stay as they are\<close>

definition ledger_grows :: "store \<Rightarrow> store \<Rightarrow> bool" where
  "ledger_grows s s' \<longleftrightarrow> (\<exists>evs. events s' = events s @ evs)"

interpretation ledger: store_preorder ledger_grows
  by unfold_locales (auto simp: ledger_grows_def)

interpretation ledger: engine_writes ledger_grows
  by (unfold_locales; unfold InsertApprovalToken_def ConsumeApprovalToken_def
      RevokeApprovalTokensByTask_def InsertPendingApproval_def ConsumePendingApproval_def
      InsertUndoWindow_def SetUndoWindowState_def InsertAutonomyState_def UpdateAutonomyState_def;
      rule ledger.keeps_db; simp add: ledger_grows_def Let_def case_prod_beta)

definition other_tables :: "store \<Rightarrow> store \<Rightarrow> bool" where
  "other_tables s s' \<longleftrightarrow> tasks s' = tasks s \<and> calls s' = calls s \<and> outbox s' = outbox s
     \<and> taints s' = taints s \<and> clock s' = clock s"

interpretation others: store_preorder other_tables
  by unfold_locales (auto simp: other_tables_def)

interpretation others: engine_writes other_tables
  by (unfold_locales; unfold InsertApprovalToken_def ConsumeApprovalToken_def
      RevokeApprovalTokensByTask_def InsertPendingApproval_def ConsumePendingApproval_def
      InsertUndoWindow_def SetUndoWindowState_def InsertAutonomyState_def UpdateAutonomyState_def;
      rule others.keeps_db; simp add: other_tables_def Let_def case_prod_beta)

section \<open>A database that has stopped failing, and the primary keys\<close>

definition stays_healthy :: "store \<Rightarrow> store \<Rightarrow> bool" where
  "stays_healthy s s' \<longleftrightarrow> (faults s = [] \<longrightarrow> faults s' = [])"

interpretation healthy: store_preorder stays_healthy
  by unfold_locales (auto simp: stays_healthy_def)

interpretation healthy: engine_writes stays_healthy
  by (unfold_locales; unfold InsertApprovalToken_def ConsumeApprovalToken_def
      RevokeApprovalTokensByTask_def InsertPendingApproval_def ConsumePendingApproval_def
      InsertUndoWindow_def SetUndoWindowState_def InsertAutonomyState_def UpdateAutonomyState_def;
      rule healthy.keeps_db; simp add: stays_healthy_def Let_def case_prod_beta)

text \<open>The columns the schema declares as primary keys.\<close>

definition keys_unique :: "store \<Rightarrow> bool" where
  "keys_unique s \<longleftrightarrow> distinct (map tk_hash (tokens s)) \<and> distinct (map pa_id (pendings s))
     \<and> distinct (map au_key (autonomy s)) \<and> distinct (map uw_id (undos s))
     \<and> (\<forall>w \<in> set (undos s). uw_id w < next_undo s)"

definition keeps_keys :: "store \<Rightarrow> store \<Rightarrow> bool" where
  "keeps_keys s s' \<longleftrightarrow> (keys_unique s \<longrightarrow> keys_unique s')"

interpretation keys: store_preorder keeps_keys
  by unfold_locales (auto simp: keeps_keys_def keys_unique_def)

interpretation keys: engine_writes keeps_keys
proof unfold_locales
  show "state_io_rel keeps_keys (RevokeApprovalTokensByTask at t)" for at t
    unfolding RevokeApprovalTokensByTask_def
    by (rule keys.keeps_db)
       (simp add: case_prod_beta keeps_keys_def keys_unique_def burn_def Let_def revoke_token_def)
  show "state_io_rel keeps_keys (InsertUndoWindow task tool trace o1 o2)" for task tool trace o1 o2
    unfolding InsertUndoWindow_def
    by (rule keys.keeps_db) (fastforce simp: keeps_keys_def keys_unique_def Let_def)
  show "state_io_rel keeps_keys (SetUndoWindowState st wid)" for st wid
    unfolding SetUndoWindowState_def
    by (rule keys.keeps_db) (auto simp: keeps_keys_def keys_unique_def set_update_where)
qed (unfold InsertApprovalToken_def ConsumeApprovalToken_def InsertPendingApproval_def
       ConsumePendingApproval_def InsertAutonomyState_def UpdateAutonomyState_def,
     (rule keys.keeps_db,
      simp add: keeps_keys_def keys_unique_def au_key_def Let_def case_prod_beta
        token_shot.keys_burn pending_shot.keys_burn)+)

end
