(* ===== verification/Policy_Facts.thy ===== *)
theory Policy_Facts
  imports Policy_Laws
begin

text \<open>
  What the parts of the engine return: the facts the properties of the decision, of approvals
  and of tokens are assembled from.  Each is a \<open>wp\<close> statement over an arbitrary state and an
  arbitrary fault schedule.
\<close>

section \<open>Calls that change no table\<close>

definition same_tables :: "store \<Rightarrow> store \<Rightarrow> bool" where
  "same_tables s s' \<longleftrightarrow> autonomy s' = autonomy s \<and> tokens s' = tokens s \<and> pendings s' = pendings s
     \<and> undos s' = undos s \<and> tasks s' = tasks s \<and> calls s' = calls s \<and> outbox s' = outbox s
     \<and> taints s' = taints s \<and> clock s' = clock s"

interpretation same: store_preorder same_tables
  by unfold_locales (auto simp: same_tables_def)

lemma same_ledgerRaw [keeps_rules]: "state_io_rel same_tables (ledgerRaw e trace kind p)"
  unfolding ledgerRaw_def by (intro keeps_rules)

lemma same_ledgerDecision [keeps_rules]: "state_io_rel same_tables (ledgerDecision e ci class scope l d)"
  unfolding ledgerDecision_def by (intro keeps_rules)

lemma same_taint_Get [keeps_rules]: "state_io_rel same_tables (taint_Get sid)"
  unfolding taint_Get_def by (intro keeps_rules)

lemma same_session_parts [keeps_rules]:
  "state_io_rel same_tables (ResolveSession trace task)"
  "state_io_rel same_tables (denyIfTainted e ci class scope sid)"
  "state_io_rel same_tables (loadState tool class scope)"
  "state_io_rel same_tables (getValidPendingApproval i)"
  "state_io_rel same_tables (approve_w3_gate e pa surface typed)"
  unfolding ResolveSession_def denyIfTainted_def loadState_def getValidPendingApproval_def
    approve_w3_gate_def
  by (intro keeps_rules)+

lemma same_check_session [keeps_rules]: "state_io_rel same_tables (check_session e ci class scope)"
  unfolding check_session_def by (intro keeps_rules)

lemma same_tables_session_clean: "same_tables s s' \<Longrightarrow> session_clean s' sid \<longleftrightarrow> session_clean s sid"
  by (simp add: same_tables_def session_clean_def)

section \<open>Sessions\<close>

definition persisted_session :: "store \<Rightarrow> string \<Rightarrow> string \<Rightarrow> string \<Rightarrow> bool" where
  "persisted_session s trace task sid \<longleftrightarrow>
     (\<exists>row \<in> set (tasks s). t_session row = Some sid \<and> (t_id row = task \<or> t_trace row = trace))"

lemma wp_select_oneI:
  assumes "\<And>fs. Q (Inl DbError) (s\<lparr>faults := fs\<rparr>)"
    and "\<And>fs. f s = None \<Longrightarrow> Q (Inl NoRows) (s\<lparr>faults := fs\<rparr>)"
    and "\<And>fs r. f s = Some r \<Longrightarrow> Q (Inr r) (s\<lparr>faults := fs\<rparr>)"
    and "\<And>fs. f (s\<lparr>faults := fs\<rparr>) = f s"
  shows "wp (select_one f) Q s"
  unfolding select_one_def
  by (rule wp_dbI) (use assms in \<open>auto split: option.splits\<close>)

lemma ResolveSession_persisted:
  "wp (ResolveSession trace task)
     (\<lambda>r s'. same_tables s s' \<and> (\<forall>sid. r = Inr sid \<longrightarrow> sid = '''' \<or> persisted_session s trace task sid)) s"
proof -
  have by_task: "wp (if task \<noteq> '''' then do {
         r \<leftarrow> GetTaskByID task;
         ret (case r of
                Inr row \<Rightarrow> (case t_session row of
                    Some sid \<Rightarrow> if sid \<noteq> '''' then Some (Inr sid) else None
                  | None \<Rightarrow> None)
              | Inl err \<Rightarrow> if err = NoRows then None else Some (Inl err))
       } else ret None)
     (\<lambda>r s'. same_tables s s' \<and> (\<forall>sid. r = Some (Inr sid) \<longrightarrow> persisted_session s trace task sid)) s"
    unfolding wp_if wp_bind wp_return GetTaskByID_def
    by (auto intro!: wp_select_oneI simp: same_tables_def persisted_session_def
        dest: find_Some_in split: option.splits if_splits)
  show ?thesis
    unfolding ResolveSession_def
    apply (rule wp_bind_mono [OF by_task])
    unfolding wp_case_option wp_if wp_bind wp_return GetTaskSessionByTrace_def
    by (auto intro!: wp_select_oneI simp: same_tables_def persisted_session_def
        dest: newest_by_in split: option.splits sum.splits)
qed

text \<open>The session switch denies, or lets a clean, server-persisted session through.\<close>

lemma denyIfTainted_spec:
  "wp (denyIfTainted e ci class scope sid)
     (\<lambda>r s'. (case r of
        Some d \<Rightarrow> d = deny_decision ReasonTaintedSession RuleTaintedSessionV1 class scope 0
      | None \<Rightarrow> session_clean s sid)) s"
proof -
  have g: "wp (taint_Get sid) (\<lambda>(tier, err) s'. tier = TierClean \<longrightarrow> session_clean s sid) s"
    by (rule taint_Get_clean)
  show ?thesis
    unfolding denyIfTainted_def
    apply (rule wp_bind_mono [OF g])
    subgoal for a s'
      by (cases a; cases "fst a") (auto simp: Let_def wp_return intro!: wp_bindI)
    done
qed

lemma check_session_spec:
  assumes "e_taint_checker e" "e_session_resolver e" "class \<noteq> ClassR"
  shows "wp (check_session e ci class scope)
     (\<lambda>r s'. (case r of
        Some d \<Rightarrow> d = deny_decision ReasonTaintedSession RuleTaintedSessionV1 class scope 0
      | None \<Rightarrow> \<exists>sid. persisted_session s (ci_trace ci) (ci_task ci) sid \<and> session_clean s sid)) s"
  using assms
  unfolding check_session_def
  apply simp
  apply (rule wp_bind_mono [OF ResolveSession_persisted])
  apply (elim conjE)
  subgoal premises p for r s'
  proof (cases "isl r \<or> r = Inr ''''")
    case True
    then show ?thesis
      by (auto simp: Let_def wp_return intro!: wp_bindI)
  next
    case False
    then obtain sid where sid: "r = Inr sid" "sid \<noteq> ''''" by (cases r) auto
    have "wp (denyIfTainted e ci class scope sid)
        (\<lambda>r _. (case r of
            Some d \<Rightarrow> d = deny_decision ReasonTaintedSession RuleTaintedSessionV1 class scope 0
          | None \<Rightarrow> \<exists>sid. persisted_session s (ci_trace ci) (ci_task ci) sid \<and> session_clean s sid)) s'"
      by (rule wp_mono [OF denyIfTainted_spec])
         (use p sid same_tables_session_clean in \<open>auto split: option.splits\<close>)
    with sid show ?thesis by (simp add: wp_return wp_bind)
  qed
  done

lemma check_session_denies:
  "wp (check_session e ci class scope)
     (\<lambda>r s'. \<forall>d. r = Some d \<longrightarrow> d_result d = ResultDeny) s"
proof -
  have d: "wp (denyIfTainted e ci class scope sid) (\<lambda>r s'. \<forall>d. r = Some d \<longrightarrow> d_result d = ResultDeny) s"
    for sid s
    by (rule wp_mono [OF denyIfTainted_spec]) (auto simp: deny_decision_def split: option.splits)
  show ?thesis
    unfolding check_session_def
    by (auto simp: wp_return Let_def deny_decision_def intro!: d wp_bindI)
qed

section \<open>Calls that leave the credentials alone\<close>

definition credentials_kept :: "store \<Rightarrow> store \<Rightarrow> bool" where
  "credentials_kept s s' \<longleftrightarrow> tokens s' = tokens s \<and> pendings s' = pendings s \<and> clock s' = clock s"

interpretation cred: store_preorder credentials_kept
  by unfold_locales (auto simp: credentials_kept_def)

lemma cred_statements [keeps_rules]:
  "state_io_rel credentials_kept (InsertUndoWindow task tool trace o1 o2)"
  "state_io_rel credentials_kept (SetUndoWindowState st wid)"
  "state_io_rel credentials_kept (InsertAutonomyState au)"
  "state_io_rel credentials_kept (UpdateAutonomyState l a u tool class scope)"
  unfolding InsertUndoWindow_def SetUndoWindowState_def InsertAutonomyState_def UpdateAutonomyState_def
  by (rule cred.keeps_db; simp add: credentials_kept_def Let_def)+

lemma cred_ledger [keeps_rules]:
  "state_io_rel credentials_kept (ledgerRaw e trace kind p)"
  "state_io_rel credentials_kept (ledgerDecision e ci class scope l d)"
  unfolding ledgerDecision_def ledgerRaw_def by (intro keeps_rules)+

lemma cred_ladder [keeps_rules]:
  "state_io_rel credentials_kept (loadState tool class scope)"
  "state_io_rel credentials_kept (saveState tool class scope level approvals)"
  unfolding loadState_def saveState_def by (intro keeps_rules)+

lemma cred_helpers [keeps_rules]:
  "state_io_rel credentials_kept (openUndoWindow e task tool trace)"
  "state_io_rel credentials_kept (demote e tool class scope trace why)"
  "state_io_rel credentials_kept (approve_bookkeeping e pa surface)"
  unfolding openUndoWindow_def demote_def approve_bookkeeping_def by (intro keeps_rules)+

lemma cred_openUndoWindowOrLog [keeps_rules]:
  "state_io_rel credentials_kept (openUndoWindowOrLog e task tool trace)"
  unfolding openUndoWindowOrLog_def by (intro keeps_rules)

section \<open>Ladder level and minted tokens\<close>

definition ladder_level :: "store \<Rightarrow> string \<Rightarrow> action_class \<Rightarrow> string \<Rightarrow> int" where
  "ladder_level s tool class scope =
     (case find (\<lambda>r. au_key r = (tool, class, scope)) (autonomy s) of
        None \<Rightarrow> 0 | Some r \<Rightarrow> au_level r)"

lemma same_tables_ladder:
  "same_tables s s' \<Longrightarrow> ladder_level s' tool class scope = ladder_level s tool class scope"
  by (simp add: same_tables_def ladder_level_def)

lemma loadState_spec:
  "wp (loadState tool class scope)
     (\<lambda>r s'. same_tables s s' \<and> (\<forall>row. r = Inr row \<longrightarrow> au_level row = ladder_level s tool class scope)) s"
  unfolding loadState_def GetAutonomyState_def wp_bind
  by (rule wp_select_oneI) (auto simp: wp_return same_tables_def ladder_level_def)

text \<open>
  A token is bound to an action when the row its hash leads to names the action's task, tool
  and approved bytes, expires a token lifetime from now and has not been consumed.
\<close>

definition token_bound :: "store \<Rightarrow> string \<Rightarrow> string \<Rightarrow> string \<Rightarrow> action_class \<Rightarrow> string \<Rightarrow> bool" where
  "token_bound s token task tool class approved \<longleftrightarrow>
     (\<exists>raw row. hex_decode token = Some raw \<and> length raw = 32
        \<and> find (\<lambda>r. tk_hash r = rawBytesHash raw) (tokens s) = Some row
        \<and> tk_task row = task \<and> tk_tool row = tool \<and> tk_class row = class
        \<and> tk_bytes_hash row = approved \<and> tk_expires row = Stamp (clock s + token_ttl)
        \<and> \<not> tk_used row)"

lemma credentials_kept_bound:
  "credentials_kept s s' \<Longrightarrow> token_bound s token task tool class approved \<Longrightarrow>
   token_bound s' token task tool class approved"
  by (simp add: credentials_kept_def token_bound_def)

lemma mintToken_spec:
  "wp (mintToken e task trace tool class scope approved)
     (\<lambda>r s'. \<forall>token. r = Inr token \<longrightarrow> valid_class class \<and> token_bound s' token task tool class approved) s"
  unfolding mintToken_def
  apply (rule wp_bind_mono [where P = "\<lambda>r s'. \<forall>raw. r = Inr raw \<longrightarrow> length raw = 32"])
   apply (rule wp_rand_readI; simp)
  subgoal for r s'
  proof (cases r)
    case (Inr raw)
    assume "\<forall>raw. r = Inr raw \<longrightarrow> length raw = 32"
    with Inr have "length raw = 32" by simp
    then show ?thesis
      unfolding Inr InsertApprovalToken_def sum.case wp_bind wp_now
      by (intro wp_dbI)
         (auto simp: wp_return token_bound_def find_append tk_used_def find_key_None
            split: if_splits)
  qed (simp add: wp_return)
  done

lemma check_ladder_allows:
  "wp (check_ladder e ci class scope hash)
     (\<lambda>(d, err) s'. d_result d = ResultAllow \<longrightarrow> err = None \<and> d_class d = class \<and> d_scope d = scope
        \<and> (\<exists>l. autoLevelFor class = Some l \<and> l \<le> ladder_level s (ci_tool ci) class scope)
        \<and> (class \<noteq> ClassR \<longrightarrow> token_bound s' (d_token d) (ci_task ci) (ci_tool ci) class hash)) s"
proof -
  let ?Q = "\<lambda>(d, err) s'. d_result d = ResultAllow \<longrightarrow> err = None \<and> d_class d = class \<and> d_scope d = scope
        \<and> (\<exists>l. autoLevelFor class = Some l \<and> l \<le> ladder_level s (ci_tool ci) class scope)
        \<and> (class \<noteq> ClassR \<longrightarrow> token_bound s' (d_token d) (ci_task ci) (ci_tool ci) class hash)"
  have asks: "wp (needsApproval e ci class scope level hash why) ?Q t" for level why t
    unfolding needsApproval_def
    by (rule wp_bindI) (auto simp: wp_return Let_def deny_decision_def intro!: wp_bindI split: sum.splits)
  have denied: "wp (do { ledgerDecision e ci class scope level d; ret (d, err) }) ?Q t"
    if "d_result d \<noteq> ResultAllow" for level d err t
    by (rule wp_bindI) (simp add: wp_return that)
  have allowed: "wp (do {
         (if class = ClassW1 then openUndoWindowOrLog e (ci_task ci) (ci_tool ci) (ci_trace ci) else ret ());
         ledgerDecision e ci class scope level d;
         ret (d, None)
       }) ?Q t"
    if "class \<noteq> ClassR \<longrightarrow> token_bound t (d_token d) (ci_task ci) (ci_tool ci) class hash"
      "autoLevelFor class = Some l" "l \<le> ladder_level s (ci_tool ci) class scope"
      "d_class d = class" "d_scope d = scope" for d l level t
  proof (rule wp_bind_rel [where R = credentials_kept])
    show "state_io_rel credentials_kept
      (if class = ClassW1 then openUndoWindowOrLog e (ci_task ci) (ci_tool ci) (ci_trace ci) else ret ())"
      by (intro keeps_rules)
  next
    fix u t' assume "credentials_kept t t'"
    then show "wp (do { ledgerDecision e ci class scope level d; ret (d, None) }) ?Q t'"
      using that credentials_kept_bound
      by (auto simp: wp_return intro!: wp_bind_rel [OF cred_ledger(2)])
  qed
  show ?thesis
    unfolding check_ladder_def
    apply (rule wp_bind_mono [OF loadState_spec])
    subgoal premises p for r s1
    proof (cases r)
      case (Inl err)
      then show ?thesis by (simp add: Let_def) (rule denied, simp add: deny_decision_def)
    next
      case (Inr row)
      with p have level: "au_level row = ladder_level s (ci_tool ci) class scope" by simp
      show ?thesis
      proof (cases "class = ClassW3 \<or> au_level row < (case autoLevelFor class of Some l \<Rightarrow> l | None \<Rightarrow> 0)")
        case True
        then show ?thesis using Inr asks by (auto simp: Let_def)
      next
        case False
        let ?mint = "if class \<noteq> ClassR
                then mintToken e (ci_task ci) (ci_trace ci) (ci_tool ci) class scope hash
                else ret (Inr '''')"
        let ?rest = "\<lambda>tok. case tok of
             Inl err \<Rightarrow> do {
               ledgerDecision e ci class scope (au_level row)
                 (deny_decision ReasonPolicyStateError RuleLadderV1 class scope (au_level row));
               ret (deny_decision ReasonPolicyStateError RuleLadderV1 class scope (au_level row), Some err)
             }
           | Inr token \<Rightarrow> do {
               (if class = ClassW1 then openUndoWindowOrLog e (ci_task ci) (ci_tool ci) (ci_trace ci)
                else ret ());
               let d = \<lparr>d_result = ResultAllow, d_reason = NoReason, d_rule = RuleLadderV1,
                        d_class = class, d_scope = scope, d_level = au_level row,
                        d_pending_id = '''', d_token = token\<rparr> in do {
                 ledgerDecision e ci class scope (au_level row) d;
                 ret (d, None)
               }
             }"
        have minted: "wp ?mint
            (\<lambda>r s'. \<forall>token. r = Inr token \<longrightarrow> class \<noteq> ClassR \<longrightarrow>
               valid_class class \<and> token_bound s' token (ci_task ci) (ci_tool ci) class hash) s1"
          by (auto simp: wp_return intro: wp_mono [OF mintToken_spec])
        have "wp (State_Monad.bind ?mint ?rest) ?Q s1"
        proof (rule wp_bind_mono [OF minted])
          fix tok s2
          assume bound: "\<forall>token. tok = Inr token \<longrightarrow> class \<noteq> ClassR \<longrightarrow>
               valid_class class \<and> token_bound s2 token (ci_task ci) (ci_tool ci) class hash"
          show "wp (?rest tok) ?Q s2"
          proof (cases tok)
            case (Inl err)
            then show ?thesis by (simp only: sum.case) (rule denied, simp add: deny_decision_def)
          next
            case (Inr token)
            with bound have "class \<noteq> ClassR \<longrightarrow> valid_class class" by simp
            with False level obtain l where
              "autoLevelFor class = Some l" "l \<le> ladder_level s (ci_tool ci) class scope"
              by (auto simp: autoLevelFor_def valid_class_def split: action_class.splits)
            then show ?thesis
              unfolding Inr sum.case Let_def by (intro allowed) (use bound Inr in auto)
          qed
        qed
        from this [unfolded Let_def] False show ?thesis
          unfolding Inr sum.case Let_def
          by (simp only: de_Morgan_disj not_less if_True if_False simp_thms)
      qed
    qed
    done
qed

end
