(* ===== verification/Policy_Ladder.thy ===== *)
theory Policy_Ladder
  imports Policy_Facts
begin

text \<open>
  Two more relations of the locale \<open>engine_preorder\<close>.  \<open>no_rise\<close>: whatever an operation other
  than \<open>Promote\<close> does, no ladder level rises and every level stays between 0 and 4.
  \<open>keeps_one_open\<close>: a task, tool and trace never have two open undo windows.
\<close>

section \<open>Ladder levels\<close>

definition levels_in_range :: "store \<Rightarrow> bool" where
  "levels_in_range s \<longleftrightarrow> (\<forall>r \<in> set (autonomy s). 0 \<le> au_level r \<and> au_level r \<le> 4)"

definition keeps_range :: "store \<Rightarrow> store \<Rightarrow> bool" where
  "keeps_range s s' \<longleftrightarrow> (levels_in_range s \<longrightarrow> levels_in_range s')"

interpretation range: store_preorder keeps_range
  by (unfold_locales; unfold keeps_range_def) (blast | simp add: levels_in_range_def)+

interpretation range: engine_writes keeps_range
proof unfold_locales
  show "state_io_rel keeps_range (UpdateAutonomyState l a u tool c scope)" for l a u tool c scope
    unfolding UpdateAutonomyState_def
    by (rule range.keeps_db)
       (auto simp: keeps_range_def levels_in_range_def Let_def set_update_where count_where_zero)
qed (unfold InsertApprovalToken_def ConsumeApprovalToken_def RevokeApprovalTokensByTask_def
       InsertPendingApproval_def ConsumePendingApproval_def InsertUndoWindow_def
       SetUndoWindowState_def InsertAutonomyState_def,
     (rule range.keeps_db,
      auto simp: keeps_range_def levels_in_range_def Let_def case_prod_beta)+)

definition no_rise :: "store \<Rightarrow> store \<Rightarrow> bool" where
  "no_rise s s' \<longleftrightarrow> (levels_in_range s \<longrightarrow> levels_in_range s'
     \<and> (\<forall>tool class scope. ladder_level s' tool class scope \<le> ladder_level s tool class scope))"

lemma same_autonomy_no_rise: "autonomy s' = autonomy s \<Longrightarrow> no_rise s s'"
  by (simp add: no_rise_def levels_in_range_def ladder_level_def)

lemma no_rise_trans: "no_rise s t \<Longrightarrow> no_rise t u \<Longrightarrow> no_rise s u"
  unfolding no_rise_def by (meson order_trans)

interpretation no_rise: store_preorder no_rise
  by unfold_locales (simp_all add: same_autonomy_no_rise, rule no_rise_trans)

lemma level_after_update:
  "ladder_level (s\<lparr>autonomy := update_where (\<lambda>r. au_key r = k)
       (\<lambda>r. r\<lparr>au_level := l, au_approvals := a, au_updated := u\<rparr>) (autonomy s)\<rparr>) tool class scope =
   (if k = (tool, class, scope) \<and> k \<in> au_key ` set (autonomy s) then l
    else ladder_level s tool class scope)" (is "ladder_level ?s' tool class scope = _")
proof -
  have "find (\<lambda>r. au_key r = (tool, class, scope))
      (update_where (\<lambda>r. au_key r = k)
         (\<lambda>r. r\<lparr>au_level := l, au_approvals := a, au_updated := u\<rparr>) (autonomy s)) =
    map_option (\<lambda>r. if au_key r = k then r\<lparr>au_level := l, au_approvals := a, au_updated := u\<rparr> else r)
      (find (\<lambda>r. au_key r = (tool, class, scope)) (autonomy s))"
    by (rule find_update_where) (simp add: au_key_def)
  then have eq: "ladder_level ?s' tool class scope =
      (case find (\<lambda>r. au_key r = (tool, class, scope)) (autonomy s) of None \<Rightarrow> 0
       | Some r \<Rightarrow> if au_key r = k then l else au_level r)"
    by (simp add: ladder_level_def split: option.split)
  show ?thesis
  proof (cases "find (\<lambda>r. au_key r = (tool, class, scope)) (autonomy s)")
    case None
    then have "(tool, class, scope) \<notin> au_key ` set (autonomy s)" by (auto simp: find_None_iff)
    with None eq show ?thesis by (auto simp: ladder_level_def)
  next
    case (Some r)
    from find_Some_in [OF this] have "au_key r = (tool, class, scope)"
      "(tool, class, scope) \<in> au_key ` set (autonomy s)"
      by (auto intro: rev_image_eqI)
    with Some eq show ?thesis by (auto simp: ladder_level_def)
  qed
qed

lemma levels_after_update:
  "levels_in_range s \<Longrightarrow> 0 \<le> l \<and> l \<le> 4 \<or> k \<notin> au_key ` set (autonomy s) \<Longrightarrow>
   levels_in_range (s\<lparr>autonomy := update_where (\<lambda>r. au_key r = k)
       (\<lambda>r. r\<lparr>au_level := l, au_approvals := a, au_updated := u\<rparr>) (autonomy s)\<rparr>)"
  by (auto simp: levels_in_range_def set_update_where)

lemma saveState_no_rise:
  assumes "level \<le> ladder_level s tool class scope"
  shows "wp (saveState tool class scope level approvals) (\<lambda>_ s'. no_rise s s') s"
proof -
  let ?k = "(tool, class, scope)"
  have update: "wp (UpdateAutonomyState level approvals (Stamp t) tool class scope)
      (\<lambda>r s'. no_rise s s' \<and> (r = Inr 0 \<longrightarrow> autonomy s' = autonomy s \<and> ?k \<notin> au_key ` set (autonomy s))) s" for t
    unfolding UpdateAutonomyState_def
  proof (rule wp_dbI)
    show "no_rise s (s\<lparr>faults := fs\<rparr>) \<and> (Inl DbError = Inr 0 \<longrightarrow>
        autonomy (s\<lparr>faults := fs\<rparr>) = autonomy s \<and> ?k \<notin> au_key ` set (autonomy s))" for fs
      by (simp add: same_autonomy_no_rise)
  next
    fix fs a s'
    let ?s = "s\<lparr>faults := fs\<rparr>"
    let ?upd = "update_where (\<lambda>r. au_key r = ?k)
           (\<lambda>r. r\<lparr>au_level := level, au_approvals := approvals, au_updated := Stamp t\<rparr>) (autonomy ?s)"
    assume run: "(let hit = (\<lambda>r. au_key r = ?k); n = count_where hit (autonomy ?s)
        in if n \<noteq> 0 \<and> (level < 0 \<or> 4 < level) then (Inl ConstraintError, ?s)
           else (Inr n, ?s\<lparr>autonomy := update_where hit
               (\<lambda>r. r\<lparr>au_level := level, au_approvals := approvals, au_updated := Stamp t\<rparr>)
               (autonomy ?s)\<rparr>)) = (a, s')"
    have zero: "count_where (\<lambda>r. au_key r = ?k) (autonomy s) = 0 \<longleftrightarrow> ?k \<notin> au_key ` set (autonomy s)"
      by (auto simp: count_where_zero image_iff)
    have "no_rise ?s (?s\<lparr>autonomy := ?upd\<rparr>)" if "0 \<le> level \<and> level \<le> 4 \<or> ?k \<notin> au_key ` set (autonomy s)"
      unfolding no_rise_def level_after_update
      using levels_after_update [of ?s level ?k] that assms
      by (simp add: ladder_level_def)
    moreover have "no_rise s u \<longleftrightarrow> no_rise ?s u" for u
      by (simp add: no_rise_def levels_in_range_def ladder_level_def)
    ultimately show "no_rise s s' \<and> (a = Inr 0 \<longrightarrow> autonomy s' = autonomy s \<and> ?k \<notin> au_key ` set (autonomy s))"
      using run zero
      by (auto simp: Let_def not_less no_rise.R_refl update_where_zero split: if_splits)
  qed
  have insert: "wp (InsertAutonomyState \<lparr>au_tool = tool, au_class = class, au_scope = scope,
        au_level = level, au_approvals = approvals, au_updated = u\<rparr>) (\<lambda>_ s'. no_rise s1 s') s1"
    if absent: "?k \<notin> au_key ` set (autonomy s1)" and le: "level \<le> 0" for s1 u
  proof -
    let ?r = "\<lparr>au_tool = tool, au_class = class, au_scope = scope,
        au_level = level, au_approvals = approvals, au_updated = u\<rparr>"
    have "no_rise s1 (s1\<lparr>faults := fs, autonomy := autonomy s1 @ [?r]\<rparr>)"
      if "0 \<le> level \<and> level \<le> 4" for fs
      using le that
      by (auto simp: no_rise_def levels_in_range_def ladder_level_def find_append au_key_def
          split: option.splits)
    then show ?thesis
      unfolding InsertAutonomyState_def
      by (intro wp_dbI) (auto simp: same_autonomy_no_rise not_less split: if_splits)
  qed
  have level0: "level \<le> 0" if "?k \<notin> au_key ` set (autonomy s)"
    using assms find_key_None [OF that] by (simp add: ladder_level_def)
  show ?thesis
    unfolding saveState_def wp_bind wp_now
    apply (rule wp_mono [OF update])
    subgoal for r s1
      by (cases r; cases "r = Inr 0")
         (simp_all add: wp_return level0 wp_mono [OF insert] no_rise_trans [of s s1])
    done
qed

lemma same_tables_no_rise: "same_tables s s1 \<Longrightarrow> no_rise s1 s' \<Longrightarrow> no_rise s s'"
  by (rule no_rise_trans [OF same_autonomy_no_rise]) (simp_all add: same_tables_def)

lemma no_rise_ledgerRaw [keeps_rules]: "state_io_rel no_rise (ledgerRaw e trace kind p)"
  unfolding ledgerRaw_def by (intro keeps_rules)

text \<open>Load a row, save a level that is no higher, and go on without touching the ladder.\<close>

lemma load_save_no_rise:
  assumes "\<And>row. au_level row \<ge> 0 \<Longrightarrow> f row \<le> au_level row"
    and "\<And>row r. state_io_rel no_rise (k row r)"
  shows "state_io_rel no_rise (do {
     r \<leftarrow> loadState tool class scope;
     case r of
       Inl err \<Rightarrow> ret ()
     | Inr row \<Rightarrow> do { r2 \<leftarrow> saveState tool class scope (f row) (g row); k row r2 }
   })" (is "state_io_rel _ ?m")
proof -
  have "wp ?m (\<lambda>_ s'. no_rise s s') s" for s
  proof (rule wp_bind_mono [OF loadState_spec], elim conjE)
    fix r :: "autonomy_row res" and s1
    assume same: "same_tables s s1"
      and level: "\<forall>row. r = Inr row \<longrightarrow> au_level row = ladder_level s tool class scope"
    show "wp (case r of Inl err \<Rightarrow> ret () | Inr row \<Rightarrow>
        do { r2 \<leftarrow> saveState tool class scope (f row) (g row); k row r2 }) (\<lambda>_ s'. no_rise s s') s1"
    proof (cases r)
      case (Inl err)
      with same show ?thesis using no_rise.R_refl same_tables_no_rise by (auto simp: wp_return)
    next
      case (Inr row)
      show ?thesis
      proof (cases "0 \<le> au_level row")
        case True
        with Inr level same assms(1) have le: "f row \<le> ladder_level s1 tool class scope"
          by (metis same_tables_ladder)
        show ?thesis
          unfolding Inr sum.case
          by (rule wp_bind_mono [OF saveState_no_rise [OF le]])
             (auto intro!: wp_io_rel [OF assms(2)] same_tables_no_rise [OF same]
                intro: no_rise.R_trans)
      next
        case False
        with Inr level have "\<not> levels_in_range s"
          by (auto simp: levels_in_range_def ladder_level_def dest: find_Some_in split: option.splits)
        then show ?thesis by (simp add: no_rise_def wp_any)
      qed
    qed
  qed
  then show ?thesis by (rule wp_keeps)
qed

lemma no_rise_demote: "state_io_rel no_rise (demote e tool class scope trace why)"
  unfolding demote_def Let_def
  by (rule load_save_no_rise) (auto intro!: keeps_rules)

lemma no_rise_bookkeeping: "state_io_rel no_rise (approve_bookkeeping e pa surface)"
  unfolding approve_bookkeeping_def Let_def
  by (rule load_save_no_rise) (auto intro!: keeps_rules)

lemma no_rise_undo [keeps_rules]:
  "state_io_rel no_rise (InsertUndoWindow task tool trace o1 o2)"
  "state_io_rel no_rise (SetUndoWindowState st wid)"
  unfolding InsertUndoWindow_def SetUndoWindowState_def
  by (rule no_rise.keeps_db; simp add: Let_def same_autonomy_no_rise)+

lemma no_rise_credentials [keeps_rules]:
  "state_io_rel no_rise (InsertApprovalToken tk)"
  "state_io_rel no_rise (ConsumeApprovalToken at h)"
  "state_io_rel no_rise (RevokeApprovalTokensByTask at task)"
  "state_io_rel no_rise (InsertPendingApproval pa)"
  "state_io_rel no_rise (ConsumePendingApproval at i)"
  unfolding InsertApprovalToken_def ConsumeApprovalToken_def RevokeApprovalTokensByTask_def
    InsertPendingApproval_def ConsumePendingApproval_def
  by (rule no_rise.keeps_db; simp add: case_prod_beta same_autonomy_no_rise)+

lemma no_rise_openUndoWindow: "state_io_rel no_rise (openUndoWindow e task tool trace)"
  unfolding openUndoWindow_def by (intro keeps_rules)

interpretation no_rise: engine_preorder no_rise
  by unfold_locales
     (rule no_rise_demote no_rise_bookkeeping no_rise_undo no_rise_credentials no_rise_openUndoWindow)+

section \<open>Undo windows\<close>

definition uw_key :: "undo_row \<Rightarrow> string \<times> string \<times> string" where
  "uw_key w = (uw_task w, uw_tool w, uw_trace w)"

definition one_open_window :: "store \<Rightarrow> bool" where
  "one_open_window s \<longleftrightarrow> distinct (map uw_key (filter (\<lambda>w. uw_state w = UndoOpen) (undos s)))"

definition keeps_one_open :: "store \<Rightarrow> store \<Rightarrow> bool" where
  "keeps_one_open s s' \<longleftrightarrow> (one_open_window s \<longrightarrow> one_open_window s')"

interpretation one_open: store_preorder keeps_one_open
  by unfold_locales (simp_all add: keeps_one_open_def one_open_window_def)

lemma closing_keeps_one_open [keeps_rules]:
  assumes "st \<noteq> UndoOpen"
  shows "state_io_rel keeps_one_open (SetUndoWindowState st wid)"
proof -
  have closed: "filter (\<lambda>w. uw_state w = UndoOpen)
        (update_where (\<lambda>r. uw_id r = wid) (\<lambda>r. r\<lparr>uw_state := st\<rparr>) rows)
      = filter (\<lambda>w. uw_id w \<noteq> wid) (filter (\<lambda>w. uw_state w = UndoOpen) rows)" for rows
    using assms by (induction rows) (auto simp: update_where_def)
  show ?thesis
    unfolding SetUndoWindowState_def
    by (rule one_open.keeps_db)
       (simp add: keeps_one_open_def one_open_window_def closed distinct_map_filter del: filter_filter)
qed

lemma one_open_other [keeps_rules]:
  "state_io_rel keeps_one_open (InsertApprovalToken tk)"
  "state_io_rel keeps_one_open (ConsumeApprovalToken at h)"
  "state_io_rel keeps_one_open (RevokeApprovalTokensByTask at task)"
  "state_io_rel keeps_one_open (InsertPendingApproval pa)"
  "state_io_rel keeps_one_open (ConsumePendingApproval at i)"
  "state_io_rel keeps_one_open (InsertAutonomyState au)"
  "state_io_rel keeps_one_open (UpdateAutonomyState l a u tool c scope)"
  unfolding InsertApprovalToken_def ConsumeApprovalToken_def RevokeApprovalTokensByTask_def
    InsertPendingApproval_def ConsumePendingApproval_def InsertAutonomyState_def UpdateAutonomyState_def
  by (rule one_open.keeps_db; simp add: case_prod_beta keeps_one_open_def one_open_window_def Let_def)+

lemma one_open_ladder [keeps_rules]:
  "state_io_rel keeps_one_open (loadState tool c scope)"
  "state_io_rel keeps_one_open (saveState tool c scope level approvals)"
  "state_io_rel keeps_one_open (ledgerRaw e trace kind p)"
  unfolding loadState_def saveState_def ledgerRaw_def by (intro keeps_rules)+

lemma one_open_demote: "state_io_rel keeps_one_open (demote e tool c scope trace why)"
  and one_open_bookkeeping: "state_io_rel keeps_one_open (approve_bookkeeping e pa surface)"
  unfolding demote_def approve_bookkeeping_def by (intro keeps_rules)+

text \<open>A window is inserted only after the lookup of an open one came back empty.\<close>

lemma one_open_openUndoWindow: "state_io_rel keeps_one_open (openUndoWindow e task tool trace)"
proof -
  let ?key = "(task, tool, trace)"
  let ?free = "\<lambda>s. \<forall>w \<in> set (undos s). uw_state w = UndoOpen \<longrightarrow> uw_key w \<noteq> ?key"
  have look: "wp (GetOpenUndoWindowByTaskToolTrace task tool trace)
      (\<lambda>r s'. undos s' = undos s \<and> (r = Inl NoRows \<longrightarrow> ?free s')) s" for s
    unfolding GetOpenUndoWindowByTaskToolTrace_def
    by (rule wp_select_oneI) (auto simp: newest_by_def uw_key_def filter_empty_conv split: if_splits)
  have insert: "wp (InsertUndoWindow task tool trace o1 o2) (\<lambda>r s'. keeps_one_open s s') s"
    if "?free s" for s o1 o2
    unfolding InsertUndoWindow_def
    by (rule wp_dbI)
       (use that in \<open>auto simp: keeps_one_open_def one_open_window_def uw_key_def Let_def\<close>)
  have "wp (openUndoWindow e task tool trace) (\<lambda>_ s'. keeps_one_open s s') s" for s
    unfolding openUndoWindow_def
  proof (rule wp_bind_mono [OF look], elim conjE)
    fix r :: "undo_row res" and s1 :: store
    assume p: "undos s1 = undos s" "r = Inl NoRows \<longrightarrow> ?free s1"
    then have eq: "keeps_one_open s u \<longleftrightarrow> keeps_one_open s1 u" for u
      by (simp add: keeps_one_open_def one_open_window_def)
    show "wp (case r of
       Inr _ \<Rightarrow> ret (Inr ())
     | Inl err \<Rightarrow>
         if err \<noteq> NoRows then ret (Inl err)
         else do {
           t \<leftarrow> now;
           w \<leftarrow> InsertUndoWindow task tool trace (Stamp t) (Stamp (t + e_undo_window e));
           case w of
             Inl err' \<Rightarrow> ret (Inl err')
           | Inr row \<Rightarrow> do {
               ledgerRaw e trace ''undo_window_opened''
                 [(''event'', JStr ''undo_window_opened''), (''task_id'', JStr task),
                  (''tool'', JStr tool), (''deadline'', JTime (uw_deadline row))];
               ret (Inr ())
             }
         }) (\<lambda>_ s'. keeps_one_open s s') s1"
    proof (cases "r = Inl NoRows")
      case True
      with p have free: "?free s1" by simp
      show ?thesis
        unfolding True eq
        apply (simp add: wp_bind wp_now)
        apply (rule wp_mono [OF insert [OF free]])
        subgoal for w s2
          by (cases w)
             (auto simp: wp_bind wp_return intro!: wp_io_rel [OF one_open_ladder(3)]
                intro: one_open.R_trans)
        done
    next
      case False
      then show ?thesis
        unfolding eq by (cases r) (auto simp: wp_return one_open.R_refl)
    qed
  qed
  then show ?thesis by (rule wp_keeps)
qed

interpretation one_open: engine_preorder keeps_one_open
  by unfold_locales
     (rule one_open_demote one_open_bookkeeping one_open_other one_open_openUndoWindow
        closing_keeps_one_open undo_state.distinct undo_state.distinct [symmetric])+

end
