(* ===== verification/Policy_Credentials.thy ===== *)
theory Policy_Credentials
  imports Policy_Ladder
begin

text \<open>
  What the operations on pending approvals and one-time tokens return, what they burn, and what
  the emergency halt leaves behind.
\<close>

section \<open>Pending approvals\<close>

text \<open>A pending approval that \<open>Approve\<close> and \<open>Deny\<close> still accept.\<close>

definition pending_valid :: "store \<Rightarrow> string \<Rightarrow> pending_row \<Rightarrow> bool" where
  "pending_valid s i pa \<longleftrightarrow> find (\<lambda>r. pa_id r = i) (pendings s) = Some pa \<and> \<not> pa_used pa
     \<and> (\<exists>x. parse_stamp (pa_expires pa) = Some x \<and> clock s \<le> x)"

lemma getValidPendingApproval_spec:
  "wp (getValidPendingApproval i) (\<lambda>r s'. same_tables s s' \<and> (\<forall>pa. r = Inr pa \<longrightarrow> pending_valid s i pa)) s"
  unfolding getValidPendingApproval_def GetPendingApproval_def wp_bind
  by (rule wp_select_oneI)
     (auto simp: wp_return wp_now same_tables_def pending_valid_def pa_used_def split: option.splits if_splits)

lemma ConsumePendingApproval_spec:
  "wp (ConsumePendingApproval at i)
     (\<lambda>r s'. tokens s' = tokens s \<and> clock s' = clock s \<and> burnt_forward s s'
        \<and> (\<forall>n. r = Inr n \<longrightarrow> 0 < n \<longrightarrow> \<not> pending_burnt i s \<and> pending_burnt i s')) s"
  unfolding ConsumePendingApproval_def
  by (rule wp_dbI)
     (auto simp: case_prod_beta burnt_defs pending_shot.burn_keeps_burnt pending_shot.burn_burns
        pending_shot.keys_image_burn
        pending_shot.burnt_no_burn)

lemma consumePendingApproval_spec:
  "wp (consumePendingApproval i)
     (\<lambda>r s'. tokens s' = tokens s \<and> clock s' = clock s \<and> burnt_forward s s'
        \<and> (r = Inr () \<longrightarrow> \<not> pending_burnt i s \<and> pending_burnt i s')) s"
  unfolding consumePendingApproval_def wp_bind wp_now wp_return
  by (rule wp_mono [OF ConsumePendingApproval_spec]) (auto split: sum.splits if_splits)

lemma w3_gate_spec:
  "wp (approve_w3_gate e pa surface typed)
     (\<lambda>r s'. same_tables s s' \<and>
        (r = Inr () \<longrightarrow> pa_class pa = ClassW3 \<longrightarrow> surface = ''local'' \<and> isTypedOnayla e typed)) s"
proof (rule wp_conj)
  show "wp (approve_w3_gate e pa surface typed) (\<lambda>_ s'. same_tables s s') s"
    by (rule wp_io_rel [OF same_session_parts(5)])
  show "wp (approve_w3_gate e pa surface typed)
     (\<lambda>r s'. r = Inr () \<longrightarrow> pa_class pa = ClassW3 \<longrightarrow> surface = ''local'' \<and> isTypedOnayla e typed) s"
    unfolding approve_w3_gate_def by (auto simp: wp_return intro!: wp_bindI)
qed

lemma same_tables_burnt: "same_tables s s' \<Longrightarrow> pending_burnt i s' \<longleftrightarrow> pending_burnt i s"
  by (simp add: same_tables_def pending_burnt_def)

lemma credentials_kept_burnt: "credentials_kept s s' \<Longrightarrow> pending_burnt i s \<Longrightarrow> pending_burnt i s'"
  by (simp add: credentials_kept_def pending_burnt_def)

text \<open>Everything an approval that returns a token has checked and done.\<close>

lemma Approve_spec:
  "wp (Approve e i surface typed)
     (\<lambda>r s'. \<forall>token. r = Inr token \<longrightarrow>
        (\<exists>pa. pending_valid s i pa \<and> \<not> pending_burnt i s \<and> pending_burnt i s'
           \<and> (pa_class pa = ClassW3 \<longrightarrow> surface = ''local'' \<and> isTypedOnayla e typed)
           \<and> token_bound s' token (pa_task pa) (pa_tool pa) (pa_class pa) (pa_bytes_hash pa))) s"
  (is "wp _ ?Q s")
proof -
  have fin: "wp (do {
       (if pa_class pa = ClassW1 then openUndoWindowOrLog e (pa_task pa) (pa_tool pa) (pa_trace pa)
        else ret ());
       approve_bookkeeping e pa surface;
       ret (Inr token)
     }) (\<lambda>r s'. r = Inr token \<and> credentials_kept t s') t" for pa and token :: string and t
    by (rule wp_bind_rel [where R = credentials_kept], intro keeps_rules,
        rule wp_bind_rel [OF cred_helpers(3)])
       (auto simp: wp_return intro: cred.R_trans)
  have mint: "wp (mintToken e a b c d f g) (\<lambda>r s'. burnt_forward t s' \<and>
      (\<forall>token. r = Inr token \<longrightarrow> token_bound s' token a c d g)) t" for a b c d f g t
    by (rule wp_conj [OF wp_io_rel [OF burnt.keeps_mints(1)] wp_mono [OF mintToken_spec]]) auto
  show ?thesis
    unfolding Approve_def
    apply (rule wp_bind_mono [OF getValidPendingApproval_spec])
    apply (elim conjE)
    subgoal premises valid for v s1
    proof (cases v)
      case (Inr pa)
      with valid have pa: "pending_valid s i pa" by simp
      show ?thesis
        unfolding Inr sum.case
        apply (rule wp_bind_mono [OF w3_gate_spec])
        apply (elim conjE)
        subgoal premises gate for g s2
          apply (cases g)
           apply (simp add: wp_return)
          apply (simp only: sum.case)
          apply (rule wp_bind_mono [OF consumePendingApproval_spec])
          apply (elim conjE)
          subgoal premises burn for u c s3
            apply (cases c)
             apply (simp add: wp_return)
            apply (simp only: sum.case)
            apply (rule wp_bind_mono [OF mint])
            apply (elim conjE)
            subgoal premises minted for w tok s4
              apply (cases tok)
               apply (simp add: wp_return)
              apply (simp only: sum.case)
              apply (rule wp_mono [OF fin])
              using pa gate burn minted valid
              by (auto intro!: exI [of _ pa] simp: same_tables_burnt credentials_kept_bound
                  dest: credentials_kept_burnt simp: burnt_forward_def)
            done
          done
        done
    qed (simp add: wp_return)
    done
qed

lemma Deny_spec:
  "wp (Deny e i) (\<lambda>r s'. r = Inr () \<longrightarrow> \<not> pending_burnt i s \<and> pending_burnt i s') s"
proof -
  have fin: "wp (do {
       ledgerRaw e (pa_trace pa) ''policy_feedback_denied'' (pending_payload ''policy_feedback_denied'' pa);
       demote e (pa_tool pa) (pa_class pa) (pa_scope pa) (pa_trace pa) ''denied'';
       ret (Inr ())
     }) (\<lambda>r s'. credentials_kept t s') t" for pa t
    by (rule wp_bind_rel [OF cred_ledger(1)], rule wp_bind_rel [OF cred_helpers(2)])
       (auto simp: wp_return intro: cred.R_trans)
  show ?thesis
    unfolding Deny_def
    apply (rule wp_bind_mono [OF getValidPendingApproval_spec])
    subgoal premises valid for v s1
      apply (cases v)
       apply (simp add: wp_return)
      apply (simp only: sum.case)
      apply (rule wp_bind_mono [OF consumePendingApproval_spec])
      subgoal premises burn for pa c s2
        apply (cases c)
         apply (simp add: wp_return)
        apply (simp only: sum.case)
        apply (rule wp_mono [OF fin])
        using valid burn by (auto simp: same_tables_burnt dest: credentials_kept_burnt)
      done
    done
qed

section \<open>Consuming a token\<close>

definition token_of :: "string \<Rightarrow> string option" where
  "token_of text = (case hex_decode text of
     Some raw \<Rightarrow> if length raw = 32 then Some (rawBytesHash raw) else None
   | None \<Rightarrow> None)"

text \<open>What a row has to say for a token presented with \<open>ci\<close> at time \<open>t\<close>.\<close>

definition token_matches :: "engine \<Rightarrow> consume_input \<Rightarrow> int \<Rightarrow> token_row \<Rightarrow> bool" where
  "token_matches e ci t row \<longleftrightarrow> tk_task row = co_task ci \<and> tk_tool row = co_tool ci
     \<and> tk_bytes_hash row = approvedBytesHash e (co_tool_input ci)
     \<and> (\<exists>x. parse_stamp (tk_expires row) = Some x \<and> t \<le> x)"

lemma token_mismatch_None: "token_mismatch e ci t row = None \<longleftrightarrow> token_matches e ci t row"
  by (auto simp: token_mismatch_def token_matches_def split: option.splits)

lemma token_matches_consume [simp]:
  "token_matches e ci t (consume_token at row) \<longleftrightarrow> token_matches e ci t row"
  by (simp add: token_matches_def consume_token_def)

lemma failFromHash_fails: "wp (failFromHash e ci h why) (\<lambda>r s'. r = Inl ErrTokenInvalid) s"
  unfolding failFromHash_def
  by (rule wp_bindI, rule wp_bindI)
     (auto simp: wp_return intro!: wp_bindI split: sum.splits)

lemma find_burn:
  "find (\<lambda>r. tk_hash r = h) (snd (burn tk_hash tk_used (consume_token at) h' rows)) =
   map_option (\<lambda>r. if tk_hash r = h' \<and> \<not> tk_used r then consume_token at r else r)
     (find (\<lambda>r. tk_hash r = h) rows)"
  unfolding burn_def Let_def snd_conv
  by (rule find_update_where) (rule token_shot.key_mark)

lemma ConsumeApprovalToken_spec:
  "wp (ConsumeApprovalToken at h)
     (\<lambda>r s'. clock s' = clock s \<and> (\<forall>n. r = Inr n \<longrightarrow> 0 < n \<longrightarrow>
        \<not> token_burnt h s \<and> token_burnt h s' \<and> (\<exists>row \<in> set (tokens s). tk_hash row = h \<and> \<not> tk_used row)
        \<and> find (\<lambda>r. tk_hash r = h) (tokens s') =
          map_option (\<lambda>r. if tk_hash r = h \<and> \<not> tk_used r then consume_token at r else r)
            (find (\<lambda>r. tk_hash r = h) (tokens s)))) s"
  unfolding ConsumeApprovalToken_def
  by (rule wp_dbI)
     (auto simp: case_prod_beta burnt_defs find_burn token_shot.burn_burns
        token_shot.burnt_no_burn dest: token_shot.burn_only_fresh)

lemma GetApprovalToken_spec:
  "wp (GetApprovalToken h)
     (\<lambda>r s'. same_tables s s' \<and> (\<forall>row. r = Inr row \<longrightarrow> find (\<lambda>r. tk_hash r = h) (tokens s) = Some row)) s"
  unfolding GetApprovalToken_def by (rule wp_select_oneI) (auto simp: same_tables_def)

lemma ConsumeToken_spec:
  "wp (ConsumeToken e ci)
     (\<lambda>r s'. r = Inr () \<longrightarrow> (\<exists>h row. token_of (co_token ci) = Some h
        \<and> \<not> token_burnt h s \<and> token_burnt h s'
        \<and> (\<exists>row \<in> set (tokens s). tk_hash row = h \<and> \<not> tk_used row)
        \<and> find (\<lambda>r. tk_hash r = h) (tokens s) = Some row
        \<and> token_matches e ci (clock s) row)) s"
proof (cases "token_of (co_token ci)")
  case None
  then show ?thesis
    unfolding ConsumeToken_def token_of_def
    by (auto simp: wp_return intro!: wp_bindI split: option.splits if_splits)
next
  case (Some h)
  then obtain raw where raw: "hex_decode (co_token ci) = Some raw" "length raw = 32" "h = rawBytesHash raw"
    by (auto simp: token_of_def split: option.splits if_splits)
  have fails: "wp (failFromHash e ci k why) Q t" if "\<And>s'. Q (Inl ErrTokenInvalid) s'" for k why Q t
    by (rule wp_mono [OF failFromHash_fails]) (use that in auto)
  show ?thesis
    unfolding ConsumeToken_def
    using raw
    apply (simp add: Let_def wp_bind wp_now Some)
    apply (rule wp_mono [OF ConsumeApprovalToken_spec])
    subgoal premises burn for r s1
    proof (cases r)
      case (Inr n)
      show ?thesis
      proof (cases "n = 0")
        case False
        from False have "Inr n \<noteq> Inl x" for x by simp
        show ?thesis
          unfolding Inr using False
          apply (simp add: wp_bind)
          apply (rule wp_mono [OF GetApprovalToken_spec])
          subgoal for g s2
            using burn Inr raw
            by (cases g)
               (auto simp: wp_return same_tables_def token_mismatch_None token_burnt_def
                  intro!: fails split: option.splits if_splits)
          done
      qed (use Inr in \<open>auto intro!: fails\<close>)
    qed (auto intro!: fails)
    done
qed

section \<open>A bound token is accepted\<close>

text \<open>
  A token that is bound to an action, presented for that action and those bytes before it
  expires, is accepted by a database that does not fail.
\<close>

lemma ConsumeToken_accepts:
  assumes bound: "token_bound s token task tool c (approvedBytesHash e (co_tool_input ci))"
    and ci: "co_token ci = token" "co_task ci = task" "co_tool ci = tool"
    and time: "t \<le> clock s + token_ttl"
  shows "fst (run_state (ConsumeToken e ci) (s\<lparr>clock := t, faults := []\<rparr>)) = Inr ()"
proof -
  from bound obtain raw row where raw: "hex_decode token = Some raw" "length raw = 32"
    and row: "find (\<lambda>r. tk_hash r = rawBytesHash raw) (tokens s) = Some row"
      "tk_task row = task" "tk_tool row = tool"
      "tk_bytes_hash row = approvedBytesHash e (co_tool_input ci)"
      "tk_expires row = Stamp (clock s + token_ttl)" "\<not> tk_used row"
    by (auto simp: token_bound_def)
  from find_Some_in [OF row(1)] row(6)
  have hit: "0 < fst (burn tk_hash tk_used (consume_token (Stamp t)) (rawBytesHash raw) (tokens s))"
    by (auto simp: burn_def Let_def count_where_pos)
  have matches: "token_mismatch e ci t (consume_token (Stamp t) row) = None"
    unfolding token_mismatch_None token_matches_consume
    using row ci time by (simp add: token_matches_def)
  have found: "find (\<lambda>r. tk_hash r = rawBytesHash raw)
      (snd (burn tk_hash tk_used (consume_token (Stamp t)) (rawBytesHash raw) (tokens s)))
      = Some (consume_token (Stamp t) row)"
    using row(1,6) find_Some_in [OF row(1)] by (simp add: find_burn)
  show ?thesis
    unfolding ConsumeToken_def
    using hit found matches raw ci
    by (simp add: Let_def now_def ConsumeApprovalToken_def GetApprovalToken_def select_one_def db_def
        case_prod_beta)
qed

end
