(* ===== verification/Policy_Traces.thy ===== *)
theory Policy_Traces
  imports Policy_Credentials
begin

text \<open>
  Sequences of calls of the engine, interleaved with the passing of time, from any state and
  under any schedule of database failures: the environment the daemon's HTTP handlers, the chat
  surfaces and the tickers make of it.
\<close>

datatype engine_op =
    OpCheck check_input
  | OpApprove string string string
  | OpDeny string
  | OpPromote string string action_class string
  | OpConsume consume_input
  | OpSweep
  | OpUndo string
  | OpHalt string string
  | OpDebugEmit string action_class
  | OpList
  | OpClock int

definition succeeded :: "'a res \<times> store \<Rightarrow> bool \<times> store" where
  "succeeded p = (\<not> isl (fst p), snd p)"

text \<open>Whether the call returned without an error, and the state after it.\<close>

fun exec_op :: "engine \<Rightarrow> engine_op \<Rightarrow> store \<Rightarrow> bool \<times> store" where
  "exec_op e (OpCheck ci) s = (case run_state (Check e ci) s of ((d, err), s') \<Rightarrow> (err = None, s'))"
| "exec_op e (OpApprove i surface typed) s = succeeded (run_state (Approve e i surface typed) s)"
| "exec_op e (OpDeny i) s = succeeded (run_state (Deny e i) s)"
| "exec_op e (OpPromote trace tool c scope) s = succeeded (run_state (Promote e trace tool c scope) s)"
| "exec_op e (OpConsume ci) s = succeeded (run_state (ConsumeToken e ci) s)"
| "exec_op e OpSweep s = succeeded (run_state (SweepExpiredUndoWindows e) s)"
| "exec_op e (OpUndo trace) s = succeeded (run_state (TriggerUndo e trace) s)"
| "exec_op e (OpHalt trace task) s = succeeded (run_state (InvalidateApprovalsForTask e trace task) s)"
| "exec_op e (OpDebugEmit trace c) s = succeeded (run_state (DebugEmitPendingApproval e trace c) s)"
| "exec_op e OpList s = succeeded (run_state ListPendingApprovals s)"
| "exec_op e (OpClock t) s = (True, s\<lparr>clock := t\<rparr>)"

fun exec_ops :: "engine \<Rightarrow> engine_op list \<Rightarrow> store \<Rightarrow> bool list \<times> store" where
  "exec_ops e [] s = ([], s)"
| "exec_ops e (op # ops) s =
     (case exec_op e op s of (ok, s') \<Rightarrow> case exec_ops e ops s' of (oks, s'') \<Rightarrow> (ok # oks, s''))"

text \<open>The calls of a trace that satisfy \<open>p\<close> and returned without an error.\<close>

definition successes :: "(engine_op \<Rightarrow> bool) \<Rightarrow> engine \<Rightarrow> engine_op list \<Rightarrow> store \<Rightarrow> nat" where
  "successes p e ops s = length (filter (\<lambda>(op, ok). p op \<and> ok) (zip ops (fst (exec_ops e ops s))))"

lemma successes_Nil [simp]: "successes p e [] s = 0"
  by (simp add: successes_def)

lemma successes_Cons [simp]:
  "successes p e (op # ops) s =
     (if p op \<and> fst (exec_op e op s) then 1 else 0) + successes p e ops (snd (exec_op e op s))"
  by (simp add: successes_def split: prod.splits)

fun promotes :: "engine_op \<Rightarrow> bool" where
  "promotes (OpPromote trace tool c scope) \<longleftrightarrow> True"
| "promotes _ \<longleftrightarrow> False"

text \<open>
  A preorder the engine keeps and the clock does not matter to is kept along a trace without
  promotions, and along every trace if \<open>Promote\<close> keeps it too.  A call that succeeds at most
  before a persistent condition, and establishes it, succeeds once.
\<close>

locale engine_steps = engine_preorder +
  assumes R_clock: "R s (s\<lparr>clock := t\<rparr>)"
begin

lemma keeps_snd_run: "state_io_rel R m \<Longrightarrow> R s (snd (run_state m s))"
  by (metis keeps_run prod.collapse)

lemma keeps_exec_op_quiet: "\<not> promotes op \<Longrightarrow> R s (snd (exec_op e op s))"
  by (cases op; simp add: succeeded_def split_beta R_clock;
      rule keeps_snd_run; rule keeps_Check keeps_Approve keeps_Deny keeps_ConsumeToken
        keeps_undo_ops keeps_halt keeps_listing)

lemma keeps_exec_ops_quiet: "\<not> list_ex promotes ops \<Longrightarrow> R s (snd (exec_ops e ops s))"
proof (induction ops arbitrary: s)
  case (Cons op ops)
  then have "\<not> promotes op" "\<not> list_ex promotes ops" by simp_all
  moreover have "snd (exec_ops e (op # ops) s) = snd (exec_ops e ops (snd (exec_op e op s)))"
    by (simp add: split_beta)
  ultimately show ?case using R_trans [OF keeps_exec_op_quiet Cons.IH] by simp
qed (simp add: R_refl)

end

locale engine_trace = engine_steps +
  assumes keeps_Promote: "state_io_rel R (Promote e trace tool c scope)"
begin

lemma keeps_exec_op: "R s (snd (exec_op e op s))"
proof (cases "promotes op")
  case True
  then show ?thesis
    by (cases op) (simp_all add: succeeded_def keeps_snd_run [OF keeps_Promote])
qed (rule keeps_exec_op_quiet)

lemma keeps_exec_ops: "R s (snd (exec_ops e ops s))"
proof (induction ops arbitrary: s)
  case (Cons op ops)
  have "snd (exec_ops e (op # ops) s) = snd (exec_ops e ops (snd (exec_op e op s)))"
    by (simp add: split_beta)
  then show ?case using R_trans [OF keeps_exec_op Cons.IH] by simp
qed (simp add: R_refl)

lemma success_once:
  assumes stable: "\<And>s s'. R s s' \<Longrightarrow> spent s \<Longrightarrow> spent s'"
    and fresh: "\<And>op s. p op \<Longrightarrow> fst (exec_op e op s) \<Longrightarrow> \<not> spent s \<and> spent (snd (exec_op e op s))"
  shows "successes p e ops s \<le> 1"
    and "spent s \<Longrightarrow> successes p e ops s = 0"
proof -
  have none: "successes p e ops s = 0" if "spent s" for ops s
    using that
  proof (induction ops arbitrary: s)
    case (Cons op ops)
    then have "\<not> (p op \<and> fst (exec_op e op s))" using fresh by blast
    moreover have "spent (snd (exec_op e op s))" using stable keeps_exec_op Cons.prems by blast
    ultimately show ?case using Cons.IH by simp
  qed simp
  then show "spent s \<Longrightarrow> successes p e ops s = 0" .
  show "successes p e ops s \<le> 1"
  proof (induction ops arbitrary: s)
    case (Cons op ops)
    then show ?case
      using none fresh by (cases "p op \<and> fst (exec_op e op s)") auto
  qed simp
qed

end

interpretation burnt: engine_trace burnt_forward
  by unfold_locales (simp add: burnt_defs, rule burnt.w_Promote)

interpretation keys: engine_trace keeps_keys
  by unfold_locales (simp add: keeps_keys_def keys_unique_def, rule keys.w_Promote)

interpretation range: engine_trace keeps_range
  by unfold_locales (simp add: keeps_range_def levels_in_range_def, rule range.w_Promote)

interpretation ledger: engine_trace ledger_grows
  by unfold_locales (simp add: ledger_grows_def, rule ledger.w_Promote)

interpretation no_rise: engine_steps no_rise
  by unfold_locales (rule same_autonomy_no_rise, simp)

lemma one_open_Promote: "state_io_rel keeps_one_open (Promote e trace tool c scope)"
  unfolding Promote_def by (intro keeps_rules)

interpretation one_open: engine_trace keeps_one_open
  by unfold_locales (simp add: keeps_one_open_def one_open_window_def, rule one_open_Promote)

section \<open>One use per credential\<close>

fun consumes_token :: "string \<Rightarrow> engine_op \<Rightarrow> bool" where
  "consumes_token h (OpConsume ci) \<longleftrightarrow> token_of (co_token ci) = Some h"
| "consumes_token h _ \<longleftrightarrow> False"

fun decides_pending :: "string \<Rightarrow> engine_op \<Rightarrow> bool" where
  "decides_pending i (OpApprove j surface typed) \<longleftrightarrow> j = i"
| "decides_pending i (OpDeny j) \<longleftrightarrow> j = i"
| "decides_pending i _ \<longleftrightarrow> False"

lemma not_isl_unit: "\<not> isl (r :: unit res) \<longleftrightarrow> r = Inr ()"
  by (cases r) auto

lemma consume_success:
  assumes "consumes_token h op" "fst (exec_op e op s)"
  shows "\<not> token_burnt h s \<and> token_burnt h (snd (exec_op e op s))"
proof -
  from assms obtain ci where op: "op = OpConsume ci" "token_of (co_token ci) = Some h"
    by (cases op) auto
  show ?thesis
    using assms op wp_run [OF ConsumeToken_spec, of e ci s]
    by (auto simp: succeeded_def not_isl_unit prod_eq_iff)
qed

lemma decide_success:
  assumes "decides_pending i op" "fst (exec_op e op s)"
  shows "\<not> pending_burnt i s \<and> pending_burnt i (snd (exec_op e op s))"
proof (cases op)
  case (OpApprove j surface typed)
  then show ?thesis
    using assms wp_run [OF Approve_spec, of e i surface typed s]
    by (cases "fst (run_state (Approve e i surface typed) s)") (auto simp: succeeded_def prod_eq_iff)
next
  case (OpDeny j)
  then show ?thesis
    using assms wp_run [OF Deny_spec, of e i s]
    by (auto simp: succeeded_def not_isl_unit prod_eq_iff)
qed (use assms in auto)

lemma token_stable: "burnt_forward s s' \<Longrightarrow> token_burnt h s \<Longrightarrow> token_burnt h s'"
  and pending_stable: "burnt_forward s s' \<Longrightarrow> pending_burnt i s \<Longrightarrow> pending_burnt i s'"
  by (simp_all add: burnt_forward_def)

lemmas token_once = burnt.success_once [where spent = "token_burnt h" and p = "consumes_token h" for h,
    OF token_stable consume_success]
lemmas pending_once = burnt.success_once [where spent = "pending_burnt i" and p = "decides_pending i" for i,
    OF pending_stable decide_success]

section \<open>Emergency halt\<close>

lemma burn_listed:
  assumes "faults s = []" "i \<in> pa_id ` set (pendings s)"
  shows "wp (ConsumePendingApproval at i)
     (\<lambda>r s'. burnt_forward s s' \<and> faults s' = [] \<and> pending_burnt i s') s"
  unfolding ConsumePendingApproval_def wp_db assms(1) list.case
  using assms pending_shot.burnt_after [of _ at i "pendings s"]
  by (auto simp: case_prod_beta burnt_defs pending_shot.burn_keeps_burnt pending_shot.keys_image_burn
      burnt_in_def [of pa_id pa_used i "snd (burn pa_id pa_used (consume_pending at) i (pendings s))"])

lemma keeps_both: "state_io_rel burnt_forward m \<Longrightarrow> state_io_rel stays_healthy m \<Longrightarrow>
    wp m (\<lambda>_ s'. burnt_forward s s' \<and> (faults s = [] \<longrightarrow> faults s' = [])) s"
  by (rule wp_conj; erule wp_io_rel) (simp_all add: stays_healthy_def)

lemma invalidate_row_spec:
  assumes "faults s = []" "pa_id row \<in> pa_id ` set (pendings s)"
  shows "wp (invalidate_row e trace task t row n)
     (\<lambda>_ s'. burnt_forward s s' \<and> faults s' = [] \<and> pending_burnt (pa_id row) s') s"
  unfolding invalidate_row_def
proof (rule wp_bind_mono [OF burn_listed [OF assms]], elim conjE)
  fix r :: "nat res" and s1
  assume s1: "burnt_forward s s1" "faults s1 = []" "pending_burnt (pa_id row) s1"
  let ?rest = "case r of
       Inl err \<Rightarrow> do {
         ledgerRaw e trace ''approval_invalidate_failed''
           [(''event'', JStr ''approval_invalidate_failed''), (''pending_approval_id'', JStr (pa_id row)),
            (''task_id'', JStr task), (''err'', JErr err)];
         ret n
       }
     | Inr affected \<Rightarrow>
         if affected = 0 then ret n
         else do {
           ledgerRaw e trace ''approval.invalidated''
             [(''event'', JStr ''approval.invalidated''), (''pending_approval_id'', JStr (pa_id row)),
              (''task_id'', JStr task), (''tool'', JStr (pa_tool row)), (''class'', JClass (pa_class row))];
           (if e_invalidated_hook e
            then notice (InvalidatedHook \<lparr>pi_id = pa_id row, pi_tool = pa_tool row,
                   pi_class = pa_class row, pi_scope = pa_scope row, pi_input = pa_input row,
                   pi_minted = Unparsable, pi_trace = trace, pi_task = task\<rparr>)
            else ret ());
           ret (n + 1)
         }"
  have "wp ?rest (\<lambda>_ s'. burnt_forward s1 s' \<and> (faults s1 = [] \<longrightarrow> faults s' = [])) s1"
    by (rule keeps_both) (intro keeps_rules)+
  then show "wp ?rest (\<lambda>_ s'. burnt_forward s s' \<and> faults s' = [] \<and> pending_burnt (pa_id row) s') s1"
    by (rule wp_mono) (use s1 burnt.R_trans pending_stable in blast)
qed

lemma invalidate_rows_spec:
  assumes "faults s = []" "\<forall>row \<in> set rows. pa_id row \<in> pa_id ` set (pendings s)"
  shows "wp (for_each rows (invalidate_row e trace task t) n)
     (\<lambda>_ s'. burnt_forward s s' \<and> faults s' = [] \<and> (\<forall>row \<in> set rows. pending_burnt (pa_id row) s')) s"
proof -
  let ?I = "\<lambda>s. faults s = [] \<and> (\<forall>row \<in> set rows. pa_id row \<in> pa_id ` set (pendings s))"
  have "wp (invalidate_row e trace task t x acc)
      (\<lambda>_ s'. burnt_forward s s' \<and> ?I s' \<and> pending_burnt (pa_id x) s') s"
    if "x \<in> set rows" "?I s" for x acc s
    by (rule wp_mono [OF invalidate_row_spec])
       (use that in \<open>auto simp: burnt_forward_def\<close>)
  note step = this
  have "wp (for_each rows (invalidate_row e trace task t) n)
     (\<lambda>_ s'. burnt_forward s s' \<and> ?I s' \<and> (\<forall>row \<in> set rows. pending_burnt (pa_id row) s')) s"
    by (rule burnt.for_each_wp) (use step pending_stable assms in simp_all)
  then show ?thesis by (rule wp_mono) simp
qed

definition tokens_fixed :: "store \<Rightarrow> store \<Rightarrow> bool" where
  "tokens_fixed s s' \<longleftrightarrow> tokens s' = tokens s"

interpretation tokens_fixed: store_preorder tokens_fixed
  by unfold_locales (simp_all add: tokens_fixed_def)

lemma tokens_fixed_invalidate_row: "state_io_rel tokens_fixed (invalidate_row e trace task t row n)"
proof -
  have "state_io_rel tokens_fixed (ConsumePendingApproval at i)" for at i
    unfolding ConsumePendingApproval_def
    by (rule tokens_fixed.keeps_db) (simp add: tokens_fixed_def case_prod_beta)
  then show ?thesis
    unfolding invalidate_row_def ledgerRaw_def by (intro keeps_rules)
qed

lemma revoke_spec:
  assumes "faults s = []" "distinct (map tk_hash (tokens s))" "r \<in> set (tokens s)" "tk_task r = task"
  shows "wp (RevokeApprovalTokensByTask at task) (\<lambda>_ s'. token_burnt (tk_hash r) s') s"
proof -
  let ?rows = "snd (burn tk_task tk_used (revoke_token at) task (tokens s))"
  have "tk_used x" if "x \<in> set ?rows" "tk_hash x = tk_hash r" for x
  proof -
    from that(1) obtain y where y: "y \<in> set (tokens s)"
      "x = (if tk_task y = task \<and> \<not> tk_used y then revoke_token at y else y)"
      by (auto simp: burn_def Let_def update_where_def)
    with that(2) have "tk_hash y = tk_hash r" by (auto simp: revoke_token_def split: if_splits)
    with y(1) assms(2,3) have "y = r" by (auto dest: distinct_map_inj)
    with y(2) assms(4) revoke_shot.used_mark show ?thesis by auto
  qed
  with assms have "burnt_in tk_hash tk_used (tk_hash r) ?rows"
    by (simp add: burnt_in_def revoke_keeps_hashes)
  then show ?thesis
    by (simp add: RevokeApprovalTokensByTask_def wp_db assms(1) case_prod_beta token_burnt_def)
qed

lemma halt_spec:
  assumes ok: "faults s = []" and unique: "keys_unique s"
  shows "wp (InvalidateApprovalsForTask e trace task)
     (\<lambda>r s'. \<not> isl r \<and> (\<forall>p \<in> set (pendings s). pa_task p = task \<longrightarrow> pending_burnt (pa_id p) s')
        \<and> (\<forall>k \<in> set (tokens s). tk_task k = task \<longrightarrow> token_burnt (tk_hash k) s')) s"
proof -
  let ?rows = "order_by pa_minted (filter (\<lambda>r. pa_task r = task \<and> pa_consumed r = None) (pendings s))"
  have burnt0: "pending_burnt (pa_id p) s" if "p \<in> set (pendings s)" "p \<notin> set ?rows" "pa_task p = task" for p
    using that unique
    by (auto simp: pending_burnt_def burnt_in_def pa_used_def keys_unique_def dest: distinct_map_inj)
  have listed: "wp (ListUnconsumedPendingApprovalsByTask task) (\<lambda>r s'. r = Inr ?rows \<and> s' = s) s"
    by (simp add: ListUnconsumedPendingApprovalsByTask_def query_def wp_db ok)
  have loop: "wp (for_each ?rows (invalidate_row e trace task t) 0)
      (\<lambda>_ s'. tokens s' = tokens s \<and> burnt_forward s s' \<and> faults s' = []
         \<and> (\<forall>row \<in> set ?rows. pending_burnt (pa_id row) s')) s" for t
    by (rule wp_conj [OF wp_io_rel [OF tokens_fixed.keeps_for_each] invalidate_rows_spec])
       (use ok in \<open>auto simp: tokens_fixed_def intro: tokens_fixed_invalidate_row\<close>)
  have revoke: "wp (RevokeApprovalTokensByTask at task)
      (\<lambda>_ s'. burnt_forward s1 s' \<and> (\<forall>k \<in> set (tokens s1). tk_task k = task \<longrightarrow> token_burnt (tk_hash k) s')) s1"
    if "faults s1 = []" "distinct (map tk_hash (tokens s1))" for at s1
    by (rule wp_conj [OF wp_io_rel [OF burnt.w_revoke_tokens]])
       (use revoke_spec [OF that] in \<open>auto simp: wp_def split_beta\<close>)
  show ?thesis
    unfolding InvalidateApprovalsForTask_def
    apply (rule wp_bind_mono [OF listed])
    apply (elim conjE)
    apply (simp add: wp_bind wp_now)
    apply (rule wp_mono [OF loop])
    apply (elim conjE)
    subgoal premises p for n s1
      apply (rule wp_bind_mono [OF revoke])
        apply (use p unique in \<open>simp_all add: keys_unique_def\<close>)
      apply (elim conjE)
      subgoal premises q for r s2
      proof -
        have stay: "burnt_forward s2 s3 \<Longrightarrow> (\<forall>p \<in> set (pendings s). pa_task p = task \<longrightarrow> pending_burnt (pa_id p) s3)
            \<and> (\<forall>k \<in> set (tokens s). tk_task k = task \<longrightarrow> token_burnt (tk_hash k) s3)" for s3
          using p q burnt0 burnt_forward_trans pending_stable token_stable
          by (metis (no_types, lifting))
        show ?thesis
          by (cases r) (auto simp: wp_return wp_bind stay burnt.R_refl intro!: wp_io_rel [OF burnt.keeps_ledgerRaw])
      qed
      done
    done
qed

end
