(* ===== verification/Policy_Ledger.thy ===== *)
theory Policy_Ledger
  imports Policy_Traces
begin

text \<open>
  The decisions in the ledger.  \<open>quiet\<close> is kept by every part of \<open>Check\<close> that is not
  \<open>ledgerDecision\<close>: no \<open>policy_decision\<close> event is written, and a database without failures
  stays without.
\<close>

definition decisions :: "store \<Rightarrow> event_row list" where
  "decisions s = filter (\<lambda>ev. ev_kind ev = ''policy_decision'') (events s)"

definition quiet :: "store \<Rightarrow> store \<Rightarrow> bool" where
  "quiet s s' \<longleftrightarrow> decisions s' = decisions s \<and> stays_healthy s s'"

interpretation quiet: state_preorder quiet
  by unfold_locales (auto simp: quiet_def stays_healthy_def)

lemma quiet_db:
  "(\<And>s. events (snd (f s)) = events s \<and> faults (snd (f s)) = faults s) \<Longrightarrow> state_io_rel quiet (db f)"
  by (auto simp: state_io_rel_def db_def quiet_def decisions_def stays_healthy_def Let_def split: list.splits)

lemma quiet_select_one [keeps_rules]: "state_io_rel quiet (select_one f)"
  unfolding select_one_def by (rule quiet_db) simp

lemma quiet_statements [keeps_rules]:
  "state_io_rel quiet (GetAutonomyState tool c scope)"
  "state_io_rel quiet (GetTaskByID task)"
  "state_io_rel quiet (GetTaskSessionByTrace trace)"
  "state_io_rel quiet (GetSessionTaint sid)"
  "state_io_rel quiet (GetOpenUndoWindowByTaskToolTrace task tool trace)"
  unfolding GetAutonomyState_def GetTaskByID_def GetTaskSessionByTrace_def GetSessionTaint_def
    GetOpenUndoWindowByTaskToolTrace_def
  by (rule quiet_select_one)+

lemma quiet_inserts [keeps_rules]:
  "state_io_rel quiet (InsertApprovalToken tk)"
  "state_io_rel quiet (InsertPendingApproval pa)"
  "state_io_rel quiet (InsertUndoWindow task tool trace o1 o2)"
  unfolding InsertApprovalToken_def InsertPendingApproval_def InsertUndoWindow_def
  by (rule quiet_db; simp add: Let_def)+

lemma quiet_primitives [keeps_rules]:
  "state_io_rel quiet now" "state_io_rel quiet (rand_read n)" "state_io_rel quiet (notice x)"
  by (auto simp: state_io_rel_def now_def rand_read_def notice_def quiet_def decisions_def
      stays_healthy_def split: list.splits option.splits)

lemma quiet_ledgerRaw [keeps_rules]:
  assumes "kind \<noteq> ''policy_decision''"
  shows "state_io_rel quiet (ledgerRaw e trace kind p)"
proof -
  have "state_io_rel quiet (LogEvent trace kind p)"
    using assms
    by (auto simp: state_io_rel_def LogEvent_def db_def quiet_def decisions_def stays_healthy_def
        Let_def split: list.splits)
  then show ?thesis
    unfolding ledgerRaw_def by (intro keeps_rules)
qed

lemma quiet_parts [keeps_rules]:
  "state_io_rel quiet (loadState tool c scope)"
  "state_io_rel quiet (taint_Get sid)"
  "state_io_rel quiet (ResolveSession trace task)"
  "state_io_rel quiet (mintToken e a b t c sc h)"
  "state_io_rel quiet (mintPendingApproval e a b t c sc h input)"
  unfolding loadState_def taint_Get_def ResolveSession_def mintToken_def mintPendingApproval_def
  by (intro keeps_rules)+

lemma quiet_openUndoWindow [keeps_rules]:
  "state_io_rel quiet (openUndoWindow e task tool trace)"
  unfolding openUndoWindow_def by (intro keeps_rules) simp

lemma quiet_openUndoWindowOrLog [keeps_rules]:
  "state_io_rel quiet (openUndoWindowOrLog e task tool trace)"
  unfolding openUndoWindowOrLog_def by (intro keeps_rules) simp

section \<open>One decision event per decision\<close>

definition decision_event :: "check_input \<Rightarrow> decision \<Rightarrow> event_row" where
  "decision_event ci d = \<lparr>ev_trace = ci_trace ci, ev_kind = ''policy_decision'',
     ev_payload = decision_payload ci (d_class d) (d_scope d) (d_level d) d\<rparr>"

definition logged :: "check_input \<Rightarrow> store \<Rightarrow> decision \<Rightarrow> store \<Rightarrow> bool" where
  "logged ci s d s' \<longleftrightarrow> (faults s = [] \<longrightarrow> faults s' = [] \<and> decisions s' = decisions s @ [decision_event ci d])"

lemma quiet_logged: "quiet s s1 \<Longrightarrow> logged ci s1 d s' \<Longrightarrow> logged ci s d s'"
  by (simp add: quiet_def stays_healthy_def logged_def)

lemma logs_decision:
  assumes "e_ledger e" "c = d_class d" "scope = d_scope d" "l = d_level d"
  shows "wp (do { ledgerDecision e ci c scope l d; ret (f d) }) (\<lambda>r s'. r = f d \<and> logged ci s d s') s"
  using assms
  by (auto simp: ledgerDecision_def ledgerRaw_def LogEvent_def wp_bind wp_return wp_db logged_def
      decisions_def decision_event_def split: list.splits)

lemma needsApproval_logs:
  assumes "e_ledger e"
  shows "wp (needsApproval e ci c scope level hash why) (\<lambda>r s'. logged ci s (fst r) s') s"
  unfolding needsApproval_def
proof (rule wp_bind_rel [OF quiet_parts(5)])
  fix r :: "string res" and s1
  assume q: "quiet s s1"
  show "wp (case r of
       Inl err \<Rightarrow> let d = deny_decision ReasonPolicyStateError RuleLadderV1 c scope level in do {
         ledgerDecision e ci c scope level d;
         ret (d, Some err)
       }
     | Inr i \<Rightarrow> let d = \<lparr>d_result = ResultNeedsApproval, d_reason = why, d_rule = RuleLadderV1,
                         d_class = c, d_scope = scope, d_level = level,
                         d_pending_id = i, d_token = ''''\<rparr> in do {
         ledgerDecision e ci c scope level d;
         ret (d, None)
       }) (\<lambda>r s'. logged ci s (fst r) s') s1"
    unfolding Let_def
    by (cases r; simp; rule wp_mono, rule logs_decision [OF assms])
       (auto simp: deny_decision_def intro: quiet_logged [OF q])
qed

lemma check_session_logs:
  assumes "e_ledger e"
  shows "wp (check_session e ci c scope)
     (\<lambda>r s'. case r of None \<Rightarrow> quiet s s' | Some d \<Rightarrow> logged ci s d s') s"
proof -
  let ?d = "deny_decision ReasonTaintedSession RuleTaintedSessionV1 c scope 0"
  let ?Q = "\<lambda>r s'. case r of None \<Rightarrow> quiet s s' | Some d \<Rightarrow> logged ci s d s'"
  have denies: "wp (do { ledgerDecision e ci c scope 0 ?d; ret (Some ?d) }) ?Q s1" if "quiet s s1" for s1
    by (rule wp_mono, rule logs_decision [OF assms])
       (auto simp: deny_decision_def intro: quiet_logged [OF that])
  have tainted: "wp (denyIfTainted e ci c scope sid) ?Q s1" if "quiet s s1" for sid s1
    unfolding denyIfTainted_def Let_def
    apply (rule wp_bind_rel [OF quiet_parts(2)])
    subgoal premises p for g s2
      apply (cases g; simp)
      apply (rule conjI; intro impI; rule wp_bind_rel [where R = quiet])
      by (auto intro!: keeps_rules denies simp: wp_return intro: quiet.R_trans [OF that] quiet.R_trans [OF p]
          quiet.R_trans)
    done
  have resolve: "wp (ResolveSession trace task) (\<lambda>_ s1. quiet s s1) s" for trace task
    by (rule wp_io_rel [OF quiet_parts(3)])
  have note_error: "state_io_rel quiet (case r of
       Inl err \<Rightarrow> ledgerRaw e (ci_trace ci) ''session_resolve_error''
         [(''event'', JStr ''session_resolve_error''), (''task_id'', JStr (ci_task ci)), (''err'', JErr err)]
     | Inr _ \<Rightarrow> ret ())" for r :: "string res"
    by (intro keeps_rules) simp
  show ?thesis
    unfolding check_session_def Let_def
    apply (simp add: wp_return quiet.R_refl tainted)
    by (intro conjI impI; rule wp_bind_mono [OF resolve]; rule wp_bind_rel [OF note_error];
        drule (1) quiet.R_trans; simp add: denies tainted)
qed

lemma check_ladder_logs:
  assumes "e_ledger e"
  shows "wp (check_ladder e ci c scope hash) (\<lambda>r s'. logged ci s (fst r) s') s"
  unfolding check_ladder_def
proof (rule wp_bind_rel [OF quiet_parts(1)])
  fix st :: "autonomy_row res" and s1
  assume q: "quiet s s1"
  have decides: "wp (do { ledgerDecision e ci c scope l d; ret (d, err) }) (\<lambda>r s'. logged ci s (fst r) s') t"
    if "quiet s t" "c = d_class d" "scope = d_scope d" "l = d_level d" for d err l t
    by (rule wp_mono, rule logs_decision [OF assms]) (use that quiet_logged in auto)
  have asks: "wp (needsApproval e ci c scope l hash why) (\<lambda>r s'. logged ci s (fst r) s') s1" for l why
    by (rule wp_mono [OF needsApproval_logs [OF assms]]) (rule quiet_logged [OF q])
  show "wp (case st of
       Inl err \<Rightarrow> let d = deny_decision ReasonPolicyStateError RuleLadderV1 c scope 0 in do {
         ledgerDecision e ci c scope 0 d;
         ret (d, Some err)
       }
     | Inr row \<Rightarrow>
       let level = au_level row in
       if c = ClassW3 then needsApproval e ci c scope level hash ReasonW3AlwaysApproval
       else let threshold = (case autoLevelFor c of Some l \<Rightarrow> l | None \<Rightarrow> 0) in
       if threshold \<le> level then do {
         tok \<leftarrow> (if c \<noteq> ClassR
                then mintToken e (ci_task ci) (ci_trace ci) (ci_tool ci) c scope hash
                else ret (Inr ''''));
         case tok of
           Inl err \<Rightarrow> let d = deny_decision ReasonPolicyStateError RuleLadderV1 c scope level in do {
             ledgerDecision e ci c scope level d;
             ret (d, Some err)
           }
         | Inr token \<Rightarrow> do {
             (if c = ClassW1 then openUndoWindowOrLog e (ci_task ci) (ci_tool ci) (ci_trace ci)
              else ret ());
             let d = \<lparr>d_result = ResultAllow, d_reason = NoReason, d_rule = RuleLadderV1,
                      d_class = c, d_scope = scope, d_level = level,
                      d_pending_id = '''', d_token = token\<rparr> in do {
               ledgerDecision e ci c scope level d;
               ret (d, None)
             }
           }
       }
       else needsApproval e ci c scope level hash ReasonNeedsApproval)
     (\<lambda>r s'. logged ci s (fst r) s') s1"
  proof (cases st)
    case (Inl err)
    then show ?thesis
      by (simp only: sum.case Let_def) (rule decides [OF q]; simp add: deny_decision_def)
  next
    case (Inr row)
    have mint: "state_io_rel quiet (if c \<noteq> ClassR
        then mintToken e (ci_task ci) (ci_trace ci) (ci_tool ci) c scope hash else ret (Inr ''''))"
      and window: "state_io_rel quiet (if c = ClassW1
        then openUndoWindowOrLog e (ci_task ci) (ci_tool ci) (ci_trace ci) else ret ())"
      by (intro keeps_rules)+
    show ?thesis
      unfolding Inr sum.case Let_def
      apply (rule wp_if [THEN iffD2])
      apply (split if_split, intro conjI impI asks)
      apply (rule wp_if [THEN iffD2])
      apply (split if_split, intro conjI impI asks)
      apply (rule wp_bind_rel [OF mint])
      subgoal premises p for tok s2
        apply (cases tok)
         apply (simp only: sum.case)
         apply (rule decides [OF quiet.R_trans [OF q p(3)]]; simp add: deny_decision_def)
        apply (simp only: sum.case)
        apply (rule wp_bind_rel [OF window])
        subgoal premises w for token u s3
          by (rule decides [OF quiet.R_trans [OF quiet.R_trans [OF q p(3)] w(2)]]; simp)
        done
      done
  qed
qed

lemma Check_logs:
  assumes "e_ledger e"
  shows "wp (Check e input)
     (\<lambda>r s'. logged (input\<lparr>ci_tool := Canonicalize (ci_tool input)\<rparr>) s (fst r) s') s"
proof (cases "pol_by_name (e_policy e) (Canonicalize (ci_tool input))")
  case None
  show ?thesis
    using None
    by (simp add: Check_def Let_def)
       (rule wp_mono, rule logs_decision [OF assms], simp_all add: deny_decision_def)
next
  case (Some tool)
  let ?ci = "input\<lparr>ci_tool := Canonicalize (ci_tool input)\<rparr>"
  have "wp (do {
      dn \<leftarrow> check_session e ?ci (tr_class tool) (normalizeScope (ci_scope input));
      case dn of
        Some d \<Rightarrow> ret (d, None)
      | None \<Rightarrow> check_ladder e ?ci (tr_class tool) (normalizeScope (ci_scope input))
                 (approvedBytesHash e (ci_tool_input input))
    }) (\<lambda>r s'. logged ?ci s (fst r) s') s"
    apply (rule wp_bind_mono [OF check_session_logs [OF assms]])
    subgoal for dn s1
      by (cases dn) (auto simp: wp_return intro: quiet_logged wp_mono [OF check_ladder_logs [OF assms]])
    done
  then show ?thesis using Some by (simp add: Check_def Let_def)
qed

section \<open>Errors deny\<close>

lemma check_ladder_errors:
  "wp (check_ladder e ci c scope hash) (\<lambda>(d, err) s'. err \<noteq> None \<longrightarrow> d_result d = ResultDeny) s"
proof -
  have asks: "wp (needsApproval e ci k scope l hash why)
      (\<lambda>(d, err) s'. err \<noteq> None \<longrightarrow> d_result d = ResultDeny) t" for k l why t
    unfolding needsApproval_def Let_def
    by (rule wp_bindI) (auto simp: wp_return deny_decision_def intro!: wp_bindI split: sum.splits)
  show ?thesis
    unfolding check_ladder_def Let_def
    by (rule wp_bindI)
       (auto simp: wp_return deny_decision_def intro!: asks [simplified] wp_bindI split: sum.split)
qed

lemma Check_errors: "wp (Check e input) (\<lambda>(d, err) s'. err \<noteq> None \<longrightarrow> d_result d = ResultDeny) s"
  unfolding Check_def Let_def
  by (auto simp: wp_return intro!: wp_bindI check_ladder_errors [simplified] split: option.split)

end
