(* ===== verification/Policy_Undo.thy ===== *)
theory Policy_Undo
  imports Policy_Ledger
begin

text \<open>
  The life of an undo window: the sweep closes every window whose deadline has passed, and a
  successful undo found an open one in time and closed it.
\<close>

text \<open>A window that is open afterwards was there, open, before.\<close>

definition windows_close :: "store \<Rightarrow> store \<Rightarrow> bool" where
  "windows_close s s' \<longleftrightarrow> clock s' = clock s
     \<and> (\<forall>w \<in> set (undos s'). uw_state w = UndoOpen \<longrightarrow> w \<in> set (undos s))"

interpretation closing: store_preorder windows_close
  by unfold_locales (auto simp: windows_close_def)

definition window_closed :: "int \<Rightarrow> store \<Rightarrow> bool" where
  "window_closed wid s \<longleftrightarrow> (\<forall>w \<in> set (undos s). uw_id w = wid \<longrightarrow> uw_state w \<noteq> UndoOpen)"

lemma open_after_close:
  "w \<in> set (update_where (\<lambda>r. uw_id r = wid) (\<lambda>r. r\<lparr>uw_state := st\<rparr>) rows) \<Longrightarrow> st \<noteq> UndoOpen \<Longrightarrow>
   uw_state w = UndoOpen \<Longrightarrow> w \<in> set rows \<and> uw_id w \<noteq> wid"
  by (auto simp: set_update_where)

lemma set_state_closes:
  assumes "st \<noteq> UndoOpen"
  shows "wp (SetUndoWindowState st wid)
     (\<lambda>r s'. windows_close s s' \<and> (r = Inr () \<longrightarrow> window_closed wid s') \<and> (faults s = [] \<longrightarrow> r = Inr ())) s"
proof -
  let ?s' = "\<lambda>s. s\<lparr>undos := update_where (\<lambda>r. uw_id r = wid) (\<lambda>r. r\<lparr>uw_state := st\<rparr>) (undos s)\<rparr>"
  have "windows_close s (?s' t) \<and> window_closed wid (?s' t)" if "undos t = undos s" "clock t = clock s" for t
    unfolding windows_close_def window_closed_def
    by (simp add: that) (use open_after_close [OF _ assms] in blast)
  then show ?thesis
    by (cases "faults s") (simp_all add: SetUndoWindowState_def wp_db windows_close_def)
qed

lemma closing_ledgerRaw [keeps_rules]: "state_io_rel windows_close (ledgerRaw e trace kind p)"
  unfolding ledgerRaw_def by (intro keeps_rules)

lemma closing_hook [keeps_rules]: "state_io_rel windows_close (fireUndoExpiryHook e trace task tool)"
  unfolding fireUndoExpiryHook_def by (intro keeps_rules)

lemma closing_demote [keeps_rules]: "state_io_rel windows_close (demote e tool c scope trace why)"
proof -
  have "state_io_rel windows_close (UpdateAutonomyState l a u t c sc)"
    "state_io_rel windows_close (InsertAutonomyState r)" for l a u t c sc r
    unfolding UpdateAutonomyState_def InsertAutonomyState_def
    by (rule closing.keeps_db; simp add: windows_close_def Let_def)+
  then show ?thesis
    unfolding demote_def loadState_def saveState_def by (intro keeps_rules)
qed

lemma window_stays_closed: "windows_close s s' \<Longrightarrow> window_closed wid s \<Longrightarrow> window_closed wid s'"
  by (auto simp: windows_close_def window_closed_def)

text \<open>A deadline the sweep treats as passed; a deadline that does not parse never passes.\<close>

definition deadline_passed :: "int \<Rightarrow> undo_row \<Rightarrow> bool" where
  "deadline_passed t w \<longleftrightarrow> (\<exists>x. parse_stamp (uw_deadline w) = Some x \<and> x \<le> t)"

lemma healthy_sweep_window:
  "faults s = [] \<Longrightarrow> wp (sweep_window e t w n) (\<lambda>_ s'. faults s' = []) s"
  by (rule wp_io_rel [OF healthy.keeps_sweep_window]) (simp add: stays_healthy_def)

lemma sweep_window_spec:
  assumes "faults s = []"
  shows "wp (sweep_window e t w n)
     (\<lambda>_ s'. windows_close s s' \<and> faults s' = [] \<and> (deadline_passed t w \<longrightarrow> window_closed (uw_id w) s')) s"
proof -
  have "wp (sweep_window e t w n)
     (\<lambda>_ s'. windows_close s s' \<and> (deadline_passed t w \<longrightarrow> window_closed (uw_id w) s')) s"
  proof (cases "deadline_passed t w")
    case False
    then show ?thesis
      by (auto simp: sweep_window_def deadline_passed_def wp_return closing.R_refl not_le split: option.split)
  next
    case True
    then obtain x where x: "parse_stamp (uw_deadline w) = Some x" "\<not> t < x"
      by (auto simp: deadline_passed_def)
    have rest: "wp (do {
         ledgerRaw e (uw_trace w) ''undo_window_expired'' (undo_payload ''undo_window_expired'' w);
         fireUndoExpiryHook e (uw_trace w) (uw_task w) (uw_tool w);
         ret (n + 1)
       }) (\<lambda>_ s'. windows_close s1 s') s1" for s1
      by (rule wp_io_rel [where R = windows_close]) (intro keeps_rules)
    show ?thesis
      unfolding sweep_window_def x option.case if_not_P [OF x(2)]
      apply (rule wp_bind_mono [OF set_state_closes])
       apply simp
      subgoal for r s1
        using assms
        by (cases r) (auto intro!: wp_mono [OF rest] intro: closing.R_trans window_stays_closed)
      done
  qed
  then have "wp (sweep_window e t w n) (\<lambda>a s'. (windows_close s s' \<and>
      (deadline_passed t w \<longrightarrow> window_closed (uw_id w) s')) \<and> faults s' = []) s"
    by (rule wp_conj) (rule healthy_sweep_window [OF assms])
  then show ?thesis by (rule wp_mono) auto
qed

lemma no_passed_open:
  assumes "windows_close s s'" "\<forall>w. w \<in> set (undos s) \<and> uw_state w = UndoOpen \<longrightarrow>
      deadline_passed t w \<longrightarrow> window_closed (uw_id w) s'"
    and "w \<in> set (undos s')" "uw_state w = UndoOpen"
  shows "w \<in> set (undos s) \<and> \<not> deadline_passed t w"
proof -
  from assms(1,3,4) have "w \<in> set (undos s)" by (simp only: windows_close_def)
  moreover from assms(3,4) have "\<not> window_closed (uw_id w) s'" unfolding window_closed_def by blast
  ultimately show ?thesis using assms(2,4) by blast
qed

lemma Sweep_spec:
  assumes "faults s = []"
  shows "wp (SweepExpiredUndoWindows e)
     (\<lambda>r s'. \<not> isl r \<and> (\<forall>w \<in> set (undos s'). uw_state w = UndoOpen \<longrightarrow>
        w \<in> set (undos s) \<and> \<not> deadline_passed (clock s) w)) s"
proof -
  let ?rows = "filter (\<lambda>r. uw_state r = UndoOpen) (undos s)"
  have loop: "wp (for_each ?rows (sweep_window e t) 0)
      (\<lambda>_ s'. windows_close s s' \<and> faults s' = [] \<and>
         (\<forall>w \<in> set ?rows. deadline_passed t w \<longrightarrow> window_closed (uw_id w) s')) s" for t
    by (rule closing.for_each_wp [where I = "\<lambda>s. faults s = []"])
       (auto intro: sweep_window_spec window_stays_closed assms)
  show ?thesis
    unfolding SweepExpiredUndoWindows_def ListOpenUndoWindows_def query_def wp_bind wp_db assms
    by (simp add: wp_bind wp_now)
       (rule wp_mono [OF loop], use no_passed_open in \<open>auto simp: wp_return\<close>)
qed

lemma TriggerUndo_spec:
  "wp (TriggerUndo e trace)
     (\<lambda>r s'. \<forall>row. r = Inr row \<longrightarrow> row \<in> set (undos s) \<and> uw_trace row = trace \<and> uw_state row = UndoOpen
        \<and> (\<forall>x. parse_stamp (uw_deadline row) = Some x \<longrightarrow> clock s \<le> x)
        \<and> window_closed (uw_id row) s') s"
proof -
  let ?Q = "\<lambda>r s'. \<forall>row. r = Inr row \<longrightarrow> row \<in> set (undos s) \<and> uw_trace row = trace \<and> uw_state row = UndoOpen
        \<and> (\<forall>x. parse_stamp (uw_deadline row) = Some x \<longrightarrow> clock s \<le> x)
        \<and> window_closed (uw_id row) s'"
  have look: "wp (GetOpenUndoWindowByTrace trace) (\<lambda>r s1. same_tables s s1 \<and>
      (\<forall>row. r = Inr row \<longrightarrow> row \<in> set (undos s) \<and> uw_trace row = trace \<and> uw_state row = UndoOpen)) s"
    unfolding GetOpenUndoWindowByTrace_def
    by (rule wp_select_oneI) (auto simp: same_tables_def dest: newest_by_in)
  have late: "wp (do {
        x \<leftarrow> SetUndoWindowState UndoExpired wid;
        ledgerRaw e trace k p;
        fireUndoExpiryHook e trace task tool;
        ret (Inl ErrNoOpenUndoWindow)
      }) ?Q s1" for wid k p task tool s1
    by (rule wp_bindI, rule wp_bindI, rule wp_bindI) (simp add: wp_return)
  have rest: "wp (do {
        ledgerRaw e trace k p;
        demote e tool c sc trace why;
        ret (Inr row)
      }) (\<lambda>r s'. r = Inr row \<and> windows_close s2 s') s2" for k p tool c sc why s2 and row :: undo_row
    by (rule wp_bind_rel [OF closing_ledgerRaw], rule wp_bind_rel [OF closing_demote])
       (auto simp: wp_return intro: closing.R_trans)
  show ?thesis
    unfolding TriggerUndo_def Let_def
    apply (rule wp_bind_mono [OF look])
    subgoal premises p for r s1
    proof (cases r)
      case (Inr row)
      with p have row: "row \<in> set (undos s)" "uw_trace row = trace" "uw_state row = UndoOpen"
        and clk: "clock s1 = clock s"
        by (auto simp: same_tables_def)
      show ?thesis
        unfolding Inr sum.case wp_bind [of now] wp_now wp_if
        apply (split if_split, intro conjI impI)
         apply (rule late)
        apply (rule wp_bind_mono [OF set_state_closes])
         apply simp
        subgoal for u s2
          apply (cases u)
           apply (simp add: wp_return)
          apply (simp only: sum.case)
          apply (rule wp_mono [OF rest])
          apply (use row clk in \<open>auto simp: window_stays_closed split: option.splits\<close>)
          done
        done
    qed (simp add: wp_return)
    done
qed

end
