(* ===== verification/Policy_Props.thy ===== *)
theory Policy_Props
  imports Policy_Undo
begin

text \<open>
  The properties of the policy engine.  The witnesses run the engine on a small database: one
  task with a persisted clean session, a policy with a read tool, a W1 and a W3 tool, and a
  ladder that has the W1 tool at level 2.
\<close>

section \<open>A concrete engine\<close>

definition demo_unicode :: unicode_env where
  "demo_unicode = \<lparr>nfc = (\<lambda>s. s), is_letter = (\<lambda>r. 97 \<le> r \<and> r \<le> 122), is_digit = (\<lambda>r. 48 \<le> r \<and> r \<le> 57),
     in_script = (\<lambda>_ _. False), confusables_raw = ''''\<rparr>"

definition demo_tool :: "string \<Rightarrow> action_class \<Rightarrow> tool_rule" where
  "demo_tool n c = \<lparr>tr_name = n, tr_class = c, tr_reversible = (c = ClassW1),
     tr_undo = (if c = ClassW1 then ''trash'' else ''''), tr_scope_key = ''global'',
     tr_untrusted_output = False\<rparr>"

definition demo_policy :: policy where
  "demo_policy = \<lparr>pol_tools = [demo_tool ''fs_read'' ClassR, demo_tool ''fs_write'' ClassW1, demo_tool ''mail_send'' ClassW3],
     pol_by_name = [''fs_read'' \<mapsto> demo_tool ''fs_read'' ClassR, ''fs_write'' \<mapsto> demo_tool ''fs_write'' ClassW1,
                    ''mail_send'' \<mapsto> demo_tool ''mail_send'' ClassW3],
     pol_secret_globs = [], pol_deny_globs = mandatory_deny_globs,
     pol_egress = \<lparr>ec_allowlist = [], ec_default_budget = 1, ec_budget = []\<rparr>\<rparr>"

definition demo_engine :: engine where
  "demo_engine = \<lparr>e_policy = demo_policy, e_ledger = True, e_taint_checker = True,
     e_session_resolver = True, e_pending_hook = False, e_invalidated_hook = False,
     e_undo_expiry_hook = False, e_undo_window = undo_window_duration, e_unicode = demo_unicode\<rparr>"

definition demo_key :: string where "demo_key = replicate 32 (CHR ''k'')"

definition demo_task :: task_row where
  "demo_task = \<lparr>t_id = ''task'', t_trace = ''trace'', t_session = Some ''sess'',
     t_state = ''running'', t_model = None, t_lane = ''normal'', t_secret_category = None,
     t_status = StatusExecuting, t_next_retry = None, t_attempts = 1, t_created = Stamp 0,
     t_updated = Stamp 0, t_worker_pgid = None, t_halted_at = None, t_envelope = None\<rparr>"

definition demo_store :: store where
  "demo_store = empty_store\<lparr>tasks := [demo_task],
     taints := [\<lparr>st_session = ''sess'', st_tier = TierClean, st_reason = None, st_updated = Stamp 0\<rparr>],
     autonomy := [\<lparr>au_tool = ''fs_write'', au_class = ClassW1, au_scope = ''global'', au_level = 2,
                   au_approvals = 0, au_updated = Stamp 0\<rparr>],
     entropy := [Some demo_key], clock := 1000\<rparr>"

definition demo_check :: "string \<Rightarrow> check_input" where
  "demo_check tool = \<lparr>ci_tool = tool, ci_scope = '''', ci_task = ''task'', ci_trace = ''trace'',
     ci_session = '''', ci_tool_input = ''x''\<rparr>"

lemmas demo_defs = demo_unicode_def demo_tool_def demo_policy_def demo_engine_def demo_task_def
  demo_store_def demo_check_def empty_store_def

lemmas engine_eval = Check_def Canonicalize_def normalizeScope_def check_session_def check_ladder_def
  ResolveSession_def denyIfTainted_def taint_Get_def loadState_def saveState_def needsApproval_def
  mintToken_def mintPendingApproval_def openUndoWindow_def openUndoWindowOrLog_def ledgerRaw_def
  ledgerDecision_def deny_decision_def autoLevelFor_def no_class_def
  GetTaskByID_def GetTaskSessionByTrace_def GetSessionTaint_def GetAutonomyState_def
  InsertApprovalToken_def InsertPendingApproval_def GetOpenUndoWindowByTaskToolTrace_def
  InsertUndoWindow_def InsertAutonomyState_def UpdateAutonomyState_def LogEvent_def
  select_one_def query_def db_def now_def rand_read_def notice_def au_key_def valid_class_def
  newest_by_def Let_def

lemma length_demo_key [simp]: "length demo_key = 32"
  by (simp add: demo_key_def)

lemma demo_allow:
  "d_result (fst (fst (run_state (Check demo_engine (demo_check ''fs_write'')) demo_store))) = ResultAllow"
  by (simp add: demo_defs engine_eval)

section \<open>The decision\<close>

text \<open>
  C1. An allow is licensed: the tool is registered, its class is one the ladder can grant by
  itself (so never W3), the ladder level of (tool, class, scope) reaches the threshold of the
  class, no error is reported, and for every class but R the decision carries a fresh token
  whose row binds it to this task, this tool and the hash of these input bytes.
\<close>

theorem check_allow_is_licensed:
  assumes "run_state (Check e input) s = ((d, err), s')" and "d_result d = ResultAllow"
  shows "err = None \<and> (\<exists>rule l. pol_by_name (e_policy e) (Canonicalize (ci_tool input)) = Some rule
    \<and> d_class d = tr_class rule \<and> d_scope d = normalizeScope (ci_scope input)
    \<and> autoLevelFor (tr_class rule) = Some l
    \<and> l \<le> ladder_level s (Canonicalize (ci_tool input)) (tr_class rule) (normalizeScope (ci_scope input))
    \<and> (tr_class rule \<noteq> ClassR \<longrightarrow> token_bound s' (d_token d) (ci_task input)
         (Canonicalize (ci_tool input)) (tr_class rule) (approvedBytesHash e (ci_tool_input input))))"
proof -
  let ?ci = "input\<lparr>ci_tool := Canonicalize (ci_tool input)\<rparr>"
  let ?Q = "\<lambda>(d, err) s'. d_result d = ResultAllow \<longrightarrow> err = None
    \<and> (\<exists>rule l. pol_by_name (e_policy e) (Canonicalize (ci_tool input)) = Some rule
    \<and> d_class d = tr_class rule \<and> d_scope d = normalizeScope (ci_scope input)
    \<and> autoLevelFor (tr_class rule) = Some l
    \<and> l \<le> ladder_level s (Canonicalize (ci_tool input)) (tr_class rule) (normalizeScope (ci_scope input))
    \<and> (tr_class rule \<noteq> ClassR \<longrightarrow> token_bound s' (d_token d) (ci_task input)
         (Canonicalize (ci_tool input)) (tr_class rule) (approvedBytesHash e (ci_tool_input input))))"
  have "wp (Check e input) ?Q s"
  proof (cases "pol_by_name (e_policy e) (Canonicalize (ci_tool input))")
    case None
    then show ?thesis
      by (simp add: Check_def Let_def deny_decision_def wp_bind wp_return wp_any)
  next
    case (Some rule)
    have session: "wp (check_session e ?ci (tr_class rule) sc)
        (\<lambda>r s1. same_tables s s1 \<and> (\<forall>d. r = Some d \<longrightarrow> d_result d = ResultDeny)) s" for sc
      by (rule wp_conj [OF wp_io_rel [OF same_check_session] check_session_denies])
    show ?thesis
      using Some
      apply (simp add: Check_def Let_def)
      apply (rule wp_bind_mono [OF session])
      subgoal for dn s1
        by (cases dn)
           (auto simp: wp_return same_tables_ladder intro!: wp_mono [OF check_ladder_allows])
      done
  qed
  from wp_run [OF this assms(1)] assms(2) show ?thesis by simp
qed

theorem check_allow_is_licensed_witness:
  "\<exists>d s'. run_state (Check demo_engine (demo_check ''fs_write'')) demo_store = ((d, None), s')
     \<and> d_result d = ResultAllow
     \<and> token_bound s' (d_token d) ''task'' ''fs_write'' ClassW1 (approvedBytesHash demo_engine ''x'')"
proof -
  obtain d err s' where run: "run_state (Check demo_engine (demo_check ''fs_write'')) demo_store = ((d, err), s')"
    by (metis prod.collapse)
  with demo_allow have allow: "d_result d = ResultAllow" by simp
  from check_allow_is_licensed [OF run allow] run allow show ?thesis
    by (auto simp: demo_defs Canonicalize_def)
qed

text \<open>
  The decision fails closed: whatever database calls fail, a decision that comes with an
  error, or for a tool the policy does not register, is a deny.
\<close>

theorem check_fails_closed:
  assumes "run_state (Check e input) s = ((d, err), s')" and "d_result d \<noteq> ResultDeny"
  shows "err = None \<and> pol_by_name (e_policy e) (Canonicalize (ci_tool input)) \<noteq> None"
proof -
  have "wp (Check e input) (\<lambda>(d, err) s'. pol_by_name (e_policy e) (Canonicalize (ci_tool input)) = None
      \<longrightarrow> d_result d = ResultDeny) s"
    unfolding Check_def Let_def
    by (cases "pol_by_name (e_policy e) (Canonicalize (ci_tool input))")
       (simp_all add: wp_any, rule wp_bindI, simp add: wp_return deny_decision_def)
  from wp_run [OF this assms(1)] wp_run [OF Check_errors assms(1)] assms(2) show ?thesis by auto
qed

theorem check_fails_closed_witness:
  "snd (fst (run_state (Check demo_engine (demo_check ''fs_write'')) demo_store)) = None"
proof -
  obtain d err s' where run: "run_state (Check demo_engine (demo_check ''fs_write'')) demo_store = ((d, err), s')"
    by (metis prod.collapse)
  with demo_allow have "d_result d \<noteq> ResultDeny" by simp
  from check_fails_closed [OF run this] run show ?thesis by simp
qed

text \<open>
  C3. With the taint checker and the server-side session resolver wired, an action above class R
  is let through (allowed or queued for approval) only for a session the daemon itself persisted
  for this task or this trace, and only while that session is clean; what the request says about
  its session is irrelevant, and an unresolvable session is denied.
\<close>

theorem check_requires_clean_session:
  assumes "run_state (Check e input) s = ((d, err), s')" and "d_result d \<noteq> ResultDeny"
    and "e_taint_checker e" and "e_session_resolver e"
    and "pol_by_name (e_policy e) (Canonicalize (ci_tool input)) = Some rule" and "tr_class rule \<noteq> ClassR"
  shows "\<exists>sid. persisted_session s (ci_trace input) (ci_task input) sid \<and> session_clean s sid"
proof -
  let ?ci = "input\<lparr>ci_tool := Canonicalize (ci_tool input)\<rparr>"
  let ?scope = "normalizeScope (ci_scope input)"
  have "wp (Check e input) (\<lambda>(d, err) s'. d_result d \<noteq> ResultDeny \<longrightarrow>
      (\<exists>sid. persisted_session s (ci_trace input) (ci_task input) sid \<and> session_clean s sid)) s"
    using assms(5)
    apply (simp add: Check_def Let_def)
    apply (rule wp_bind_mono [OF check_session_spec [of e "tr_class rule" ?ci ?scope s, OF assms(3,4,6)]])
    subgoal for dn s1
      by (cases dn) (auto simp: wp_return deny_decision_def wp_any)
    done
  from wp_run [OF this assms(1)] assms(2) show ?thesis by simp
qed

theorem check_requires_clean_session_witness:
  "\<exists>sid. persisted_session demo_store ''trace'' ''task'' sid \<and> session_clean demo_store sid"
proof -
  obtain d err s' where run: "run_state (Check demo_engine (demo_check ''fs_write'')) demo_store = ((d, err), s')"
    by (metis prod.collapse)
  with demo_allow have allow: "d_result d \<noteq> ResultDeny" by simp
  from check_requires_clean_session [OF run allow, of "demo_tool ''fs_write'' ClassW1"]
  show ?thesis by (simp add: demo_defs Canonicalize_def)
qed

text \<open>
  With a ledger and a database that does not fail, every call of \<open>Check\<close> appends exactly
  one \<open>policy_decision\<close> event, and that event records the tool, class, scope, level and decision
  that are returned.
\<close>

theorem check_ledgers_its_decision:
  assumes "run_state (Check e input) s = ((d, err), s')" and "e_ledger e" and "faults s = []"
  shows "decisions s' = decisions s @
    [decision_event (input\<lparr>ci_tool := Canonicalize (ci_tool input)\<rparr>) d]"
  using wp_run [OF Check_logs [OF assms(2)] assms(1)] assms(3) by (simp add: logged_def)

theorem check_ledgers_its_decision_witness:
  "length (decisions (snd (run_state (Check demo_engine (demo_check ''fs_read'')) demo_store))) = 1"
proof -
  obtain d err s' where run: "run_state (Check demo_engine (demo_check ''fs_read'')) demo_store = ((d, err), s')"
    by (metis prod.collapse)
  have "e_ledger demo_engine" "faults demo_store = []" "decisions demo_store = []"
    by (simp_all add: demo_defs decisions_def)
  with check_ledgers_its_decision [OF run] run show ?thesis by simp
qed

section \<open>Approvals\<close>

definition demo_w3_store :: store where
  "demo_w3_store = demo_store\<lparr>pendings := [\<lparr>pa_id = ''p'', pa_task = ''task'', pa_trace = ''trace'',
     pa_tool = ''mail_send'', pa_class = ClassW3, pa_scope = ''global'',
     pa_bytes_hash = approvedBytesHash demo_engine ''x'', pa_input = ''x'', pa_minted = Stamp 0, pa_expires = Stamp pending_approval_ttl,
     pa_consumed = None\<rparr>]\<rparr>"

lemmas approve_eval = Approve_def getValidPendingApproval_def GetPendingApproval_def
  consumePendingApproval_def ConsumePendingApproval_def approve_w3_gate_def approve_bookkeeping_def
  burn_def count_where_def update_where_def consume_pending_def pa_used_def

lemma demo_onayla [simp]: "isTypedOnayla demo_engine ''onayla''"
  by (simp add: isTypedOnayla_def normalize_def Let_def demo_engine_def demo_unicode_def split: prod.split)

lemma demo_ttl [simp]: "\<not> pending_approval_ttl < 1000" "1000 \<le> pending_approval_ttl"
  by (simp_all add: pending_approval_ttl_def minute_ns_def second_ns_def)

lemma demo_approve:
  "\<exists>token. fst (run_state (Approve demo_engine ''p'' ''local'' ''onayla'') demo_w3_store) = Inr token"
  by (simp add: demo_w3_store_def demo_store_def empty_store_def engine_eval approve_eval)

text \<open>
  C5. An approval that returns a token was of a pending approval that exists, has not been
  consumed and has not expired; for W3 it came from the local surface with the typed word; the
  pending approval is consumed by it, and the token is bound to the task, tool, class and bytes
  of the pending row.
\<close>

theorem approve_is_explicit:
  assumes "run_state (Approve e i surface typed) s = (Inr token, s')"
  shows "\<exists>pa. pending_valid s i pa \<and> \<not> pending_burnt i s \<and> pending_burnt i s'
    \<and> (pa_class pa = ClassW3 \<longrightarrow> surface = ''local'' \<and> isTypedOnayla e typed)
    \<and> token_bound s' token (pa_task pa) (pa_tool pa) (pa_class pa) (pa_bytes_hash pa)"
  using wp_run [OF Approve_spec assms] by simp

theorem approve_is_explicit_witness:
  "\<exists>pa. pending_valid demo_w3_store ''p'' pa \<and>
     pending_burnt ''p'' (snd (run_state (Approve demo_engine ''p'' ''local'' ''onayla'') demo_w3_store))"
proof -
  from demo_approve obtain token s'
    where run: "run_state (Approve demo_engine ''p'' ''local'' ''onayla'') demo_w3_store = (Inr token, s')"
    by (metis prod.collapse)
  from approve_is_explicit [OF run] show ?thesis unfolding run snd_conv by blast
qed

text \<open>
  C6. A pending approval is decided at most once: in any sequence of calls of the engine, from
  any state and under any database failures, at most one approval or denial of an id returns
  without an error.
\<close>

theorem pending_decided_once: "successes (decides_pending i) e ops s \<le> 1"
  by (rule pending_once)

text \<open>
  A token is consumed at most once: in any sequence of calls of the engine, from any state
  and under any database failures, at most one \<open>ConsumeToken\<close> of the token with a given hash
  returns without an error, in whichever spelling of its hexadecimal text.
\<close>

theorem token_consumed_once: "successes (consumes_token h) e ops s \<le> 1"
  by (rule token_once)

text \<open>
  C8. A token is accepted only for what it was minted for: a successful \<open>ConsumeToken\<close> presents
  32 bytes whose hash is that of an unconsumed row with the same task and tool, with the hash of
  the presented input bytes, and not past its expiry; and the row is consumed by the call.
\<close>

theorem consume_checks_binding:
  assumes "run_state (ConsumeToken e ci) s = (Inr (), s')" and "keys_unique s"
  shows "\<exists>h row. token_of (co_token ci) = Some h \<and> row \<in> set (tokens s) \<and> tk_hash row = h
    \<and> \<not> tk_used row \<and> token_matches e ci (clock s) row \<and> token_burnt h s'"
proof -
  from wp_run [OF ConsumeToken_spec assms(1)] obtain h row where
    h: "token_of (co_token ci) = Some h" "token_burnt h s'"
    and fresh: "\<exists>row \<in> set (tokens s). tk_hash row = h \<and> \<not> tk_used row"
    and row: "find (\<lambda>r. tk_hash r = h) (tokens s) = Some row" "token_matches e ci (clock s) row"
    by blast
  from fresh obtain r where r: "r \<in> set (tokens s)" "tk_hash r = h" "\<not> tk_used r" by blast
  moreover have "distinct (map tk_hash (tokens s))" using assms(2) by (simp add: keys_unique_def)
  ultimately have "r = row" using row(1) find_key by fastforce
  with h r row show ?thesis by blast
qed

definition demo_consume :: consume_input where
  "demo_consume = \<lparr>co_token = hex_encode demo_key, co_tool = ''fs_write'', co_class = ClassW1,
     co_scope = ''global'', co_task = ''task'', co_trace = ''trace'', co_tool_input = ''x''\<rparr>"

definition demo_token_store :: store where
  "demo_token_store = demo_store\<lparr>tokens := [\<lparr>tk_hash = rawBytesHash demo_key, tk_task = ''task'',
     tk_trace = ''trace'', tk_tool = ''fs_write'', tk_class = ClassW1, tk_scope = ''global'',
     tk_bytes_hash = approvedBytesHash demo_engine ''x'', tk_minted = Stamp 0,
     tk_expires = Stamp (1000 + token_ttl), tk_consumed = None, tk_revoked = None\<rparr>]\<rparr>"

lemma demo_bound:
  "token_bound demo_token_store (hex_encode demo_key) ''task'' ''fs_write'' ClassW1
     (approvedBytesHash demo_engine ''x'')"
  by (simp add: token_bound_def demo_token_store_def demo_store_def tk_used_def)

lemma demo_consumes:
  "fst (run_state (ConsumeToken demo_engine demo_consume) demo_token_store) = Inr ()"
proof -
  have "demo_token_store\<lparr>clock := clock demo_token_store, faults := []\<rparr> = demo_token_store"
    by (simp add: demo_token_store_def demo_store_def empty_store_def)
  moreover have "clock demo_token_store \<le> clock demo_token_store + token_ttl"
    by (simp add: token_ttl_def minute_ns_def second_ns_def)
  ultimately show ?thesis
    using ConsumeToken_accepts [of demo_token_store "hex_encode demo_key" "''task''" "''fs_write''" ClassW1
      demo_engine demo_consume "clock demo_token_store"] demo_bound
    by (simp add: demo_consume_def)
qed

theorem consume_checks_binding_witness:
  "\<exists>row \<in> set (tokens demo_token_store). token_matches demo_engine demo_consume (clock demo_token_store) row"
proof -
  obtain s' where run: "run_state (ConsumeToken demo_engine demo_consume) demo_token_store = (Inr (), s')"
    using demo_consumes by (metis prod.collapse)
  have "keys_unique demo_token_store"
    by (simp add: keys_unique_def demo_token_store_def demo_store_def empty_store_def)
  from consume_checks_binding [OF run this] show ?thesis by blast
qed

text \<open>
  Mint and consume fit together: when an approval returns a token, presenting that token
  with the task, tool and input bytes of the pending approval, at any time within the token's
  lifetime, is accepted by a database that does not fail.
\<close>

theorem approved_token_is_accepted:
  assumes "run_state (Approve e i surface typed) s = (Inr token, s')"
  shows "\<exists>pa. pending_valid s i pa \<and> (\<forall>ci t. co_token ci = token \<and> co_task ci = pa_task pa
      \<and> co_tool ci = pa_tool pa \<and> approvedBytesHash e (co_tool_input ci) = pa_bytes_hash pa
      \<and> t \<le> clock s + token_ttl
      \<longrightarrow> fst (run_state (ConsumeToken e ci) (s'\<lparr>clock := t, faults := []\<rparr>)) = Inr ())"
proof -
  from wp_run [OF Approve_spec assms] obtain pa where pa: "pending_valid s i pa"
    "token_bound s' token (pa_task pa) (pa_tool pa) (pa_class pa) (pa_bytes_hash pa)"
    by blast
  have "other_tables s s'" using others.keeps_run [OF others.keeps_Approve assms] .
  then have "clock s' = clock s" by (simp add: other_tables_def)
  with pa ConsumeToken_accepts [of s' token "pa_task pa" "pa_tool pa" "pa_class pa" e] show ?thesis
    by (intro exI [of _ pa]) auto
qed

theorem approved_token_is_accepted_witness:
  "\<exists>token s'. run_state (Approve demo_engine ''p'' ''local'' ''onayla'') demo_w3_store = (Inr token, s')
     \<and> fst (run_state (ConsumeToken demo_engine (demo_consume\<lparr>co_token := token, co_tool := ''mail_send''\<rparr>))
          (s'\<lparr>clock := 2000, faults := []\<rparr>)) = Inr ()"
proof -
  from demo_approve obtain token s'
    where run: "run_state (Approve demo_engine ''p'' ''local'' ''onayla'') demo_w3_store = (Inr token, s')"
    by (metis prod.collapse)
  have t: "2000 \<le> clock demo_w3_store + token_ttl"
    by (simp add: demo_w3_store_def demo_store_def token_ttl_def minute_ns_def second_ns_def)
  from approved_token_is_accepted [OF run] obtain pa where "pending_valid demo_w3_store ''p'' pa"
    and accept: "\<And>ci t. co_token ci = token \<and> co_task ci = pa_task pa
      \<and> co_tool ci = pa_tool pa \<and> approvedBytesHash demo_engine (co_tool_input ci) = pa_bytes_hash pa
      \<and> t \<le> clock demo_w3_store + token_ttl
      \<Longrightarrow> fst (run_state (ConsumeToken demo_engine ci) (s'\<lparr>clock := t, faults := []\<rparr>)) = Inr ()"
    by blast
  then have "pa_task pa = ''task''" "pa_tool pa = ''mail_send''"
    "pa_bytes_hash pa = approvedBytesHash demo_engine ''x''"
    by (auto simp: pending_valid_def demo_w3_store_def)
  with t have "fst (run_state (ConsumeToken demo_engine
      (demo_consume\<lparr>co_token := token, co_tool := ''mail_send''\<rparr>)) (s'\<lparr>clock := 2000, faults := []\<rparr>)) = Inr ()"
    by (intro accept) (simp add: demo_consume_def)
  with run show ?thesis by blast
qed

section \<open>Emergency halt, ladder, undo\<close>

text \<open>
  C10. After the approval half of an emergency halt on a database that does not fail, no pending
  approval and no token the halted task had can be used: whatever calls follow, under whatever
  failures, none of them approves, denies or consumes one.
\<close>

theorem halted_credentials_are_dead:
  assumes "run_state (InvalidateApprovalsForTask e trace task) s = (r, s')"
    and "faults s = []" and "keys_unique s"
  shows "\<not> isl r
    \<and> (\<forall>p \<in> set (pendings s). pa_task p = task \<longrightarrow>
         successes (decides_pending (pa_id p)) e' ops (s'\<lparr>faults := fs\<rparr>) = 0)
    \<and> (\<forall>k \<in> set (tokens s). tk_task k = task \<longrightarrow>
         successes (consumes_token (tk_hash k)) e' ops (s'\<lparr>faults := fs\<rparr>) = 0)"
proof -
  have "pending_burnt i (s'\<lparr>faults := fs\<rparr>) \<longleftrightarrow> pending_burnt i s'"
    "token_burnt h (s'\<lparr>faults := fs\<rparr>) \<longleftrightarrow> token_burnt h s'" for i h
    by (simp_all add: pending_burnt_def token_burnt_def)
  then show ?thesis
    using wp_run [OF halt_spec [OF assms(2,3)] assms(1)] pending_once(2) token_once(2) by simp
qed

theorem halted_credentials_are_dead_witness:
  "successes (decides_pending ''p'') demo_engine [OpApprove ''p'' ''local'' ''onayla'']
     (snd (run_state (InvalidateApprovalsForTask demo_engine ''trace'' ''task'') demo_w3_store)) = 0"
proof -
  obtain r s' where run: "run_state (InvalidateApprovalsForTask demo_engine ''trace'' ''task'') demo_w3_store = (r, s')"
    by (metis prod.collapse)
  have "faults demo_w3_store = []" "keys_unique demo_w3_store"
    by (simp_all add: keys_unique_def demo_w3_store_def demo_store_def empty_store_def)
  from halted_credentials_are_dead [OF run this, of demo_engine
      "[OpApprove ''p'' ''local'' ''onayla'']" "faults s'"]
  have "\<forall>p \<in> set (pendings demo_w3_store). pa_task p = ''task'' \<longrightarrow>
      successes (decides_pending (pa_id p)) demo_engine [OpApprove ''p'' ''local'' ''onayla''] s' = 0"
    by simp
  then show ?thesis unfolding run snd_conv by (simp add: demo_w3_store_def del: successes_Cons)
qed

text \<open>
  Ladder levels stay between 0 and 4 whatever is called, and no level of any (tool, class,
  scope) rises in a sequence of calls without \<open>Promote\<close>: approvals are counted, never turned
  into a level.
\<close>

theorem ladder_only_promote_raises:
  assumes "levels_in_range s"
  shows "levels_in_range (snd (exec_ops e ops s))
    \<and> (list_ex promotes ops \<or> ladder_level (snd (exec_ops e ops s)) tool c scope \<le> ladder_level s tool c scope)"
  using range.keeps_exec_ops [of s e ops] no_rise.keeps_exec_ops_quiet [of ops s e] assms
  by (auto simp: keeps_range_def no_rise_def)

theorem ladder_only_promote_raises_witness:
  "ladder_level (snd (exec_ops demo_engine [OpCheck (demo_check ''fs_write''), OpUndo ''trace''] demo_store))
     ''fs_write'' ClassW1 ''global'' \<le> 2"
proof -
  have "levels_in_range demo_store" by (simp add: levels_in_range_def demo_store_def)
  from ladder_only_promote_raises [OF this, of demo_engine
      "[OpCheck (demo_check ''fs_write''), OpUndo ''trace'']" "''fs_write''" ClassW1 "''global''"]
  show ?thesis by (simp add: ladder_level_def demo_store_def au_key_def)
qed

text \<open>
  A (task, tool, trace) has at most one open undo window at any time, in every sequence of
  calls from a database in which this holds.
\<close>

theorem one_open_window_per_action:
  assumes "one_open_window s"
  shows "one_open_window (snd (exec_ops e ops s))"
  using one_open.keeps_exec_ops [of s e ops] assms by (simp add: keeps_one_open_def)

theorem one_open_window_per_action_witness:
  "one_open_window (snd (exec_ops demo_engine
     [OpCheck (demo_check ''fs_write''), OpCheck (demo_check ''fs_write'')] demo_store))"
  by (rule one_open_window_per_action) (simp add: one_open_window_def demo_store_def empty_store_def)

text \<open>
  An undo that succeeds was of an open window of that trace whose deadline, if it parses,
  had not passed, and no window with that id is open afterwards.
\<close>

theorem undo_in_time_closes:
  assumes "run_state (TriggerUndo e trace) s = (Inr row, s')"
  shows "row \<in> set (undos s) \<and> uw_trace row = trace \<and> uw_state row = UndoOpen
    \<and> (case parse_stamp (uw_deadline row) of None \<Rightarrow> True | Some x \<Rightarrow> clock s \<le> x)
    \<and> (\<forall>w \<in> set (undos s'). uw_id w = uw_id row \<longrightarrow> uw_state w \<noteq> UndoOpen)"
  using wp_run [OF TriggerUndo_spec assms] by (simp add: window_closed_def split: option.split)

definition demo_undo_store :: store where
  "demo_undo_store = demo_store\<lparr>undos := [\<lparr>uw_id = 0, uw_task = ''task'', uw_tool = ''fs_write'',
     uw_trace = ''trace'', uw_opened = Stamp 0, uw_deadline = Stamp 5000, uw_state = UndoOpen\<rparr>]\<rparr>"

lemma order_by_single [simp]: "order_by f [r] = [r]"
  by (simp add: order_by_def)

theorem undo_in_time_closes_witness:
  "\<exists>row s'. run_state (TriggerUndo demo_engine ''trace'') demo_undo_store = (Inr row, s')
     \<and> uw_state row = UndoOpen \<and> window_closed (uw_id row) s'"
proof -
  have "\<exists>row. fst (run_state (TriggerUndo demo_engine ''trace'') demo_undo_store) = Inr row"
    by (simp add: TriggerUndo_def GetOpenUndoWindowByTrace_def SetUndoWindowState_def demo_undo_store_def
        demo_defs engine_eval demote_def)
  then obtain row s' where "run_state (TriggerUndo demo_engine ''trace'') demo_undo_store = (Inr row, s')"
    by (metis prod.collapse)
  with undo_in_time_closes [OF this] show ?thesis unfolding window_closed_def by blast
qed

text \<open>
  A sweep on a database that does not fail reports no error, opens nothing, and leaves no
  open window whose deadline has passed or is now.
\<close>

theorem sweep_expires_passed_windows:
  assumes "run_state (SweepExpiredUndoWindows e) s = (r, s')" and "faults s = []"
  shows "\<not> isl r \<and> (\<forall>w \<in> set (undos s'). uw_state w = UndoOpen \<longrightarrow>
    w \<in> set (undos s) \<and> \<not> deadline_passed (clock s) w)"
  using wp_run [OF Sweep_spec [OF assms(2)] assms(1)] by simp

theorem sweep_expires_passed_windows_witness:
  "filter (\<lambda>w. uw_state w = UndoOpen)
     (undos (snd (run_state (SweepExpiredUndoWindows demo_engine) (demo_undo_store\<lparr>clock := 5000\<rparr>)))) = []"
proof -
  let ?s = "demo_undo_store\<lparr>clock := 5000\<rparr>"
  obtain r s' where run: "run_state (SweepExpiredUndoWindows demo_engine) ?s = (r, s')"
    by (metis prod.collapse)
  have "faults ?s = []" "\<forall>w \<in> set (undos ?s). deadline_passed (clock ?s) w"
    by (simp_all add: demo_undo_store_def demo_store_def empty_store_def deadline_passed_def)
  with sweep_expires_passed_windows [OF run] run show ?thesis by (auto simp: filter_empty_conv)
qed

section \<open>Loading a policy, taint, canonical input\<close>

text \<open>
  A policy that loads is well formed: every tool has a name and a valid class, W3 tools are
  not reversible, reversible tools have an undo recipe, the script runners are at least W2, the
  mandatory deny globs are present (with the home directory expanded), the budgets and ports are
  in range, and the index finds exactly the tools of the list.
\<close>

theorem loaded_policy_is_well_formed:
  assumes "policy_load v home doc = Inr p"
  shows "(\<forall>t \<in> set (pol_tools p). tool_ok t \<and> pol_by_name p (tr_name t) = Some t)
    \<and> (\<forall>n t. pol_by_name p n = Some t \<longrightarrow> t \<in> set (pol_tools p) \<and> tr_name t = n)
    \<and> (\<exists>h. home = Some h \<and> set (expand_all mandatory_deny_globs h) \<subseteq> set (pol_deny_globs p))
    \<and> egress_ok (pol_egress p)"
proof -
  from assms obtain h where ok: "document_ok v doc" and h: "home = Some h"
    and p: "p = \<lparr>pol_tools = map default_scope_key (doc_tools doc),
       pol_by_name = fold (\<lambda>t m. m(tr_name t \<mapsto> t)) (map default_scope_key (doc_tools doc)) Map.empty,
       pol_secret_globs = expand_all (doc_secret_globs doc) h,
       pol_deny_globs = expand_all (doc_deny_globs doc) h, pol_egress = doc_egress doc\<rparr>"
    by (auto simp: policy_load_def policy_normalize_def validate_iff Let_def split: option.splits)
  let ?ts = "map default_scope_key (doc_tools doc)"
  have same: "tr_name (default_scope_key t) = tr_name t" "tool_ok (default_scope_key t) = tool_ok t" for t
    by (simp_all add: default_scope_key_def tool_ok_def)
  have distinct: "distinct (map tr_name ?ts)"
    using ok by (simp add: document_ok_def o_def same)
  have index: "pol_by_name p n = find (\<lambda>t. tr_name t = n) ?ts" for n
    unfolding p by (simp add: fold_by_name [OF distinct] split: option.split)
  have "tool_ok t \<and> pol_by_name p (tr_name t) = Some t" if "t \<in> set (pol_tools p)" for t
    using that ok find_key [OF distinct] unfolding index
    by (auto simp: p document_ok_def same)
  moreover have "t \<in> set (pol_tools p) \<and> tr_name t = n" if "pol_by_name p n = Some t" for n t
    using find_Some_in [OF that [unfolded index]] by (simp add: p)
  moreover have "set (expand_all mandatory_deny_globs h) \<subseteq> set (pol_deny_globs p)" "egress_ok (pol_egress p)"
    using ok by (auto simp: p document_ok_def expand_all_def)
  ultimately show ?thesis using h by blast
qed

definition demo_doc :: document where
  "demo_doc = \<lparr>doc_tools = [demo_tool ''fs_read'' ClassR, demo_tool ''fs_write'' ClassW1, demo_tool ''mail_send'' ClassW3],
     doc_secret_globs = [''~/.ssh/**''], doc_deny_globs = mandatory_deny_globs,
     doc_egress = \<lparr>ec_allowlist = [\<lparr>ea_host = ''api.anthropic.com'', ea_ports = [443], ea_methods = []\<rparr>],
       ec_default_budget = 1000, ec_budget = []\<rparr>\<rparr>"

theorem loaded_policy_is_well_formed_witness:
  "\<exists>p. policy_load (\<lambda>_. True) (Some ''/Users/u'') demo_doc = Inr p \<and> egress_ok (pol_egress p)
     \<and> pol_by_name p ''mail_send'' \<noteq> None"
proof -
  have "document_ok (\<lambda>_. True) demo_doc"
    by (simp add: document_ok_def demo_doc_def demo_tool_def tool_ok_def egress_ok_def valid_class_def
        osascript_floor_tools_def trim_space_def space_runes_def Let_def)
  then have "validate (\<lambda>_. True) demo_doc = Inr ()" by (simp add: validate_iff)
  then obtain p where load: "policy_load (\<lambda>_. True) (Some ''/Users/u'') demo_doc = Inr p"
    and tools: "pol_tools p = map default_scope_key (doc_tools demo_doc)"
    by (simp add: policy_load_def policy_normalize_def Let_def)
  from tools have "demo_tool ''mail_send'' ClassW3 \<in> set (pol_tools p)"
    by (simp add: demo_doc_def default_scope_key_def demo_tool_def)
  with loaded_policy_is_well_formed [OF load] load show ?thesis
    by (force simp: demo_tool_def)
qed

text \<open>
  Canonicalisation: for input whose NFC form is the UTF-8 text of a rune sequence, the
  canonical text holds no control rune, and it differs from the NFC form exactly when the result
  carries a control flag (the flags of mixed scripts and confusables never change the text).
\<close>

theorem control_flags_iff_text_changed:
  assumes "nfc u s = utf8_encode rs" and "list_all valid_rune rs"
  shows "list_all (\<lambda>r. control_flag_kind r = None) (utf8_decode (canonicalize_bytes u s))
    \<and> (has_control_flags (normalize u s) \<longleftrightarrow> canonicalize_bytes u s \<noteq> nfc u s)"
proof -
  have valid: "list_all valid_rune (filter plain_rune rs)" using assms(2) by (auto simp: list_all_iff)
  have canonical: "canonicalize_bytes u s = utf8_encode (filter plain_rune rs)"
    unfolding canonicalize_bytes_def canonical_eq assms(1) using assms(2) by simp
  have "utf8_encode (filter plain_rune rs) = utf8_encode rs \<longleftrightarrow> filter plain_rune rs = rs"
    using valid assms(2) by (metis utf8_decode_encode)
  also have "\<dots> \<longleftrightarrow> list_all plain_rune rs"
    by (simp add: list_all_iff filter_id_conv)
  finally have "has_control_flags (normalize u s) \<longleftrightarrow> canonicalize_bytes u s \<noteq> nfc u s"
    unfolding canonical has_control_flags_iff using assms by simp
  moreover have "list_all plain_rune (utf8_decode (canonicalize_bytes u s))"
    unfolding canonical using valid by (simp add: list_all_iff)
  ultimately show ?thesis by blast
qed

theorem control_flags_iff_text_changed_witness:
  "has_control_flags (normalize demo_unicode (utf8_encode [0x72, 0x202E, 0x6D])) \<and>
   canonicalize_bytes demo_unicode (utf8_encode [0x72, 0x202E, 0x6D]) \<noteq> utf8_encode [0x72, 0x202E, 0x6D]"
proof -
  have nfc: "nfc demo_unicode (utf8_encode [0x72, 0x202E, 0x6D]) = utf8_encode [0x72, 0x202E, 0x6D]"
    and valid: "list_all valid_rune [0x72, 0x202E, 0x6D]"
    by (simp_all add: demo_unicode_def valid_rune_def)
  have "\<not> list_all plain_rune (utf8_decode (utf8_encode [0x72, 0x202E, 0x6D]))"
    unfolding utf8_decode_encode [OF valid]
    by (simp add: control_flag_kind_def bidi_control_runes_def)
  then have "has_control_flags (normalize demo_unicode (utf8_encode [0x72, 0x202E, 0x6D]))"
    unfolding has_control_flags_iff nfc by simp
  with control_flags_iff_text_changed [OF nfc valid] nfc show ?thesis by simp
qed

text \<open>
  Taint is monotone: once a session has a row and is not clean, no sequence of the tracker's
  operations makes it clean again, under any database failures.
\<close>

theorem taint_is_never_lowered:
  assumes "has_taint_row s sid" and "\<not> session_clean s sid"
  shows "\<not> session_clean (exec_taint_ops ops s) sid"
  using taint_rises_ops [of s ops] assms unfolding taint_rises_def by blast

theorem taint_is_never_lowered_witness:
  "\<not> session_clean (exec_taint_ops [TaintInsertClean True ''t'' ''web'', TaintInsertUntrusted True ''t'' ''web'' '''']
     (exec_taint_ops [TaintRaise True ''t'' ''web'' ''web_fetch''] empty_store)) ''web''"
  by (rule taint_is_never_lowered)
     (simp_all add: taint_Raise_def RaiseSessionTaint_def taint_ledger_def LogEvent_def db_def now_def
        Let_def empty_store_def has_taint_row_def session_clean_def)

end
