(* ===== verification/Task_Store.thy ===== *)
theory Task_Store
  imports Policy_Store
begin

text \<open>
  The statements of the task, outbox and halt packages on \<open>tasks\<close>, \<open>tool_calls\<close> and \<open>outbox\<close>,
  with the constraints the schema puts on them: the foreign key of a tool call, its unique
  (task, tool, args, seq), and the partial unique index that allows one live attempt
  (intent, executing or receipt) per (task, tool, args), which SQLite checks on updates too.

  The outbox columns hold fixed-width timestamps (\<open>FixedNanoRFC3339\<close>), whose text order is the
  order of the instants.
\<close>

definition fixed_le :: "stamp \<Rightarrow> stamp \<Rightarrow> bool" where
  "fixed_le a b \<longleftrightarrow> (case (a, b) of (Stamp x, Stamp y) \<Rightarrow> x \<le> y | _ \<Rightarrow> False)"

definition fixed_less :: "stamp \<Rightarrow> stamp \<Rightarrow> bool" where
  "fixed_less a b \<longleftrightarrow> (case (a, b) of (Stamp x, Stamp y) \<Rightarrow> x < y | _ \<Rightarrow> False)"

section \<open>Tasks\<close>

definition update_task :: "string \<Rightarrow> (task_row \<Rightarrow> task_row) \<Rightarrow> store \<Rightarrow> store" where
  "update_task i f s = s\<lparr>tasks := update_where (\<lambda>r. t_id r = i) f (tasks s)\<rparr>"

definition InsertTask :: "task_row \<Rightarrow> (store, unit res) state" where
  "InsertTask r = db (\<lambda>s.
     if t_id r \<in> t_id ` set (tasks s) then (Inl ConstraintError, s)
     else (Inr (), s\<lparr>tasks := tasks s @ [r\<lparr>t_status := StatusIntent, t_next_retry := None,
             t_attempts := 0, t_worker_pgid := None, t_halted_at := None\<rparr>]\<rparr>))"

definition SetTaskStatus :: "task_status \<Rightarrow> stamp \<Rightarrow> string \<Rightarrow> task_status \<Rightarrow> (store, nat res) state" where
  "SetTaskStatus to at i from = db (\<lambda>s.
     let hit = (\<lambda>r. t_id r = i \<and> t_status r = from)
     in (Inr (count_where hit (tasks s)),
         s\<lparr>tasks := update_where hit (\<lambda>r. r\<lparr>t_status := to, t_updated := at\<rparr>) (tasks s)\<rparr>))"

definition IncrementTaskAttempts :: "stamp \<Rightarrow> string \<Rightarrow> (store, int res) state" where
  "IncrementTaskAttempts at i = db (\<lambda>s.
     case find (\<lambda>r. t_id r = i) (tasks s) of
       None \<Rightarrow> (Inl NoRows, s)
     | Some r \<Rightarrow> (Inr (t_attempts r + 1),
         update_task i (\<lambda>r. r\<lparr>t_attempts := t_attempts r + 1, t_updated := at\<rparr>) s))"

definition SetTaskNextRetry :: "stamp option \<Rightarrow> stamp \<Rightarrow> string \<Rightarrow> (store, unit res) state" where
  "SetTaskNextRetry retry at i = db (\<lambda>s.
     (Inr (), update_task i (\<lambda>r. r\<lparr>t_next_retry := retry, t_updated := at\<rparr>) s))"

definition SetTaskHaltedAt :: "stamp option \<Rightarrow> stamp \<Rightarrow> string \<Rightarrow> (store, unit res) state" where
  "SetTaskHaltedAt halted at i = db (\<lambda>s.
     (Inr (), update_task i (\<lambda>r. r\<lparr>t_halted_at := halted, t_updated := at\<rparr>) s))"

definition SetTaskWorkerPGID :: "int option \<Rightarrow> stamp \<Rightarrow> string \<Rightarrow> (store, unit res) state" where
  "SetTaskWorkerPGID pgid at i = db (\<lambda>s.
     (Inr (), update_task i (\<lambda>r. r\<lparr>t_worker_pgid := pgid, t_updated := at\<rparr>) s))"

definition UpdateTaskSession :: "string option \<Rightarrow> stamp \<Rightarrow> string \<Rightarrow> (store, unit res) state" where
  "UpdateTaskSession sid at i = db (\<lambda>s.
     (Inr (), update_task i (\<lambda>r. r\<lparr>t_session := sid, t_updated := at\<rparr>) s))"

text \<open>\<open>rfc3339Now\<close> of the server: the clock to the second.\<close>

definition rfc3339Now :: "(store, stamp) state" where
  "rfc3339Now = do { t \<leftarrow> now; ret (Stamp (t div 1000000000 * 1000000000)) }"

definition UpdateTaskState :: "string \<Rightarrow> stamp \<Rightarrow> string \<Rightarrow> (store, unit res) state" where
  "UpdateTaskState st at i = db (\<lambda>s.
     (Inr (), update_task i (\<lambda>r. r\<lparr>t_state := st, t_updated := at\<rparr>) s))"

definition SetTaskLane :: "string \<Rightarrow> string option \<Rightarrow> stamp \<Rightarrow> string \<Rightarrow> (store, unit res) state" where
  "SetTaskLane lane category at i = db (\<lambda>s.
     (Inr (), update_task i (\<lambda>r. r\<lparr>t_lane := lane, t_secret_category := category, t_updated := at\<rparr>) s))"

definition GetTaskLane :: "string \<Rightarrow> (store, (string \<times> string option) res) state" where
  "GetTaskLane i = select_one (\<lambda>s.
     map_option (\<lambda>r. (t_lane r, t_secret_category r)) (find (\<lambda>r. t_id r = i) (tasks s)))"

definition ListExecutingTasks :: "(store, task_row list res) state" where
  "ListExecutingTasks = query (\<lambda>s. order_by t_updated
     (filter (\<lambda>r. t_status r = StatusExecuting \<and> t_status r \<noteq> StatusUserHalted) (tasks s)))"

definition ListNonTerminalTasks :: "(store, task_row list res) state" where
  "ListNonTerminalTasks = query (\<lambda>s. order_by t_updated
     (filter (\<lambda>r. t_status r \<notin> {StatusDone, StatusFailed, StatusUserHalted}) (tasks s)))"

section \<open>Tool calls\<close>

definition tc_key :: "call_row \<Rightarrow> string \<times> string \<times> string" where
  "tc_key r = (tc_task r, tc_tool r, tc_args_hash r)"

definition call_live :: "call_row \<Rightarrow> bool" where
  "call_live r \<longleftrightarrow> tc_status r \<in> {CallIntent, CallExecuting, CallReceipt}"

definition NextToolCallSeq :: "string \<times> string \<times> string \<Rightarrow> (store, int res) state" where
  "NextToolCallSeq key = query (\<lambda>s.
     fold max (map tc_seq (filter (\<lambda>r. tc_key r = key) (calls s))) 0 + 1)"

definition InsertToolCallIntent :: "string \<times> string \<times> string \<Rightarrow> int \<Rightarrow> action_class \<Rightarrow> string option \<Rightarrow> stamp
    \<Rightarrow> (store, call_row res) state" where
  "InsertToolCallIntent key seq class token at = db (\<lambda>s.
     if fst key \<notin> t_id ` set (tasks s) \<or> \<not> valid_class class
        \<or> list_ex (\<lambda>r. tc_key r = key \<and> (tc_seq r = seq \<or> call_live r)) (calls s)
     then (Inl ConstraintError, s)
     else let r = \<lparr>tc_id = next_call s, tc_task = fst key, tc_seq = seq, tc_tool = fst (snd key),
              tc_class = class, tc_args_hash = snd (snd key), tc_token = token, tc_status = CallIntent,
              tc_receipt = None, tc_started = None, tc_finished = None, tc_created = at\<rparr>
          in (Inr r, s\<lparr>calls := calls s @ [r], next_call := next_call s + 1\<rparr>))"

text \<open>An update of one row by id, refused when it would make a second live row for a key.\<close>

definition update_call :: "int \<Rightarrow> (call_row \<Rightarrow> call_row) \<Rightarrow> store \<Rightarrow> unit res \<times> store" where
  "update_call i f s =
     (case find (\<lambda>r. tc_id r = i) (calls s) of
        None \<Rightarrow> (Inr (), s)
      | Some old \<Rightarrow>
          if call_live (f old) \<and> list_ex (\<lambda>r. tc_id r \<noteq> i \<and> tc_key r = tc_key old \<and> call_live r) (calls s)
          then (Inl ConstraintError, s)
          else (Inr (), s\<lparr>calls := update_where (\<lambda>r. tc_id r = i) f (calls s)\<rparr>))"

definition MarkToolCallExecuting :: "stamp \<Rightarrow> int \<Rightarrow> (store, unit res) state" where
  "MarkToolCallExecuting at i =
     db (update_call i (\<lambda>r. r\<lparr>tc_status := CallExecuting, tc_started := Some at\<rparr>))"

definition MarkToolCallReceipt :: "string \<Rightarrow> stamp \<Rightarrow> int \<Rightarrow> (store, unit res) state" where
  "MarkToolCallReceipt receipt at i =
     db (update_call i (\<lambda>r. r\<lparr>tc_status := CallReceipt, tc_receipt := Some receipt, tc_finished := Some at\<rparr>))"

definition MarkToolCallFailed :: "stamp \<Rightarrow> int \<Rightarrow> (store, unit res) state" where
  "MarkToolCallFailed at i =
     db (update_call i (\<lambda>r. r\<lparr>tc_status := CallFailed, tc_finished := Some at\<rparr>))"

text \<open>The newest receipt of a key: \<open>ORDER BY seq DESC LIMIT 1\<close>.\<close>

definition newest_seq :: "call_row list \<Rightarrow> call_row option" where
  "newest_seq rows = (if rows = [] then None else Some (last (sort_key tc_seq rows)))"

definition GetReceiptToolCall :: "string \<times> string \<times> string \<Rightarrow> (store, call_row res) state" where
  "GetReceiptToolCall key = select_one (\<lambda>s.
     newest_seq (filter (\<lambda>r. tc_key r = key \<and> tc_status r = CallReceipt) (calls s)))"

definition ListReceiptlessToolCalls :: "string \<Rightarrow> (store, call_row list res) state" where
  "ListReceiptlessToolCalls task = query (\<lambda>s. rev (sort_key tc_id
     (filter (\<lambda>r. tc_task r = task \<and> tc_status r \<in> {CallIntent, CallExecuting}) (calls s))))"

definition CountToolCallAttempts :: "string \<times> string \<times> string \<Rightarrow> (store, nat res) state" where
  "CountToolCallAttempts key = query (\<lambda>s. count_where (\<lambda>r. tc_key r = key) (calls s))"

definition ListToolCallsByTask :: "string \<Rightarrow> (store, call_row list res) state" where
  "ListToolCallsByTask task = query (\<lambda>s. sort_key (\<lambda>r. (tc_seq r, tc_id r))
     (filter (\<lambda>r. tc_task r = task) (calls s)))"

section \<open>Outbox\<close>

definition InsertOutboxRow :: "string \<Rightarrow> string \<Rightarrow> outbox_payload \<Rightarrow> stamp \<Rightarrow> stamp option \<Rightarrow> string option
    \<Rightarrow> (store, outbox_row res) state" where
  "InsertOutboxRow trace kind p created available task = db (\<lambda>s.
     let r = \<lparr>ob_id = next_outbox s, ob_trace = trace, ob_kind = kind, ob_payload = p,
              ob_dispatched = None, ob_created = created, ob_available = available,
              ob_lease = None, ob_attempts = 0, ob_task = task, ob_canceled = None\<rparr>
     in (Inr r, s\<lparr>outbox := outbox s @ [r], next_outbox := next_outbox s + 1\<rparr>))"

definition lease_free :: "stamp \<Rightarrow> outbox_row \<Rightarrow> bool" where
  "lease_free t r \<longleftrightarrow> (case ob_lease r of None \<Rightarrow> True | Some l \<Rightarrow> fixed_less l t)"

definition due_row :: "store \<Rightarrow> stamp \<Rightarrow> outbox_row \<Rightarrow> bool" where
  "due_row s t r \<longleftrightarrow> ob_dispatched r = None \<and> ob_canceled r = None
     \<and> (case ob_available r of None \<Rightarrow> False | Some a \<Rightarrow> fixed_le a t) \<and> lease_free t r
     \<and> (case ob_task r of None \<Rightarrow> True
        | Some i \<Rightarrow> (case find (\<lambda>x. t_id x = i) (tasks s) of None \<Rightarrow> True
                     | Some x \<Rightarrow> t_status x \<noteq> StatusUserHalted))"

definition ListDueOutboxRows :: "stamp \<Rightarrow> nat \<Rightarrow> (store, outbox_row list res) state" where
  "ListDueOutboxRows t limit = query (\<lambda>s. take limit (sort_key ob_id (filter (due_row s t) (outbox s))))"

definition ClaimOutboxRow :: "stamp \<Rightarrow> int \<Rightarrow> stamp \<Rightarrow> (store, nat res) state" where
  "ClaimOutboxRow lease i t = db (\<lambda>s.
     let hit = (\<lambda>r. ob_id r = i \<and> ob_dispatched r = None \<and> lease_free t r)
     in (Inr (count_where hit (outbox s)),
         s\<lparr>outbox := update_where hit (\<lambda>r. r\<lparr>ob_lease := Some lease, ob_attempts := ob_attempts r + 1\<rparr>)
             (outbox s)\<rparr>))"

definition MarkOutboxDelivered :: "stamp \<Rightarrow> int \<Rightarrow> (store, unit res) state" where
  "MarkOutboxDelivered at i = db (\<lambda>s.
     (Inr (), s\<lparr>outbox := update_where (\<lambda>r. ob_id r = i) (\<lambda>r. r\<lparr>ob_dispatched := Some at\<rparr>) (outbox s)\<rparr>))"

definition RenewOutboxLease :: "stamp \<Rightarrow> int \<Rightarrow> (store, unit res) state" where
  "RenewOutboxLease lease i = db (\<lambda>s.
     (Inr (), s\<lparr>outbox := update_where (\<lambda>r. ob_id r = i \<and> ob_dispatched r = None)
         (\<lambda>r. r\<lparr>ob_lease := Some lease\<rparr>) (outbox s)\<rparr>))"

definition CancelOutboxRowsByTask :: "stamp \<Rightarrow> string \<Rightarrow> (store, nat res) state" where
  "CancelOutboxRowsByTask at task = db (\<lambda>s.
     let hit = (\<lambda>r. ob_task r = Some task \<and> ob_dispatched r = None \<and> ob_canceled r = None)
     in (Inr (count_where hit (outbox s)),
         s\<lparr>outbox := update_where hit (\<lambda>r. r\<lparr>ob_canceled := Some at\<rparr>) (outbox s)\<rparr>))"

section \<open>Reads keep everything\<close>

context store_preorder
begin

lemma keeps_rfc3339Now [keeps_rules]: "state_io_rel R rfc3339Now"
  unfolding rfc3339Now_def by (intro keeps_rules)

lemma keeps_task_reads [keeps_rules]:
  "state_io_rel R ListExecutingTasks" "state_io_rel R ListNonTerminalTasks"
  "state_io_rel R (NextToolCallSeq key)" "state_io_rel R (GetReceiptToolCall key)"
  "state_io_rel R (ListReceiptlessToolCalls task)" "state_io_rel R (CountToolCallAttempts key)"
  "state_io_rel R (ListToolCallsByTask task)" "state_io_rel R (ListDueOutboxRows t n)"
  "state_io_rel R (GetTaskLane i)"
  unfolding ListExecutingTasks_def ListNonTerminalTasks_def NextToolCallSeq_def GetReceiptToolCall_def
    ListReceiptlessToolCalls_def CountToolCallAttempts_def ListToolCallsByTask_def ListDueOutboxRows_def GetTaskLane_def
  by (rule keeps_select_one keeps_query)+

end

end
