(* ===== verification/Task_Machine.thy ===== *)
theory Task_Machine
  imports Task_Store Sha256
begin

text \<open>
  \<open>kahyad/internal/task\<close>: the status machine of a task (\<open>machine.go\<close>), the receipts of tool
  calls with their idempotent replay (\<open>receipts.go\<close>), the resume scan (\<open>resume.go\<close>), the
  user's resolution of blocked tasks (\<open>resolve.go\<close>) and the parking of tasks whose cloud call
  failed (\<open>cloudretry.go\<close>).  The dependencies a component may be constructed without are the
  flags of the record \<open>task_env\<close>; an absent live registry is the function that is never true.
  \<open>time.Now\<close> reads the same instant throughout one modelled call.
\<close>

record task_env =
  te_ledger :: bool
  te_notifier :: bool
  te_live :: "string \<Rightarrow> bool"
  te_w1_max_auto :: int
  te_schedule :: "int list"
  te_give_up_after :: int

section \<open>Status machine\<close>

fun allowedTransitions :: "task_status \<Rightarrow> task_status list" where
  "allowedTransitions StatusIntent = [StatusExecuting]"
| "allowedTransitions StatusExecuting =
     [StatusDone, StatusFailed, StatusBlockedUser, StatusRetryWait, StatusUserHalted]"
| "allowedTransitions StatusRetryWait = [StatusExecuting, StatusUserHalted]"
| "allowedTransitions StatusBlockedUser = [StatusExecuting, StatusFailed, StatusUserHalted]"
| "allowedTransitions _ = []"

definition IsLegalTransition :: "task_status \<Rightarrow> task_status \<Rightarrow> bool" where
  "IsLegalTransition from to \<longleftrightarrow> to \<in> set (allowedTransitions from)"

definition task_ledger :: "task_env \<Rightarrow> string \<Rightarrow> string \<Rightarrow> payload \<Rightarrow> (store, unit) state" where
  "task_ledger e trace kind p =
     (if te_ledger e then do { _ \<leftarrow> LogEvent trace kind p; ret () } else ret ())"

definition transition_payload :: "string \<Rightarrow> string \<Rightarrow> task_status \<Rightarrow> task_status \<Rightarrow> payload" where
  "transition_payload ev task from to = [(''event'', JStr ev), (''task_id'', JStr task),
     (''from'', JStatus from), (''to'', JStatus to)]"

definition Transition :: "task_env \<Rightarrow> string \<Rightarrow> string \<Rightarrow> task_status \<Rightarrow> (store, unit res) state" where
  "Transition e trace task to = do {
     g \<leftarrow> GetTaskByID task;
     case g of
       Inl err \<Rightarrow> ret (Inl err)
     | Inr t \<Rightarrow>
       let from = t_status t in
       if from = to then ret (Inr ())
       else if \<not> IsLegalTransition from to then do {
         task_ledger e trace ''task.illegal_transition''
           (transition_payload ''task.illegal_transition'' task from to);
         ret (Inl ErrIllegalTransition)
       }
       else do {
         n \<leftarrow> now;
         r \<leftarrow> SetTaskStatus to (Stamp n) task from;
         case r of
           Inl err \<Rightarrow> ret (Inl err)
         | Inr affected \<Rightarrow>
           if affected = 0 then do {
             task_ledger e trace ''task.transition_conflict''
               (transition_payload ''task.transition_conflict'' task from to);
             ret (Inl ErrLostTransitionRace)
           }
           else do {
             a \<leftarrow> (if to = StatusExecuting
                   then do { x \<leftarrow> IncrementTaskAttempts (Stamp n) task; ret (map_sum id (\<lambda>_. ()) x) }
                   else ret (Inr ()));
             case a of
               Inl err \<Rightarrow> ret (Inl err)
             | Inr _ \<Rightarrow> do {
                 task_ledger e trace ''task.transition''
                   (transition_payload ''task.transition'' task from to);
                 ret (Inr ())
               }
           }
       }
   }"

section \<open>Receipts\<close>

text \<open>
  \<open>receipt_codec\<close> is \<open>encoding/json\<close> on the receipt envelope: \<open>marshal_receipt result hash\<close>
  is the stored text (\<open>None\<close> when the result is not JSON), \<open>unmarshal_receipt\<close> the result in it.
\<close>

record receipt_codec =
  marshal_receipt :: "string \<Rightarrow> string \<Rightarrow> string option"
  unmarshal_receipt :: "string \<Rightarrow> string option"

record execute_input =
  ei_task :: string
  ei_trace :: string
  ei_tool :: string
  ei_class :: action_class
  ei_args_hash :: string
  ei_token :: string

definition call_key :: "execute_input \<Rightarrow> string \<times> string \<times> string" where
  "call_key ei = (ei_task ei, ei_tool ei, ei_args_hash ei)"

definition HashArgs :: "string \<Rightarrow> string" where
  "HashArgs b = sha256_hex b"

definition hashApprovalToken :: "string \<Rightarrow> string option" where
  "hashApprovalToken token = (if token = '''' then None else Some (sha256_hex token))"

definition claimIntentMaxAttempts :: nat where "claimIntentMaxAttempts = 50"

text \<open>\<open>checkReplay\<close>: the stored result and its seq, if the key has a receipt.\<close>

definition checkReplay :: "receipt_codec \<Rightarrow> execute_input \<Rightarrow> (store, (string \<times> int) option res) state" where
  "checkReplay c ei = do {
     r \<leftarrow> GetReceiptToolCall (call_key ei);
     ret (case r of
            Inl err \<Rightarrow> if err = NoRows then Inr None else Inl err
          | Inr row \<Rightarrow> (case unmarshal_receipt c (case tc_receipt row of None \<Rightarrow> '''' | Some x \<Rightarrow> x) of
                None \<Rightarrow> Inl DecodeError
              | Some result \<Rightarrow> Inr (Some (result, tc_seq row))))
   }"

definition ledgerReplayed :: "task_env \<Rightarrow> execute_input \<Rightarrow> int \<Rightarrow> (store, unit) state" where
  "ledgerReplayed e ei seq = task_ledger e (ei_trace ei) ''tool.replayed''
     [(''event'', JStr ''tool.replayed''), (''task_id'', JStr (ei_task ei)), (''tool'', JStr (ei_tool ei)),
      (''args_hash'', JStr (ei_args_hash ei)), (''seq'', JInt seq)]"

datatype claim = Claimed call_row | ReplayHit string int

text \<open>
  \<open>claimIntent\<close> with the number of attempts left.  The sleep between two attempts changes
  nothing here; what other processes do meanwhile is a change of the database between two calls.
\<close>

fun claim_loop :: "receipt_codec \<Rightarrow> execute_input \<Rightarrow> nat \<Rightarrow> (store, claim res) state" where
  "claim_loop c ei 0 = ret (Inl ErrToolCallClaimTimeout)"
| "claim_loop c ei (Suc k) = do {
     s \<leftarrow> NextToolCallSeq (call_key ei);
     case s of
       Inl err \<Rightarrow> ret (Inl err)
     | Inr seq \<Rightarrow> do {
         t \<leftarrow> now;
         i \<leftarrow> InsertToolCallIntent (call_key ei) seq (ei_class ei) (hashApprovalToken (ei_token ei)) (Stamp t);
         case i of
           Inr row \<Rightarrow> ret (Inr (Claimed row))
         | Inl err \<Rightarrow>
             if err \<noteq> ConstraintError then ret (Inl err)
             else do {
               h \<leftarrow> checkReplay c ei;
               case h of
                 Inl err' \<Rightarrow> ret (Inl err')
               | Inr (Some (result, hseq)) \<Rightarrow> ret (Inr (ReplayHit result hseq))
               | Inr None \<Rightarrow> claim_loop c ei k
             }
       }
   }"

definition claimIntent :: "receipt_codec \<Rightarrow> execute_input \<Rightarrow> (store, claim res) state" where
  "claimIntent c ei = claim_loop c ei claimIntentMaxAttempts"

definition failAndReturn :: "int \<Rightarrow> go_error \<Rightarrow> (store, 'a res) state" where
  "failAndReturn i cause = do {
     t \<leftarrow> now;
     r \<leftarrow> MarkToolCallFailed (Stamp t) i;
     ret (Inl (case r of Inl err \<Rightarrow> err | Inr _ \<Rightarrow> cause))
   }"

text \<open>
  A database transaction: \<open>body\<close> runs on the database; when it returns an error, or the commit
  fails, every table is as it was before, while failures met, random bytes and notices stay.
\<close>

definition rollback_to :: "store \<Rightarrow> store \<Rightarrow> store" where
  "rollback_to s s' = s\<lparr>faults := faults s', entropy := entropy s', notices := notices s', marked := marked s',
     clock := clock s'\<rparr>"

definition begin_tx :: "(store, unit res) state" where
  "begin_tx = query (\<lambda>_. ())"

definition commit_or_rollback :: "(store, 'a res) state \<Rightarrow> (store, 'a res) state" where
  "commit_or_rollback body = State (\<lambda>s. case run_state body s of
       (Inl err, s') \<Rightarrow> (Inl err, rollback_to s s')
     | (Inr x, s') \<Rightarrow> (case run_state (query (\<lambda>_. ())) s' of
           (Inl err, s'') \<Rightarrow> (Inl err, rollback_to s s'')
         | (Inr _, s'') \<Rightarrow> (Inr x, s'')))"

text \<open>
  The body of the receipt transaction: the effect, and the receipt in the same transaction.
\<close>

definition effect_with_receipt :: "receipt_codec \<Rightarrow> int \<Rightarrow> (store, string res) state \<Rightarrow> (store, string res) state" where
  "effect_with_receipt c i effect = do {
     r \<leftarrow> effect;
     case r of
       Inl err \<Rightarrow> ret (Inl err)
     | Inr result \<Rightarrow>
         (case marshal_receipt c result (HashArgs result) of
            None \<Rightarrow> ret (Inl InvalidArgument)
          | Some text \<Rightarrow> do {
              t \<leftarrow> now;
              m \<leftarrow> MarkToolCallReceipt text (Stamp t) i;
              ret (case m of Inl err \<Rightarrow> Inl err | Inr _ \<Rightarrow> Inr result)
            })
   }"

text \<open>\<open>Execute\<close> returns the result and whether it was replayed.\<close>

definition Execute :: "task_env \<Rightarrow> receipt_codec \<Rightarrow> execute_input \<Rightarrow> (store, string res) state
    \<Rightarrow> (store, (string \<times> bool) res) state" where
  "Execute e c ei effect =
     (if ei_class ei = ClassR then ret (Inl ErrReadOnlyClass)
      else do {
        h \<leftarrow> checkReplay c ei;
        case h of
          Inl err \<Rightarrow> ret (Inl err)
        | Inr (Some (result, seq)) \<Rightarrow> do { ledgerReplayed e ei seq; ret (Inr (result, True)) }
        | Inr None \<Rightarrow> do {
            cl \<leftarrow> claimIntent c ei;
            case cl of
              Inl err \<Rightarrow> ret (Inl err)
            | Inr (ReplayHit result seq) \<Rightarrow> do { ledgerReplayed e ei seq; ret (Inr (result, True)) }
            | Inr (Claimed row) \<Rightarrow> do {
                t \<leftarrow> now;
                m \<leftarrow> MarkToolCallExecuting (Stamp t) (tc_id row);
                case m of
                  Inl err \<Rightarrow> ret (Inl err)
                | Inr _ \<Rightarrow> do {
                    b \<leftarrow> begin_tx;
                    case b of
                      Inl err \<Rightarrow> ret (Inl err)
                    | Inr _ \<Rightarrow> do {
                        x \<leftarrow> commit_or_rollback (effect_with_receipt c (tc_id row) effect);
                        case x of
                          Inl err \<Rightarrow> failAndReturn (tc_id row) err
                        | Inr result \<Rightarrow> ret (Inr (result, False))
                      }
                  }
              }
          }
      })"

section \<open>Resume scan\<close>

definition Notify :: "string \<Rightarrow> string \<Rightarrow> task_message \<Rightarrow> payload \<Rightarrow> (store, unit res) state" where
  "Notify trace kind msg p = db (\<lambda>s. (Inr (), s\<lparr>notices := notices s @ [Notified trace kind msg p]\<rparr>))"

definition resume_notify :: "task_env \<Rightarrow> string \<Rightarrow> string \<Rightarrow> task_message \<Rightarrow> string \<Rightarrow> string \<Rightarrow> int
    \<Rightarrow> (store, unit res) state" where
  "resume_notify e trace kind msg task tool attempts =
     (if te_notifier e
      then Notify trace kind msg ([(''task_id'', JStr task), (''tool'', JStr tool)]
             @ (if 0 < attempts then [(''attempts'', JInt attempts)] else []))
      else ret (Inr ()))"

definition blockOnW1CapExceeded :: "task_env \<Rightarrow> string \<Rightarrow> string \<Rightarrow> string \<Rightarrow> int \<Rightarrow> (store, unit res) state" where
  "blockOnW1CapExceeded e trace task tool attempts = do {
     r \<leftarrow> Transition e trace task StatusBlockedUser;
     case r of
       Inl err \<Rightarrow> ret (Inl err)
     | Inr _ \<Rightarrow> resume_notify e trace ''task.w1_retry_cap_exceeded''
                 (MsgW1RetryCapExceeded task tool attempts) task tool attempts
   }"

definition blockOnReceiptless :: "task_env \<Rightarrow> string \<Rightarrow> string \<Rightarrow> string \<Rightarrow> (store, unit res) state" where
  "blockOnReceiptless e trace task tool = do {
     r \<leftarrow> Transition e trace task StatusBlockedUser;
     case r of
       Inl err \<Rightarrow> ret (Inl err)
     | Inr _ \<Rightarrow> resume_notify e trace ''task.w2w3_receiptless_blocked''
                 (MsgW2W3Receiptless task tool) task tool 0
   }"

definition writeOutboxResumeRowAt :: "string \<Rightarrow> string \<Rightarrow> stamp \<Rightarrow> stamp \<Rightarrow> (store, unit res) state" where
  "writeOutboxResumeRowAt trace task created available = do {
     r \<leftarrow> InsertOutboxRow trace ''task_resume'' (ResumePayload task) created (Some available) (Some task);
     ret (map_sum id (\<lambda>_. ()) r)
   }"

definition writeOutboxResumeRow :: "string \<Rightarrow> string \<Rightarrow> (store, unit res) state" where
  "writeOutboxResumeRow trace task = do {
     t \<leftarrow> now;
     writeOutboxResumeRowAt trace task (Stamp t) (Stamp t)
   }"

definition enqueueResume :: "string \<Rightarrow> string \<Rightarrow> (store, unit res) state" where
  "enqueueResume trace task = do {
     t \<leftarrow> now;
     a \<leftarrow> IncrementTaskAttempts (Stamp t) task;
     case a of
       Inl err \<Rightarrow> ret (Inl err)
     | Inr _ \<Rightarrow> writeOutboxResumeRow trace task
   }"

definition ProcessTask :: "task_env \<Rightarrow> task_row \<Rightarrow> (store, unit res) state" where
  "ProcessTask e t = do {
     l \<leftarrow> ListReceiptlessToolCalls (t_id t);
     case l of
       Inl err \<Rightarrow> ret (Inl err)
     | Inr rows \<Rightarrow>
       (case rows of
          [] \<Rightarrow> enqueueResume (t_trace t) (t_id t)
        | row # _ \<Rightarrow> do {
            n \<leftarrow> now;
            m \<leftarrow> MarkToolCallFailed (Stamp n) (tc_id row);
            case m of
              Inl err \<Rightarrow> ret (Inl err)
            | Inr _ \<Rightarrow>
                if tc_class row \<noteq> ClassW1 then blockOnReceiptless e (t_trace t) (t_id t) (tc_tool row)
                else do {
                  a \<leftarrow> CountToolCallAttempts (t_id t, tc_tool row, tc_args_hash row);
                  case a of
                    Inl err \<Rightarrow> ret (Inl err)
                  | Inr attempts \<Rightarrow>
                      if te_w1_max_auto e < int attempts
                      then blockOnW1CapExceeded e (t_trace t) (t_id t) (tc_tool row) (int attempts)
                      else enqueueResume (t_trace t) (t_id t)
                }
          })
   }"

text \<open>The loop of \<open>Scan\<close>: how many tasks were processed, and the first error.\<close>

definition scan_task :: "task_env \<Rightarrow> task_row \<Rightarrow> nat \<times> go_error option
    \<Rightarrow> (store, nat \<times> go_error option) state" where
  "scan_task e t acc =
     (if te_live e (t_id t) then ret acc
      else do {
        r \<leftarrow> ProcessTask e t;
        ret (fst acc + 1, (case (snd acc, r) of (None, Inl err) \<Rightarrow> Some err | _ \<Rightarrow> snd acc))
      })"

definition Scan :: "task_env \<Rightarrow> (store, nat \<times> go_error option) state" where
  "Scan e = do {
     l \<leftarrow> ListExecutingTasks;
     case l of
       Inl err \<Rightarrow> ret (0, Some err)
     | Inr ts \<Rightarrow> for_each ts (scan_task e) (0, None)
   }"

text \<open>\<open>NewResume\<close> and \<open>NewCloudRetry\<close> replace settings that make no sense by defaults.\<close>

definition defaultW1MaxAuto :: int where "defaultW1MaxAuto = 3"

definition defaultCloudRetrySchedule :: "int list" where
  "defaultCloudRetrySchedule = [minute_ns, 5 * minute_ns, 15 * minute_ns, hour_ns]"

definition defaultCloudGiveUpAfter :: int where "defaultCloudGiveUpAfter = 24 * hour_ns"

definition NewResume :: "task_env \<Rightarrow> task_env" where
  "NewResume e = (if te_w1_max_auto e \<le> 0 then e\<lparr>te_w1_max_auto := defaultW1MaxAuto\<rparr> else e)"

definition NewCloudRetry :: "task_env \<Rightarrow> task_env" where
  "NewCloudRetry e0 =
     (let e = (if te_schedule e0 = [] then e0\<lparr>te_schedule := defaultCloudRetrySchedule\<rparr> else e0)
      in if te_give_up_after e \<le> 0 then e\<lparr>te_give_up_after := defaultCloudGiveUpAfter\<rparr> else e)"

section \<open>Resolution by the user\<close>

definition Resolver_Retry :: "task_env \<Rightarrow> string \<Rightarrow> string \<Rightarrow> (store, unit res) state" where
  "Resolver_Retry e trace task = do {
     r \<leftarrow> Transition e trace task StatusExecuting;
     case r of
       Inl err \<Rightarrow> ret (Inl (if err = ErrIllegalTransition then ErrTaskNotResolvable else err))
     | Inr _ \<Rightarrow> writeOutboxResumeRow trace task
   }"

definition Resolver_Abort :: "task_env \<Rightarrow> string \<Rightarrow> string \<Rightarrow> (store, unit res) state" where
  "Resolver_Abort e trace task = do {
     r \<leftarrow> Transition e trace task StatusFailed;
     ret (case r of
            Inl err \<Rightarrow> Inl (if err = ErrIllegalTransition then ErrTaskNotResolvable else err)
          | Inr _ \<Rightarrow> Inr ())
   }"

section \<open>Cloud retry\<close>

definition cloud_notify :: "task_env \<Rightarrow> string \<Rightarrow> string \<Rightarrow> task_message \<Rightarrow> string \<Rightarrow> payload
    \<Rightarrow> (store, unit res) state" where
  "cloud_notify e trace kind msg task extra =
     (if te_notifier e then Notify trace kind msg ((''task_id'', JStr task) # extra) else ret (Inr ()))"

definition hasExceededGiveUp :: "task_env \<Rightarrow> int \<Rightarrow> task_row \<Rightarrow> bool" where
  "hasExceededGiveUp e t row =
     (case parse_stamp (t_created row) of None \<Rightarrow> False | Some c \<Rightarrow> te_give_up_after e \<le> t - c)"

text \<open>The delay of the schedule for a number of attempts, the index clamped to its ends.\<close>

definition retry_delay :: "task_env \<Rightarrow> int \<Rightarrow> int" where
  "retry_delay e attempts =
     (let i = (if attempts - 1 < 0 then 0 else attempts - 1);
          j = (if int (length (te_schedule e)) \<le> i then int (length (te_schedule e)) - 1 else i)
      in te_schedule e ! nat j)"

definition park :: "task_env \<Rightarrow> string \<Rightarrow> string \<Rightarrow> task_row \<Rightarrow> (store, unit res) state" where
  "park e trace task row = do {
     n \<leftarrow> now;
     let next = Stamp (n + retry_delay e (t_attempts row)) in do {
       r \<leftarrow> Transition e trace task StatusRetryWait;
       case r of
         Inl err \<Rightarrow> ret (Inl err)
       | Inr _ \<Rightarrow> do {
           s \<leftarrow> SetTaskNextRetry (Some next) (Stamp n) task;
           case s of
             Inl err \<Rightarrow> ret (Inl err)
           | Inr _ \<Rightarrow> do {
               o1 \<leftarrow> writeOutboxResumeRowAt trace task (Stamp n) next;
               case o1 of
                 Inl err \<Rightarrow> ret (Inl err)
               | Inr _ \<Rightarrow> do {
                   task_ledger e trace ''task.waiting_retry''
                     [(''task_id'', JStr task), (''next_retry_at'', JTime next),
                      (''attempts'', JInt (t_attempts row))];
                   cloud_notify e trace ''task.waiting_retry'' MsgCloudParked task []
                 }
             }
         }
     }
   }"

definition giveUp :: "task_env \<Rightarrow> string \<Rightarrow> string \<Rightarrow> task_row \<Rightarrow> string \<Rightarrow> (store, unit res) state" where
  "giveUp e trace task row why = do {
     r \<leftarrow> Transition e trace task StatusFailed;
     case r of
       Inl err \<Rightarrow> ret (Inl err)
     | Inr _ \<Rightarrow> do {
         task_ledger e trace ''task.failed''
           [(''task_id'', JStr task), (''reason'', JStr why), (''attempts'', JInt (t_attempts row))];
         cloud_notify e trace ''task.failed'' (MsgCloudGiveUp task) task [(''reason'', JStr why)]
       }
   }"

definition FailNonRetryable :: "task_env \<Rightarrow> string \<Rightarrow> string \<Rightarrow> string \<Rightarrow> (store, unit res) state" where
  "FailNonRetryable e trace task why = do {
     r \<leftarrow> Transition e trace task StatusFailed;
     case r of
       Inl err \<Rightarrow> ret (Inl err)
     | Inr _ \<Rightarrow> do {
         task_ledger e trace ''task.failed'' [(''task_id'', JStr task), (''reason'', JStr why)];
         cloud_notify e trace ''task.failed'' (MsgCloudNonRetryable why) task [(''reason'', JStr why)]
       }
   }"

definition ParkOrGiveUp :: "task_env \<Rightarrow> string \<Rightarrow> string \<Rightarrow> (store, unit res) state" where
  "ParkOrGiveUp e trace task = do {
     g \<leftarrow> GetTaskByID task;
     case g of
       Inl err \<Rightarrow> ret (Inl err)
     | Inr row \<Rightarrow> do {
         n \<leftarrow> now;
         if hasExceededGiveUp e n row then giveUp e trace task row ''give_up_after_exceeded''
         else park e trace task row
       }
   }"

end
