(* ===== verification/Task_Outbox.thy ===== *)
theory Task_Outbox
  imports Task_Machine Policy_Engine
begin

text \<open>
  \<open>kahyad/internal/outbox/dispatcher.go\<close> and \<open>kahyad/internal/halt/executor.go\<close>: leases on
  outbox rows and the redelivery of a task to a worker, and the emergency halt of a task.

  What runs outside the daemon is a parameter: \<open>oe_spawn\<close> is \<open>spawn.Run\<close>, with everything the
  worker and the rest of the daemon do to the database until it returns, and \<open>oe_open_proxy\<close>
  whether the per-task proxy opens.
\<close>

datatype spawn_result = SpawnOK | SpawnFailed

record outbox_env =
  oe_task :: task_env
  oe_batch :: nat
  oe_lease :: int
  oe_open_proxy :: "string \<Rightarrow> (store, unit res) state"
  oe_spawn :: "envelope \<Rightarrow> (store, spawn_result) state"

section \<open>Resume envelope\<close>

definition AllowedModels :: "string list" where
  "AllowedModels = [''claude-opus-4-8'', ''claude-sonnet-5'', ''claude-haiku-4-5'', ''claude-fable-5'']"

definition envelope_valid :: "envelope \<Rightarrow> bool" where
  "envelope_valid v \<longleftrightarrow> en_schema_version v = 1 \<and> trim_space (en_task_id v) \<noteq> ''''
     \<and> trim_space (en_trace_id v) \<noteq> '''' \<and> en_kind v = ''chat'' \<and> trim_space (en_prompt v) \<noteq> ''''
     \<and> en_model v \<in> set AllowedModels \<and> parse_stamp (en_created_at v) \<noteq> None
     \<and> en_lane v \<in> {'''', ''secret'', ''normal''}
     \<and> (en_resume v \<longrightarrow> (case en_session_id v of None \<Rightarrow> False | Some s \<Rightarrow> trim_space s \<noteq> ''''))
     \<and> en_mode v \<in> {'''', ''reader'', ''stt''}
     \<and> (en_mode v = ''reader'' \<longrightarrow> trim_space (en_schema v) \<noteq> '''')
     \<and> (en_mode v = ''stt'' \<longrightarrow> trim_space (en_input_audio_path v) \<noteq> '''')"

definition buildResumeEnvelope :: "task_row \<Rightarrow> envelope option" where
  "buildResumeEnvelope t = (case t_envelope t of
     Some (EnvelopeJSON v0) \<Rightarrow>
       let v1 = v0\<lparr>en_task_id := t_id t, en_trace_id := t_trace t\<rparr>;
           v = (case t_session t of
                  Some sid \<Rightarrow> if sid \<noteq> '''' then v1\<lparr>en_session_id := Some sid, en_resume := True\<rparr>
                              else v1\<lparr>en_session_id := None, en_resume := False\<rparr>
                | None \<Rightarrow> v1\<lparr>en_session_id := None, en_resume := False\<rparr>)
       in if envelope_valid v then Some v else None
   | _ \<Rightarrow> None)"

section \<open>Dispatcher\<close>

definition outbox_ledger :: "outbox_env \<Rightarrow> string \<Rightarrow> string \<Rightarrow> payload \<Rightarrow> (store, unit) state" where
  "outbox_ledger o1 trace kind p = task_ledger (oe_task o1) trace kind ((''event'', JStr kind) # p)"

definition markDelivered :: "outbox_env \<Rightarrow> int \<Rightarrow> (store, unit) state" where
  "markDelivered o1 i = do {
     t \<leftarrow> now;
     r \<leftarrow> MarkOutboxDelivered (Stamp t) i;
     case r of
       Inl err \<Rightarrow> outbox_ledger o1 '''' ''outbox.mark_delivered_failed''
                   [(''outbox_id'', JInt i), (''err'', JErr err)]
     | Inr _ \<Rightarrow> ret ()
   }"

text \<open>After the worker has ended.\<close>

definition settle_row :: "outbox_env \<Rightarrow> outbox_row \<Rightarrow> task_row \<Rightarrow> spawn_result \<Rightarrow> (store, unit) state" where
  "settle_row o1 row t outcome =
     (if outcome = SpawnOK then do {
        r \<leftarrow> Transition (oe_task o1) (t_trace t) (t_id t) StatusDone;
        (case r of
           Inl err \<Rightarrow> outbox_ledger o1 (t_trace t) ''outbox.transition_failed''
                       [(''task_id'', JStr (t_id t)), (''err'', JErr err)]
         | Inr _ \<Rightarrow> ret ());
        markDelivered o1 (ob_id row)
      }
      else do {
        g \<leftarrow> GetTaskByID (t_id t);
        case g of
          Inl err \<Rightarrow> outbox_ledger o1 (t_trace t) ''outbox.task_reload_failed''
                      [(''task_id'', JStr (t_id t)), (''outbox_id'', JInt (ob_id row)), (''err'', JErr err)]
        | Inr cur \<Rightarrow>
            if t_status cur \<in> {StatusRetryWait, StatusDone, StatusFailed, StatusUserHalted, StatusBlockedUser}
            then markDelivered o1 (ob_id row)
            else ret ()
      })"

definition run_resumed :: "outbox_env \<Rightarrow> outbox_row \<Rightarrow> task_row \<Rightarrow> envelope \<Rightarrow> (store, unit) state" where
  "run_resumed o1 row t v = do {
     p \<leftarrow> oe_open_proxy o1 (t_id t);
     case p of
       Inl err \<Rightarrow> outbox_ledger o1 (t_trace t) ''outbox.anthproxy_open_failed''
                   [(''task_id'', JStr (t_id t)), (''err'', JErr err)]
     | Inr _ \<Rightarrow> do {
         outcome \<leftarrow> oe_spawn o1 v;
         outbox_ledger o1 (t_trace t) ''outbox.resume_dispatched''
           [(''task_id'', JStr (t_id t)),
            (''session_id'', JStr (case en_session_id v of None \<Rightarrow> '''' | Some s \<Rightarrow> s)),
            (''resume'', JBool (en_resume v))];
         settle_row o1 row t outcome
       }
   }"

definition processResume :: "outbox_env \<Rightarrow> outbox_row \<Rightarrow> (store, unit) state" where
  "processResume o1 row = (case ob_payload row of
     PayloadGarbage \<Rightarrow> outbox_ledger o1 (ob_trace row) ''outbox.payload_invalid'' [(''outbox_id'', JInt (ob_id row))]
   | ResumePayload task \<Rightarrow> do {
       g \<leftarrow> GetTaskByID task;
       case g of
         Inl err \<Rightarrow> outbox_ledger o1 (ob_trace row) ''outbox.task_load_failed''
                     [(''outbox_id'', JInt (ob_id row)), (''task_id'', JStr task), (''err'', JErr err)]
       | Inr t \<Rightarrow>
           if t_status t = StatusUserHalted \<or> t_status t = StatusBlockedUser then do {
             outbox_ledger o1 (t_trace t) ''outbox.redelivery_guarded''
               [(''task_id'', JStr (t_id t)), (''status'', JStatus (t_status t))];
             markDelivered o1 (ob_id row)
           }
           else if te_live (oe_task o1) (t_id t)
           then outbox_ledger o1 (t_trace t) ''outbox.resume_skipped_live''
                  [(''task_id'', JStr (t_id t)), (''outbox_id'', JInt (ob_id row))]
           else (case buildResumeEnvelope t of
               None \<Rightarrow> outbox_ledger o1 (t_trace t) ''outbox.envelope_invalid'' [(''task_id'', JStr (t_id t))]
             | Some v \<Rightarrow> do {
                 r \<leftarrow> Transition (oe_task o1) (t_trace t) (t_id t) StatusExecuting;
                 case r of
                   Inl err \<Rightarrow> outbox_ledger o1 (t_trace t) ''outbox.transition_failed''
                               [(''task_id'', JStr (t_id t)), (''err'', JErr err)]
                 | Inr _ \<Rightarrow> run_resumed o1 row t v
               })
     })"

definition processRow :: "outbox_env \<Rightarrow> outbox_row \<Rightarrow> (store, unit) state" where
  "processRow o1 row =
     (if ob_kind row = ''task_resume'' then processResume o1 row
      else outbox_ledger o1 (ob_trace row) ''outbox.unknown_kind''
             [(''outbox_id'', JInt (ob_id row)), (''kind'', JStr (ob_kind row))])"

definition claim_row :: "outbox_env \<Rightarrow> int \<Rightarrow> outbox_row \<Rightarrow> nat \<Rightarrow> (store, nat) state" where
  "claim_row o1 t row n = do {
     t' \<leftarrow> now;
     c \<leftarrow> ClaimOutboxRow (Stamp (t' + oe_lease o1)) (ob_id row) (Stamp t);
     case c of
       Inl _ \<Rightarrow> ret n
     | Inr affected \<Rightarrow>
         if affected = 0 then ret n
         else do { processRow o1 row; ret (n + 1) }
   }"

text \<open>
  One pass.  The in-process guard against a second concurrent pass is the flag \<open>busy\<close>.
\<close>

definition ClaimAndDispatch :: "bool \<Rightarrow> outbox_env \<Rightarrow> (store, nat res) state" where
  "ClaimAndDispatch busy o1 =
     (if busy then ret (Inr 0)
      else do {
        t \<leftarrow> now;
        l \<leftarrow> ListDueOutboxRows (Stamp t) (oe_batch o1);
        case l of
          Inl err \<Rightarrow> ret (Inl err)
        | Inr rows \<Rightarrow> do { n \<leftarrow> for_each rows (claim_row o1 t) 0; ret (Inr n) }
      })"

definition renew_lease_tick :: "outbox_env \<Rightarrow> int \<Rightarrow> (store, unit) state" where
  "renew_lease_tick o1 i = do {
     t \<leftarrow> now;
     r \<leftarrow> RenewOutboxLease (Stamp (t + oe_lease o1)) i;
     case r of
       Inl err \<Rightarrow> outbox_ledger o1 '''' ''outbox.lease_renew_failed'' [(''outbox_id'', JInt i), (''err'', JErr err)]
     | Inr _ \<Rightarrow> ret ()
   }"

section \<open>Emergency halt\<close>

text \<open>
  The executor's dependencies: \<open>he_pid\<close> is the live registry, \<open>he_policy\<close> the policy engine
  when it is wired, the flags the killers of speech and of containers.  The killers report
  failures to the log only.
\<close>

record halt_env =
  he_task :: task_env
  he_pid :: "string \<Rightarrow> int option"
  he_policy :: "engine option"
  he_docker :: bool
  he_speech :: bool

definition isTerminalStatus :: "task_status \<Rightarrow> bool" where
  "isTerminalStatus st \<longleftrightarrow> st \<in> {StatusDone, StatusFailed, StatusUserHalted}"

definition killProcessGroup :: "halt_env \<Rightarrow> task_row \<Rightarrow> (store, unit) state" where
  "killProcessGroup h t =
     (let memory = (case he_pid h (t_id t) of Some p \<Rightarrow> if 0 < p then p else 0 | None \<Rightarrow> 0);
          pgid = (if memory = 0
                  then (case t_worker_pgid t of Some p \<Rightarrow> if 0 < p then p else 0 | None \<Rightarrow> 0)
                  else memory)
      in if pgid = 0 then ret () else notice (KilledGroup pgid))"

definition HaltTask :: "halt_env \<Rightarrow> string \<Rightarrow> (store, bool res) state" where
  "HaltTask h task = do {
     g \<leftarrow> GetTaskByID task;
     case g of
       Inl err \<Rightarrow> ret (if err = NoRows then Inr False else Inl err)
     | Inr t \<Rightarrow> do {
         (if he_speech h then notice (KilledSpeech task) else ret ());
         if isTerminalStatus (t_status t) then ret (Inr False)
         else do {
           killProcessGroup h t;
           (if he_docker h then notice (KilledContainers task) else ret ());
           _ \<leftarrow> Transition (he_task h) (t_trace t) task StatusUserHalted;
           n \<leftarrow> now;
           _ \<leftarrow> SetTaskHaltedAt (Some (Stamp n)) (Stamp n) task;
           _ \<leftarrow> CancelOutboxRowsByTask (Stamp n) task;
           (case he_policy h of
              None \<Rightarrow> ret ()
            | Some p \<Rightarrow> do { _ \<leftarrow> InvalidateApprovalsForTask p (t_trace t) task; ret () });
           task_ledger (he_task h) (t_trace t) ''task.user_halted''
             [(''event'', JStr ''task.user_halted''), (''task_id'', JStr task)];
           ret (Inr True)
         }
       }
   }"

definition halt_one :: "halt_env \<Rightarrow> task_row \<Rightarrow> nat \<Rightarrow> (store, nat) state" where
  "halt_one h t n = do {
     r \<leftarrow> HaltTask h (t_id t);
     ret (case r of Inr True \<Rightarrow> n + 1 | _ \<Rightarrow> n)
   }"

definition HaltAll :: "halt_env \<Rightarrow> (store, nat res) state" where
  "HaltAll h = do {
     (if he_speech h then notice KilledAllSpeech else ret ());
     l \<leftarrow> ListNonTerminalTasks;
     case l of
       Inl err \<Rightarrow> ret (Inl err)
     | Inr ts \<Rightarrow> do { n \<leftarrow> for_each ts (halt_one h) 0; ret (Inr n) }
   }"

end
