(* ===== verification/Task_Laws.thy ===== *)
theory Task_Laws
  imports Task_Outbox Policy_Laws
begin

text \<open>
  What every operation of the task, outbox and halt packages keeps.  The locale
  \<open>task_preorder\<close> lists the statements a relation has to tolerate, with the one condition the
  code puts on a status update: \<open>SetTaskStatus\<close> runs only along an edge of the transition
  table.  Its interpretations: statuses move along legal edges, tool calls keep one live attempt
  per key, and settled outbox rows stay settled.
\<close>

locale task_preorder = store_preorder +
  assumes k_status: "IsLegalTransition from to \<Longrightarrow> state_io_rel R (SetTaskStatus to at i from)"
    and k_task_columns [keeps_rules]: "state_io_rel R (IncrementTaskAttempts at i)"
      "state_io_rel R (SetTaskNextRetry retry at i)" "state_io_rel R (SetTaskHaltedAt halted at i)"
    and k_insert_call [keeps_rules]: "state_io_rel R (InsertToolCallIntent key seq c token at)"
    and k_mark_calls [keeps_rules]: "state_io_rel R (MarkToolCallExecuting at n)"
      "state_io_rel R (MarkToolCallReceipt receipt at n)" "state_io_rel R (MarkToolCallFailed at n)"
    and k_outbox [keeps_rules]: "state_io_rel R (InsertOutboxRow trace kind p created available task)"
      "state_io_rel R (ClaimOutboxRow lease n t)" "state_io_rel R (MarkOutboxDelivered at n)"
      "state_io_rel R (RenewOutboxLease lease n)" "state_io_rel R (CancelOutboxRowsByTask at i)"
    and k_rollback: "R s (rollback_to s s')"
    and k_invalidate [keeps_rules]: "state_io_rel R (InvalidateApprovalsForTask pe trace i)"
begin

lemma keeps_task_ledger [keeps_rules]: "state_io_rel R (task_ledger e trace kind p)"
  unfolding task_ledger_def by (intro keeps_rules)

lemma keeps_Notify [keeps_rules]: "state_io_rel R (Notify trace kind msg p)"
  unfolding Notify_def by (rule keeps_db) (simp add: R_notices)

lemma keeps_Transition [keeps_rules]: "state_io_rel R (Transition e trace task to)"
  unfolding Transition_def Let_def
  apply (intro keeps_bind keeps_reads keeps_case_sum keeps_return)
  subgoal for g t
    by (cases "IsLegalTransition (t_status t) to") (auto intro!: keeps_rules k_status)
  done

lemma keeps_receipts [keeps_rules]:
  "state_io_rel R (checkReplay c ei)" "state_io_rel R (ledgerReplayed e ei seq)"
  unfolding checkReplay_def ledgerReplayed_def by (intro keeps_rules)+

lemma keeps_claim_loop [keeps_rules]: "state_io_rel R (claim_loop c ei k)"
proof (induction k)
  case (Suc k)
  then show ?case
    unfolding claim_loop.simps by (auto intro!: keeps_rules split: option.split)
qed (simp add: keeps_return)

lemma keeps_fail [keeps_rules]: "state_io_rel R (failAndReturn i cause)"
  unfolding failAndReturn_def by (intro keeps_rules)

lemma keeps_commit_or_rollback [keeps_rules]:
  assumes "state_io_rel R body"
  shows "state_io_rel R (commit_or_rollback body)"
  unfolding commit_or_rollback_def state_io_rel_def
  by (auto split: prod.splits sum.splits intro: k_rollback
      R_trans [OF state_io_relD [OF assms] state_io_relD [OF keeps_query]])

lemma keeps_Execute:
  assumes "state_io_rel R effect"
  shows "state_io_rel R (Execute e c ei effect)"
proof -
  have "state_io_rel R (effect_with_receipt c i effect)" for i
    unfolding effect_with_receipt_def by (auto intro!: keeps_rules assms split: option.split)
  then show ?thesis
    unfolding Execute_def claimIntent_def begin_tx_def
    by (auto intro!: keeps_rules split: option.split claim.split)
qed

lemma keeps_outbox_writes [keeps_rules]:
  "state_io_rel R (writeOutboxResumeRowAt trace task a b)" "state_io_rel R (writeOutboxResumeRow trace task)"
  "state_io_rel R (enqueueResume trace task)"
  unfolding writeOutboxResumeRow_def writeOutboxResumeRowAt_def enqueueResume_def
  by (intro keeps_rules)+

lemma keeps_blocks [keeps_rules]:
  "state_io_rel R (blockOnW1CapExceeded e trace task tool n)" "state_io_rel R (blockOnReceiptless e trace task tool)"
  unfolding blockOnW1CapExceeded_def blockOnReceiptless_def resume_notify_def by (intro keeps_rules)+

lemma keeps_ProcessTask [keeps_rules]: "state_io_rel R (ProcessTask e t)"
  unfolding ProcessTask_def by (intro keeps_rules)

lemma keeps_Scan: "state_io_rel R (Scan e)"
  unfolding Scan_def scan_task_def by (intro keeps_rules)

lemma keeps_resolve: "state_io_rel R (Resolver_Retry e trace task)" "state_io_rel R (Resolver_Abort e trace task)"
  unfolding Resolver_Retry_def Resolver_Abort_def by (intro keeps_rules)+

lemma keeps_cloud_retry:
  "state_io_rel R (ParkOrGiveUp e trace task)" "state_io_rel R (FailNonRetryable e trace task why)"
  unfolding ParkOrGiveUp_def FailNonRetryable_def park_def giveUp_def cloud_notify_def
  by (intro keeps_rules)+

lemma keeps_outbox_ledger [keeps_rules]: "state_io_rel R (outbox_ledger o1 trace kind p)"
  unfolding outbox_ledger_def by (intro keeps_rules)

lemma keeps_markDelivered [keeps_rules]: "state_io_rel R (markDelivered o1 i)"
  unfolding markDelivered_def by (intro keeps_rules)

lemma keeps_settle_row [keeps_rules]: "state_io_rel R (settle_row o1 row t outcome)"
  unfolding settle_row_def by (intro keeps_rules)

lemma keeps_processRow:
  assumes "\<And>i. state_io_rel R (oe_open_proxy o1 i)" and "\<And>v. state_io_rel R (oe_spawn o1 v)"
  shows "state_io_rel R (processRow o1 row)"
  unfolding processRow_def processResume_def run_resumed_def
  by (auto intro!: keeps_rules assms split: outbox_payload.split)

lemma keeps_ClaimAndDispatch:
  assumes "\<And>i. state_io_rel R (oe_open_proxy o1 i)" and "\<And>v. state_io_rel R (oe_spawn o1 v)"
  shows "state_io_rel R (ClaimAndDispatch busy o1)"
  unfolding ClaimAndDispatch_def claim_row_def by (intro keeps_rules keeps_processRow assms)

lemma keeps_renew_lease_tick: "state_io_rel R (renew_lease_tick o1 i)"
  unfolding renew_lease_tick_def by (intro keeps_rules)

lemma keeps_HaltTask [keeps_rules]: "state_io_rel R (HaltTask h task)"
  unfolding HaltTask_def killProcessGroup_def Let_def by (intro keeps_rules)

lemma keeps_HaltAll: "state_io_rel R (HaltAll h)"
  unfolding HaltAll_def halt_one_def by (intro keeps_rules)

end

end
