(* ===== verification/Task_Relations.thy ===== *)
theory Task_Relations
  imports Task_Laws
begin

text \<open>
  The relations of the locale \<open>task_preorder\<close>: \<open>status_moves\<close> (statuses follow the transition
  table and attempts never fall), \<open>keeps_live_unique\<close> (one live attempt per call key),
  \<open>outbox_settles\<close> (rows stay, delivered and cancelled rows stay so), and the growth of the
  ledger.
\<close>

section \<open>Statuses\<close>

definition legal_path :: "task_status \<Rightarrow> task_status \<Rightarrow> bool" where
  "legal_path = IsLegalTransition\<^sup>*\<^sup>*"

lemma legal_path_refl [simp]: "legal_path a a"
  by (simp add: legal_path_def)

lemma legal_path_edge: "IsLegalTransition a b \<Longrightarrow> legal_path a b"
  by (auto simp: legal_path_def)

lemma legal_path_trans: "legal_path a b \<Longrightarrow> legal_path b c \<Longrightarrow> legal_path a c"
  by (simp add: legal_path_def)

lemma terminal_no_edge: "isTerminalStatus a \<Longrightarrow> \<not> IsLegalTransition a b"
  by (cases a) (auto simp: isTerminalStatus_def IsLegalTransition_def)

lemma legal_path_terminal: "legal_path a b \<Longrightarrow> isTerminalStatus a \<Longrightarrow> b = a"
  unfolding legal_path_def by (induction rule: rtranclp_induct) (auto dest: terminal_no_edge)

definition status_moves :: "store \<Rightarrow> store \<Rightarrow> bool" where
  "status_moves s s' \<longleftrightarrow> (\<forall>i r. find (\<lambda>r. t_id r = i) (tasks s) = Some r \<longrightarrow>
     (\<exists>r'. find (\<lambda>r. t_id r = i) (tasks s') = Some r' \<and> legal_path (t_status r) (t_status r')
        \<and> t_attempts r \<le> t_attempts r'))"

lemma status_moves_same: "tasks s' = tasks s \<Longrightarrow> status_moves s s'"
  by (simp add: status_moves_def)

lemma status_moves_trans: "status_moves s t \<Longrightarrow> status_moves t u \<Longrightarrow> status_moves s u"
  unfolding status_moves_def by (meson legal_path_trans order_trans)

text \<open>An update that keeps ids, moves statuses along the table and does not lower attempts.\<close>

lemma status_moves_update:
  assumes "\<And>r. t_id (f r) = t_id r" and "\<And>r. p r \<Longrightarrow> legal_path (t_status r) (t_status (f r))"
    and "\<And>r. t_attempts r \<le> t_attempts (f r)"
  shows "status_moves s (s\<lparr>tasks := update_where p f (tasks s)\<rparr>)"
  using assms by (auto simp: status_moves_def find_update_where)

interpretation moves: store_preorder status_moves
  by unfold_locales (simp_all add: status_moves_same, rule status_moves_trans)

lemma moves_status: "IsLegalTransition from to \<Longrightarrow> state_io_rel status_moves (SetTaskStatus to at i from)"
  unfolding SetTaskStatus_def Let_def
  by (rule moves.keeps_db) (auto intro!: status_moves_update legal_path_edge)

lemma moves_columns:
  "state_io_rel status_moves (IncrementTaskAttempts at i)"
  "state_io_rel status_moves (SetTaskNextRetry retry at i)"
  "state_io_rel status_moves (SetTaskHaltedAt halted at i)"
  "state_io_rel status_moves (SetTaskWorkerPGID pgid at i)"
  "state_io_rel status_moves (UpdateTaskSession sid at i)"
  "state_io_rel status_moves (UpdateTaskState st at i)"
  unfolding UpdateTaskState_def IncrementTaskAttempts_def SetTaskNextRetry_def SetTaskHaltedAt_def SetTaskWorkerPGID_def
    UpdateTaskSession_def update_task_def
  by (rule moves.keeps_db; simp add: status_moves_update moves.R_refl split: option.split)+

lemma update_call_tables:
  "tasks (snd (update_call i f s)) = tasks s" "outbox (snd (update_call i f s)) = outbox s"
  "events (snd (update_call i f s)) = events s"
  by (simp_all add: update_call_def split: option.split)

text \<open>The statements that leave the table of tasks alone.\<close>

definition same_tasks :: "store \<Rightarrow> store \<Rightarrow> bool" where
  "same_tasks s s' \<longleftrightarrow> tasks s' = tasks s"

interpretation same_tasks: store_preorder same_tasks
  by unfold_locales (simp_all add: same_tasks_def)

lemma same_tasks_statements:
  "state_io_rel same_tasks (InsertToolCallIntent key seq c token at)"
  "state_io_rel same_tasks (MarkToolCallExecuting at n)"
  "state_io_rel same_tasks (MarkToolCallReceipt receipt at n)"
  "state_io_rel same_tasks (MarkToolCallFailed at n)"
  "state_io_rel same_tasks (InsertOutboxRow trace kind p created available task)"
  "state_io_rel same_tasks (ClaimOutboxRow lease n t)"
  "state_io_rel same_tasks (MarkOutboxDelivered at n)"
  "state_io_rel same_tasks (RenewOutboxLease lease n)"
  "state_io_rel same_tasks (CancelOutboxRowsByTask at i)"
  unfolding InsertToolCallIntent_def MarkToolCallExecuting_def MarkToolCallReceipt_def MarkToolCallFailed_def
    InsertOutboxRow_def ClaimOutboxRow_def MarkOutboxDelivered_def RenewOutboxLease_def
    CancelOutboxRowsByTask_def
  by (rule same_tasks.keeps_db; simp add: same_tasks_def update_call_tables Let_def)+

lemma same_tasks_mono:
  "state_io_rel same_tasks m \<Longrightarrow> (\<And>s s'. tasks s' = tasks s \<Longrightarrow> R s s') \<Longrightarrow> state_io_rel R m"
  by (simp add: state_io_rel_def split_beta same_tasks_def)

lemma other_tables_mono:
  "state_io_rel other_tables m \<Longrightarrow> (\<And>s s'. other_tables s s' \<Longrightarrow> R s s') \<Longrightarrow> state_io_rel R m"
  by (simp add: state_io_rel_def split_beta)

interpretation moves: task_preorder status_moves
  by unfold_locales
     (rule moves_status moves_columns same_tasks_mono [OF same_tasks_statements(1)]
        same_tasks_mono [OF same_tasks_statements(2)] same_tasks_mono [OF same_tasks_statements(3)]
        same_tasks_mono [OF same_tasks_statements(4)] same_tasks_mono [OF same_tasks_statements(5)]
        same_tasks_mono [OF same_tasks_statements(6)] same_tasks_mono [OF same_tasks_statements(7)]
        same_tasks_mono [OF same_tasks_statements(8)] same_tasks_mono [OF same_tasks_statements(9)] | assumption
      | erule status_moves_same
      | rule status_moves_same, simp add: rollback_to_def
      | rule other_tables_mono [OF others.keeps_halt], rule status_moves_same, simp add: other_tables_def)+

section \<open>One live attempt per call key\<close>

definition live_unique :: "store \<Rightarrow> bool" where
  "live_unique s \<longleftrightarrow> distinct (map tc_id (calls s)) \<and> (\<forall>r \<in> set (calls s). tc_id r < next_call s)
     \<and> inj_on tc_key {r \<in> set (calls s). call_live r}"

definition keeps_live_unique :: "store \<Rightarrow> store \<Rightarrow> bool" where
  "keeps_live_unique s s' \<longleftrightarrow> (live_unique s \<longrightarrow> live_unique s')"

lemma live_unique_same:
  "calls s' = calls s \<Longrightarrow> next_call s' = next_call s \<Longrightarrow> keeps_live_unique s s'"
  by (simp add: keeps_live_unique_def live_unique_def)

lemma inj_on_optional:
  "inj_on g A \<Longrightarrow> (b \<Longrightarrow> g x \<notin> g ` A) \<Longrightarrow> inj_on g (A \<union> (if b then {x} else {}))"
  by (auto simp: inj_on_insert)

lemma live_unique_append:
  assumes "live_unique s" and "tc_id r = next_call s" and key: "tc_key r = k"
    and fresh: "\<And>r'. r' \<in> set (calls s) \<Longrightarrow> call_live r' \<Longrightarrow> tc_key r' \<noteq> k"
  shows "live_unique (s\<lparr>calls := calls s @ [r], next_call := next_call s + 1\<rparr>)"
proof -
  have lives: "{x \<in> set (calls s @ [r]). call_live x}
      = {x \<in> set (calls s). call_live x} \<union> (if call_live r then {r} else {})" by auto
  have "inj_on tc_key {x \<in> set (calls s @ [r]). call_live x}"
    unfolding lives
  proof (rule inj_on_optional)
    show "inj_on tc_key {x \<in> set (calls s). call_live x}" using assms(1) by (simp add: live_unique_def)
    show "tc_key r \<notin> tc_key ` {x \<in> set (calls s). call_live x}" using fresh unfolding key by blast
  qed
  moreover have "distinct (map tc_id (calls s @ [r]))" using assms(1,2) by (fastforce simp: live_unique_def)
  ultimately show ?thesis
    using assms(1,2) by (fastforce simp: live_unique_def)
qed

interpretation live: store_preorder keeps_live_unique
  by unfold_locales (simp_all add: live_unique_same, simp add: keeps_live_unique_def)

lemma live_insert: "state_io_rel keeps_live_unique (InsertToolCallIntent key seq c token at)"
  unfolding InsertToolCallIntent_def
proof (rule live.keeps_db, goal_cases)
  case (1 s)
  let ?clash = "fst key \<notin> t_id ` set (tasks s) \<or> \<not> valid_class c
    \<or> list_ex (\<lambda>r. tc_key r = key \<and> (tc_seq r = seq \<or> call_live r)) (calls s)"
  show ?case
  proof (cases ?clash)
    case True
    then show ?thesis by (simp add: live.R_refl)
  next
    case False
    then have fresh: "\<And>r. r \<in> set (calls s) \<Longrightarrow> call_live r \<Longrightarrow> tc_key r \<noteq> key" by (auto simp: list_ex_iff)
    from False show ?thesis
      by (simp add: Let_def keeps_live_unique_def)
         (intro impI live_unique_append [where k = key], simp_all add: tc_key_def [symmetric] fresh, simp add: tc_key_def)
  qed
qed

lemma live_update_call:
  assumes id: "\<And>r. tc_id (f r) = tc_id r" and key: "\<And>r. tc_key (f r) = tc_key r"
  shows "keeps_live_unique s (snd (update_call i f s))"
proof (cases "find (\<lambda>r. tc_id r = i) (calls s)")
  case None
  then show ?thesis by (simp add: update_call_def live.R_refl)
next
  case (Some old)
  from find_Some_in [OF this] have old: "old \<in> set (calls s)" "tc_id old = i" by auto
  let ?clash = "call_live (f old) \<and> list_ex (\<lambda>r. tc_id r \<noteq> i \<and> tc_key r = tc_key old \<and> call_live r) (calls s)"
  show ?thesis
  proof (cases ?clash)
    case True
    with Some show ?thesis by (simp add: update_call_def live.R_refl)
  next
    case False
    let ?rows = "update_where (\<lambda>r. tc_id r = i) f (calls s)"
    have "live_unique (s\<lparr>calls := ?rows\<rparr>)" if ok: "live_unique s"
    proof -
      from ok have distinct: "distinct (map tc_id (calls s))"
        and inj: "inj_on tc_key {r \<in> set (calls s). call_live r}"
        by (simp_all add: live_unique_def)
      have only: "r = old" if "r \<in> set (calls s)" "tc_id r = i" for r
        using distinct_map_inj [OF distinct that(1) old(1)] that(2) old(2) by simp
      have "{r \<in> set (calls s). tc_id r = i} = {old}" using old only by blast
      then have rows: "set ?rows = {r \<in> set (calls s). tc_id r \<noteq> i} \<union> {f old}"
        by (simp add: set_update_where)
      have others: "{r \<in> set (calls s). call_live r} - {old} = {r \<in> set (calls s). tc_id r \<noteq> i \<and> call_live r}"
        using only old(2) by blast
      have lives: "{r \<in> set ?rows. call_live r} =
          {r \<in> set (calls s). call_live r} - {old} \<union> (if call_live (f old) then {f old} else {})"
        unfolding rows others by (cases "call_live (f old)") auto
      have "inj_on tc_key ({r \<in> set (calls s). call_live r} - {old})"
        using inj by (rule inj_on_subset) blast
      moreover have "tc_key (f old) \<notin> tc_key ` ({r \<in> set (calls s). call_live r} - {old})" if "call_live (f old)"
        using False that by (auto simp: others list_ex_iff key)
      ultimately have "inj_on tc_key {r \<in> set ?rows. call_live r}"
        unfolding lives by (rule inj_on_optional)
      moreover have "distinct (map tc_id ?rows)" using distinct id by simp
      moreover have "\<forall>r \<in> set ?rows. tc_id r < next_call s"
        unfolding rows using ok old id by (auto simp: live_unique_def)
      ultimately show ?thesis by (simp add: live_unique_def)
    qed
    with Some False show ?thesis by (simp add: update_call_def keeps_live_unique_def)
  qed
qed

lemma live_marks:
  "state_io_rel keeps_live_unique (MarkToolCallExecuting at n)"
  "state_io_rel keeps_live_unique (MarkToolCallReceipt receipt at n)"
  "state_io_rel keeps_live_unique (MarkToolCallFailed at n)"
  unfolding MarkToolCallExecuting_def MarkToolCallReceipt_def MarkToolCallFailed_def
  by (rule live.keeps_db; rule live_update_call; simp add: tc_key_def)+

lemma live_others:
  "state_io_rel keeps_live_unique (SetTaskStatus to at i from)"
  "state_io_rel keeps_live_unique (IncrementTaskAttempts at i)"
  "state_io_rel keeps_live_unique (SetTaskNextRetry retry at i)"
  "state_io_rel keeps_live_unique (SetTaskHaltedAt halted at i)"
  "state_io_rel keeps_live_unique (InsertOutboxRow trace kind p created available task)"
  "state_io_rel keeps_live_unique (ClaimOutboxRow lease n t)"
  "state_io_rel keeps_live_unique (MarkOutboxDelivered at n)"
  "state_io_rel keeps_live_unique (RenewOutboxLease lease n)"
  "state_io_rel keeps_live_unique (CancelOutboxRowsByTask at i)"
  unfolding SetTaskStatus_def IncrementTaskAttempts_def SetTaskNextRetry_def SetTaskHaltedAt_def
    update_task_def InsertOutboxRow_def ClaimOutboxRow_def MarkOutboxDelivered_def RenewOutboxLease_def
    CancelOutboxRowsByTask_def
  by (rule live.keeps_db; rule live_unique_same; simp add: Let_def split: option.split)+

text \<open>The policy engine does not touch the table of tool calls.\<close>

lemma live_invalidate: "state_io_rel keeps_live_unique (InvalidateApprovalsForTask pe trace i)"
proof -
  have "state_io_rel keeps_live_unique (ConsumePendingApproval at n)"
    "state_io_rel keeps_live_unique (RevokeApprovalTokensByTask at t)" for at n t
    unfolding ConsumePendingApproval_def RevokeApprovalTokensByTask_def
    by (rule live.keeps_db; rule live_unique_same; simp add: case_prod_beta)+
  then show ?thesis
    unfolding InvalidateApprovalsForTask_def invalidate_row_def ledgerRaw_def by (intro keeps_rules)
qed

interpretation live: task_preorder keeps_live_unique
  by unfold_locales
     (rule live_insert live_marks live_others live_invalidate
      | rule live_unique_same; simp add: rollback_to_def)+

section \<open>Outbox rows settle\<close>

definition row_settles :: "outbox_row \<Rightarrow> outbox_row \<Rightarrow> bool" where
  "row_settles r r' \<longleftrightarrow> ob_id r' = ob_id r \<and> ob_payload r' = ob_payload r \<and> ob_task r' = ob_task r
     \<and> (ob_dispatched r \<noteq> None \<longrightarrow> ob_dispatched r' \<noteq> None)
     \<and> (ob_canceled r \<noteq> None \<longrightarrow> ob_canceled r' \<noteq> None) \<and> ob_attempts r \<le> ob_attempts r'"

definition outbox_settles :: "store \<Rightarrow> store \<Rightarrow> bool" where
  "outbox_settles s s' \<longleftrightarrow> (\<forall>r \<in> set (outbox s). \<exists>r' \<in> set (outbox s'). row_settles r r')"

lemma row_settles_refl [simp]: "row_settles r r"
  by (simp add: row_settles_def)

lemma row_settles_trans: "row_settles a b \<Longrightarrow> row_settles b c \<Longrightarrow> row_settles a c"
  by (auto simp: row_settles_def)

lemma outbox_settles_same: "outbox s' = outbox s \<Longrightarrow> outbox_settles s s'"
  unfolding outbox_settles_def by (metis row_settles_refl)

lemma outbox_settles_trans: "outbox_settles s t \<Longrightarrow> outbox_settles t u \<Longrightarrow> outbox_settles s u"
  unfolding outbox_settles_def by (meson row_settles_trans)

lemma outbox_settles_append: "outbox_settles s (s\<lparr>outbox := outbox s @ [r], next_outbox := n\<rparr>)"
  unfolding outbox_settles_def by (auto intro: row_settles_refl)

lemma outbox_settles_update:
  assumes "\<And>r. row_settles r (f r)"
  shows "outbox_settles s (s\<lparr>outbox := update_where p f (outbox s)\<rparr>)"
proof -
  have "\<exists>r' \<in> set (update_where p f (outbox s)). row_settles r r'" if "r \<in> set (outbox s)" for r
    unfolding set_update_where using that assms row_settles_refl by (cases "p r") blast+
  then show ?thesis by (simp add: outbox_settles_def)
qed

interpretation settles: store_preorder outbox_settles
  by unfold_locales (simp_all add: outbox_settles_same, rule outbox_settles_trans)

lemma settles_outbox:
  "state_io_rel outbox_settles (InsertOutboxRow trace kind p created available task)"
  "state_io_rel outbox_settles (ClaimOutboxRow lease n t)"
  "state_io_rel outbox_settles (MarkOutboxDelivered at n)"
  "state_io_rel outbox_settles (RenewOutboxLease lease n)"
  "state_io_rel outbox_settles (CancelOutboxRowsByTask at i)"
  unfolding InsertOutboxRow_def ClaimOutboxRow_def MarkOutboxDelivered_def RenewOutboxLease_def
    CancelOutboxRowsByTask_def Let_def
  by (rule settles.keeps_db; simp add: outbox_settles_append outbox_settles_update row_settles_def)+

lemma settles_others:
  "state_io_rel outbox_settles (SetTaskStatus to at i from)"
  "state_io_rel outbox_settles (IncrementTaskAttempts at i)"
  "state_io_rel outbox_settles (SetTaskNextRetry retry at i)"
  "state_io_rel outbox_settles (SetTaskHaltedAt halted at i)"
  "state_io_rel outbox_settles (InsertToolCallIntent key seq c token at)"
  "state_io_rel outbox_settles (MarkToolCallExecuting at n)"
  "state_io_rel outbox_settles (MarkToolCallReceipt receipt at n)"
  "state_io_rel outbox_settles (MarkToolCallFailed at n)"
  unfolding SetTaskStatus_def IncrementTaskAttempts_def SetTaskNextRetry_def SetTaskHaltedAt_def
    update_task_def InsertToolCallIntent_def MarkToolCallExecuting_def MarkToolCallReceipt_def
    MarkToolCallFailed_def
  by (rule settles.keeps_db; rule outbox_settles_same; simp add: Let_def update_call_tables split: option.split)+

interpretation settles: task_preorder outbox_settles
  by unfold_locales
     (rule settles_outbox settles_others
      | rule outbox_settles_same; simp add: rollback_to_def
      | rule other_tables_mono [OF others.keeps_halt], rule outbox_settles_same, simp add: other_tables_def)+

end
