(* ===== verification/Task_Traces.thy ===== *)
theory Task_Traces
  imports Task_Relations
begin

text \<open>
  Sequences of operations on tasks as the daemon makes them: its handlers, the resume scan, the
  outbox dispatcher and the halt executor, in any order, interleaved with the passing of time and
  under any schedule of database failures.  What a worker does while it runs is again a sequence
  of the daemon's operations; the effect of a tool call runs inside the receipt transaction and
  does not write the tables of tasks, tool calls and the outbox.
\<close>

datatype task_op =
    TaskInsert task_row
  | TaskSession "string option" string
  | TaskPGID "int option" string
  | TaskState string string
  | TaskTransition string string task_status
  | TaskExecute receipt_codec execute_input "(store, string res) state"
  | TaskScan
  | TaskRetry string string
  | TaskAbort string string
  | TaskPark string string
  | TaskFail string string string
  | TaskRenew outbox_env int
  | TaskHalt halt_env string
  | TaskHaltAll halt_env
  | TaskClock int

definition state_after :: "(store, 'a) state \<Rightarrow> store \<Rightarrow> store" where
  "state_after m s = snd (run_state m s)"

fun run_task_op :: "task_env \<Rightarrow> task_op \<Rightarrow> store \<Rightarrow> store" where
  "run_task_op e (TaskInsert r) s = state_after (InsertTask r) s"
| "run_task_op e (TaskSession sid i) s = state_after (UpdateTaskSession sid (Stamp (clock s)) i) s"
| "run_task_op e (TaskPGID pgid i) s = state_after (SetTaskWorkerPGID pgid (Stamp (clock s)) i) s"
| "run_task_op e (TaskState st i) s = state_after (UpdateTaskState st (Stamp (clock s)) i) s"
| "run_task_op e (TaskTransition trace i to) s = state_after (Transition e trace i to) s"
| "run_task_op e (TaskExecute c ei effect) s = state_after (Execute e c ei effect) s"
| "run_task_op e TaskScan s = state_after (Scan e) s"
| "run_task_op e (TaskRetry trace i) s = state_after (Resolver_Retry e trace i) s"
| "run_task_op e (TaskAbort trace i) s = state_after (Resolver_Abort e trace i) s"
| "run_task_op e (TaskPark trace i) s = state_after (ParkOrGiveUp e trace i) s"
| "run_task_op e (TaskFail trace i why) s = state_after (FailNonRetryable e trace i why) s"
| "run_task_op e (TaskRenew o1 n) s = state_after (renew_lease_tick o1 n) s"
| "run_task_op e (TaskHalt h i) s = state_after (HaltTask h i) s"
| "run_task_op e (TaskHaltAll h) s = state_after (HaltAll h) s"
| "run_task_op e (TaskClock t) s = s\<lparr>clock := t\<rparr>"

definition run_task_ops :: "task_env \<Rightarrow> task_op list \<Rightarrow> store \<Rightarrow> store" where
  "run_task_ops e ops s = fold (run_task_op e) ops s"

definition same_task_tables :: "store \<Rightarrow> store \<Rightarrow> bool" where
  "same_task_tables s s' \<longleftrightarrow> tasks s' = tasks s \<and> calls s' = calls s \<and> next_call s' = next_call s
     \<and> outbox s' = outbox s \<and> next_outbox s' = next_outbox s"

fun effect_confined :: "task_op \<Rightarrow> bool" where
  "effect_confined (TaskExecute c ei effect) \<longleftrightarrow> state_io_rel same_task_tables effect"
| "effect_confined _ \<longleftrightarrow> True"

text \<open>A computation outside the model that changes the database by operations of the daemon only.\<close>

definition scripted :: "task_env \<Rightarrow> (store, 'a) state \<Rightarrow> bool" where
  "scripted e m \<longleftrightarrow> (\<forall>s. \<exists>ops. list_all effect_confined ops \<and> snd (run_state m s) = run_task_ops e ops s)"

datatype daemon_op = Step task_op | Dispatch bool outbox_env

fun run_daemon_op :: "task_env \<Rightarrow> daemon_op \<Rightarrow> store \<Rightarrow> store" where
  "run_daemon_op e (Step op) s = run_task_op e op s"
| "run_daemon_op e (Dispatch busy o1) s = state_after (ClaimAndDispatch busy o1) s"

definition run_daemon :: "task_env \<Rightarrow> daemon_op list \<Rightarrow> store \<Rightarrow> store" where
  "run_daemon e ops s = fold (run_daemon_op e) ops s"

fun op_allowed :: "task_env \<Rightarrow> daemon_op \<Rightarrow> bool" where
  "op_allowed e (Step op) \<longleftrightarrow> effect_confined op"
| "op_allowed e (Dispatch busy o1) \<longleftrightarrow>
     (\<forall>i. scripted e (oe_open_proxy o1 i)) \<and> (\<forall>v. scripted e (oe_spawn o1 v))"

section \<open>Relations kept by every sequence\<close>

locale task_trace = task_preorder +
  assumes R_same_tables: "same_task_tables s s' \<Longrightarrow> R s s'"
    and k_insert_task: "state_io_rel R (InsertTask row)"
    and k_session: "state_io_rel R (UpdateTaskSession sid at i)"
    and k_pgid: "state_io_rel R (SetTaskWorkerPGID pgid at i)"
    and k_task_state: "state_io_rel R (UpdateTaskState st at i)"
begin

lemma keeps_state_after: "state_io_rel R m \<Longrightarrow> R s (state_after m s)"
  unfolding state_after_def by (metis keeps_run prod.collapse)

lemma keeps_confined: "state_io_rel same_task_tables m \<Longrightarrow> state_io_rel R m"
  by (auto simp: state_io_rel_def split_beta intro: R_same_tables)

lemma keeps_run_task_op: "effect_confined op \<Longrightarrow> R s (run_task_op e op s)"
proof (cases op)
  case (TaskClock t)
  then show ?thesis by (simp add: R_same_tables same_task_tables_def)
qed (simp_all add: keeps_state_after k_insert_task k_session k_pgid k_task_state keeps_Transition keeps_Execute
       keeps_confined keeps_Scan keeps_resolve keeps_cloud_retry keeps_renew_lease_tick
       keeps_HaltTask keeps_HaltAll)

lemma keeps_run_task_ops: "list_all effect_confined ops \<Longrightarrow> R s (run_task_ops e ops s)"
  unfolding run_task_ops_def by (rule keeps_fold) (auto simp: list_all_iff keeps_run_task_op)

lemma keeps_scripted: "scripted e m \<Longrightarrow> state_io_rel R m"
  unfolding scripted_def state_io_rel_def split_beta by (metis keeps_run_task_ops)

lemma keeps_run_daemon_op: "op_allowed e op \<Longrightarrow> R s (run_daemon_op e op s)"
proof (cases op)
  case (Dispatch busy o1)
  assume "op_allowed e op"
  with Dispatch have "state_io_rel R (ClaimAndDispatch busy o1)"
    by (intro keeps_ClaimAndDispatch) (auto intro: keeps_scripted)
  with Dispatch show ?thesis by (simp add: keeps_state_after)
qed (simp add: keeps_run_task_op)

lemma keeps_run_daemon: "list_all (op_allowed e) ops \<Longrightarrow> R s (run_daemon e ops s)"
  unfolding run_daemon_def by (rule keeps_fold) (auto simp: list_all_iff keeps_run_daemon_op)

end

lemma moves_insert_task: "state_io_rel status_moves (InsertTask row)"
  unfolding InsertTask_def by (rule moves.keeps_db) (auto simp: status_moves_def find_append)

interpretation moves: task_trace status_moves
  by unfold_locales
     (simp_all add: status_moves_same same_task_tables_def moves_insert_task moves_columns)

lemma live_session_pgid:
  "state_io_rel keeps_live_unique (InsertTask row)"
  "state_io_rel keeps_live_unique (UpdateTaskSession sid at i)"
  "state_io_rel keeps_live_unique (SetTaskWorkerPGID pgid at i)"
  "state_io_rel keeps_live_unique (UpdateTaskState st at i)"
  unfolding UpdateTaskState_def InsertTask_def UpdateTaskSession_def SetTaskWorkerPGID_def update_task_def
  by (rule live.keeps_db; simp add: live_unique_same)+

interpretation live: task_trace keeps_live_unique
  by unfold_locales (simp_all add: live_unique_same same_task_tables_def live_session_pgid)

lemma settles_session_pgid:
  "state_io_rel outbox_settles (InsertTask row)"
  "state_io_rel outbox_settles (UpdateTaskSession sid at i)"
  "state_io_rel outbox_settles (SetTaskWorkerPGID pgid at i)"
  "state_io_rel outbox_settles (UpdateTaskState st at i)"
  unfolding UpdateTaskState_def InsertTask_def UpdateTaskSession_def SetTaskWorkerPGID_def update_task_def
  by (rule settles.keeps_db; simp add: outbox_settles_same)+

interpretation settles: task_trace outbox_settles
  by unfold_locales (simp_all add: outbox_settles_same same_task_tables_def settles_session_pgid)

end
