(* ===== verification/Task_Facts.thy ===== *)
theory Task_Facts
  imports Task_Traces
begin

text \<open>
  What the task operations do on a database that does not fail: equations for \<open>run_state\<close>.
  \<open>recorded\<close> is the ledger entry of an operation, \<open>set_status\<close> the change of a row a legal
  transition makes, and \<open>status_of\<close> the abstraction of the tasks table to a map from ids to
  statuses that the refinement lemmas are about.
\<close>

definition healthy_tasks :: "store \<Rightarrow> bool" where
  "healthy_tasks s \<longleftrightarrow> faults s = [] \<and> distinct (map t_id (tasks s))"

definition status_of :: "store \<Rightarrow> string \<Rightarrow> task_status option" where
  "status_of s i = map_option t_status (find (\<lambda>r. t_id r = i) (tasks s))"

definition recorded :: "bool \<Rightarrow> string \<Rightarrow> string \<Rightarrow> payload \<Rightarrow> store \<Rightarrow> store" where
  "recorded wired trace kind p s =
     (if wired then s\<lparr>events := events s @ [\<lparr>ev_trace = trace, ev_kind = kind, ev_payload = p\<rparr>]\<rparr> else s)"

lemma recorded_tables [simp]:
  "tasks (recorded w t k p s) = tasks s" "calls (recorded w t k p s) = calls s"
  "outbox (recorded w t k p s) = outbox s" "faults (recorded w t k p s) = faults s"
  "clock (recorded w t k p s) = clock s" "notices (recorded w t k p s) = notices s"
  "next_call (recorded w t k p s) = next_call s" "next_outbox (recorded w t k p s) = next_outbox s"
  "tokens (recorded w t k p s) = tokens s" "pendings (recorded w t k p s) = pendings s"
  by (simp_all add: recorded_def)

lemma run_task_ledger: "faults s = [] \<Longrightarrow> run_state (task_ledger e trace kind p) s = ((), recorded (te_ledger e) trace kind p s)"
  by (simp add: task_ledger_def recorded_def LogEvent_def db_def)

lemma run_now [simp]: "run_state now s = (clock s, s)"
  by (simp add: now_def)

lemma run_query: "faults s = [] \<Longrightarrow> run_state (query f) s = (Inr (f s), s)"
  by (simp add: query_def run_db_no_faults)

lemma run_select_one:
  "faults s = [] \<Longrightarrow> run_state (select_one f) s = ((case f s of None \<Rightarrow> Inl NoRows | Some r \<Rightarrow> Inr r), s)"
  by (simp add: select_one_def run_db_no_faults)

lemma run_GetTaskByID:
  "faults s = [] \<Longrightarrow> run_state (GetTaskByID i) s =
     ((case find (\<lambda>r. t_id r = i) (tasks s) of None \<Rightarrow> Inl NoRows | Some r \<Rightarrow> Inr r), s)"
  by (simp add: GetTaskByID_def run_select_one)

section \<open>Transitions\<close>

definition set_status :: "int \<Rightarrow> string \<Rightarrow> task_status \<Rightarrow> task_row \<Rightarrow> task_row" where
  "set_status t i to r =
     (if t_id r = i
      then r\<lparr>t_status := to, t_updated := Stamp t,
             t_attempts := t_attempts r + (if to = StatusExecuting then 1 else 0)\<rparr>
      else r)"

lemma set_status_id [simp]: "t_id (set_status t i to r) = t_id r"
  by (simp add: set_status_def)

lemma find_map_id: "(\<And>r. t_id (f r) = t_id r) \<Longrightarrow>
    find (\<lambda>r. t_id r = i) (map f rows) = map_option f (find (\<lambda>r. t_id r = i) rows)"
  by (induction rows) auto

lemma update_status_rows:
  assumes "distinct (map t_id rows)" and "find (\<lambda>r. t_id r = i) rows = Some t"
  shows "0 < count_where (\<lambda>r. t_id r = i \<and> t_status r = t_status t) rows"
    and "update_where (\<lambda>r. t_id r = i \<and> t_status r = t_status t) f rows
      = map (\<lambda>r. if t_id r = i then f r else r) rows"
proof -
  have t: "t \<in> set rows" "t_id t = i" using find_Some_in [OF assms(2)] by simp_all
  then show "0 < count_where (\<lambda>r. t_id r = i \<and> t_status r = t_status t) rows"
    by (auto simp: count_where_pos)
  have "r = t" if "r \<in> set rows" "t_id r = i" for r
    using distinct_map_inj [OF assms(1) that(1) t(1)] that(2) t(2) by simp
  then show "update_where (\<lambda>r. t_id r = i \<and> t_status r = t_status t) f rows
      = map (\<lambda>r. if t_id r = i then f r else r) rows"
    by (auto simp: update_where_def)
qed

lemma run_Transition_missing:
  assumes "faults s = []" and "find (\<lambda>r. t_id r = i) (tasks s) = None"
  shows "run_state (Transition e trace i to) s = (Inl NoRows, s)"
  using assms by (simp add: Transition_def run_GetTaskByID)

lemma run_Transition_illegal:
  assumes "faults s = []" and "find (\<lambda>r. t_id r = i) (tasks s) = Some t"
    and "t_status t \<noteq> to" and "\<not> IsLegalTransition (t_status t) to"
  shows "run_state (Transition e trace i to) s =
    (Inl ErrIllegalTransition, recorded (te_ledger e) trace ''task.illegal_transition''
       (transition_payload ''task.illegal_transition'' i (t_status t) to) s)"
  using assms by (simp add: Transition_def run_GetTaskByID run_task_ledger)

lemma run_Transition_same:
  assumes "faults s = []" and "find (\<lambda>r. t_id r = i) (tasks s) = Some t" and "t_status t = to"
  shows "run_state (Transition e trace i to) s = (Inr (), s)"
  using assms by (simp add: Transition_def run_GetTaskByID Let_def)

lemma run_Transition_legal:
  assumes healthy: "healthy_tasks s" and t: "find (\<lambda>r. t_id r = i) (tasks s) = Some t"
    and legal: "IsLegalTransition (t_status t) to" and new: "t_status t \<noteq> to"
  shows "run_state (Transition e trace i to) s =
    (Inr (), recorded (te_ledger e) trace ''task.transition''
       (transition_payload ''task.transition'' i (t_status t) to)
       (s\<lparr>tasks := map (set_status (clock s) i to) (tasks s)\<rparr>))"
proof -
  from healthy have ok: "faults s = []" "distinct (map t_id (tasks s))" by (simp_all add: healthy_tasks_def)
  let ?moved = "map (\<lambda>r. if t_id r = i then r\<lparr>t_status := to, t_updated := Stamp (clock s)\<rparr> else r) (tasks s)"
  have set: "run_state (SetTaskStatus to (Stamp (clock s)) i (t_status t)) s =
      (Inr (count_where (\<lambda>r. t_id r = i \<and> t_status r = t_status t) (tasks s)), s\<lparr>tasks := ?moved\<rparr>)"
    unfolding SetTaskStatus_def Let_def by (simp add: run_db_no_faults ok update_status_rows(2) [OF ok(2) t])
  show ?thesis
  proof (cases "to = StatusExecuting")
    case False
    then have moved: "(\<lambda>r. if t_id r = i then r\<lparr>t_status := to, t_updated := Stamp (clock s)\<rparr> else r)
        = set_status (clock s) i to" by (simp add: fun_eq_iff set_status_def)
    note set = set [unfolded moved]
    from False new legal update_status_rows(1) [OF ok(2) t] ok show ?thesis
      by (simp add: Transition_def run_GetTaskByID t Let_def set run_task_ledger)
  next
    case True
    have "find (\<lambda>r. t_id r = i) ?moved = Some (t\<lparr>t_status := to, t_updated := Stamp (clock s)\<rparr>)"
      using t find_Some_in [OF t] by (simp add: find_map_id)
    moreover have "update_where (\<lambda>r. t_id r = i)
        (\<lambda>r. r\<lparr>t_attempts := t_attempts r + 1, t_updated := Stamp (clock s)\<rparr>) ?moved
        = map (set_status (clock s) i to) (tasks s)"
      using True by (simp add: update_where_def set_status_def)
    ultimately have "run_state (IncrementTaskAttempts (Stamp (clock s)) i) (s\<lparr>tasks := ?moved\<rparr>) =
        (Inr (t_attempts t + 1), s\<lparr>tasks := map (set_status (clock s) i to) (tasks s)\<rparr>)"
      unfolding IncrementTaskAttempts_def by (simp add: run_db_no_faults ok update_task_def)
    note incremented = this [unfolded True] and set = set [unfolded True]
    from new legal update_status_rows(1) [OF ok(2) t] ok show ?thesis
      unfolding True
      by (simp add: Transition_def run_GetTaskByID t Let_def set incremented run_task_ledger)
  qed
qed

lemma healthy_tasks_update:
  "healthy_tasks s \<Longrightarrow> (\<And>r. t_id (f r) = t_id r) \<Longrightarrow> healthy_tasks (s\<lparr>tasks := map f (tasks s)\<rparr>)"
  by (simp add: healthy_tasks_def o_def)

lemma healthy_recorded [simp]: "healthy_tasks (recorded w trace kind p s) = healthy_tasks s"
  by (simp add: healthy_tasks_def)

lemma status_of_recorded [simp]: "status_of (recorded w trace kind p s) = status_of s"
  by (rule ext) (simp add: status_of_def)

lemma status_of_set_status:
  "status_of (s\<lparr>tasks := map (set_status t i to) (tasks s)\<rparr>) =
     (\<lambda>j. if j = i \<and> status_of s i \<noteq> None then Some to else status_of s j)"
proof (rule ext)
  fix j
  have "find (\<lambda>r. t_id r = j) (map (set_status t i to) (tasks s))
      = map_option (set_status t i to) (find (\<lambda>r. t_id r = j) (tasks s))"
    by (rule find_map_id) simp
  note moved = this
  show "status_of (s\<lparr>tasks := map (set_status t i to) (tasks s)\<rparr>) j =
      (if j = i \<and> status_of s i \<noteq> None then Some to else status_of s j)"
  proof (cases "find (\<lambda>r. t_id r = j) (tasks s)")
    case None
    with moved show ?thesis by (auto simp: status_of_def)
  next
    case (Some r)
    with moved find_Some_in [OF Some] show ?thesis by (auto simp: status_of_def set_status_def)
  qed
qed


section \<open>The transition table as a specification\<close>

text \<open>
  What \<open>Transition\<close> promises on the map of statuses alone.  \<open>spec_resolve\<close> is the same with the
  error the resolver reports to the user.
\<close>

type_synonym status_map = "string \<Rightarrow> task_status option"

definition spec_transition :: "string \<Rightarrow> task_status \<Rightarrow> status_map \<Rightarrow> unit res \<times> status_map" where
  "spec_transition i to m =
     (case m i of
        None \<Rightarrow> (Inl NoRows, m)
      | Some from \<Rightarrow>
          if from = to then (Inr (), m)
          else if IsLegalTransition from to then (Inr (), m(i \<mapsto> to))
          else (Inl ErrIllegalTransition, m))"

definition spec_resolve :: "string \<Rightarrow> task_status \<Rightarrow> status_map \<Rightarrow> unit res \<times> status_map" where
  "spec_resolve i to m =
     apfst (map_sum (\<lambda>err. if err = ErrIllegalTransition then ErrTaskNotResolvable else err) id)
       (spec_transition i to m)"

text \<open>A computation implements a specification: same result, and the abstraction commutes.\<close>

definition implements :: "(store, 'a) state \<Rightarrow> (status_map \<Rightarrow> 'a \<times> status_map) \<Rightarrow> bool" where
  "implements m spec \<longleftrightarrow> (\<forall>s. healthy_tasks s \<longrightarrow>
     (case run_state m s of (r, s') \<Rightarrow> healthy_tasks s' \<and> (r, status_of s') = spec (status_of s)))"

lemma implementsD:
  "implements m spec \<Longrightarrow> healthy_tasks s \<Longrightarrow> run_state m s = (r, s') \<Longrightarrow>
     healthy_tasks s' \<and> (r, status_of s') = spec (status_of s)"
  by (fastforce simp: implements_def)

lemma Transition_implements: "implements (Transition e trace i to) (spec_transition i to)"
  unfolding implements_def
proof (intro allI impI)
  fix s
  assume healthy: "healthy_tasks s"
  then have ok: "faults s = []" by (simp add: healthy_tasks_def)
  show "case run_state (Transition e trace i to) s of (r, s') \<Rightarrow>
      healthy_tasks s' \<and> (r, status_of s') = spec_transition i to (status_of s)"
  proof (cases "find (\<lambda>r. t_id r = i) (tasks s)")
    case None
    then show ?thesis
      using healthy by (simp add: run_Transition_missing [OF ok None] spec_transition_def status_of_def)
  next
    case (Some t)
    consider (same) "t_status t = to" | (illegal) "t_status t \<noteq> to" "\<not> IsLegalTransition (t_status t) to"
      | (legal) "t_status t \<noteq> to" "IsLegalTransition (t_status t) to" by blast
    then show ?thesis
    proof cases
      case same
      then show ?thesis
        using healthy Some by (simp add: run_Transition_same [OF ok Some] spec_transition_def status_of_def)
    next
      case illegal
      then show ?thesis
        using healthy Some by (simp add: run_Transition_illegal [OF ok Some] spec_transition_def)
          (simp add: status_of_def)
    next
      case legal
      then have "status_of s i = Some (t_status t)" using Some by (simp add: status_of_def)
      with legal healthy Some show ?thesis
        by (simp add: run_Transition_legal spec_transition_def status_of_set_status healthy_tasks_update fun_eq_iff)
    qed
  qed
qed

lemma implements_quiet:
  assumes "implements m spec"
    and "\<And>a s. healthy_tasks s \<Longrightarrow> fst (run_state (f a) s) = g a
        \<and> healthy_tasks (snd (run_state (f a) s)) \<and> status_of (snd (run_state (f a) s)) = status_of s"
  shows "implements (State_Monad.bind m f) (\<lambda>x. apfst g (spec x))"
  unfolding implements_def
proof (intro allI impI)
  fix s
  assume healthy: "healthy_tasks s"
  obtain r s1 where run: "run_state m s = (r, s1)" by (metis prod.collapse)
  have "healthy_tasks s1 \<and> (r, status_of s1) = spec (status_of s)" by (rule implementsD [OF assms(1) healthy run])
  then show "case run_state (State_Monad.bind m f) s of (r, s') \<Rightarrow>
      healthy_tasks s' \<and> (r, status_of s') = apfst g (spec (status_of s))"
    using assms(2) [of s1 r] by (auto simp: run split_beta dest: sym)
qed

lemma implements_return: "implements m spec \<Longrightarrow> implements (do { r \<leftarrow> m; ret (f r) }) (\<lambda>x. apfst f (spec x))"
  by (rule implements_quiet) simp_all

lemma Resolver_Abort_implements: "implements (Resolver_Abort e trace i) (spec_resolve i StatusFailed)"
proof -
  have "(case r of Inl err \<Rightarrow> Inl (if err = ErrIllegalTransition then ErrTaskNotResolvable else err) | Inr _ \<Rightarrow> Inr ())
      = map_sum (\<lambda>err. if err = ErrIllegalTransition then ErrTaskNotResolvable else err) id (r :: unit res)" for r
    by (cases r) simp_all
  then show ?thesis
    unfolding Resolver_Abort_def spec_resolve_def
    using implements_return [OF Transition_implements] by simp
qed

lemma run_InsertOutboxRow:
  "faults s = [] \<Longrightarrow> \<exists>r ob. run_state (InsertOutboxRow trace kind p c a t) s =
     (Inr r, s\<lparr>outbox := outbox s @ [ob], next_outbox := next_outbox s + 1\<rparr>) \<and> r = ob
     \<and> ob_payload ob = p \<and> ob_available ob = a \<and> ob_task ob = t \<and> ob_dispatched ob = None
     \<and> ob_canceled ob = None \<and> ob_lease ob = None \<and> ob_kind ob = kind"
  by (simp add: InsertOutboxRow_def run_db_no_faults Let_def)

lemma status_of_same: "tasks s' = tasks s \<Longrightarrow> status_of s' = status_of s"
  by (rule ext) (simp add: status_of_def)

lemma Resolver_Retry_implements: "implements (Resolver_Retry e trace i) (spec_resolve i StatusExecuting)"
  unfolding Resolver_Retry_def spec_resolve_def
proof (rule implements_quiet [OF Transition_implements], goal_cases)
  case (1 a s)
  then have ok: "faults s = []" by (simp add: healthy_tasks_def)
  with 1 show ?case
    by (cases a) (auto simp: writeOutboxResumeRow_def writeOutboxResumeRowAt_def InsertOutboxRow_def
        run_db_no_faults Let_def healthy_tasks_def intro: status_of_same)
qed

end
