(* ===== verification/Task_Receipts.thy ===== *)
theory Task_Receipts
  imports Task_Facts
begin

text \<open>
  Receipts: what \<open>Execute\<close> leaves behind, for any effect and any database failures.  An attempt
  it claims is the last row of the table; \<open>stored_result\<close> is what a replay of a key finds.
\<close>

definition only_calls :: "store \<Rightarrow> store \<Rightarrow> bool" where
  "only_calls s s' \<longleftrightarrow> autonomy s' = autonomy s \<and> tokens s' = tokens s \<and> pendings s' = pendings s
     \<and> undos s' = undos s \<and> tasks s' = tasks s \<and> outbox s' = outbox s \<and> taints s' = taints s
     \<and> events s' = events s"

lemma only_calls_refl [simp]: "only_calls s s" "only_calls s (s\<lparr>faults := fs\<rparr>)"
  "only_calls (s\<lparr>faults := fs\<rparr>) t = only_calls s t"
  by (simp_all add: only_calls_def)

lemma only_calls_trans: "only_calls s t \<Longrightarrow> only_calls t u \<Longrightarrow> only_calls s u"
  by (simp add: only_calls_def)

definition stored_result :: "receipt_codec \<Rightarrow> execute_input \<Rightarrow> store \<Rightarrow> (string \<times> int) option" where
  "stored_result c ei s =
     (case newest_seq (filter (\<lambda>r. tc_key r = call_key ei \<and> tc_status r = CallReceipt) (calls s)) of
        None \<Rightarrow> None
      | Some row \<Rightarrow> map_option (\<lambda>x. (x, tc_seq row))
          (unmarshal_receipt c (case tc_receipt row of None \<Rightarrow> '''' | Some t \<Rightarrow> t)))"

text \<open>The row an attempt has claimed, with whatever has happened to it since.\<close>

definition claimed_at :: "call_row list \<Rightarrow> string \<times> string \<times> string \<Rightarrow> int \<Rightarrow> call_row \<Rightarrow> store \<Rightarrow> bool" where
  "claimed_at cs key i row s \<longleftrightarrow> calls s = cs @ [row] \<and> tc_id row = i \<and> tc_key row = key
     \<and> (\<forall>x \<in> set cs. tc_id x \<noteq> i) \<and> (\<forall>x \<in> set cs. tc_key x = key \<longrightarrow> tc_seq x < tc_seq row)"

lemma claimed_at_faults [simp]: "claimed_at cs key i row (s\<lparr>faults := fs\<rparr>) = claimed_at cs key i row s"
  by (simp add: claimed_at_def)

lemma update_claimed:
  assumes "claimed_at cs key i row s"
    and "tc_id (f row) = tc_id row" "tc_key (f row) = tc_key row" "tc_seq (f row) = tc_seq row"
  shows "update_call i f s = (Inl ConstraintError, s)
    \<or> (fst (update_call i f s) = Inr () \<and> claimed_at cs key i (f row) (snd (update_call i f s))
       \<and> only_calls s (snd (update_call i f s)))"
proof -
  have "find (\<lambda>r. tc_id r = i) cs = None" using assms(1) by (simp add: claimed_at_def find_None_iff)
  with assms(1) have find: "find (\<lambda>r. tc_id r = i) (calls s) = Some row"
    by (simp add: claimed_at_def find_append)
  have "update_where (\<lambda>r. tc_id r = i) f (calls s) = cs @ [f row]"
    using assms(1) by (auto simp: claimed_at_def update_where_def intro!: map_idI)
  with assms find show ?thesis
    by (auto simp: update_call_def claimed_at_def only_calls_def)
qed

lemma wp_update_claimed:
  assumes "claimed_at cs key i row s"
    and "tc_id (f row) = tc_id row" "tc_key (f row) = tc_key row" "tc_seq (f row) = tc_seq row"
    and fail: "\<And>err s'. claimed_at cs key i row s' \<Longrightarrow> only_calls s s' \<Longrightarrow> Q (Inl err) s'"
    and success: "\<And>s'. claimed_at cs key i (f row) s' \<Longrightarrow> only_calls s s' \<Longrightarrow> Q (Inr ()) s'"
  shows "wp (db (update_call i f)) Q s"
proof (rule wp_dbI)
  show "Q (Inl DbError) (s\<lparr>faults := fs\<rparr>)" for fs
    by (rule fail) (use assms(1) in simp_all)
  fix fs a s'
  assume run: "update_call i f (s\<lparr>faults := fs\<rparr>) = (a, s')"
  have "claimed_at cs key i row (s\<lparr>faults := fs\<rparr>)" using assms(1) by simp
  from update_claimed [of cs key i row "s\<lparr>faults := fs\<rparr>" f, OF this assms(2-4)] run
  show "Q a s'" using fail [of s'] success [of s'] assms(1) by auto
qed

lemma last_sort_key:
  assumes "\<forall>y \<in> set xs. f y \<le> f x"
  shows "sort_key f (xs @ [x]) = sort_key f xs @ [x]"
proof -
  have insort: "f a \<le> f x \<Longrightarrow> insort_key f a (ys @ [x]) = insort_key f a ys @ [x]" for a ys
    by (induction ys) auto
  from assms show ?thesis by (induction xs) (simp_all add: insort)
qed

lemma stored_after_receipt:
  assumes "claimed_at cs (call_key ei) i row s" and "tc_status row = CallReceipt"
    and "tc_receipt row = Some text" and "unmarshal_receipt c text = Some x"
  shows "stored_result c ei s = Some (x, tc_seq row)"
proof -
  let ?old = "filter (\<lambda>r. tc_key r = call_key ei \<and> tc_status r = CallReceipt) cs"
  have "filter (\<lambda>r. tc_key r = call_key ei \<and> tc_status r = CallReceipt) (calls s) = ?old @ [row]"
    using assms by (simp add: claimed_at_def)
  moreover have "sort_key tc_seq (?old @ [row]) = sort_key tc_seq ?old @ [row]"
    by (rule last_sort_key) (use assms(1) in \<open>auto simp: claimed_at_def intro: less_imp_le\<close>)
  ultimately show ?thesis
    using assms by (simp add: stored_result_def newest_seq_def)
qed

section \<open>Claiming\<close>

lemma max_seq_bound: "x \<in> set rows \<Longrightarrow> tc_seq x \<le> fold max (map tc_seq rows) m"
proof -
  have mono: "(a :: int) \<le> b \<Longrightarrow> a \<le> fold max xs b" for a b xs
    by (induction xs arbitrary: b) auto
  show "x \<in> set rows \<Longrightarrow> tc_seq x \<le> fold max (map tc_seq rows) m"
    by (induction rows arbitrary: m) (auto simp: mono)
qed

definition claim_post :: "execute_input \<Rightarrow> store \<Rightarrow> claim res \<Rightarrow> store \<Rightarrow> bool" where
  "claim_post ei s r s' \<longleftrightarrow> only_calls s s' \<and>
     (case r of
        Inr (Claimed row) \<Rightarrow> claimed_at (calls s) (call_key ei) (tc_id row) row s' \<and> tc_status row = CallIntent
      | _ \<Rightarrow> calls s' = calls s)"

lemma claim_post_faults [simp]: "claim_post ei (s\<lparr>faults := fs\<rparr>) = claim_post ei s"
  by (intro ext) (simp add: claim_post_def split: sum.split claim.split)

lemma wp_checkReplay:
  assumes "\<And>err fs. Q (Inl err) (s\<lparr>faults := fs\<rparr>)"
    and "\<And>fs. Q (Inr None) (s\<lparr>faults := fs\<rparr>)"
    and "\<And>x fs. stored_result c ei s = Some x \<Longrightarrow> Q (Inr (Some x)) (s\<lparr>faults := fs\<rparr>)"
  shows "wp (checkReplay c ei) Q s"
  unfolding checkReplay_def GetReceiptToolCall_def select_one_def wp_bind wp_return
  by (rule wp_dbI) (auto simp: stored_result_def assms split: option.splits)

lemma wp_InsertToolCallIntent:
  assumes ids: "\<forall>r \<in> set (calls s). tc_id r < next_call s"
    and newer: "\<And>r. r \<in> set (calls s) \<Longrightarrow> tc_key r = key \<Longrightarrow> tc_seq r < seq"
    and fail: "\<And>err fs. Q (Inl err) (s\<lparr>faults := fs\<rparr>)"
    and success: "\<And>row s'. claimed_at (calls s) key (tc_id row) row s' \<Longrightarrow> tc_status row = CallIntent
      \<Longrightarrow> only_calls s s' \<Longrightarrow> Q (Inr row) s'"
  shows "wp (InsertToolCallIntent key seq cl token at) Q s"
  unfolding InsertToolCallIntent_def
proof (rule wp_dbI)
  show "Q (Inl DbError) (s\<lparr>faults := fs\<rparr>)" for fs by (rule fail)
  let ?row = "\<lparr>tc_id = next_call s, tc_task = fst key, tc_seq = seq, tc_tool = fst (snd key),
      tc_class = cl, tc_args_hash = snd (snd key), tc_token = token, tc_status = CallIntent,
      tc_receipt = None, tc_started = None, tc_finished = None, tc_created = at\<rparr>"
  have "Q (Inr ?row) (s\<lparr>faults := fs, calls := calls s @ [?row], next_call := next_call s + 1\<rparr>)" for fs
  proof (rule success)
    have "tc_key ?row = key" by (simp add: tc_key_def)
    moreover have "\<forall>x \<in> set (calls s). tc_id x \<noteq> next_call s" using ids by auto
    moreover have "\<forall>x \<in> set (calls s). tc_key x = key \<longrightarrow> tc_seq x < seq" using newer by blast
    ultimately show "claimed_at (calls s) key (tc_id ?row) ?row
        (s\<lparr>faults := fs, calls := calls s @ [?row], next_call := next_call s + 1\<rparr>)"
      by (simp add: claimed_at_def)
  qed (simp_all add: only_calls_def)
  with fail show "Q a s'" if "(if fst key \<notin> t_id ` set (tasks (s\<lparr>faults := fs\<rparr>)) \<or> \<not> valid_class cl
       \<or> list_ex (\<lambda>r. tc_key r = key \<and> (tc_seq r = seq \<or> call_live r)) (calls (s\<lparr>faults := fs\<rparr>))
       then (Inl ConstraintError, s\<lparr>faults := fs\<rparr>)
       else let r = \<lparr>tc_id = next_call (s\<lparr>faults := fs\<rparr>), tc_task = fst key, tc_seq = seq, tc_tool = fst (snd key),
                tc_class = cl, tc_args_hash = snd (snd key), tc_token = token, tc_status = CallIntent,
                tc_receipt = None, tc_started = None, tc_finished = None, tc_created = at\<rparr>
            in (Inr r, s\<lparr>faults := fs, calls := calls (s\<lparr>faults := fs\<rparr>) @ [r],
                 next_call := next_call (s\<lparr>faults := fs\<rparr>) + 1\<rparr>)) = (a, s')" for fs a s'
    using that by (simp add: Let_def split: if_splits) auto
qed

lemma claim_loop_spec:
  "\<forall>r \<in> set (calls s). tc_id r < next_call s \<Longrightarrow> wp (claim_loop c ei k) (claim_post ei s) s"
proof (induction k arbitrary: s)
  case 0
  then show ?case by (simp add: wp_return claim_post_def)
next
  case (Suc k)
  let ?next = "fold max (map tc_seq (filter (\<lambda>r. tc_key r = call_key ei) (calls s))) 0 + 1"
  have newer: "tc_seq x < ?next" if "x \<in> set (calls s)" "tc_key x = call_key ei" for x
    using max_seq_bound [of x "filter (\<lambda>r. tc_key r = call_key ei) (calls s)" 0] that by simp
  have retry: "wp (claim_loop c ei k) (claim_post ei s) (s\<lparr>faults := fs\<rparr>)" for fs
    using Suc.IH [of "s\<lparr>faults := fs\<rparr>"] Suc.prems by simp
  have keep: "claim_post ei s (Inl err) (s\<lparr>faults := fs\<rparr>)" "claim_post ei s (Inr (ReplayHit x n)) (s\<lparr>faults := fs\<rparr>)"
    for err fs x n by (simp_all add: claim_post_def)
  show ?case
    unfolding claim_loop.simps NextToolCallSeq_def wp_bind
  proof (rule wp_queryI, goal_cases)
    case (2 fs)
    show ?case
      unfolding sum.case wp_bind wp_now
    proof (rule wp_InsertToolCallIntent, goal_cases)
      case (3 err fs')
      show ?case
        by (simp add: wp_return wp_bind keep)
           (intro impI wp_checkReplay, simp_all add: wp_return keep retry split: prod.split)
    qed (use Suc.prems newer in \<open>auto simp: wp_return claim_post_def\<close>)
  qed (simp_all add: wp_return keep)
qed

section \<open>Executing\<close>

definition codec_ok :: "receipt_codec \<Rightarrow> bool" where
  "codec_ok c \<longleftrightarrow> (\<forall>x h t. marshal_receipt c x h = Some t \<longrightarrow> unmarshal_receipt c t = Some x)"

definition confined :: "(store, 'a) state \<Rightarrow> bool" where
  "confined m \<longleftrightarrow> state_io_rel same_task_tables m"

text \<open>
  An error leaves at most one further attempt, without a receipt; a fresh result is stored.
\<close>

definition execute_post :: "receipt_codec \<Rightarrow> execute_input \<Rightarrow> bool \<Rightarrow> store \<Rightarrow> (string \<times> bool) res \<Rightarrow> store \<Rightarrow> bool" where
  "execute_post c ei good s r s' \<longleftrightarrow>
     (case r of
        Inl err \<Rightarrow> only_calls s s' \<and> (calls s' = calls s \<or>
          (\<exists>row. calls s' = calls s @ [row] \<and> tc_key row = call_key ei \<and> tc_status row \<noteq> CallReceipt))
      | Inr (x, True) \<Rightarrow> calls s' = calls s
      | Inr (x, False) \<Rightarrow> good \<longrightarrow> (\<exists>n. stored_result c ei s' = Some (x, n)))"

lemma execute_post_failed:
  "claimed_at (calls s) (call_key ei) i row s' \<Longrightarrow> only_calls s s' \<Longrightarrow> tc_status row \<noteq> CallReceipt
    \<Longrightarrow> execute_post c ei good s (Inl err) s'"
  unfolding execute_post_def by (auto simp: claimed_at_def)

lemma wp_commit_or_rollback:
  assumes "\<And>err s'. Q (Inl err) (rollback_to s s')"
    and "wp body (\<lambda>r s'. \<forall>x fs. r = Inr x \<longrightarrow> Q (Inr x) (s'\<lparr>faults := fs\<rparr>)) s"
  shows "wp (commit_or_rollback body) Q s"
proof -
  obtain r s' where run: "run_state body s = (r, s')" by (metis prod.collapse)
  show ?thesis
  proof (cases r)
    case (Inl err)
    then show ?thesis using assms(1) by (simp add: commit_or_rollback_def wp_def run)
  next
    case (Inr x)
    then have Q: "Q (Inr x) (s'\<lparr>faults := fs\<rparr>)" for fs using wp_run [OF assms(2) run] by blast
    have "wp (query (\<lambda>_. ())) (\<lambda>r' s''. case r' of Inl err \<Rightarrow> Q (Inl err) (rollback_to s s'') | Inr _ \<Rightarrow> Q (Inr x) s'') s'"
      by (rule wp_queryI) (simp_all add: Q assms(1))
    then show ?thesis
      by (simp add: commit_or_rollback_def wp_def run Inr split: prod.splits sum.splits)
  qed
qed

lemma rollback_same [simp]:
  "claimed_at cs key i row (rollback_to s s') = claimed_at cs key i row s"
  "only_calls t (rollback_to s s') = only_calls t s" "only_calls (rollback_to s s') t = only_calls s t"
  by (simp_all add: rollback_to_def claimed_at_def only_calls_def)

lemma wp_ledgerReplayed: "(\<And>s'. calls s' = calls s \<Longrightarrow> Q () s') \<Longrightarrow> wp (ledgerReplayed e ei n) Q s"
  unfolding ledgerReplayed_def task_ledger_def LogEvent_def
  by (auto simp: wp_bind wp_return intro!: wp_dbI)

lemma wp_effect_with_receipt:
  assumes claimed: "claimed_at cs (call_key ei) i row s"
  shows "wp (effect_with_receipt c i effect)
    (\<lambda>r s'. \<forall>x. r = Inr x \<longrightarrow> codec_ok c \<and> confined effect \<longrightarrow> (\<exists>n. stored_result c ei s' = Some (x, n))) s"
    (is "wp _ ?post s")
proof (cases "codec_ok c \<and> confined effect")
  case True
  have after: "wp (MarkToolCallReceipt tx (Stamp (clock s')) i)
      (\<lambda>m. wp (ret (case m of Inl err \<Rightarrow> Inl err | Inr _ \<Rightarrow> Inr x)) ?post) s'"
    if marshal: "marshal_receipt c x (HashArgs x) = Some tx" and same: "same_task_tables s s'" for x tx s'
    unfolding MarkToolCallReceipt_def
  proof (rule wp_update_claimed)
    show "claimed_at cs (call_key ei) i row s'"
      using claimed same by (simp add: claimed_at_def same_task_tables_def)
    fix t
    assume t: "claimed_at cs (call_key ei) i
        (row\<lparr>tc_status := CallReceipt, tc_receipt := Some tx, tc_finished := Some (Stamp (clock s'))\<rparr>) t"
    have "unmarshal_receipt c tx = Some x" using True marshal by (auto simp: codec_ok_def)
    from stored_after_receipt [OF t _ _ this]
    show "wp (ret (case Inr () of Inl err \<Rightarrow> Inl err | Inr _ \<Rightarrow> Inr x)) ?post t" by (simp add: wp_return)
  qed (simp_all add: tc_key_def wp_return)
  show ?thesis
    unfolding effect_with_receipt_def
    by (rule wp_bind_rel [of same_task_tables])
       (use True after in \<open>auto simp: confined_def wp_return wp_bind wp_now split: sum.split option.split\<close>)
qed (auto intro: wp_any)

lemma Execute_post:
  assumes ids: "\<forall>r \<in> set (calls s). tc_id r < next_call s"
  shows "wp (Execute e c ei effect) (execute_post c ei (codec_ok c \<and> confined effect) s) s"
proof -
  let ?good = "codec_ok c \<and> confined effect"
  let ?post = "execute_post c ei ?good s"
  have keep: "?post (Inl err) s'" "?post (Inr (x, True)) s'" if "only_calls s s'" "calls s' = calls s" for err x s'
    using that by (simp_all add: execute_post_def)
  have run: "wp (do {
      x \<leftarrow> commit_or_rollback (effect_with_receipt c (tc_id row) effect);
      case x of Inl err \<Rightarrow> failAndReturn (tc_id row) err | Inr result \<Rightarrow> ret (Inr (result, False)) }) ?post s1"
    if claimed: "claimed_at (calls s) (call_key ei) (tc_id row) row1 s1" and only: "only_calls s s1"
      and status: "tc_status row1 \<noteq> CallReceipt" for row row1 s1
    unfolding wp_bind
  proof (rule wp_commit_or_rollback)
    fix err s'
    show "wp (case Inl err of Inl err \<Rightarrow> failAndReturn (tc_id row) err | Inr result \<Rightarrow> ret (Inr (result, False)))
        ?post (rollback_to s1 s')"
      unfolding sum.case failAndReturn_def MarkToolCallFailed_def wp_bind wp_now
    proof (rule wp_update_claimed)
      show "claimed_at (calls s) (call_key ei) (tc_id row) row1 (rollback_to s1 s')" using claimed by simp
    qed (use only status in \<open>auto simp: tc_key_def wp_return intro!: execute_post_failed elim: only_calls_trans\<close>)
  next
    have "stored_result c ei (s'\<lparr>faults := fs\<rparr>) = stored_result c ei s'" for s' fs
      by (simp add: stored_result_def)
    then show "wp (effect_with_receipt c (tc_id row) effect) (\<lambda>r s'. \<forall>x fs. r = Inr x \<longrightarrow>
        wp (case Inr x of Inl err \<Rightarrow> failAndReturn (tc_id row) err | Inr result \<Rightarrow> ret (Inr (result, False)))
          ?post (s'\<lparr>faults := fs\<rparr>)) s1"
      using wp_mono [OF wp_effect_with_receipt [OF claimed]]
      by (auto simp: wp_return execute_post_def elim!: wp_mono [OF wp_effect_with_receipt [OF claimed]])
  qed
  have attempt: "wp (do {
      t \<leftarrow> now;
      m \<leftarrow> MarkToolCallExecuting (Stamp t) (tc_id row);
      case m of
        Inl err \<Rightarrow> ret (Inl err)
      | Inr _ \<Rightarrow> do {
          b \<leftarrow> begin_tx;
          case b of
            Inl err \<Rightarrow> ret (Inl err)
          | Inr _ \<Rightarrow> do {
              x \<leftarrow> commit_or_rollback (effect_with_receipt c (tc_id row) effect);
              case x of Inl err \<Rightarrow> failAndReturn (tc_id row) err | Inr result \<Rightarrow> ret (Inr (result, False)) }
        }
    }) ?post s1"
    if claimed: "claimed_at (calls s) (call_key ei) (tc_id row) row s1" and only: "only_calls s s1"
      and status: "tc_status row = CallIntent" for row s1
    unfolding wp_bind wp_now MarkToolCallExecuting_def
  proof (rule wp_update_claimed [OF claimed], goal_cases)
    case (4 err s2)
    then show ?case
      using status only by (auto simp: wp_return intro!: execute_post_failed elim: only_calls_trans)
  next
    case (5 s2)
    let ?row = "row\<lparr>tc_status := CallExecuting, tc_started := Some (Stamp (clock s1))\<rparr>"
    have only2: "only_calls s s2" using only 5(2) by (rule only_calls_trans)
    have "wp begin_tx (\<lambda>b. wp (case b of Inl err \<Rightarrow> ret (Inl err)
          | Inr _ \<Rightarrow> do {
              x \<leftarrow> commit_or_rollback (effect_with_receipt c (tc_id row) effect);
              case x of Inl err \<Rightarrow> failAndReturn (tc_id row) err | Inr result \<Rightarrow> ret (Inr (result, False)) })
         ?post) s2"
      unfolding begin_tx_def
    proof (rule wp_queryI, goal_cases)
      case (1 fs)
      show ?case
        unfolding sum.case wp_return
        by (rule execute_post_failed [of _ _ _ ?row]) (use 5(1) only2 in \<open>simp_all add: only_calls_def\<close>)
    next
      case (2 fs)
      show ?case
        unfolding sum.case by (rule run [of row ?row]) (use 5(1) only2 in \<open>simp_all add: only_calls_def\<close>)
    qed simp
    then show ?case by (simp add: wp_bind)
  qed (simp_all add: tc_key_def)
  have replayed: "wp (do { ledgerReplayed e ei n; ret (Inr (x, True)) }) ?post s1" if "calls s1 = calls s" for n x s1
    unfolding wp_bind by (rule wp_ledgerReplayed) (use that in \<open>simp add: wp_return execute_post_def\<close>)
  have claim: "wp (claimIntent c ei) (claim_post ei s) (s\<lparr>faults := fs\<rparr>)" for fs
    using claim_loop_spec [of "s\<lparr>faults := fs\<rparr>"] ids by (simp add: claimIntent_def)
  show ?thesis
    unfolding Execute_def
    apply (rule wp_if [THEN iffD2])
    apply (simp add: wp_return keep del: split_paired_All)
    apply (intro impI)
    apply (simp only: wp_bind)
    apply (rule wp_checkReplay)
      apply (simp add: wp_return keep)
     apply (simp only: sum.case option.case wp_bind)
     apply (rule wp_mono [OF claim])
     subgoal for fs r s1
       by (cases r) (auto simp: claim_post_def wp_return keep attempt replayed split: claim.split)
    apply (auto simp: replayed split: prod.split)
    done
qed

section \<open>Replays and timeouts on a database that does not fail\<close>

definition no_receipt :: "execute_input \<Rightarrow> store \<Rightarrow> bool" where
  "no_receipt ei s \<longleftrightarrow> (\<forall>r \<in> set (calls s). tc_key r = call_key ei \<longrightarrow> tc_status r \<noteq> CallReceipt)"

definition attempt_in_flight :: "execute_input \<Rightarrow> store \<Rightarrow> bool" where
  "attempt_in_flight ei s \<longleftrightarrow> (\<exists>r \<in> set (calls s). tc_key r = call_key ei \<and> call_live r)"

lemma run_checkReplay:
  "faults s = [] \<Longrightarrow> stored_result c ei s = Some x \<Longrightarrow> run_state (checkReplay c ei) s = (Inr (Some x), s)"
  by (auto simp: checkReplay_def GetReceiptToolCall_def run_select_one stored_result_def split: option.splits)

lemma run_checkReplay_none:
  assumes "faults s = []" and "no_receipt ei s"
  shows "run_state (checkReplay c ei) s = (Inr None, s)"
proof -
  have "filter (\<lambda>r. tc_key r = call_key ei \<and> tc_status r = CallReceipt) (calls s) = []"
    using assms(2) by (auto simp: no_receipt_def filter_empty_conv)
  with assms(1) show ?thesis
    by (simp add: checkReplay_def GetReceiptToolCall_def run_select_one newest_seq_def)
qed

lemma run_replay:
  assumes "faults s = []" and "ei_class ei \<noteq> ClassR" and "stored_result c ei s = Some (x, n)"
  shows "run_state (Execute e c ei effect) s =
    (Inr (x, True), snd (run_state (ledgerReplayed e ei n) s))"
  using assms by (simp add: Execute_def run_checkReplay ledgerReplayed_def run_task_ledger)

lemma run_claim_timeout:
  assumes "faults s = []" and "no_receipt ei s" and "attempt_in_flight ei s"
  shows "run_state (claim_loop c ei k) s = (Inl ErrToolCallClaimTimeout, s)"
proof (induction k)
  case (Suc k)
  have "run_state (InsertToolCallIntent (call_key ei) seq cl token at) s = (Inl ConstraintError, s)" for seq cl token at
    using assms(1,3) unfolding InsertToolCallIntent_def attempt_in_flight_def
    by (simp add: run_db_no_faults list_ex_iff) blast
  then show ?case
    using Suc assms by (simp add: NextToolCallSeq_def run_query run_checkReplay_none)
qed simp

end
