(* ===== verification/Task_Resume.thy ===== *)
theory Task_Resume
  imports Task_Receipts
begin

text \<open>
  The resume scan, the parking of tasks whose cloud call failed and the emergency halt on a
  database that does not fail, and the leases of the outbox under any failures.
\<close>

section \<open>Steps\<close>

definition note_if :: "bool \<Rightarrow> notice \<Rightarrow> store \<Rightarrow> store" where
  "note_if b x s = (if b then s\<lparr>notices := notices s @ [x]\<rparr> else s)"

lemma note_if_tables [simp]:
  "tasks (note_if b x s) = tasks s" "calls (note_if b x s) = calls s" "outbox (note_if b x s) = outbox s"
  "faults (note_if b x s) = faults s" "tokens (note_if b x s) = tokens s"
  "pendings (note_if b x s) = pendings s" "clock (note_if b x s) = clock s"
  "notices (note_if b x s) = notices s @ (if b then [x] else [])"
  by (simp_all add: note_if_def)

lemma status_of_note_if [simp]: "status_of (note_if b x s) = status_of s"
  by (rule status_of_same) simp

definition failed_call :: "int \<Rightarrow> int \<Rightarrow> store \<Rightarrow> store" where
  "failed_call t i s = s\<lparr>calls := update_where (\<lambda>r. tc_id r = i)
     (\<lambda>r. r\<lparr>tc_status := CallFailed, tc_finished := Some (Stamp t)\<rparr>) (calls s)\<rparr>"

lemma failed_call_tables [simp]:
  "tasks (failed_call t i s) = tasks s" "outbox (failed_call t i s) = outbox s"
  "faults (failed_call t i s) = faults s" "notices (failed_call t i s) = notices s"
  "clock (failed_call t i s) = clock s" "next_outbox (failed_call t i s) = next_outbox s"
  by (simp_all add: failed_call_def)

lemma status_of_failed_call [simp]: "status_of (failed_call t i s) = status_of s"
  by (rule status_of_same) simp

lemma healthy_failed_call [simp]: "healthy_tasks (failed_call t i s) = healthy_tasks s"
  by (simp add: healthy_tasks_def)

lemma update_where_none:
  assumes "find p rows = None"
  shows "update_where p f rows = rows"
  using assms unfolding find_None_iff update_where_def by (intro map_idI) auto

lemma run_MarkToolCallFailed:
  assumes "faults s = []"
  shows "run_state (MarkToolCallFailed (Stamp t) i) s = (Inr (), failed_call t i s)"
proof (cases "find (\<lambda>r. tc_id r = i) (calls s)")
  case None
  then show ?thesis
    unfolding MarkToolCallFailed_def run_db_no_faults [OF assms] update_call_def failed_call_def
    by (simp add: update_where_none)
next
  case (Some row)
  then show ?thesis
    unfolding MarkToolCallFailed_def run_db_no_faults [OF assms] update_call_def failed_call_def
    by (simp add: call_live_def)
qed

lemma failed_call_failed:
  "\<forall>r \<in> set (calls (failed_call t i s)). tc_id r = i \<longrightarrow> tc_status r = CallFailed"
  unfolding failed_call_def update_where_def by (simp add: ball_Un)

lemma count_failed_call:
  "count_where (\<lambda>r. tc_key r = key) (calls (failed_call t i s)) = count_where (\<lambda>r. tc_key r = key) (calls s)"
proof -
  have "length (filter (\<lambda>r. tc_key r = key) (map f rows)) = length (filter (\<lambda>r. tc_key r = key) rows)"
    if "\<And>r. tc_key (f r) = tc_key r" for f and rows :: "call_row list"
    using that by (induction rows) auto
  then show ?thesis by (simp add: count_where_def failed_call_def update_where_def tc_key_def)
qed

text \<open>A task moved along the table, seen through the abstraction.\<close>

lemma run_Transition_moves:
  assumes "healthy_tasks s" and "status_of s i = Some from" and "IsLegalTransition from to" and "from \<noteq> to"
  shows "\<exists>s'. run_state (Transition e trace i to) s = (Inr (), s') \<and> healthy_tasks s'
    \<and> status_of s' = (status_of s)(i \<mapsto> to) \<and> outbox s' = outbox s \<and> calls s' = calls s
    \<and> notices s' = notices s \<and> clock s' = clock s \<and> tokens s' = tokens s \<and> pendings s' = pendings s
    \<and> tasks s' = map (set_status (clock s) i to) (tasks s) \<and> next_outbox s' = next_outbox s"
proof -
  from assms(2) obtain t where t: "find (\<lambda>r. t_id r = i) (tasks s) = Some t" "t_status t = from"
    by (auto simp: status_of_def)
  from run_Transition_legal [OF assms(1) t(1)] assms t(2) show ?thesis
    by (auto simp: healthy_tasks_update status_of_set_status fun_eq_iff)
qed

section \<open>Resume scan\<close>

definition newest_receiptless :: "store \<Rightarrow> string \<Rightarrow> call_row option" where
  "newest_receiptless s task =
     (case rev (sort_key tc_id (filter (\<lambda>r. tc_task r = task \<and> tc_status r \<in> {CallIntent, CallExecuting}) (calls s))) of
        [] \<Rightarrow> None | row # _ \<Rightarrow> Some row)"

lemma run_blocks:
  assumes "healthy_tasks s" and "status_of s task = Some StatusExecuting"
  shows "\<exists>s'. run_state (blockOnReceiptless e trace task tool) s = (Inr (), s')
      \<and> status_of s' task = Some StatusBlockedUser \<and> outbox s' = outbox s \<and> calls s' = calls s
      \<and> notices s' = notices s @ (if te_notifier e then [Notified trace ''task.w2w3_receiptless_blocked''
          (MsgW2W3Receiptless task tool) [(''task_id'', JStr task), (''tool'', JStr tool)]] else [])"
    and "0 < n \<Longrightarrow> \<exists>s'. run_state (blockOnW1CapExceeded e trace task tool n) s = (Inr (), s')
      \<and> status_of s' task = Some StatusBlockedUser \<and> outbox s' = outbox s \<and> calls s' = calls s
      \<and> notices s' = notices s @ (if te_notifier e then [Notified trace ''task.w1_retry_cap_exceeded''
          (MsgW1RetryCapExceeded task tool n) [(''task_id'', JStr task), (''tool'', JStr tool), (''attempts'', JInt n)]] else [])"
proof -
  have "IsLegalTransition StatusExecuting StatusBlockedUser" by (simp add: IsLegalTransition_def)
  from run_Transition_moves [OF assms this, of e trace] obtain s1 where
    s1: "run_state (Transition e trace task StatusBlockedUser) s = (Inr (), s1)" "healthy_tasks s1"
      "status_of s1 = (status_of s)(task \<mapsto> StatusBlockedUser)" "outbox s1 = outbox s" "calls s1 = calls s"
      "notices s1 = notices s" by auto
  then have ok: "faults s1 = []" by (simp add: healthy_tasks_def)
  have same: "status_of (s1\<lparr>notices := ns\<rparr>) = status_of s1" for ns by (rule status_of_same) simp
  show "\<exists>s'. run_state (blockOnReceiptless e trace task tool) s = (Inr (), s')
      \<and> status_of s' task = Some StatusBlockedUser \<and> outbox s' = outbox s \<and> calls s' = calls s
      \<and> notices s' = notices s @ (if te_notifier e then [Notified trace ''task.w2w3_receiptless_blocked''
          (MsgW2W3Receiptless task tool) [(''task_id'', JStr task), (''tool'', JStr tool)]] else [])"
    by (simp add: blockOnReceiptless_def resume_notify_def Notify_def s1 ok run_db_no_faults same)
  show "0 < n \<Longrightarrow> \<exists>s'. run_state (blockOnW1CapExceeded e trace task tool n) s = (Inr (), s')
      \<and> status_of s' task = Some StatusBlockedUser \<and> outbox s' = outbox s \<and> calls s' = calls s
      \<and> notices s' = notices s @ (if te_notifier e then [Notified trace ''task.w1_retry_cap_exceeded''
          (MsgW1RetryCapExceeded task tool n) [(''task_id'', JStr task), (''tool'', JStr tool), (''attempts'', JInt n)]] else [])"
    by (simp add: blockOnW1CapExceeded_def resume_notify_def Notify_def s1 ok run_db_no_faults same)
qed

definition resume_row :: "store \<Rightarrow> string \<Rightarrow> string \<Rightarrow> int \<Rightarrow> int \<Rightarrow> outbox_row" where
  "resume_row s trace task created available =
     \<lparr>ob_id = next_outbox s, ob_trace = trace, ob_kind = ''task_resume'', ob_payload = ResumePayload task,
      ob_dispatched = None, ob_created = Stamp created, ob_available = Some (Stamp available), ob_lease = None,
      ob_attempts = 0, ob_task = Some task, ob_canceled = None\<rparr>"

lemma run_writeOutboxResumeRowAt:
  "faults s = [] \<Longrightarrow> run_state (writeOutboxResumeRowAt trace task (Stamp a) (Stamp b)) s =
     (Inr (), s\<lparr>outbox := outbox s @ [resume_row s trace task a b], next_outbox := next_outbox s + 1\<rparr>)"
  by (simp add: writeOutboxResumeRowAt_def InsertOutboxRow_def run_db_no_faults Let_def resume_row_def)

lemma run_enqueueResume:
  assumes "healthy_tasks s" and "status_of s task \<noteq> None"
  shows "\<exists>s'. run_state (enqueueResume trace task) s = (Inr (), s') \<and> status_of s' = status_of s
    \<and> outbox s' = outbox s @ [resume_row s trace task (clock s) (clock s)] \<and> calls s' = calls s"
proof -
  from assms obtain t where t: "find (\<lambda>r. t_id r = task) (tasks s) = Some t" and ok: "faults s = []"
    by (auto simp: status_of_def healthy_tasks_def)
  let ?s = "update_task task (\<lambda>r. r\<lparr>t_attempts := t_attempts r + 1, t_updated := Stamp (clock s)\<rparr>) s"
  have status: "status_of (?s\<lparr>outbox := o1, next_outbox := n\<rparr>) = status_of s" for o1 n
    by (rule ext) (simp add: status_of_def update_task_def find_update_where option.map_comp o_def if_distrib cong: if_cong)
  have "run_state (IncrementTaskAttempts (Stamp (clock s)) task) s = (Inr (t_attempts t + 1), ?s)"
    by (simp add: IncrementTaskAttempts_def run_db_no_faults ok t)
  moreover have "faults ?s = []" "clock ?s = clock s" "outbox ?s = outbox s" "calls ?s = calls s"
    "resume_row ?s = resume_row s"
    by (simp_all add: update_task_def ok resume_row_def fun_eq_iff)
  ultimately show ?thesis
    by (simp add: enqueueResume_def writeOutboxResumeRow_def run_writeOutboxResumeRowAt status)
qed

lemma run_ListReceiptless:
  assumes "faults s = []"
  obtains rows where "run_state (ListReceiptlessToolCalls task) s = (Inr rows, s)"
    and "newest_receiptless s task = (case rows of [] \<Rightarrow> None | row # _ \<Rightarrow> Some row)"
  using assms by (simp add: ListReceiptlessToolCalls_def run_query newest_receiptless_def)

lemma run_ProcessTask_clean:
  assumes "healthy_tasks s" and "status_of s (t_id t) \<noteq> None" and "newest_receiptless s (t_id t) = None"
  shows "run_state (ProcessTask e t) s = run_state (enqueueResume (t_trace t) (t_id t)) s"
proof -
  have ok: "faults s = []" using assms(1) by (simp add: healthy_tasks_def)
  then obtain rows where "run_state (ListReceiptlessToolCalls (t_id t)) s = (Inr rows, s)"
    "newest_receiptless s (t_id t) = (case rows of [] \<Rightarrow> None | row # _ \<Rightarrow> Some row)"
    by (rule run_ListReceiptless)
  with assms(3) show ?thesis by (cases rows) (simp_all add: ProcessTask_def)
qed

lemma run_ProcessTask_receiptless:
  assumes "faults s = []" and "newest_receiptless s (t_id t) = Some row"
  shows "run_state (ProcessTask e t) s =
    run_state
      (if tc_class row \<noteq> ClassW1 then blockOnReceiptless e (t_trace t) (t_id t) (tc_tool row)
       else let n = int (count_where (\<lambda>r. tc_key r = (t_id t, tc_tool row, tc_args_hash row)) (calls s))
         in if te_w1_max_auto e < n then blockOnW1CapExceeded e (t_trace t) (t_id t) (tc_tool row) n
            else enqueueResume (t_trace t) (t_id t))
      (failed_call (clock s) (tc_id row) s)"
proof -
  from assms(1) obtain rows where "run_state (ListReceiptlessToolCalls (t_id t)) s = (Inr rows, s)"
    "newest_receiptless s (t_id t) = (case rows of [] \<Rightarrow> None | row # _ \<Rightarrow> Some row)"
    by (rule run_ListReceiptless)
  with assms obtain rest where "run_state (ListReceiptlessToolCalls (t_id t)) s = (Inr (row # rest), s)"
    by (cases rows) auto
  then show ?thesis
    using assms(1)
    by (simp add: ProcessTask_def run_MarkToolCallFailed CountToolCallAttempts_def run_query count_failed_call Let_def)
qed

section \<open>Parking a task whose cloud call failed\<close>

lemma retry_delay_clamped:
  assumes "te_schedule e \<noteq> []"
  shows "retry_delay e n = te_schedule e ! min (nat (n - 1)) (length (te_schedule e) - 1)"
proof -
  have "0 < length (te_schedule e)" using assms by simp
  then have "nat (if int (length (te_schedule e)) \<le> (if n - 1 < 0 then 0 else n - 1)
      then int (length (te_schedule e)) - 1 else (if n - 1 < 0 then 0 else n - 1))
    = min (nat (n - 1)) (length (te_schedule e) - 1)"
    by (cases "n - 1 < 0"; cases "int (length (te_schedule e)) \<le> n - 1") auto
  then show ?thesis by (simp only: retry_delay_def Let_def)
qed

lemma retry_delay_mem: "te_schedule e \<noteq> [] \<Longrightarrow> retry_delay e n \<in> set (te_schedule e)"
  unfolding retry_delay_clamped by (rule nth_mem) (simp add: min_less_iff_disj)

lemma retry_delay_mono:
  assumes "te_schedule e \<noteq> []" and "sorted (te_schedule e)" and "m \<le> n"
  shows "retry_delay e m \<le> retry_delay e n"
  unfolding retry_delay_clamped [OF assms(1)]
  by (rule sorted_nth_mono [OF assms(2)]) (use assms in \<open>auto simp: min_less_iff_disj intro: min.mono\<close>)

lemma NewCloudRetry_schedule: "te_schedule (NewCloudRetry e) \<noteq> []" "0 < te_give_up_after (NewCloudRetry e)"
  by (auto simp: NewCloudRetry_def Let_def defaultCloudRetrySchedule_def defaultCloudGiveUpAfter_def
      hour_ns_def minute_ns_def second_ns_def)

lemma run_ParkOrGiveUp:
  assumes healthy: "healthy_tasks s" and t: "find (\<lambda>r. t_id r = task) (tasks s) = Some t"
    and "t_status t = StatusExecuting"
  shows "\<exists>s'. run_state (ParkOrGiveUp e trace task) s = (Inr (), s') \<and>
     (if hasExceededGiveUp e (clock s) t
      then status_of s' = (status_of s)(task \<mapsto> StatusFailed) \<and> outbox s' = outbox s
      else status_of s' = (status_of s)(task \<mapsto> StatusRetryWait)
        \<and> outbox s' = outbox s @ [resume_row s trace task (clock s) (clock s + retry_delay e (t_attempts t))]
        \<and> map_option t_next_retry (find (\<lambda>r. t_id r = task) (tasks s'))
            = Some (Some (Stamp (clock s + retry_delay e (t_attempts t)))))"
proof -
  have ok: "faults s = []" using healthy by (simp add: healthy_tasks_def)
  have from_exec: "status_of s task = Some StatusExecuting" using t assms(3) by (simp add: status_of_def)
  show ?thesis
  proof (cases "hasExceededGiveUp e (clock s) t")
    case True
    have "IsLegalTransition StatusExecuting StatusFailed" by (simp add: IsLegalTransition_def)
    from run_Transition_moves [OF healthy from_exec this, of e trace] obtain s1 where
      s1: "run_state (Transition e trace task StatusFailed) s = (Inr (), s1)" "healthy_tasks s1"
        "status_of s1 = (status_of s)(task \<mapsto> StatusFailed)" "outbox s1 = outbox s" by auto
    have ok1: "faults s1 = []" using s1(2) by (simp add: healthy_tasks_def)
    have same: "status_of (x\<lparr>notices := ns\<rparr>) = status_of x" for x ns by (rule status_of_same) simp
    show ?thesis
      by (simp add: ParkOrGiveUp_def run_GetTaskByID ok t True giveUp_def s1 run_task_ledger ok1
          cloud_notify_def Notify_def run_db_no_faults same)
  next
    case False
    let ?next = "Stamp (clock s + retry_delay e (t_attempts t))"
    have "IsLegalTransition StatusExecuting StatusRetryWait" by (simp add: IsLegalTransition_def)
    from run_Transition_moves [OF healthy from_exec this, of e trace] obtain s1 where
      s1: "run_state (Transition e trace task StatusRetryWait) s = (Inr (), s1)" "healthy_tasks s1"
        "status_of s1 = (status_of s)(task \<mapsto> StatusRetryWait)" "outbox s1 = outbox s" "clock s1 = clock s"
        "tasks s1 = map (set_status (clock s) task StatusRetryWait) (tasks s)"
        "next_outbox s1 = next_outbox s"
      by auto
    have ok1: "faults s1 = []" using s1(2) by (simp add: healthy_tasks_def)
    let ?s2 = "update_task task (\<lambda>r. r\<lparr>t_next_retry := Some ?next, t_updated := Stamp (clock s)\<rparr>) s1"
    have s2: "faults ?s2 = []" "outbox ?s2 = outbox s" "resume_row ?s2 = resume_row s"
      by (simp_all add: update_task_def ok1 s1 resume_row_def fun_eq_iff)
    have status: "status_of ?s2 = status_of s1"
      by (rule ext) (simp add: status_of_def update_task_def find_update_where option.map_comp o_def if_distrib cong: if_cong)
    have "find (\<lambda>r. t_id r = task) (tasks s1) = Some (set_status (clock s) task StatusRetryWait t)"
      unfolding s1 by (simp add: find_map_id t)
    then have retry: "map_option t_next_retry (find (\<lambda>r. t_id r = task) (tasks ?s2)) = Some (Some ?next)"
      using find_Some_in [OF t] by (simp add: update_task_def find_update_where)
    have same: "status_of (x\<lparr>notices := ns\<rparr>) = status_of x" "status_of (x\<lparr>outbox := o1, next_outbox := n\<rparr>) = status_of x"
      for x ns o1 n by (rule status_of_same, simp)+
    have set: "run_state (SetTaskNextRetry (Some ?next) (Stamp (clock s)) task) s1 = (Inr (), ?s2)"
      by (simp add: SetTaskNextRetry_def run_db_no_faults ok1)
    have park: "run_state (ParkOrGiveUp e trace task) s = run_state (park e trace task t) s"
      by (simp add: ParkOrGiveUp_def run_GetTaskByID ok t False)
    show ?thesis
      unfolding park using retry
      by (simp add: False park_def Let_def s1 set run_writeOutboxResumeRowAt s2 run_task_ledger cloud_notify_def
          Notify_def run_db_no_faults same status)
  qed
qed

end
