(* ===== verification/Task_Halt.thy ===== *)
theory Task_Halt
  imports Task_Resume Policy_Traces
begin

text \<open>
  The emergency halt of a task on a database that does not fail, together with the half of it that
  kills the task's credentials (\<open>Policy_Traces\<close>), and the leases of the outbox: within a lease
  nobody else claims the row.
\<close>

section \<open>Halt\<close>

definition haltable :: "task_status \<Rightarrow> bool" where
  "haltable st \<longleftrightarrow> IsLegalTransition st StatusUserHalted"

definition outbox_closed :: "store \<Rightarrow> string \<Rightarrow> bool" where
  "outbox_closed s task \<longleftrightarrow>
     (\<forall>r \<in> set (outbox s). ob_task r = Some task \<longrightarrow> ob_dispatched r \<noteq> None \<or> ob_canceled r \<noteq> None)"

definition credentials_burnt :: "store \<Rightarrow> string \<Rightarrow> store \<Rightarrow> bool" where
  "credentials_burnt s task s' \<longleftrightarrow>
     (\<forall>p \<in> set (pendings s). pa_task p = task \<longrightarrow> pending_burnt (pa_id p) s')
     \<and> (\<forall>k \<in> set (tokens s). tk_task k = task \<longrightarrow> token_burnt (tk_hash k) s')"

lemma wp_at: "run_state m s = (r, s') \<Longrightarrow> wp m Q s \<longleftrightarrow> Q r s'"
  by (simp add: wp_def)

lemma wp_task_ledger:
  "(\<And>evs fs. Q () (s\<lparr>events := evs, faults := fs\<rparr>)) \<Longrightarrow> wp (task_ledger e trace kind p) Q s"
proof -
  assume Q: "\<And>evs fs. Q () (s\<lparr>events := evs, faults := fs\<rparr>)"
  have "Q () (s\<lparr>faults := fs\<rparr>)" for fs using Q [where evs = "events s" and fs = fs] by simp
  moreover have "Q () s" using Q [where evs = "events s" and fs = "faults s"] by simp
  moreover have "Q () (s\<lparr>faults := fs, events := evs\<rparr>)" for evs fs
  proof -
    have "s\<lparr>faults := fs, events := evs\<rparr> = s\<lparr>events := evs, faults := fs\<rparr>" by simp
    then show ?thesis using Q [where evs = evs and fs = fs] by (simp only:)
  qed
  ultimately show ?thesis
    unfolding task_ledger_def LogEvent_def
    by (auto simp: wp_bind wp_return wp_if intro!: wp_dbI)
qed

lemma status_of_faults [simp]:
  "status_of (s\<lparr>events := evs, faults := fs\<rparr>) = status_of s" "status_of (s\<lparr>notices := ns\<rparr>) = status_of s"
  by (rule status_of_same, simp)+

lemma update_task_tables [simp]:
  "faults (update_task i f s) = faults s" "outbox (update_task i f s) = outbox s"
  "clock (update_task i f s) = clock s" "events (update_task i f s) = events s"
  "calls (update_task i f s) = calls s" "next_outbox (update_task i f s) = next_outbox s"
  by (simp_all add: update_task_def)

text \<open>The state in front of the policy engine's part: killed, halted, cancelled.\<close>

definition halt_notices :: "halt_env \<Rightarrow> task_row \<Rightarrow> notice list" where
  "halt_notices h t =
     (let memory = (case he_pid h (t_id t) of Some p \<Rightarrow> if 0 < p then p else 0 | None \<Rightarrow> 0);
          pgid = (if memory = 0
                  then (case t_worker_pgid t of Some p \<Rightarrow> if 0 < p then p else 0 | None \<Rightarrow> 0)
                  else memory)
      in (if he_speech h then [KilledSpeech (t_id t)] else []) @ (if pgid = 0 then [] else [KilledGroup pgid])
         @ (if he_docker h then [KilledContainers (t_id t)] else []))"

definition halted_store :: "halt_env \<Rightarrow> task_row \<Rightarrow> store \<Rightarrow> store" where
  "halted_store h t s =
     (let s1 = recorded (te_ledger (he_task h)) (t_trace t) ''task.transition''
            (transition_payload ''task.transition'' (t_id t) (t_status t) StatusUserHalted)
            (s\<lparr>notices := notices s @ halt_notices h t,
               tasks := map (set_status (clock s) (t_id t) StatusUserHalted) (tasks s)\<rparr>);
          s2 = update_task (t_id t)
            (\<lambda>r. r\<lparr>t_halted_at := Some (Stamp (clock s)), t_updated := Stamp (clock s)\<rparr>) s1
      in s2\<lparr>outbox := update_where (\<lambda>r. ob_task r = Some (t_id t) \<and> ob_dispatched r = None \<and> ob_canceled r = None)
            (\<lambda>r. r\<lparr>ob_canceled := Some (Stamp (clock s))\<rparr>) (outbox s)\<rparr>)"

lemma halted_store_facts:
  assumes "find (\<lambda>r. t_id r = task) (tasks s) = Some t"
  shows "faults (halted_store h t s) = faults s" "tokens (halted_store h t s) = tokens s"
    "pendings (halted_store h t s) = pendings s" "keys_unique (halted_store h t s) = keys_unique s"
    "status_of (halted_store h t s) task = Some StatusUserHalted" "outbox_closed (halted_store h t s) task"
proof -
  show "faults (halted_store h t s) = faults s" "tokens (halted_store h t s) = tokens s"
    "pendings (halted_store h t s) = pendings s" "keys_unique (halted_store h t s) = keys_unique s"
    by (simp_all add: halted_store_def Let_def update_task_def keys_unique_def recorded_def)
  have id: "t_id t = task" using find_Some_in [OF assms] by simp
  have halted: "find (\<lambda>r. t_id r = task) (map (set_status (clock s) task StatusUserHalted) (tasks s))
      = Some (set_status (clock s) task StatusUserHalted t)"
    by (simp add: find_map_id assms)
  show "status_of (halted_store h t s) task = Some StatusUserHalted"
    by (simp add: halted_store_def Let_def status_of_def update_task_def id find_update_where halted)
       (simp add: set_status_def id)
  show "outbox_closed (halted_store h t s) task"
    by (auto simp: outbox_closed_def halted_store_def Let_def id update_where_def)
qed

definition halt_policy :: "halt_env \<Rightarrow> string \<Rightarrow> string \<Rightarrow> (store, unit) state" where
  "halt_policy h trace task = (case he_policy h of
       None \<Rightarrow> ret ()
     | Some p \<Rightarrow> do { _ \<leftarrow> InvalidateApprovalsForTask p trace task; ret () })"

lemma run_notice [simp]: "run_state (notice n) s = ((), s\<lparr>notices := notices s @ [n]\<rparr>)"
  by (simp add: notice_def)

definition halt_kills :: "halt_env \<Rightarrow> task_row \<Rightarrow> (store, unit) state" where
  "halt_kills h t = do {
     (if he_speech h then notice (KilledSpeech (t_id t)) else ret ());
     killProcessGroup h t;
     (if he_docker h then notice (KilledContainers (t_id t)) else ret ())
   }"

lemma run_halt_kills: "run_state (halt_kills h t) s = ((), s\<lparr>notices := notices s @ halt_notices h t\<rparr>)"
  by (simp add: halt_kills_def killProcessGroup_def halt_notices_def Let_def)

definition halt_ends :: "halt_env \<Rightarrow> task_row \<Rightarrow> (store, bool res) state" where
  "halt_ends h t = do {
     halt_policy h (t_trace t) (t_id t);
     task_ledger (he_task h) (t_trace t) ''task.user_halted''
       [(''event'', JStr ''task.user_halted''), (''task_id'', JStr (t_id t))];
     ret (Inr True)
   }"

text \<open>On a task that is not terminal, \<open>HaltTask\<close> is these steps in this order.\<close>

lemma HaltTask_steps:
  assumes "faults s = []" and t: "find (\<lambda>r. t_id r = task) (tasks s) = Some t"
    and "\<not> isTerminalStatus (t_status t)"
  shows "run_state (HaltTask h task) s = run_state (do {
      _ \<leftarrow> halt_kills h t;
      _ \<leftarrow> Transition (he_task h) (t_trace t) task StatusUserHalted;
      n \<leftarrow> now;
      _ \<leftarrow> SetTaskHaltedAt (Some (Stamp n)) (Stamp n) task;
      _ \<leftarrow> CancelOutboxRowsByTask (Stamp n) task;
      halt_ends h t }) s"
  using find_Some_in [OF t] assms
  by (simp add: HaltTask_def run_GetTaskByID halt_kills_def halt_ends_def halt_policy_def)

lemma HaltTask_on_row:
  assumes healthy: "healthy_tasks s" and t: "find (\<lambda>r. t_id r = task) (tasks s) = Some t"
    and legal: "haltable (t_status t)"
  shows "run_state (HaltTask h task) s = run_state (halt_ends h t) (halted_store h t s)"
proof -
  have ok: "faults s = []" using healthy by (simp add: healthy_tasks_def)
  have id: "t_id t = task" using find_Some_in [OF t] by simp
  have live: "\<not> isTerminalStatus (t_status t)" "t_status t \<noteq> StatusUserHalted"
    using legal terminal_no_edge by (auto simp: haltable_def) (simp add: IsLegalTransition_def)
  let ?s0 = "s\<lparr>notices := notices s @ halt_notices h t\<rparr>"
  have "healthy_tasks ?s0" using healthy by (simp add: healthy_tasks_def)
  from run_Transition_legal [OF this, of task t StatusUserHalted "he_task h" "t_trace t"] t legal live(2)
  have move: "run_state (Transition (he_task h) (t_trace t) task StatusUserHalted) ?s0 =
      (Inr (), recorded (te_ledger (he_task h)) (t_trace t) ''task.transition''
         (transition_payload ''task.transition'' task (t_status t) StatusUserHalted)
         (?s0\<lparr>tasks := map (set_status (clock s) task StatusUserHalted) (tasks s)\<rparr>))"
    by (simp add: haltable_def)
  show ?thesis
    unfolding HaltTask_steps [OF ok t live(1)]
    by (simp add: run_halt_kills move SetTaskHaltedAt_def CancelOutboxRowsByTask_def run_db_no_faults ok
        Let_def halted_store_def id)
qed

lemma HaltTask_spec:
  assumes healthy: "healthy_tasks s" and keys: "keys_unique s"
    and t: "find (\<lambda>r. t_id r = task) (tasks s) = Some t" and legal: "haltable (t_status t)"
  shows "wp (HaltTask h task) (\<lambda>r s'. r = Inr True \<and> status_of s' task = Some StatusUserHalted
     \<and> outbox_closed s' task \<and> (he_policy h \<noteq> None \<longrightarrow> credentials_burnt s task s')) s"
    (is "wp _ ?post s")
proof -
  let ?s = "halted_store h t s"
  have id: "t_id t = task" using find_Some_in [OF t] by simp
  have ok: "faults ?s = []" using healthy by (simp add: halted_store_facts [OF t] healthy_tasks_def)
  have post: "?post (Inr True) (s1\<lparr>events := evs, faults := fs\<rparr>)"
    if "tasks s1 = tasks ?s" "outbox s1 = outbox ?s" "he_policy h \<noteq> None \<longrightarrow> credentials_burnt s task s1"
    for s1 evs fs
  proof -
    have "status_of s1 = status_of ?s" by (rule status_of_same) (rule that(1))
    with that halted_store_facts [OF t, of h] show ?thesis
      by (simp add: outbox_closed_def credentials_burnt_def pending_burnt_def token_burnt_def)
  qed
  have "wp (halt_policy h (t_trace t) task)
      (\<lambda>_ s1. tasks s1 = tasks ?s \<and> outbox s1 = outbox ?s \<and> (he_policy h \<noteq> None \<longrightarrow> credentials_burnt s task s1)) ?s"
  proof (cases "he_policy h")
    case None
    then show ?thesis by (simp add: halt_policy_def wp_return)
  next
    case (Some p)
    have "wp (InvalidateApprovalsForTask p (t_trace t) task) (\<lambda>r s1. other_tables ?s s1 \<and>
        (\<not> isl r \<and> (\<forall>p \<in> set (pendings ?s). pa_task p = task \<longrightarrow> pending_burnt (pa_id p) s1)
        \<and> (\<forall>k \<in> set (tokens ?s). tk_task k = task \<longrightarrow> token_burnt (tk_hash k) s1))) ?s"
      by (rule wp_conj [OF wp_io_rel [OF others.keeps_halt] halt_spec])
         (use ok keys in \<open>simp_all add: halted_store_facts [OF t]\<close>)
    then show ?thesis
      unfolding halt_policy_def Some option.case wp_bind
      by (rule wp_mono) (simp add: wp_return other_tables_def credentials_burnt_def halted_store_facts [OF t])
  qed
  then show ?thesis
    unfolding wp_def HaltTask_on_row [OF healthy t legal]
    unfolding wp_def [symmetric] halt_ends_def id
  proof (rule wp_bind_mono)
    fix u :: unit and s1
    assume "tasks s1 = tasks ?s \<and> outbox s1 = outbox ?s \<and> (he_policy h \<noteq> None \<longrightarrow> credentials_burnt s task s1)"
    then show "wp (do { task_ledger (he_task h) (t_trace t) ''task.user_halted''
          [(''event'', JStr ''task.user_halted''), (''task_id'', JStr task)]; ret (Inr True) }) ?post s1"
      unfolding wp_bind wp_return by (intro wp_task_ledger post) blast+
  qed
qed

text \<open>A task whose status is \<open>user_halted\<close> has no due row, whether its rows were cancelled or not.\<close>

lemma halted_never_due:
  "status_of s task = Some StatusUserHalted \<Longrightarrow> ob_task r = Some task \<Longrightarrow> \<not> due_row s t r"
  by (auto simp: due_row_def status_of_def)

text \<open>A task that is still \<open>intent\<close> is reported halted, and its status stays.\<close>

lemma HaltTask_intent:
  assumes healthy: "healthy_tasks s" and t: "find (\<lambda>r. t_id r = task) (tasks s) = Some t"
    and st: "t_status t = StatusIntent" and off: "he_policy h = None"
  shows "\<exists>s'. run_state (HaltTask h task) s = (Inr True, s') \<and> status_of s' task = Some StatusIntent"
proof -
  have ok: "faults s = []" using healthy by (simp add: healthy_tasks_def)
  have illegal: "\<not> IsLegalTransition (t_status t) StatusUserHalted" "t_status t \<noteq> StatusUserHalted"
    "\<not> isTerminalStatus (t_status t)"
    by (simp_all add: st IsLegalTransition_def isTerminalStatus_def)
  have kept: "status_of (x\<lparr>outbox := o1\<rparr>) = status_of x" for x o1 by (rule status_of_same) simp
  have halted_at: "status_of (update_task task (\<lambda>r. r\<lparr>t_halted_at := h1, t_updated := u\<rparr>) x) = status_of x"
    for h1 u x
    by (rule ext) (simp add: status_of_def update_task_def find_update_where option.map_comp o_def if_distrib cong: if_cong)
  have from_intent: "status_of s task = Some StatusIntent" using t st by (simp add: status_of_def)
  have refused: "run_state (Transition (he_task h) (t_trace t) task StatusUserHalted)
      (s\<lparr>notices := notices s @ halt_notices h t\<rparr>) =
      (Inl ErrIllegalTransition, recorded (te_ledger (he_task h)) (t_trace t) ''task.illegal_transition''
         (transition_payload ''task.illegal_transition'' task (t_status t) StatusUserHalted)
         (s\<lparr>notices := notices s @ halt_notices h t\<rparr>))"
    by (rule run_Transition_illegal) (use ok t illegal in simp_all)
  show ?thesis
    unfolding HaltTask_steps [OF ok t illegal(3)]
    by (simp add: run_halt_kills refused SetTaskHaltedAt_def CancelOutboxRowsByTask_def run_db_no_faults ok
        Let_def halt_ends_def halt_policy_def off run_task_ledger kept halted_at from_intent)
qed

end
