(* ===== verification/Task_Concurrency.thy ===== *)
theory Task_Concurrency
  imports Task_Halt
begin

text \<open>
  What holds between concurrent callers.  A call of \<open>Transition\<close> makes two database calls before
  its fate is decided, the read of the row and the guarded update; the step relation \<open>race_step\<close>
  interleaves these halves for any number of callers.  A lease on an outbox row keeps every other
  dispatcher away until it ends.
\<close>

section \<open>Racing transitions\<close>

datatype race_pc =
    RaceStart
  | RaceSwap task_status
  | RaceWon task_status
  | RaceSame
  | RaceLost
  | RaceIllegal
  | RaceFailed

record racer =
  rc_task :: string
  rc_to :: task_status
  rc_pc :: race_pc

text \<open>What a caller does with the row it has read, and with the number of rows it has updated.\<close>

fun race_read :: "task_row res \<Rightarrow> task_status \<Rightarrow> race_pc" where
  "race_read (Inl err) to = RaceFailed"
| "race_read (Inr t) to =
     (if t_status t = to then RaceSame
      else if IsLegalTransition (t_status t) to then RaceSwap (t_status t)
      else RaceIllegal)"

fun race_swapped :: "nat res \<Rightarrow> task_status \<Rightarrow> race_pc" where
  "race_swapped (Inl err) from = RaceFailed"
| "race_swapped (Inr affected) from = (if affected = 0 then RaceLost else RaceWon from)"

inductive race_step :: "store \<times> racer list \<Rightarrow> store \<times> racer list \<Rightarrow> bool" where
  Read: "k < length rs \<Longrightarrow> rc_pc (rs ! k) = RaceStart \<Longrightarrow>
    run_state (GetTaskByID (rc_task (rs ! k))) s = (r, s') \<Longrightarrow>
    race_step (s, rs) (s', rs[k := (rs ! k)\<lparr>rc_pc := race_read r (rc_to (rs ! k))\<rparr>])"
| Swap: "k < length rs \<Longrightarrow> rc_pc (rs ! k) = RaceSwap from \<Longrightarrow>
    run_state (SetTaskStatus (rc_to (rs ! k)) (Stamp t) (rc_task (rs ! k)) from) s = (r, s') \<Longrightarrow>
    race_step (s, rs) (s', rs[k := (rs ! k)\<lparr>rc_pc := race_swapped r from\<rparr>])"

inductive_cases race_stepE: "race_step (s, rs) (s', rs')"

definition won_by :: "racer list \<Rightarrow> nat \<Rightarrow> bool" where
  "won_by rs k \<longleftrightarrow> k < length rs \<and> (\<exists>from. rc_pc (rs ! k) = RaceWon from)"

text \<open>
  The invariant: ids are unique; a caller about to update has checked a legal edge; two winners
  with a terminal target on the same task are the same caller; and while one has won, the
  task's row has its target as status.
\<close>

definition race_inv :: "store \<times> racer list \<Rightarrow> bool" where
  "race_inv c \<longleftrightarrow> (case c of (s, rs) \<Rightarrow> distinct (map t_id (tasks s))
     \<and> (\<forall>k < length rs. \<forall>from. rc_pc (rs ! k) = RaceSwap from \<longrightarrow> IsLegalTransition from (rc_to (rs ! k)))
     \<and> (\<forall>k. won_by rs k \<and> isTerminalStatus (rc_to (rs ! k)) \<longrightarrow>
          status_of s (rc_task (rs ! k)) = Some (rc_to (rs ! k))
          \<and> (\<forall>j. won_by rs j \<and> rc_task (rs ! j) = rc_task (rs ! k)
               \<and> isTerminalStatus (rc_to (rs ! j)) \<longrightarrow> j = k)))"

lemma run_db_cases:
  obtains fs where "run_state (db f) s = (Inl DbError, s\<lparr>faults := fs\<rparr>)"
  | fs where "run_state (db f) s = f (s\<lparr>faults := fs\<rparr>)"
proof (cases "faults s")
  case Nil
  then have "s\<lparr>faults := []\<rparr> = s" by simp
  then have "run_state (db f) s = f (s\<lparr>faults := []\<rparr>)" using Nil by (simp only: db_def list.case state.sel)
  then show thesis by (rule that(2))
next
  case (Cons b bs)
  show thesis
  proof (cases b)
    case True
    then have "run_state (db f) s = (Inl DbError, s\<lparr>faults := bs\<rparr>)" using Cons by (simp add: db_def Let_def)
    then show thesis by (rule that(1))
  next
    case False
    then have "run_state (db f) s = f (s\<lparr>faults := bs\<rparr>)" using Cons by (simp add: db_def Let_def)
    then show thesis by (rule that(2))
  qed
qed

lemma read_keeps_tasks: "run_state (GetTaskByID i) s = (r, s') \<Longrightarrow> tasks s' = tasks s"
  using state_io_relD [OF others.keeps_reads(10)] by (auto simp: other_tables_def)

lemma status_of_update_where:
  assumes "distinct (map t_id (tasks s))"
  shows "status_of (s\<lparr>tasks := update_where (\<lambda>r. t_id r = i \<and> t_status r = from)
      (\<lambda>r. r\<lparr>t_status := to, t_updated := at\<rparr>) (tasks s)\<rparr>) =
    (if status_of s i = Some from then (status_of s)(i \<mapsto> to) else status_of s)"
proof (rule ext)
  fix j
  show "status_of (s\<lparr>tasks := update_where (\<lambda>r. t_id r = i \<and> t_status r = from)
      (\<lambda>r. r\<lparr>t_status := to, t_updated := at\<rparr>) (tasks s)\<rparr>) j =
    (if status_of s i = Some from then (status_of s)(i \<mapsto> to) else status_of s) j"
  proof (cases "find (\<lambda>r. t_id r = j) (tasks s)")
    case None
    then show ?thesis by (auto simp: status_of_def find_update_where)
  next
    case (Some r)
    then show ?thesis using find_Some_in [OF Some] by (auto simp: status_of_def find_update_where)
  qed
qed

lemma count_swap:
  assumes "distinct (map t_id (tasks s))"
  shows "0 < count_where (\<lambda>r. t_id r = i \<and> t_status r = from) (tasks s) \<longleftrightarrow> status_of s i = Some from"
proof
  assume "0 < count_where (\<lambda>r. t_id r = i \<and> t_status r = from) (tasks s)"
  then obtain r where "r \<in> set (tasks s)" "t_id r = i" "t_status r = from" by (auto simp: count_where_pos)
  then show "status_of s i = Some from" using find_key [OF assms] by (simp add: status_of_def)
next
  assume "status_of s i = Some from"
  then obtain r where "find (\<lambda>r. t_id r = i) (tasks s) = Some r" "t_status r = from" by (auto simp: status_of_def)
  with find_Some_in [OF this(1)] show "0 < count_where (\<lambda>r. t_id r = i \<and> t_status r = from) (tasks s)"
    by (auto simp: count_where_pos)
qed

text \<open>The two outcomes of the guarded update.\<close>

lemma swap_cases:
  assumes run: "run_state (SetTaskStatus to at i from) s = (r, s')" and d: "distinct (map t_id (tasks s))"
  obtains (idle) "status_of s' = status_of s" "map t_id (tasks s') = map t_id (tasks s)"
      "race_swapped r from \<in> {RaceFailed, RaceLost}"
  | (moved) "status_of s i = Some from" "status_of s' = (status_of s)(i \<mapsto> to)"
      "map t_id (tasks s') = map t_id (tasks s)" "race_swapped r from = RaceWon from"
proof (cases rule: run_db_cases [of "\<lambda>s. let hit = (\<lambda>r. t_id r = i \<and> t_status r = from)
     in (Inr (count_where hit (tasks s)),
         s\<lparr>tasks := update_where hit (\<lambda>r. r\<lparr>t_status := to, t_updated := at\<rparr>) (tasks s)\<rparr>)" s])
  case (1 fs)
  then have "r = Inl DbError" "s' = s\<lparr>faults := fs\<rparr>" using run by (simp_all add: SetTaskStatus_def)
  then show thesis using idle status_of_same [of s' s] by simp
next
  case (2 fs)
  let ?s = "s\<lparr>faults := fs\<rparr>"
  have st: "status_of ?s = status_of s" by (rule status_of_same) simp
  from 2 run have r: "r = Inr (count_where (\<lambda>r. t_id r = i \<and> t_status r = from) (tasks ?s))"
    and s': "s' = ?s\<lparr>tasks := update_where (\<lambda>r. t_id r = i \<and> t_status r = from)
      (\<lambda>r. r\<lparr>t_status := to, t_updated := at\<rparr>) (tasks ?s)\<rparr>"
    by (simp_all add: SetTaskStatus_def Let_def)
  have d': "distinct (map t_id (tasks ?s))" using d by simp
  have after: "status_of s' = (if status_of s i = Some from then (status_of s)(i \<mapsto> to) else status_of s)"
    unfolding s' using status_of_update_where [OF d'] st by simp
  have ids: "map t_id (tasks s') = map t_id (tasks s)" unfolding s' by simp
  show thesis
  proof (cases "status_of s i = Some from")
    case True
    then have "0 < count_where (\<lambda>r. t_id r = i \<and> t_status r = from) (tasks ?s)"
      using count_swap [OF d'] st by simp
    then show thesis using moved [OF True] after True ids by (simp add: r)
  next
    case False
    then have "count_where (\<lambda>r. t_id r = i \<and> t_status r = from) (tasks ?s) = 0"
      using count_swap [OF d'] st by fastforce
    then show thesis using idle after False ids by (simp add: r)
  qed
qed

text \<open>Updating one caller without letting it win.\<close>

lemma won_by_update:
  assumes "k < length rs"
  shows "won_by (rs[k := (rs ! k)\<lparr>rc_pc := p\<rparr>]) j \<longleftrightarrow> (if j = k then \<exists>from. p = RaceWon from else won_by rs j)"
  using assms by (auto simp: won_by_def nth_list_update)

lemma race_inv_idle:
  assumes inv: "race_inv (s, rs)" and k: "k < length rs"
    and same: "status_of s' = status_of s" "map t_id (tasks s') = map t_id (tasks s)"
    and before: "\<not> won_by rs k" and p: "\<And>from. p \<noteq> RaceWon from"
    and legal: "\<And>from. p = RaceSwap from \<Longrightarrow> IsLegalTransition from (rc_to (rs ! k))"
  shows "race_inv (s', rs[k := (rs ! k)\<lparr>rc_pc := p\<rparr>])"
  using inv same before p legal unfolding race_inv_def prod.case won_by_update [OF k]
  by (auto simp: nth_list_update k)

lemma race_inv_step: "race_step c c' \<Longrightarrow> race_inv c \<Longrightarrow> race_inv c'"
proof (induction rule: race_step.induct)
  case (Read k rs s r s')
  have "status_of s' = status_of s" "map t_id (tasks s') = map t_id (tasks s)"
    using status_of_same [OF read_keeps_tasks [OF Read(3)]] read_keeps_tasks [OF Read(3)] by simp_all
  moreover have "\<not> won_by rs k" using Read(2) by (simp add: won_by_def)
  ultimately show ?case
    by (rule race_inv_idle [OF Read(4,1)]) (cases r; simp split: if_splits)+
next
  case (Swap k rs st0 t s r s')
  let ?i = "rc_task (rs ! k)" and ?to = "rc_to (rs ! k)"
  have d: "distinct (map t_id (tasks s))" and edge: "IsLegalTransition st0 ?to"
    using Swap(1,2,4) by (auto simp: race_inv_def)
  have fresh: "\<not> won_by rs k" using Swap(2) by (simp add: won_by_def)
  from Swap(3) d show ?case
  proof (cases rule: swap_cases)
    case idle
    have p: "race_swapped r st0 = RaceFailed \<or> race_swapped r st0 = RaceLost" using idle(3) by simp
    show ?thesis
    proof (rule race_inv_idle [OF Swap(4,1) idle(1,2) fresh])
      show "race_swapped r st0 \<noteq> RaceWon st" for st using p by (elim disjE) simp_all
      show "IsLegalTransition st ?to" if "race_swapped r st0 = RaceSwap st" for st
        using p that by (elim disjE) simp_all
    qed
  next
    case moved
    have live: "\<not> isTerminalStatus st0" using edge terminal_no_edge by blast
    note inv = Swap(4) [unfolded race_inv_def prod.case]
    have row: "status_of s (rc_task (rs ! j)) = Some (rc_to (rs ! j))"
      and single: "\<And>j'. won_by rs j' \<Longrightarrow> rc_task (rs ! j') = rc_task (rs ! j) \<Longrightarrow>
        isTerminalStatus (rc_to (rs ! j')) \<Longrightarrow> j' = j"
      if "won_by rs j" "isTerminalStatus (rc_to (rs ! j))" for j
      using inv that by blast+
    have others: "rc_task (rs ! j) \<noteq> ?i" if "won_by rs j" "isTerminalStatus (rc_to (rs ! j))" for j
      using row [OF that] moved(1) that(2) live by fastforce
    let ?rs = "rs[k := (rs ! k)\<lparr>rc_pc := race_swapped r st0\<rparr>]"
    have static: "rc_task (?rs ! j) = rc_task (rs ! j)" "rc_to (?rs ! j) = rc_to (rs ! j)" for j
      by (cases "j = k"; simp add: Swap(1))+
    have won: "won_by ?rs j \<longleftrightarrow> j = k \<or> won_by rs j" for j
      unfolding won_by_update [OF Swap(1)] using moved(4) by simp
    have pcs: "IsLegalTransition st (rc_to (?rs ! j))" if "j < length ?rs" "rc_pc (?rs ! j) = RaceSwap st" for j st
      unfolding static using inv that Swap(1) moved(4) by (cases "j = k") simp_all
    have "status_of s' (rc_task (rs ! j)) = Some (rc_to (rs ! j))"
      and "\<And>j'. won_by ?rs j' \<Longrightarrow> rc_task (rs ! j') = rc_task (rs ! j) \<Longrightarrow>
        isTerminalStatus (rc_to (rs ! j')) \<Longrightarrow> j' = j"
      if "won_by ?rs j" "isTerminalStatus (rc_to (rs ! j))" for j
    proof -
      show "status_of s' (rc_task (rs ! j)) = Some (rc_to (rs ! j))"
        using that row others unfolding won moved(2) by (cases "j = k") simp_all
      show "j' = j" if "won_by ?rs j'" "rc_task (rs ! j') = rc_task (rs ! j)" "isTerminalStatus (rc_to (rs ! j'))" for j'
        using that \<open>won_by ?rs j\<close> \<open>isTerminalStatus (rc_to (rs ! j))\<close> single others unfolding won by metis
    qed
    then show ?thesis
      unfolding race_inv_def prod.case static using pcs [unfolded static] moved(3) d by simp
  qed
qed

lemma race_inv_reachable: "race_step\<^sup>*\<^sup>* c c' \<Longrightarrow> race_inv c \<Longrightarrow> race_inv c'"
  by (induction rule: rtranclp_induct) (auto intro: race_inv_step)

lemma race_inv_start:
  assumes "distinct (map t_id (tasks s))" and "\<forall>r \<in> set rs. rc_pc r = RaceStart"
  shows "race_inv (s, rs)"
  using assms by (auto simp: race_inv_def won_by_def)

text \<open>A \<open>Transition\<close> nobody interferes with is a race of one.\<close>

definition lone :: "string \<Rightarrow> task_status \<Rightarrow> race_pc \<Rightarrow> racer" where
  "lone i to p = \<lparr>rc_task = i, rc_to = to, rc_pc = p\<rparr>"

fun race_result :: "race_pc \<Rightarrow> unit res option" where
  "race_result (RaceWon from) = Some (Inr ())"
| "race_result RaceSame = Some (Inr ())"
| "race_result RaceIllegal = Some (Inl ErrIllegalTransition)"
| "race_result RaceLost = Some (Inl ErrLostTransitionRace)"
| "race_result _ = None"

lemma lone_read:
  "run_state (GetTaskByID i) s = (r, s') \<Longrightarrow>
   race_step (s, [lone i to RaceStart]) (s', [lone i to (race_read r to)])"
  using race_step.Read [of 0 "[lone i to RaceStart]" s r s'] by (simp add: lone_def)

lemma lone_swap:
  "run_state (SetTaskStatus to (Stamp t) i from) s = (r, s') \<Longrightarrow>
   race_step (s, [lone i to (RaceSwap from)]) (s', [lone i to (race_swapped r from)])"
  using race_step.Swap [of 0 "[lone i to (RaceSwap from)]" "from" t s r s'] by (simp add: lone_def)

lemma Transition_is_race:
  assumes healthy: "healthy_tasks s" and known: "status_of s i \<noteq> None"
    and run: "run_state (Transition e trace i to) s = (r, s')"
  shows "\<exists>s1 p. race_step\<^sup>*\<^sup>* (s, [lone i to RaceStart]) (s1, [lone i to p])
    \<and> race_result p = Some r \<and> status_of s1 = status_of s'"
proof -
  from known obtain t where t: "find (\<lambda>r. t_id r = i) (tasks s) = Some t" by (auto simp: status_of_def)
  have ok: "faults s = []" and d: "distinct (map t_id (tasks s))" using healthy by (simp_all add: healthy_tasks_def)
  have read: "run_state (GetTaskByID i) s = (Inr t, s)" by (simp add: run_GetTaskByID ok t)
  consider (same) "t_status t = to" | (illegal) "t_status t \<noteq> to" "\<not> IsLegalTransition (t_status t) to"
    | (legal) "t_status t \<noteq> to" "IsLegalTransition (t_status t) to" by blast
  then show ?thesis
  proof cases
    case same
    with run have "r = Inr ()" "s' = s" by (simp_all add: run_Transition_same [OF ok t])
    with lone_read [OF read, of to] same show ?thesis by (intro exI [of _ s] exI [of _ RaceSame]) auto
  next
    case illegal
    with run have "r = Inl ErrIllegalTransition" "status_of s' = status_of s"
      by (auto simp: run_Transition_illegal [OF ok t])
    with lone_read [OF read, of to] illegal show ?thesis by (intro exI [of _ s] exI [of _ RaceIllegal]) auto
  next
    case legal
    have from_status: "status_of s i = Some (t_status t)" using t by (simp add: status_of_def)
    obtain n s1 where swap: "run_state (SetTaskStatus to (Stamp (clock s)) i (t_status t)) s = (n, s1)"
      by (metis prod.collapse)
    from swap d have s1: "status_of s1 = (status_of s)(i \<mapsto> to) \<and> race_swapped n (t_status t) = RaceWon (t_status t)"
    proof (cases rule: swap_cases)
      case idle
      have "n = Inr (count_where (\<lambda>r. t_id r = i \<and> t_status r = t_status t) (tasks s))"
        using swap by (simp add: SetTaskStatus_def run_db_no_faults ok Let_def)
      then have "race_swapped n (t_status t) = RaceWon (t_status t)"
        using count_swap [OF d, of i "t_status t"] from_status by simp
      with idle show ?thesis by simp
    qed simp
    from run_Transition_moves [OF healthy from_status legal(2,1), of e trace] run
    have "r = Inr ()" "status_of s' = (status_of s)(i \<mapsto> to)" by auto
    moreover have "race_step\<^sup>*\<^sup>* (s, [lone i to RaceStart]) (s1, [lone i to (RaceWon (t_status t))])"
      using lone_read [OF read, of to] lone_swap [OF swap] legal s1
      by (auto intro: rtranclp.rtrancl_into_rtrancl)
    ultimately show ?thesis using s1 by (intro exI [of _ s1] exI [of _ "RaceWon (t_status t)"]) simp
  qed
qed

end
