(* ===== verification/Outbox_Lease.thy ===== *)
theory Outbox_Lease
  imports Task_Concurrency
begin

text \<open>
  The lease of an outbox row.  Any number of dispatchers with the same lease duration send
  statements in any order; a statement that runs within a lease does not win the row again.
\<close>

datatype lease_op =
    LeaseClaim int int
  | LeaseTick int int
  | LeaseDeliver int int
  | LeaseCancel int string
  | LeaseEnqueue int string string

fun lease_time :: "lease_op \<Rightarrow> int" where
  "lease_time (LeaseClaim t i) = t"
| "lease_time (LeaseTick t i) = t"
| "lease_time (LeaseDeliver t i) = t"
| "lease_time (LeaseCancel t task) = t"
| "lease_time (LeaseEnqueue t trace task) = t"

text \<open>Whether the statement won the row it names, and the database after it; \<open>d\<close> is the lease.\<close>

fun lease_step :: "int \<Rightarrow> lease_op \<Rightarrow> store \<Rightarrow> bool \<times> store" where
  "lease_step d (LeaseClaim t i) s =
     (case run_state (ClaimOutboxRow (Stamp (t + d)) i (Stamp t)) s of (r, s') \<Rightarrow>
        ((case r of Inl err \<Rightarrow> False | Inr n \<Rightarrow> n \<noteq> 0), s'))"
| "lease_step d (LeaseTick t i) s = (False, state_after (RenewOutboxLease (Stamp (t + d)) i) s)"
| "lease_step d (LeaseDeliver t i) s = (False, state_after (MarkOutboxDelivered (Stamp t) i) s)"
| "lease_step d (LeaseCancel t task) s = (False, state_after (CancelOutboxRowsByTask (Stamp t) task) s)"
| "lease_step d (LeaseEnqueue t trace task) s = (False, state_after (writeOutboxResumeRowAt trace task (Stamp t) (Stamp t)) s)"

fun claims_row :: "int \<Rightarrow> lease_op \<Rightarrow> bool" where
  "claims_row i (LeaseClaim t j) \<longleftrightarrow> j = i"
| "claims_row i _ \<longleftrightarrow> False"

fun wins :: "int \<Rightarrow> int \<Rightarrow> lease_op list \<Rightarrow> store \<Rightarrow> nat" where
  "wins d i [] s = 0"
| "wins d i (op # ops) s =
     (if claims_row i op \<and> fst (lease_step d op s) then 1 else 0) + wins d i ops (snd (lease_step d op s))"

definition outbox_keys :: "store \<Rightarrow> bool" where
  "outbox_keys s \<longleftrightarrow> distinct (map ob_id (outbox s)) \<and> (\<forall>r \<in> set (outbox s). ob_id r < next_outbox s)"

definition leased :: "int \<Rightarrow> int \<Rightarrow> store \<Rightarrow> bool" where
  "leased i until s \<longleftrightarrow> i < next_outbox s \<and> (\<forall>r \<in> set (outbox s). ob_id r = i \<longrightarrow>
     ob_dispatched r \<noteq> None \<or> (\<exists>l. ob_lease r = Some (Stamp l) \<and> until \<le> l))"

lemma leased_faults [simp]: "leased i u (s\<lparr>faults := fs\<rparr>) = leased i u s"
  by (simp add: leased_def)

lemma leased_update:
  assumes "leased i u s" and "outbox s' = update_where p f (outbox s)" and "next_outbox s' = next_outbox s"
    and "\<And>r. ob_id (f r) = ob_id r"
    and "\<And>r. p r \<Longrightarrow> ob_id r = i \<Longrightarrow> ob_dispatched r \<noteq> None \<or> (\<exists>l. ob_lease r = Some (Stamp l) \<and> u \<le> l)
      \<Longrightarrow> ob_dispatched (f r) \<noteq> None \<or> (\<exists>l. ob_lease (f r) = Some (Stamp l) \<and> u \<le> l)"
  shows "leased i u s'"
  unfolding leased_def
proof (intro conjI ballI impI)
  show "i < next_outbox s'" using assms(1,3) by (simp add: leased_def)
  fix r
  assume "r \<in> set (outbox s')" and id: "ob_id r = i"
  then obtain r0 where r0: "r0 \<in> set (outbox s)" "r = (if p r0 then f r0 else r0)"
    unfolding assms(2) by (auto simp: update_where_def)
  then have "ob_id r0 = i" using id assms(4) by (simp split: if_splits)
  with r0(1) assms(1) have "ob_dispatched r0 \<noteq> None \<or> (\<exists>l. ob_lease r0 = Some (Stamp l) \<and> u \<le> l)"
    unfolding leased_def by blast
  with r0(2) assms(5) \<open>ob_id r0 = i\<close>
  show "ob_dispatched r \<noteq> None \<or> (\<exists>l. ob_lease r = Some (Stamp l) \<and> u \<le> l)" by (cases "p r0") auto
qed

text \<open>Within the lease, a statement keeps it and no claim of the row succeeds.\<close>

lemma claim_in_lease:
  assumes held: "leased i u s" and t: "t \<le> u" "u \<le> t + d"
  shows "wp (ClaimOutboxRow (Stamp (t + d)) j (Stamp t))
     (\<lambda>r s'. leased i u s' \<and> (j = i \<longrightarrow> r = Inl DbError \<or> r = Inr 0)) s"
  unfolding ClaimOutboxRow_def Let_def
proof (rule wp_dbI)
  fix fs
  show "leased i u (s\<lparr>faults := fs\<rparr>) \<and> (j = i \<longrightarrow> Inl DbError = (Inl DbError :: nat res) \<or> Inl DbError = Inr 0)"
    using held by simp
  let ?hit = "\<lambda>r. ob_id r = j \<and> ob_dispatched r = None \<and> lease_free (Stamp t) r"
  let ?s' = "s\<lparr>faults := fs, outbox := update_where ?hit
      (\<lambda>r. r\<lparr>ob_lease := Some (Stamp (t + d)), ob_attempts := ob_attempts r + 1\<rparr>) (outbox s)\<rparr>"
  have "leased i u ?s'"
    by (rule leased_update [OF held, where p = ?hit]) (use t in simp, simp, use t in simp_all)
  moreover have "count_where ?hit (outbox s) = 0" if "j = i"
    unfolding count_where_zero
  proof (intro ballI notI)
    fix r
    assume r: "r \<in> set (outbox s)" and hit: "?hit r"
    with held that obtain l where "ob_lease r = Some (Stamp l)" "u \<le> l"
      by (auto simp: leased_def)
    with hit t show False by (simp add: lease_free_def fixed_less_def)
  qed
  ultimately show "leased i u s' \<and> (j = i \<longrightarrow> r = Inl DbError \<or> r = Inr 0)"
    if "(Inr (count_where ?hit (outbox (s\<lparr>faults := fs\<rparr>))),
         s\<lparr>faults := fs, outbox := update_where ?hit
           (\<lambda>r. r\<lparr>ob_lease := Some (Stamp (t + d)), ob_attempts := ob_attempts r + 1\<rparr>)
           (outbox (s\<lparr>faults := fs\<rparr>))\<rparr>) = (r, s')" for r s'
    using that by auto
qed

lemma state_after_wp: "wp m (\<lambda>_ s'. P s') s \<Longrightarrow> P (state_after m s)"
  by (simp add: wp_def state_after_def split_beta)

lemma lease_step_keeps:
  assumes held: "leased i u s" and t: "lease_time op \<le> u" "u \<le> lease_time op + d"
  shows "leased i u (snd (lease_step d op s))"
proof (cases op)
  case (LeaseClaim t' j)
  with claim_in_lease [OF held, of t' d j] t show ?thesis by (simp add: wp_def split_beta)
next
  case (LeaseTick t' j)
  have "wp (RenewOutboxLease (Stamp (t' + d)) j) (\<lambda>_ s'. leased i u s') s"
    unfolding RenewOutboxLease_def
    by (rule wp_dbI) (use t LeaseTick held in \<open>auto intro!: leased_update [OF held]\<close>)
  with LeaseTick show ?thesis by (simp add: state_after_wp)
next
  case (LeaseDeliver t' j)
  have "wp (MarkOutboxDelivered (Stamp t') j) (\<lambda>_ s'. leased i u s') s"
    unfolding MarkOutboxDelivered_def
    by (rule wp_dbI) (use held in \<open>auto intro: leased_update [OF held]\<close>)
  with LeaseDeliver show ?thesis by (simp add: state_after_wp)
next
  case (LeaseCancel t' task)
  have "wp (CancelOutboxRowsByTask (Stamp t') task) (\<lambda>_ s'. leased i u s') s"
    unfolding CancelOutboxRowsByTask_def Let_def
    by (rule wp_dbI) (use held in \<open>auto intro: leased_update [OF held]\<close>)
  with LeaseCancel show ?thesis by (simp add: state_after_wp)
next
  case (LeaseEnqueue t' trace task)
  have "wp (writeOutboxResumeRowAt trace task (Stamp t') (Stamp t')) (\<lambda>_ s'. leased i u s') s"
    unfolding writeOutboxResumeRowAt_def InsertOutboxRow_def Let_def wp_bind wp_return
    by (rule wp_dbI) (use held in \<open>auto simp: leased_def\<close>)
  with LeaseEnqueue show ?thesis by (simp add: state_after_wp)
qed

lemma lease_step_loses:
  assumes held: "leased i u s" and t: "lease_time op \<le> u" "u \<le> lease_time op + d" and op: "op = LeaseClaim t' i"
  shows "\<not> fst (lease_step d op s)"
proof -
  obtain r s' where run: "run_state (ClaimOutboxRow (Stamp (t' + d)) i (Stamp t')) s = (r, s')" by (metis prod.collapse)
  with wp_run [OF claim_in_lease [OF held, of t' d i] run] t op show ?thesis by auto
qed

lemma wins_in_lease:
  "leased i u s \<Longrightarrow> \<forall>op \<in> set ops. lease_time op \<le> u \<and> u \<le> lease_time op + d \<Longrightarrow> wins d i ops s = 0"
proof (induction ops arbitrary: s)
  case (Cons op ops)
  have op: "lease_time op \<le> u" "u \<le> lease_time op + d" using Cons.prems(2) by simp_all
  have "wins d i ops (snd (lease_step d op s)) = 0"
    by (rule Cons.IH [OF lease_step_keeps [OF Cons.prems(1) op]]) (use Cons.prems(2) in simp)
  moreover have "\<not> (claims_row i op \<and> fst (lease_step d op s))"
    using lease_step_loses [OF Cons.prems(1) op] by (cases op) (auto simp del: lease_step.simps)
  ultimately show ?case by (simp del: lease_step.simps)
qed simp

text \<open>A claim that succeeds establishes the lease.\<close>

lemma claim_establishes:
  assumes keys: "outbox_keys s" and won: "fst (lease_step d (LeaseClaim t i) s)"
  shows "leased i (t + d) (snd (lease_step d (LeaseClaim t i) s))"
proof -
  let ?hit = "\<lambda>r. ob_id r = i \<and> ob_dispatched r = None \<and> lease_free (Stamp t) r"
  let ?f = "\<lambda>r. r\<lparr>ob_lease := Some (Stamp (t + d)), ob_attempts := ob_attempts r + 1\<rparr>"
  have "wp (ClaimOutboxRow (Stamp (t + d)) i (Stamp t)) (\<lambda>r s'. r = Inl DbError
      \<or> (r = Inr (count_where ?hit (outbox s)) \<and> outbox s' = update_where ?hit ?f (outbox s)
         \<and> next_outbox s' = next_outbox s)) s"
    unfolding ClaimOutboxRow_def Let_def by (rule wp_dbI) auto
  moreover obtain r s' where run: "run_state (ClaimOutboxRow (Stamp (t + d)) i (Stamp t)) s = (r, s')"
    by (metis prod.collapse)
  ultimately have "r = Inl DbError \<or> (r = Inr (count_where ?hit (outbox s))
      \<and> outbox s' = update_where ?hit ?f (outbox s) \<and> next_outbox s' = next_outbox s)"
    by (rule wp_run)
  with won have s': "outbox s' = update_where ?hit ?f (outbox s)" "next_outbox s' = next_outbox s"
    and n: "0 < count_where ?hit (outbox s)"
    by (auto simp: run)
  from n obtain r0 where r0: "r0 \<in> set (outbox s)" "?hit r0" by (auto simp: count_where_pos)
  have "leased i (t + d) s'"
    unfolding leased_def
  proof (intro conjI ballI impI)
    show "i < next_outbox s'" using r0 keys s'(2) by (auto simp: outbox_keys_def)
    fix x
    assume "x \<in> set (outbox s')" "ob_id x = i"
    then obtain y where y: "y \<in> set (outbox s)" "x = (if ?hit y then ?f y else y)"
      unfolding s' update_where_def set_map by blast
    with \<open>ob_id x = i\<close> have "ob_id y = i" by (cases "?hit y") simp_all
    note y = y this
    have "y = r0" using distinct_map_inj [of ob_id "outbox s" y r0] keys y r0 by (simp add: outbox_keys_def)
    then have "x = ?f r0" using y r0 by simp
    then show "ob_dispatched x \<noteq> None \<or> (\<exists>l. ob_lease x = Some (Stamp l) \<and> t + d \<le> l)" by simp
  qed
  then show ?thesis by (simp add: run)
qed

end
