(* ===== verification/Task_Props.thy ===== *)
theory Task_Props
  imports Outbox_Lease Policy_Props
begin

text \<open>
  The properties of the task machine, of receipts, of the resume scan, of the outbox and of the
  emergency halt, each followed by an application to a concrete database.
\<close>

section \<open>A database to try things on\<close>

definition demo_row :: "string \<Rightarrow> task_status \<Rightarrow> task_row" where
  "demo_row i st = \<lparr>t_id = i, t_trace = ''trace'', t_session = None, t_state = ''running'',
     t_model = None, t_lane = ''normal'', t_secret_category = None, t_status = st, t_next_retry = None,
     t_attempts = 2, t_created = Stamp 0, t_updated = Stamp 0, t_worker_pgid = Some 77, t_halted_at = None,
     t_envelope = None\<rparr>"

definition demo_call :: "int \<Rightarrow> action_class \<Rightarrow> call_status \<Rightarrow> call_row" where
  "demo_call i c st = \<lparr>tc_id = i, tc_task = ''t1'', tc_seq = i, tc_tool = ''mail_send'', tc_class = c,
     tc_args_hash = ''h'', tc_token = None, tc_status = st, tc_receipt = None, tc_started = None,
     tc_finished = None, tc_created = Stamp 0\<rparr>"

definition demo_tasks :: store where
  "demo_tasks = empty_store\<lparr>tasks := [demo_row ''t1'' StatusExecuting, demo_row ''t2'' StatusDone], clock := 100\<rparr>"

definition demo_calls :: "call_row list \<Rightarrow> store" where
  "demo_calls rows = demo_tasks\<lparr>calls := rows, next_call := 10\<rparr>"

definition demo_env :: task_env where
  "demo_env = \<lparr>te_ledger = True, te_notifier = True, te_live = (\<lambda>_. False), te_w1_max_auto = 3,
     te_schedule = defaultCloudRetrySchedule, te_give_up_after = defaultCloudGiveUpAfter\<rparr>"

definition demo_codec :: receipt_codec where
  "demo_codec = \<lparr>marshal_receipt = (\<lambda>x h. Some (''r'' @ x)), unmarshal_receipt = (\<lambda>t. Some (tl t))\<rparr>"

definition demo_input :: execute_input where
  "demo_input = \<lparr>ei_task = ''t1'', ei_trace = ''trace'', ei_tool = ''mail_send'', ei_class = ClassW2,
     ei_args_hash = ''h'', ei_token = ''''\<rparr>"

definition demo_effect :: "(store, string res) state" where
  "demo_effect = do { notice (KilledSpeech ''effect''); ret (Inr ''sent'') }"

lemmas demo_task_defs = demo_row_def demo_call_def demo_tasks_def demo_calls_def demo_env_def empty_store_def

lemma demo_healthy: "healthy_tasks demo_tasks" "healthy_tasks (demo_calls rows)"
  by (simp_all add: healthy_tasks_def demo_task_defs)

lemma demo_status: "status_of demo_tasks ''t1'' = Some StatusExecuting" "status_of demo_tasks ''t2'' = Some StatusDone"
  "status_of (demo_calls rows) ''t1'' = Some StatusExecuting"
  by (simp_all add: status_of_def demo_task_defs)

section \<open>Statuses\<close>

text \<open>
  C18. Whatever the daemon does with its tasks, in any order and whatever database calls fail, the
  status of a task moves along legal transitions only, no task disappears, and a terminal status
  is final.
\<close>

theorem task_statuses_move_legally:
  assumes "list_all (op_allowed e) ops" and "status_of s i = Some st"
  shows "\<exists>st'. status_of (run_daemon e ops s) i = Some st' \<and> legal_path st st'
    \<and> (isTerminalStatus st \<longrightarrow> st' = st)"
proof -
  from assms(2) obtain r where r: "find (\<lambda>r. t_id r = i) (tasks s) = Some r" "t_status r = st"
    by (auto simp: status_of_def)
  with moves.keeps_run_daemon [OF assms(1), of s] obtain r' where
    "find (\<lambda>r. t_id r = i) (tasks (run_daemon e ops s)) = Some r'" "legal_path st (t_status r')"
    unfolding status_moves_def by blast
  then show ?thesis using legal_path_terminal by (auto simp: status_of_def)
qed

theorem task_statuses_move_legally_witness:
  "status_of (run_daemon demo_env [Step TaskScan, Step (TaskRetry ''trace'' ''t2''), Step (TaskAbort ''trace'' ''t2'')]
     (demo_tasks\<lparr>faults := [False, True, False]\<rparr>)) ''t2'' = Some StatusDone"
proof -
  let ?ops = "[Step TaskScan, Step (TaskRetry ''trace'' ''t2''), Step (TaskAbort ''trace'' ''t2'')]"
  have "status_of (demo_tasks\<lparr>faults := [False, True, False]\<rparr>) ''t2'' = Some StatusDone"
    by (simp add: status_of_def demo_task_defs)
  from task_statuses_move_legally [OF _ this, of demo_env ?ops] show ?thesis
    by (simp add: isTerminalStatus_def del: run_daemon_op.simps run_task_op.simps)
qed

text \<open>
  C19. On a database that does not fail, \<open>Transition\<close> and the two resolutions of the user are the
  transition table: they return what the table says and change the map of statuses exactly as the
  table says.
\<close>

theorem transitions_refine_table:
  "implements (Transition e trace i to) (spec_transition i to)
   \<and> implements (Resolver_Retry e trace i) (spec_resolve i StatusExecuting)
   \<and> implements (Resolver_Abort e trace i) (spec_resolve i StatusFailed)"
  using Transition_implements Resolver_Retry_implements Resolver_Abort_implements by blast

text \<open>
  C20. Of any number of concurrent transitions of one task to terminal statuses, interleaved at
  their database calls in any way and under any failures, at most one wins, and its target is the
  task's status from then on.
\<close>

theorem one_racer_finishes_a_task:
  assumes "race_step\<^sup>*\<^sup>* (s, rs) (s', rs')" and "distinct (map t_id (tasks s))"
    and "\<forall>r \<in> set rs. rc_pc r = RaceStart"
    and "won_by rs' j" and "isTerminalStatus (rc_to (rs' ! j))"
  shows "status_of s' (rc_task (rs' ! j)) = Some (rc_to (rs' ! j))
    \<and> (\<forall>k. won_by rs' k \<and> rc_task (rs' ! k) = rc_task (rs' ! j) \<and> isTerminalStatus (rc_to (rs' ! k)) \<longrightarrow> k = j)"
  using race_inv_reachable [OF assms(1) race_inv_start [OF assms(2,3)]] assms(4,5)
  unfolding race_inv_def by auto

definition demo_race :: "racer list" where
  "demo_race = [lone ''t1'' StatusDone RaceStart, lone ''t1'' StatusFailed RaceStart]"

lemma demo_race_run:
  "\<exists>s'. race_step\<^sup>*\<^sup>* (demo_tasks, demo_race)
     (s', [lone ''t1'' StatusDone (RaceSwap StatusExecuting), lone ''t1'' StatusFailed (RaceWon StatusExecuting)])"
proof -
  have read: "run_state (GetTaskByID ''t1'') demo_tasks = (Inr (demo_row ''t1'' StatusExecuting), demo_tasks)"
    by (simp add: run_GetTaskByID demo_task_defs)
  have 1: "race_step (demo_tasks, demo_race)
      (demo_tasks, [lone ''t1'' StatusDone (RaceSwap StatusExecuting), lone ''t1'' StatusFailed RaceStart])"
    using race_step.Read [of 0 demo_race demo_tasks]
    by (simp add: demo_race_def lone_def read demo_row_def IsLegalTransition_def)
  have 2: "race_step (demo_tasks, [lone ''t1'' StatusDone (RaceSwap StatusExecuting), lone ''t1'' StatusFailed RaceStart])
      (demo_tasks, [lone ''t1'' StatusDone (RaceSwap StatusExecuting), lone ''t1'' StatusFailed (RaceSwap StatusExecuting)])"
    using race_step.Read [of 1 "[lone ''t1'' StatusDone (RaceSwap StatusExecuting), lone ''t1'' StatusFailed RaceStart]"
        demo_tasks]
    by (simp add: lone_def read demo_row_def IsLegalTransition_def)
  obtain r s' where swap: "run_state (SetTaskStatus StatusFailed (Stamp 5) ''t1'' StatusExecuting) demo_tasks = (r, s')"
    by (metis prod.collapse)
  have "r = Inr 1"
    using swap by (simp add: SetTaskStatus_def run_db_no_faults demo_task_defs Let_def count_where_def)
  then have 3: "race_step (demo_tasks, [lone ''t1'' StatusDone (RaceSwap StatusExecuting), lone ''t1'' StatusFailed (RaceSwap StatusExecuting)])
      (s', [lone ''t1'' StatusDone (RaceSwap StatusExecuting), lone ''t1'' StatusFailed (RaceWon StatusExecuting)])"
    using race_step.Swap [of 1 "[lone ''t1'' StatusDone (RaceSwap StatusExecuting), lone ''t1'' StatusFailed (RaceSwap StatusExecuting)]"
        StatusExecuting 5 demo_tasks r s'] swap
    by (simp add: lone_def)
  from 1 2 3 have "race_step\<^sup>*\<^sup>* (demo_tasks, demo_race)
     (s', [lone ''t1'' StatusDone (RaceSwap StatusExecuting), lone ''t1'' StatusFailed (RaceWon StatusExecuting)])"
    by (meson converse_rtranclp_into_rtranclp rtranclp.rtrancl_refl)
  then show ?thesis by blast
qed

theorem one_racer_finishes_a_task_witness:
  "\<exists>s' rs'. race_step\<^sup>*\<^sup>* (demo_tasks, demo_race) (s', rs') \<and> won_by rs' 1
     \<and> status_of s' ''t1'' = Some StatusFailed"
proof -
  obtain s' where run: "race_step\<^sup>*\<^sup>* (demo_tasks, demo_race)
     (s', [lone ''t1'' StatusDone (RaceSwap StatusExecuting), lone ''t1'' StatusFailed (RaceWon StatusExecuting)])"
    using demo_race_run by blast
  have "distinct (map t_id (tasks demo_tasks))" "\<forall>r \<in> set demo_race. rc_pc r = RaceStart"
    by (simp_all add: demo_task_defs demo_race_def lone_def)
  from one_racer_finishes_a_task [OF run this, of 1]
  have "status_of s' ''t1'' = Some StatusFailed" by (simp add: won_by_def lone_def isTerminalStatus_def)
  with run show ?thesis by (intro exI conjI) (assumption, simp add: won_by_def lone_def)
qed

text \<open>
  A call of \<open>Transition\<close> nobody interferes with is one run of the racing machine: the machine
  reaches, for the lone caller, the result \<open>Transition\<close> returns and the statuses it leaves.
\<close>

theorem transition_refines_race:
  assumes "healthy_tasks s" and "status_of s i \<noteq> None"
    and "run_state (Transition e trace i to) s = (r, s')"
  shows "\<exists>s1 p. race_step\<^sup>*\<^sup>* (s, [lone i to RaceStart]) (s1, [lone i to p])
    \<and> race_result p = Some r \<and> status_of s1 = status_of s'"
  using assms by (rule Transition_is_race)

theorem transition_refines_race_witness:
  "\<exists>s1 p. race_step\<^sup>*\<^sup>* (demo_tasks, [lone ''t2'' StatusExecuting RaceStart]) (s1, [lone ''t2'' StatusExecuting p])
    \<and> race_result p = Some (Inl ErrIllegalTransition) \<and> status_of s1 ''t2'' = Some StatusDone"
proof -
  have row: "find (\<lambda>r. t_id r = ''t2'') (tasks demo_tasks) = Some (demo_row ''t2'' StatusDone)"
    by (simp add: demo_task_defs)
  have ok: "faults demo_tasks = []" by (simp add: demo_task_defs)
  obtain r s' where run: "run_state (Transition demo_env ''trace'' ''t2'' StatusExecuting) demo_tasks = (r, s')"
    by (metis prod.collapse)
  moreover have "\<not> IsLegalTransition StatusDone StatusExecuting" by (simp add: IsLegalTransition_def)
  ultimately have "r = Inl ErrIllegalTransition" "status_of s' = status_of demo_tasks"
    using run_Transition_illegal [OF ok row, of StatusExecuting demo_env "''trace''"] by (auto simp: demo_row_def)
  with transition_refines_race [OF demo_healthy(1) _ run] demo_status(2) show ?thesis
    by (metis option.distinct(1))
qed

section \<open>Receipts\<close>

text \<open>
  C22. Whatever the daemon does, in any order and under any failures, a (task, tool, arguments) key
  has at most one live attempt (intent, executing or receipt), and the ids of attempts are unique.
\<close>

theorem one_live_call_per_key:
  assumes "live_unique s" and "list_all (op_allowed e) ops"
  shows "live_unique (run_daemon e ops s)"
  using live.keeps_run_daemon [OF assms(2), of s] assms(1) by (simp add: keeps_live_unique_def)

theorem one_live_call_per_key_witness:
  "live_unique (run_daemon demo_env [Step (TaskExecute demo_codec demo_input demo_effect),
     Step (TaskExecute demo_codec demo_input demo_effect), Step TaskScan]
     (demo_calls [demo_call 1 ClassW2 CallFailed, demo_call 2 ClassW2 CallExecuting]))"
proof (rule one_live_call_per_key)
  show "live_unique (demo_calls [demo_call 1 ClassW2 CallFailed, demo_call 2 ClassW2 CallExecuting])"
    by (auto simp: live_unique_def demo_task_defs call_live_def inj_on_def)
  have "state_io_rel same_task_tables demo_effect"
    by (simp add: demo_effect_def state_io_rel_def same_task_tables_def)
  then show "list_all (op_allowed demo_env) [Step (TaskExecute demo_codec demo_input demo_effect),
     Step (TaskExecute demo_codec demo_input demo_effect), Step TaskScan]" by simp
qed







text \<open>
  A call whose key has an attempt in flight without a receipt does not wait forever: after the
  bounded number of attempts it returns \<open>ErrToolCallClaimTimeout\<close> and has changed nothing.
\<close>

theorem claim_gives_up:
  assumes "faults s = []" and "no_receipt ei s" and "attempt_in_flight ei s"
  shows "run_state (claimIntent c ei) s = (Inl ErrToolCallClaimTimeout, s)"
  unfolding claimIntent_def by (rule run_claim_timeout [OF assms])

theorem claim_gives_up_witness:
  "fst (run_state (claimIntent demo_codec demo_input) (demo_calls [demo_call 1 ClassW2 CallExecuting]))
     = Inl ErrToolCallClaimTimeout"
proof -
  let ?s = "demo_calls [demo_call 1 ClassW2 CallExecuting]"
  have "faults ?s = []" "no_receipt demo_input ?s" "attempt_in_flight demo_input ?s"
    by (simp_all add: no_receipt_def attempt_in_flight_def demo_task_defs demo_input_def call_key_def tc_key_def call_live_def)
  from claim_gives_up [OF this] show ?thesis by simp
qed

section \<open>Resume and retry\<close>



text \<open>
  A W1 call without a receipt is retried while the attempts of its key are within the cap:
  then exactly one resume row is enqueued and the status stays; beyond the cap the task is blocked
  and nothing is enqueued.
\<close>

theorem w1_retry_is_capped:
  assumes "healthy_tasks s" and "status_of s (t_id t) = Some StatusExecuting"
    and "newest_receiptless s (t_id t) = Some row" and "tc_class row = ClassW1"
  shows "\<exists>s'. run_state (ProcessTask e t) s = (Inr (), s') \<and>
    (if int (count_where (\<lambda>r. tc_key r = (t_id t, tc_tool row, tc_args_hash row)) (calls s)) \<le> te_w1_max_auto e
     then status_of s' = status_of s \<and> outbox s' = outbox s @ [resume_row s (t_trace t) (t_id t) (clock s) (clock s)]
     else status_of s' (t_id t) = Some StatusBlockedUser \<and> outbox s' = outbox s)"
proof -
  have ok: "faults s = []" using assms(1) by (simp add: healthy_tasks_def)
  let ?n = "count_where (\<lambda>r. tc_key r = (t_id t, tc_tool row, tc_args_hash row)) (calls s)"
  let ?s = "failed_call (clock s) (tc_id row) s"
  have "row \<in> set (filter (\<lambda>r. tc_task r = t_id t \<and> tc_status r \<in> {CallIntent, CallExecuting}) (calls s))"
    using assms(3) unfolding newest_receiptless_def
    by (metis (no_types, lifting) list.case_eq_if list.set_sel(1) option.inject option.distinct(1) set_rev set_sort)
  then have "row \<in> set (calls s)" "tc_key row = (t_id t, tc_tool row, tc_args_hash row)"
    by (auto simp: tc_key_def)
  then have "0 < ?n" by (auto simp: count_where_pos)
  then have n: "0 < int ?n" by simp
  have s: "healthy_tasks ?s" "status_of ?s (t_id t) = Some StatusExecuting" "status_of ?s (t_id t) \<noteq> None"
    "resume_row ?s = resume_row s"
    using assms by (simp_all add: resume_row_def fun_eq_iff)
  show ?thesis
    unfolding run_ProcessTask_receiptless [OF ok assms(3)]
    using run_enqueueResume [OF s(1,3), of "t_trace t"] run_blocks(2) [OF s(1,2) n, of e "t_trace t" "tc_tool row"]
    by (auto simp: assms(4) Let_def s(4))
qed

theorem w1_retry_is_capped_witness:
  "(\<exists>s'. run_state (ProcessTask demo_env (demo_row ''t1'' StatusExecuting))
      (demo_calls [demo_call 1 ClassW1 CallExecuting]) = (Inr (), s') \<and> length (outbox s') = 1)
   \<and> (\<exists>s'. run_state (ProcessTask (demo_env\<lparr>te_w1_max_auto := 0\<rparr>) (demo_row ''t1'' StatusExecuting))
      (demo_calls [demo_call 1 ClassW1 CallExecuting]) = (Inr (), s') \<and> outbox s' = [])"
proof -
  let ?s = "demo_calls [demo_call 1 ClassW1 CallExecuting]" and ?t = "demo_row ''t1'' StatusExecuting"
  let ?row = "demo_call 1 ClassW1 CallExecuting"
  have row: "newest_receiptless ?s (t_id ?t) = Some ?row"
    by (simp add: newest_receiptless_def demo_task_defs)
  have status: "status_of ?s (t_id ?t) = Some StatusExecuting"
    using demo_status(3) by (simp add: demo_row_def)
  have w1: "tc_class ?row = ClassW1" by (simp add: demo_call_def)
  have n: "int (count_where (\<lambda>r. tc_key r = (t_id ?t, tc_tool ?row, tc_args_hash ?row)) (calls ?s)) = 1"
    "te_w1_max_auto demo_env = 3" "outbox ?s = []"
    by (simp_all add: count_where_def demo_task_defs tc_key_def)
  note capped = w1_retry_is_capped [OF demo_healthy(2) status row w1, unfolded n(1,3)]
  show ?thesis
    using capped [of demo_env] capped [of "demo_env\<lparr>te_w1_max_auto := 0\<rparr>"] by (auto simp: n(2))
qed

text \<open>
  An executing task whose cloud call failed is given up exactly when it has reached the age
  limit; otherwise it waits for the delay of the schedule: its row carries the time of the next
  attempt, and exactly one resume row becomes available at that time.
\<close>

theorem cloud_failure_parks_or_gives_up:
  assumes "healthy_tasks s" and "find (\<lambda>r. t_id r = task) (tasks s) = Some t" and "t_status t = StatusExecuting"
  shows "\<exists>s'. run_state (ParkOrGiveUp e trace task) s = (Inr (), s') \<and>
     (if hasExceededGiveUp e (clock s) t
      then status_of s' = (status_of s)(task \<mapsto> StatusFailed) \<and> outbox s' = outbox s
      else status_of s' = (status_of s)(task \<mapsto> StatusRetryWait)
        \<and> outbox s' = outbox s @ [resume_row s trace task (clock s) (clock s + retry_delay e (t_attempts t))]
        \<and> map_option t_next_retry (find (\<lambda>r. t_id r = task) (tasks s'))
            = Some (Some (Stamp (clock s + retry_delay e (t_attempts t)))))"
  using assms by (rule run_ParkOrGiveUp)

theorem cloud_failure_parks_or_gives_up_witness:
  "(\<exists>s'. run_state (ParkOrGiveUp demo_env ''trace'' ''t1'') demo_tasks = (Inr (), s')
      \<and> status_of s' ''t1'' = Some StatusRetryWait \<and> map ob_available (outbox s') = [Some (Stamp (100 + 5 * minute_ns))])
   \<and> (\<exists>s'. run_state (ParkOrGiveUp demo_env ''trace'' ''t1'') (demo_tasks\<lparr>clock := 24 * hour_ns\<rparr>) = (Inr (), s')
      \<and> status_of s' ''t1'' = Some StatusFailed)"
proof -
  have row: "find (\<lambda>r. t_id r = ''t1'') (tasks demo_tasks) = Some (demo_row ''t1'' StatusExecuting)"
    "find (\<lambda>r. t_id r = ''t1'') (tasks (demo_tasks\<lparr>clock := 24 * hour_ns\<rparr>)) = Some (demo_row ''t1'' StatusExecuting)"
    "t_status (demo_row ''t1'' StatusExecuting) = StatusExecuting" "t_attempts (demo_row ''t1'' StatusExecuting) = 2"
    "clock demo_tasks = 100" "outbox demo_tasks = []" "healthy_tasks (demo_tasks\<lparr>clock := 24 * hour_ns\<rparr>)"
    by (simp_all add: demo_task_defs healthy_tasks_def)
  have young: "\<not> hasExceededGiveUp demo_env 100 (demo_row ''t1'' StatusExecuting)"
    and old: "hasExceededGiveUp demo_env (24 * hour_ns) (demo_row ''t1'' StatusExecuting)"
    by (simp_all add: hasExceededGiveUp_def demo_task_defs defaultCloudGiveUpAfter_def hour_ns_def minute_ns_def second_ns_def)
  have delay: "retry_delay demo_env 2 = 5 * minute_ns"
    by (simp add: retry_delay_def demo_env_def defaultCloudRetrySchedule_def)
  show ?thesis
    using cloud_failure_parks_or_gives_up [OF demo_healthy(1) row(1,3), of demo_env "''trace''"]
      cloud_failure_parks_or_gives_up [OF row(7,2,3), of demo_env "''trace''"]
    by (auto simp: row young old delay resume_row_def)
qed

text \<open>
  The delay before the next attempt is always one of the schedule, whatever the number of
  attempts (0 and negative ones included) and whatever the configuration, and it does not shrink
  with further attempts when the schedule is ascending.
\<close>

theorem retry_delay_on_schedule:
  "retry_delay (NewCloudRetry e) n \<in> set (te_schedule (NewCloudRetry e))
   \<and> (\<not> sorted (te_schedule (NewCloudRetry e)) \<or> retry_delay (NewCloudRetry e) n \<le> retry_delay (NewCloudRetry e) (n + int k))"
  using retry_delay_mem [OF NewCloudRetry_schedule(1)] retry_delay_mono [OF NewCloudRetry_schedule(1), of e n "n + int k"]
  by auto

theorem retry_delay_on_schedule_witness:
  "retry_delay (NewCloudRetry demo_env) (-3) \<le> retry_delay (NewCloudRetry demo_env) ((-3) + int 5)"
proof -
  have "sorted (te_schedule (NewCloudRetry demo_env))"
    by (simp add: NewCloudRetry_def Let_def demo_env_def defaultCloudRetrySchedule_def defaultCloudGiveUpAfter_def
        hour_ns_def minute_ns_def second_ns_def)
  with retry_delay_on_schedule [of demo_env "-3" 5] show ?thesis by blast
qed

section \<open>Outbox and halt\<close>

text \<open>
  Outbox rows never disappear, keep their payload and their task, and a delivered row stays
  delivered, a cancelled row cancelled, whatever the daemon does and whatever calls fail; so a row
  that was delivered or cancelled is never due again.
\<close>

theorem settled_rows_stay_settled:
  assumes "list_all (op_allowed e) ops" and "r \<in> set (outbox s)"
  shows "\<exists>r' \<in> set (outbox (run_daemon e ops s)). ob_id r' = ob_id r \<and> ob_payload r' = ob_payload r
    \<and> ob_task r' = ob_task r
    \<and> (ob_dispatched r \<noteq> None \<or> ob_canceled r \<noteq> None \<longrightarrow> (\<forall>at. \<not> due_row (run_daemon e ops s) at r'))"
proof -
  from settles.keeps_run_daemon [OF assms(1), of s] assms(2) obtain r' where
    "r' \<in> set (outbox (run_daemon e ops s))" "row_settles r r'"
    unfolding outbox_settles_def by blast
  then show ?thesis by (intro bexI [of _ r']) (auto simp: row_settles_def due_row_def)
qed

definition demo_outbox :: store where
  "demo_outbox = demo_tasks\<lparr>outbox := [(resume_row demo_tasks ''trace'' ''t1'' 10 10)\<lparr>ob_dispatched := Some (Stamp 50)\<rparr>,
     (resume_row demo_tasks ''trace'' ''t2'' 10 10)\<lparr>ob_id := 2\<rparr>], next_outbox := 3\<rparr>"

theorem settled_rows_stay_settled_witness:
  "\<exists>r'. r' \<in> set (outbox (run_daemon demo_env [Step TaskScan, Step (TaskClock 9999)] demo_outbox))
     \<and> ob_id r' = 1 \<and> \<not> due_row (run_daemon demo_env [Step TaskScan, Step (TaskClock 9999)] demo_outbox) (Stamp 9999) r'"
proof -
  let ?r = "(resume_row demo_tasks ''trace'' ''t1'' 10 10)\<lparr>ob_dispatched := Some (Stamp 50)\<rparr>"
  have "?r \<in> set (outbox demo_outbox)" by (simp add: demo_outbox_def)
  from settled_rows_stay_settled [OF _ this, of demo_env "[Step TaskScan, Step (TaskClock 9999)]"]
  obtain r' where "r' \<in> set (outbox (run_daemon demo_env [Step TaskScan, Step (TaskClock 9999)] demo_outbox))"
    "ob_id r' = ob_id ?r"
    "\<forall>at. \<not> due_row (run_daemon demo_env [Step TaskScan, Step (TaskClock 9999)] demo_outbox) at r'"
    by auto
  moreover have "ob_id ?r = 1" by (simp add: resume_row_def demo_task_defs)
  ultimately show ?thesis by auto
qed

text \<open>
  A lease is exclusive: after a dispatcher has claimed a row at time \<open>t\<close> with lease \<open>d\<close>, no claim of
  that row made by anybody up to \<open>t + d\<close> succeeds, whatever claims, renewals, deliveries,
  cancellations and insertions are interleaved and whatever calls fail.
\<close>

theorem lease_is_exclusive:
  assumes "outbox_keys s" and "fst (lease_step d (LeaseClaim t i) s)"
    and "\<forall>op \<in> set ops. t \<le> lease_time op \<and> lease_time op \<le> t + d"
  shows "wins d i (LeaseClaim t i # ops) s = 1"
proof -
  have "wins d i ops (snd (lease_step d (LeaseClaim t i) s)) = 0"
    by (rule wins_in_lease [OF claim_establishes [OF assms(1,2)]]) (use assms(3) in auto)
  with assms(2) show ?thesis by (simp del: lease_step.simps)
qed

theorem lease_is_exclusive_witness:
  "wins 120 2 [LeaseClaim 1000 2, LeaseTick 1030 2, LeaseClaim 1060 2, LeaseCancel 1070 ''t2'', LeaseClaim 1120 2] demo_outbox = 1"
proof (rule lease_is_exclusive)
  show "outbox_keys demo_outbox"
    by (simp add: outbox_keys_def demo_outbox_def resume_row_def demo_task_defs)
  show "fst (lease_step 120 (LeaseClaim 1000 2) demo_outbox)"
    by (simp add: ClaimOutboxRow_def run_db_no_faults demo_outbox_def demo_task_defs resume_row_def Let_def
        count_where_def lease_free_def)
qed simp




section \<open>What the code does not do\<close>

text \<open>
  A task that is still \<open>intent\<close> is reported as halted and keeps its status, so that it may still
  start to execute.
\<close>

lemma halt_misses_intent:
  assumes "healthy_tasks s" and "find (\<lambda>r. t_id r = task) (tasks s) = Some t"
    and "t_status t = StatusIntent" and "he_policy h = None"
  shows "\<exists>s'. run_state (HaltTask h task) s = (Inr True, s') \<and> status_of s' task = Some StatusIntent"
  using assms by (rule HaltTask_intent)

text \<open>A receipt that has been committed can be overwritten by a late \<open>MarkToolCallFailed\<close>.\<close>

lemma receipt_is_overwritten:
  assumes "faults s = []" and "row \<in> set (calls s)" and "tc_status row = CallReceipt"
  shows "\<forall>r \<in> set (calls (snd (run_state (MarkToolCallFailed (Stamp t) (tc_id row)) s))).
     tc_id r = tc_id row \<longrightarrow> tc_status r = CallFailed"
  using failed_call_failed by (simp add: run_MarkToolCallFailed [OF assms(1)])

text \<open>
  A resume row whose task has finished meanwhile is claimed and left as it is: it stays undelivered
  and becomes due again with every expiry of its lease.
\<close>

lemma finished_row_is_never_delivered:
  assumes "healthy_tasks s" and "find (\<lambda>r. t_id r = task) (tasks s) = Some t"
    and "t_status t = StatusDone \<or> t_status t = StatusFailed" and "ob_payload row = ResumePayload task"
  shows "outbox (snd (run_state (processResume o1 row) s)) = outbox s"
proof -
  have ok: "faults s = []" using assms(1) by (simp add: healthy_tasks_def)
  have id: "t_id t = task" using find_Some_in [OF assms(2)] by simp
  have "t_status t \<noteq> StatusExecuting" "\<not> IsLegalTransition (t_status t) StatusExecuting"
    "t_status t \<noteq> StatusUserHalted" "t_status t \<noteq> StatusBlockedUser"
    using assms(3) by (auto simp: IsLegalTransition_def)
  then show ?thesis
    using run_Transition_illegal [OF ok assms(2)]
    by (simp add: processResume_def assms(4) run_GetTaskByID ok assms(2) outbox_ledger_def run_task_ledger id
        split: option.split)
qed

end
