(* ===== verification/Go_Net.thy ===== *)
theory Go_Net
  imports Kahya_Prelude "HOL-Library.Word"
begin

text \<open>
  The parts of Go's \<open>net\<close> package the egress gate uses: \<open>net.ParseIP\<close> (through
  \<open>netip.ParseAddr\<close>), \<open>IP.String\<close>, the tests for loopback and link-local addresses and
  \<open>IPNet.Contains\<close>, splitting and joining of host and port, \<open>strconv.Atoi\<close>,
  base64 and 64-bit addition.  An address is its 16-byte form (or the 4-byte form of a resolver's
  answer), each byte a number below 256; a zone is refused by \<open>net.ParseIP\<close>.
\<close>

type_synonym ip = "nat list"

section \<open>Parsing\<close>

definition dec_digit :: "char \<Rightarrow> nat option" where
  "dec_digit c = (let n = of_char c :: nat in if 48 \<le> n \<and> n \<le> 57 then Some (n - 48) else None)"

text \<open>One field of a dotted address: digits without a leading zero, at most 255.\<close>

fun dec_value :: "string \<Rightarrow> nat \<Rightarrow> nat option" where
  "dec_value [] acc = Some acc"
| "dec_value (c # cs) acc = (case dec_digit c of
     None \<Rightarrow> None
   | Some d \<Rightarrow> if 255 < acc * 10 + d then None else dec_value cs (acc * 10 + d))"

definition ipv4_field :: "string \<Rightarrow> nat option" where
  "ipv4_field f = (if f = [] \<or> (hd f = CHR ''0'' \<and> 1 < length f) then None else dec_value f 0)"

fun all_some :: "'a option list \<Rightarrow> 'a list option" where
  "all_some [] = Some []"
| "all_some (None # xs) = None"
| "all_some (Some x # xs) = map_option ((#) x) (all_some xs)"

definition parse_ipv4 :: "string \<Rightarrow> nat list option" where
  "parse_ipv4 s = (let fs = split_on (CHR ''.'') s
     in if length fs = 4 then all_some (map ipv4_field fs) else None)"

text \<open>A group of an IPv6 address: one to four hexadecimal digits.\<close>

definition hex_group :: "string \<Rightarrow> nat option" where
  "hex_group ds = foldl (\<lambda>acc c. case (acc, hex_value c) of (Some a, Some d) \<Rightarrow> Some (16 * a + d) | _ \<Rightarrow> None) (Some 0) ds"

definition is_hex :: "char \<Rightarrow> bool" where
  "is_hex c \<longleftrightarrow> hex_value c \<noteq> None"

text \<open>
  The loop of \<open>parseIPv6\<close>: bytes read so far, position of the ellipsis, rest of the text.  The
  fuel counts the rounds; 9 are enough for the 8 groups of an address.
\<close>

fun ipv6_groups :: "nat \<Rightarrow> nat list \<Rightarrow> nat option \<Rightarrow> string \<Rightarrow> (nat list \<times> nat option) option" where
  "ipv6_groups 0 bs el s = None"
| "ipv6_groups (Suc k) bs el s =
     (if 16 \<le> length bs then (if s = [] then Some (bs, el) else None)
      else let ds = takeWhile is_hex s; rest = dropWhile is_hex s in
        if ds = [] \<or> 4 < length ds then None
        else (case rest of
          [] \<Rightarrow> (case hex_group ds of None \<Rightarrow> None
                 | Some g \<Rightarrow> Some (bs @ [g div 256, g mod 256], el))
        | c # cs \<Rightarrow>
            if c = CHR ''.'' then
              (if el = None \<and> length bs \<noteq> 12 then None
               else if 16 < length bs + 4 then None
               else map_option (\<lambda>q. (bs @ q, el)) (parse_ipv4 s))
            else if c \<noteq> CHR '':'' \<or> cs = [] then None
            else (case hex_group ds of None \<Rightarrow> None
              | Some g \<Rightarrow>
                let bs' = bs @ [g div 256, g mod 256] in
                if hd cs = CHR '':'' then
                  (if el \<noteq> None then None
                   else if tl cs = [] then Some (bs', Some (length bs'))
                   else ipv6_groups k bs' (Some (length bs')) (tl cs))
                else ipv6_groups k bs' el cs)))"

definition parse_ipv6 :: "string \<Rightarrow> ip option" where
  "parse_ipv6 s0 =
     (let lead = is_prefix ''::'' s0; s = (if lead then drop 2 s0 else s0) in
      if lead \<and> s = [] then Some (replicate 16 0)
      else (case ipv6_groups 9 [] (if lead then Some 0 else None) s of
        None \<Rightarrow> None
      | Some (bs, el) \<Rightarrow>
          (case el of
             None \<Rightarrow> if length bs = 16 then Some bs else None
           | Some p \<Rightarrow> if length bs < 16 then Some (take p bs @ replicate (16 - length bs) 0 @ drop p bs) else None)))"

text \<open>The first of dot, colon and percent sign decides what the text is.\<close>

definition ip_mark :: "char \<Rightarrow> bool" where
  "ip_mark c \<longleftrightarrow> c = CHR ''.'' \<or> c = CHR '':'' \<or> c = CHR ''%''"

definition ParseIP :: "string \<Rightarrow> ip option" where
  "ParseIP s = (case find ip_mark s of
     None \<Rightarrow> None
   | Some c \<Rightarrow>
       if c = CHR ''.'' then map_option (\<lambda>q. replicate 10 0 @ [255, 255] @ q) (parse_ipv4 s)
       else if c = CHR '':'' then (if CHR ''%'' \<in> set s then None else parse_ipv6 s)
       else None)"

section \<open>Printing\<close>

fun dec_text_fuel :: "nat \<Rightarrow> nat \<Rightarrow> string" where
  "dec_text_fuel 0 n = []"
| "dec_text_fuel (Suc k) n = (if n < 10 then [digit_char n] else dec_text_fuel k (n div 10) @ [digit_char n])"

text \<open>Numbers below 1000, in decimal; groups below 65536, in hexadecimal without leading zeros.\<close>

definition byte_text :: "nat \<Rightarrow> string" where
  "byte_text n = dec_text_fuel 3 n"

definition group_text :: "nat \<Rightarrow> string" where
  "group_text n =
     (let ds = map hex_char [n div 4096 mod 16, n div 256 mod 16, n div 16 mod 16, n mod 16];
          tr = dropWhile (\<lambda>c. c = CHR ''0'') ds
      in if tr = [] then ''0'' else tr)"

fun join_with :: "string \<Rightarrow> string list \<Rightarrow> string" where
  "join_with sep [] = []"
| "join_with sep [x] = x"
| "join_with sep (x # xs) = x @ sep @ join_with sep xs"

definition ipv4_text :: "nat list \<Rightarrow> string" where
  "ipv4_text bs = join_with ''.'' (map byte_text bs)"

definition to4 :: "ip \<Rightarrow> nat list option" where
  "to4 a = (if length a = 4 then Some a else if length a = 16 \<and> take 10 a = replicate 10 0 \<and> take 2 (drop 10 a) = [255, 255] then Some (drop 12 a) else None)"

fun byte_pairs :: "nat list \<Rightarrow> nat list" where
  "byte_pairs (h # l # bs) = (256 * h + l) # byte_pairs bs"
| "byte_pairs _ = []"

text \<open>The first longest run of at least two zero groups: its start and length.\<close>

definition zero_run :: "nat list \<Rightarrow> nat \<Rightarrow> nat" where
  "zero_run gs i = length (takeWhile (\<lambda>g. g = 0) (drop i gs))"

definition longest_zeros :: "nat list \<Rightarrow> (nat \<times> nat) option" where
  "longest_zeros gs = fold (\<lambda>i best.
     let l = zero_run gs i in
     if 2 \<le> l \<and> (case best of None \<Rightarrow> True | Some (_, m) \<Rightarrow> m < l) then Some (i, l) else best)
     [0..<length gs] None"

definition ipv6_text :: "nat list \<Rightarrow> string" where
  "ipv6_text gs = (case longest_zeros gs of
     None \<Rightarrow> join_with '':'' (map group_text gs)
   | Some (i, l) \<Rightarrow> join_with '':'' (map group_text (take i gs)) @ ''::''
                    @ join_with '':'' (map group_text (drop (i + l) gs)))"

definition ip_string :: "ip \<Rightarrow> string" where
  "ip_string a = (case to4 a of Some q \<Rightarrow> ipv4_text q | None \<Rightarrow> ipv6_text (byte_pairs a))"

section \<open>Classes of addresses\<close>

definition IsLoopback :: "ip \<Rightarrow> bool" where
  "IsLoopback a \<longleftrightarrow> (case to4 a of Some q \<Rightarrow> q ! 0 = 127 | None \<Rightarrow> a = replicate 15 0 @ [1])"

definition IsLinkLocalUnicast :: "ip \<Rightarrow> bool" where
  "IsLinkLocalUnicast a \<longleftrightarrow> (case to4 a of
     Some q \<Rightarrow> q ! 0 = 169 \<and> q ! 1 = 254
   | None \<Rightarrow> length a = 16 \<and> a ! 0 = 254 \<and> a ! 1 div 64 = 2)"

definition IsLinkLocalMulticast :: "ip \<Rightarrow> bool" where
  "IsLinkLocalMulticast a \<longleftrightarrow> (case to4 a of
     Some q \<Rightarrow> q ! 0 = 224 \<and> q ! 1 = 0 \<and> q ! 2 = 0
   | None \<Rightarrow> length a = 16 \<and> a ! 0 = 255 \<and> a ! 1 mod 16 = 2)"

text \<open>The bits of a sequence of bytes, most significant first, and a CIDR as its leading bits.\<close>

definition byte_bits :: "nat \<Rightarrow> bool list" where
  "byte_bits b = map (\<lambda>i. b div 2 ^ i mod 2 = 1) [7, 6, 5, 4, 3, 2, 1, 0]"

definition cidr_contains :: "nat list \<times> nat \<Rightarrow> ip \<Rightarrow> bool" where
  "cidr_contains net a \<longleftrightarrow>
     (let addr = (case to4 a of Some q \<Rightarrow> q | None \<Rightarrow> a)
      in length addr = length (fst net)
         \<and> take (snd net) (concat (map byte_bits addr)) = take (snd net) (concat (map byte_bits (fst net))))"

section \<open>Host and port\<close>

text \<open>The offset of the last occurrence of a byte, and \<open>net.SplitHostPort\<close>.\<close>

definition last_index :: "string \<Rightarrow> char \<Rightarrow> nat option" where
  "last_index s c = (if c \<in> set s then Some (length s - 1 - length (takeWhile (\<lambda>x. x \<noteq> c) (rev s))) else None)"

definition SplitHostPort :: "string \<Rightarrow> (string \<times> string) option" where
  "SplitHostPort s = (case last_index s (CHR '':'') of
     None \<Rightarrow> None
   | Some i \<Rightarrow>
       let port = drop (Suc i) s in
       if is_prefix ''['' s then
         (case str_index s '']'' of
            None \<Rightarrow> None
          | Some e \<Rightarrow>
              if Suc e \<noteq> i then None
              else if CHR ''['' \<in> set (drop 1 s) \<or> CHR '']'' \<in> set (drop (Suc e) s) then None
              else Some (take (e - 1) (drop 1 s), port))
       else if CHR '':'' \<in> set (take i s) \<or> CHR ''['' \<in> set s \<or> CHR '']'' \<in> set s then None
       else Some (take i s, port))"

definition JoinHostPort :: "string \<Rightarrow> string \<Rightarrow> string" where
  "JoinHostPort h p = (if CHR '':'' \<in> set h \<or> CHR ''%'' \<in> set h then ''['' @ h @ '']:'' @ p else h @ '':'' @ p)"

text \<open>\<open>strconv.Atoi\<close>: an optional sign, then decimal digits, within 64 bits.\<close>

fun digits_value :: "string \<Rightarrow> int \<Rightarrow> int option" where
  "digits_value [] acc = Some acc"
| "digits_value (c # cs) acc = (case dec_digit c of None \<Rightarrow> None | Some d \<Rightarrow> digits_value cs (10 * acc + int d))"

definition Atoi :: "string \<Rightarrow> int option" where
  "Atoi s =
     (let neg = is_prefix ''-'' s; ds = (if neg \<or> is_prefix ''+'' s then tl s else s) in
      if ds = [] then None
      else (case digits_value ds 0 of
        None \<Rightarrow> None
      | Some n \<Rightarrow> (let k = (if neg then - n else n) in
          if - (2 ^ 63) \<le> k \<and> k < 2 ^ 63 then Some k else None)))"

section \<open>Base64\<close>

text \<open>
  \<open>base64.StdEncoding.DecodeString\<close>: line breaks are skipped, four characters give three bytes,
  and one or two equals signs may only close the text.
\<close>

definition b64_value :: "char \<Rightarrow> nat option" where
  "b64_value c = (let n = of_char c :: nat in
     if 65 \<le> n \<and> n \<le> 90 then Some (n - 65)
     else if 97 \<le> n \<and> n \<le> 122 then Some (n - 71)
     else if 48 \<le> n \<and> n \<le> 57 then Some (n + 4)
     else if n = 43 then Some 62 else if n = 47 then Some 63 else None)"

fun b64_groups :: "string \<Rightarrow> string option" where
  "b64_groups [] = Some []"
| "b64_groups (a # b # c # d # cs) =
     (case (b64_value a, b64_value b) of
        (Some x, Some y) \<Rightarrow>
          if c = CHR ''='' then (if d = CHR ''='' \<and> cs = [] then Some [char_of (4 * x + y div 16)] else None)
          else (case b64_value c of
            None \<Rightarrow> None
          | Some z \<Rightarrow>
              if d = CHR ''='' then
                (if cs = [] then Some (map char_of [4 * x + y div 16, 16 * (y mod 16) + z div 4]) else None)
              else (case (b64_value d, b64_groups cs) of
                (Some w, Some r) \<Rightarrow>
                  Some (map char_of [4 * x + y div 16, 16 * (y mod 16) + z div 4, 64 * (z mod 4) + w] @ r)
              | _ \<Rightarrow> None))
      | _ \<Rightarrow> None)"
| "b64_groups _ = None"

definition b64_decode :: "string \<Rightarrow> string option" where
  "b64_decode s = b64_groups (filter (\<lambda>c. c \<noteq> CHR 0x0A \<and> c \<noteq> CHR 0x0D) s)"

section \<open>64-bit addition\<close>

type_synonym int64 = "64 word"

lemma sint_add_exact:
  fixes a b :: int64
  assumes "sint a + sint b < 2 ^ 63" and "- (2 ^ 63) \<le> sint a + sint b"
  shows "sint (a + b) = sint a + sint b"
proof -
  have "sint (a + b) = signed_take_bit 63 (sint a + sint b)"
    by (simp add: sint_word_ariths(1))
  with assms show ?thesis by (simp only: signed_take_bit_int_eq_self)
qed

lemma sint_sub_exact:
  fixes a b :: int64
  assumes "sint a - sint b < 2 ^ 63" and "- (2 ^ 63) \<le> sint a - sint b"
  shows "sint (a - b) = sint a - sint b"
proof -
  have "sint (a - b) = signed_take_bit 63 (sint a - sint b)"
    by (simp add: sint_word_ariths(2))
  with assms show ?thesis by (simp only: signed_take_bit_int_eq_self)
qed

lemma sint64_bounds: "- (2 ^ 63) \<le> sint (a :: int64)" "sint (a :: int64) < 2 ^ 63"
  using sint_ge [of a] sint_lt [of a] by simp_all

lemma sint_of_int64: "- (2 ^ 63) \<le> n \<Longrightarrow> n < 2 ^ 63 \<Longrightarrow> sint (word_of_int n :: int64) = n"
proof -
  assume "- (2 ^ 63) \<le> n" "n < 2 ^ 63"
  then have "signed_take_bit 63 n = n" by (simp only: signed_take_bit_int_eq_self)
  then show ?thesis by (simp add: sint_sbintrunc')
qed

end
