(* ===== verification/Egress.thy ===== *)
theory Egress
  imports Go_Net Policy_Loader
begin

text \<open>
  \<open>kahyad/internal/egress\<close>: the gate every byte leaving the machine is admitted by, its daily
  byte budget, the tracker of sessions that have read secrets, the hook of the model proxy and the
  admission part of the forward proxy containers use.

  The gate is the one \<open>main.go\<close> builds: tracker, budget, ledger and notifier are present.  A
  budget row's counter is a number; a counter outside 64 bits stands for the floating-point value
  SQLite turns an overflowing sum into, which the generated code fails to scan into an \<open>int64\<close>.
  The mutex of the gate makes each of its operations one step.
\<close>

section \<open>Hosts\<close>

text \<open>
  What comes from outside the repository: Unicode lower-casing of a text that is not ASCII, and
  \<open>idna.ToUnicode\<close>, \<open>None\<close> for an error.
\<close>

record host_env =
  hv_lower :: "string \<Rightarrow> string"
  hv_idna :: "string \<Rightarrow> string option"

definition lower_char :: "char \<Rightarrow> char" where
  "lower_char c = (let n = of_char c :: nat in if 65 \<le> n \<and> n \<le> 90 then char_of (n + 32) else c)"

definition ToLower :: "host_env \<Rightarrow> string \<Rightarrow> string" where
  "ToLower v s = (if list_all (\<lambda>c. of_char c < (128 :: nat)) s then map lower_char s else hv_lower v s)"

definition strip_brackets :: "string \<Rightarrow> string" where
  "strip_brackets h = (if is_prefix ''['' h \<and> is_prefix '']'' (rev h) then butlast (tl h) else h)"

definition trim_dot :: "string \<Rightarrow> string" where
  "trim_dot h = (if is_prefix ''.'' (rev h) then butlast h else h)"

definition CanonicalizeHost :: "host_env \<Rightarrow> string \<Rightarrow> string option" where
  "CanonicalizeHost v raw =
     (let h = trim_space raw in
      if h = '''' then None
      else let h1 = trim_dot (ToLower v (strip_brackets h)) in
        (case ParseIP h1 of
           Some a \<Rightarrow> Some (ip_string a)
         | None \<Rightarrow> (case hv_idna v h1 of Some u \<Rightarrow> Some u | None \<Rightarrow> Some h1)))"

definition IsIPLiteral :: "string \<Rightarrow> bool" where
  "IsIPLiteral h \<longleftrightarrow> ParseIP h \<noteq> None"

text \<open>\<open>10.0.0.0/8\<close>, \<open>172.16.0.0/12\<close>, \<open>192.168.0.0/16\<close>, \<open>fc00::/7\<close>.\<close>

definition privateCIDRs :: "(nat list \<times> nat) list" where
  "privateCIDRs = [([10, 0, 0, 0], 8), ([172, 16, 0, 0], 12), ([192, 168, 0, 0], 16),
     (252 # replicate 15 0, 7)]"

definition private_ip :: "ip \<Rightarrow> bool" where
  "private_ip a \<longleftrightarrow> IsLoopback a \<or> IsLinkLocalUnicast a \<or> IsLinkLocalMulticast a
     \<or> list_ex (\<lambda>net. cidr_contains net a) privateCIDRs"

definition isPrivateOrLinkLocal :: "string \<Rightarrow> bool" where
  "isPrivateOrLinkLocal h \<longleftrightarrow> (case ParseIP h of None \<Rightarrow> False | Some a \<Rightarrow> private_ip a)"

section \<open>The byte budget\<close>

definition bg_key :: "budget_row \<Rightarrow> string \<times> string" where
  "bg_key r = (bg_host r, bg_day r)"

definition in_int64 :: "int \<Rightarrow> bool" where
  "in_int64 n \<longleftrightarrow> - (2 ^ 63) \<le> n \<and> n < 2 ^ 63"

definition GetEgressBudget :: "string \<Rightarrow> string \<Rightarrow> (store, budget_row res) state" where
  "GetEgressBudget host day = db (\<lambda>s. (case find (\<lambda>r. bg_key r = (host, day)) (budgets s) of
     None \<Rightarrow> Inl NoRows
   | Some r \<Rightarrow> if in_int64 (bg_bytes r) then Inr r else Inl DecodeError, s))"

definition InsertEgressBudget :: "string \<Rightarrow> string \<Rightarrow> int64 \<Rightarrow> (store, unit res) state" where
  "InsertEgressBudget host day n = db (\<lambda>s.
     if (host, day) \<in> bg_key ` set (budgets s) then (Inl ConstraintError, s)
     else (Inr (), s\<lparr>budgets := budgets s @ [\<lparr>bg_host = host, bg_day = day, bg_bytes = sint n\<rparr>]\<rparr>))"

definition IncrementEgressBudget :: "int64 \<Rightarrow> string \<Rightarrow> string \<Rightarrow> (store, nat res) state" where
  "IncrementEgressBudget n host day = db (\<lambda>s.
     (Inr (count_where (\<lambda>r. bg_key r = (host, day)) (budgets s)),
      s\<lparr>budgets := update_where (\<lambda>r. bg_key r = (host, day)) (\<lambda>r. r\<lparr>bg_bytes := bg_bytes r + sint n\<rparr>) (budgets s)\<rparr>))"

definition budget_Bytes :: "string \<Rightarrow> string \<Rightarrow> (store, int64 res) state" where
  "budget_Bytes host day = do {
     r \<leftarrow> GetEgressBudget host day;
     ret (case r of
            Inl e \<Rightarrow> if e = NoRows then Inr 0 else Inl e
          | Inr row \<Rightarrow> Inr (word_of_int (bg_bytes row)))
   }"

definition budget_Add :: "string \<Rightarrow> string \<Rightarrow> int64 \<Rightarrow> (store, int64 res) state" where
  "budget_Add host day n = do {
     r \<leftarrow> IncrementEgressBudget n host day;
     case r of
       Inl e \<Rightarrow> ret (Inl e)
     | Inr rows \<Rightarrow>
         if rows = 0 then do {
           r2 \<leftarrow> InsertEgressBudget host day n;
           ret (case r2 of Inl e \<Rightarrow> Inl e | Inr _ \<Rightarrow> Inr n)
         } else budget_Bytes host day
   }"

section \<open>Sessions that have read secrets\<close>

definition tracker_Mark :: "string \<Rightarrow> (store, bool) state" where
  "tracker_Mark sid = State (\<lambda>s.
     if sid = '''' \<or> sid \<in> set (marked s) then (False, s) else (True, s\<lparr>marked := sid # marked s\<rparr>))"

definition IsMarked :: "string \<Rightarrow> (store, bool) state" where
  "IsMarked sid = State (\<lambda>s. (sid \<noteq> '''' \<and> sid \<in> set (marked s), s))"

section \<open>The gate\<close>

record target =
  ta_host :: string
  ta_port :: int

record session_info =
  se_session :: string
  se_task :: string
  se_trace :: string

datatype egress_event =
    EventAllowed | EventBlockedSensitive | EventBlockedAllowlist | EventBlockedBudget
  | EventSensitiveMarked | EventMetered | EventBlockedDNSRebind

fun event_name :: "egress_event \<Rightarrow> string" where
  "event_name EventAllowed = ''egress_allowed''"
| "event_name EventBlockedSensitive = ''egress_blocked_sensitive''"
| "event_name EventBlockedAllowlist = ''egress_blocked_allowlist''"
| "event_name EventBlockedBudget = ''egress_blocked_budget''"
| "event_name EventSensitiveMarked = ''sensitive_read_marked''"
| "event_name EventMetered = ''egress_metered''"
| "event_name EventBlockedDNSRebind = ''egress_blocked_dns_rebind''"

record egress_decision =
  ed_allow :: bool
  ed_reason :: "egress_reason option"
  ed_rule :: egress_event

text \<open>
  A gate: the allowlist maps a canonical host to the ports allowed, an empty list meaning any
  port; \<open>gt_day\<close> is the local calendar day of an instant.
\<close>

record gate =
  gt_allowlist :: "string \<rightharpoonup> int list"
  gt_default :: int64
  gt_per_host :: "string \<rightharpoonup> int64"
  gt_day :: "int \<Rightarrow> string"

definition allow_host :: "host_env \<Rightarrow> egress_allow_entry \<Rightarrow> (string \<rightharpoonup> int list) \<Rightarrow> (string \<rightharpoonup> int list)" where
  "allow_host v e m = (case CanonicalizeHost v (ea_host e) of
     None \<Rightarrow> m
   | Some h \<Rightarrow> m(h \<mapsto> (if ea_ports e = [] then [443] else ea_ports e)))"

definition override_budget :: "host_env \<Rightarrow> string \<times> int \<Rightarrow> (string \<rightharpoonup> int64) \<Rightarrow> (string \<rightharpoonup> int64)" where
  "override_budget v hb m = (case CanonicalizeHost v (fst hb) of
     None \<Rightarrow> m | Some h \<Rightarrow> m(h \<mapsto> word_of_int (snd hb)))"

definition NewGate :: "host_env \<Rightarrow> (int \<Rightarrow> string) \<Rightarrow> egress_config \<Rightarrow> gate" where
  "NewGate v day cfg = \<lparr>gt_allowlist = fold (allow_host v) (ec_allowlist cfg) Map.empty,
     gt_default = word_of_int (ec_default_budget cfg),
     gt_per_host = fold (override_budget v) (ec_budget cfg) Map.empty,
     gt_day = day\<rparr>"

definition matchAllowlist :: "gate \<Rightarrow> string \<Rightarrow> int \<Rightarrow> bool" where
  "matchAllowlist g h port \<longleftrightarrow> (case gt_allowlist g h of
     None \<Rightarrow> False | Some ports \<Rightarrow> ports = [] \<or> port \<in> set ports)"

definition budget_limit :: "gate \<Rightarrow> string \<Rightarrow> int64" where
  "budget_limit g h = (case gt_per_host g h of Some b \<Rightarrow> b | None \<Rightarrow> gt_default g)"

text \<open>The ledger row of a decision; a row that cannot be written is only logged.\<close>

definition gate_record :: "session_info \<Rightarrow> egress_event \<Rightarrow> payload \<Rightarrow> (store, unit) state" where
  "gate_record ses kind p = do {
     _ \<leftarrow> LogEvent (se_trace ses) (event_name kind)
           (p @ [(''event'', JStr (event_name kind)), (''task_id'', JStr (se_task ses)),
                 (''session_id'', JStr (se_session ses))]);
     ret ()
   }"

definition gate_deny :: "string \<Rightarrow> egress_event \<Rightarrow> egress_reason \<Rightarrow> session_info
    \<Rightarrow> (store, egress_decision) state" where
  "gate_deny host kind reason ses = do {
     gate_record ses kind [(''host'', JStr host), (''reason'', JDenial reason)];
     ret \<lparr>ed_allow = False, ed_reason = Some reason, ed_rule = kind\<rparr>
   }"

text \<open>The part of \<open>Check\<close> for a host and port on the allowlist.\<close>

definition gate_spend :: "gate \<Rightarrow> string \<Rightarrow> int \<Rightarrow> int64 \<Rightarrow> session_info
    \<Rightarrow> (store, egress_decision res) state" where
  "gate_spend g h port n ses = do {
     t \<leftarrow> now;
     let day = gt_day g t;
     let limit = budget_limit g h;
     r \<leftarrow> budget_Bytes h day;
     case r of
       Inl e \<Rightarrow> ret (Inl e)
     | Inr current \<Rightarrow>
         if 0 < sint limit \<and> sint limit < sint (current + n) then do {
           d \<leftarrow> gate_deny h EventBlockedBudget (ReasonBudget h) ses;
           notice (Alarmed (se_trace ses) (event_name EventBlockedBudget) (ReasonBudget h)
             [(''host'', JStr h), (''task_id'', JStr (se_task ses))]);
           ret (Inr d)
         } else do {
           r2 \<leftarrow> (if 0 < sint n then budget_Add h day n else ret (Inr 0));
           case r2 of
             Inl e \<Rightarrow> ret (Inl e)
           | Inr _ \<Rightarrow> do {
               gate_record ses EventAllowed
                 [(''host'', JStr h), (''port'', JInt port), (''bytes'', JInt (sint n))];
               ret (Inr \<lparr>ed_allow = True, ed_reason = None, ed_rule = EventAllowed\<rparr>)
             }
         }
   }"

definition Gate_Check :: "host_env \<Rightarrow> gate \<Rightarrow> target \<Rightarrow> int64 \<Rightarrow> session_info
    \<Rightarrow> (store, egress_decision res) state" where
  "Gate_Check v g t n ses = (case CanonicalizeHost v (ta_host t) of
     None \<Rightarrow> do {
       d \<leftarrow> gate_deny (ta_host t) EventBlockedAllowlist (ReasonAllowlist (ta_host t)) ses;
       ret (Inr d)
     }
   | Some h \<Rightarrow> do {
       sensitive \<leftarrow> (if se_session ses = '''' then ret False else IsMarked (se_session ses));
       let matched = matchAllowlist g h (ta_port t);
       if sensitive \<and> \<not> matched then do {
         d \<leftarrow> gate_deny h EventBlockedSensitive (ReasonSensitive h) ses;
         ret (Inr d)
       } else if \<not> matched then do {
         d \<leftarrow> gate_deny h EventBlockedAllowlist
               (if IsIPLiteral h \<and> isPrivateOrLinkLocal h then ReasonPrivate h else ReasonAllowlist h) ses;
         ret (Inr d)
       } else gate_spend g h (ta_port t) n ses
     })"

definition MeterUsage :: "host_env \<Rightarrow> gate \<Rightarrow> string \<Rightarrow> int64 \<Rightarrow> session_info \<Rightarrow> (store, unit) state" where
  "MeterUsage v g host n ses =
     (if sint n \<le> 0 then ret ()
      else case CanonicalizeHost v host of
        None \<Rightarrow> ret ()
      | Some h \<Rightarrow> do {
          t \<leftarrow> now;
          r \<leftarrow> budget_Add h (gt_day g t) n;
          case r of
            Inl _ \<Rightarrow> ret ()
          | Inr _ \<Rightarrow> gate_record ses EventMetered [(''host'', JStr h), (''bytes'', JInt (sint n))]
        })"

definition MarkSensitiveRead :: "string \<Rightarrow> string \<Rightarrow> (store, unit res) state" where
  "MarkSensitiveRead sid trace =
     (if sid = '''' then ret (Inl InvalidArgument)
      else do {
        _ \<leftarrow> tracker_Mark sid;
        gate_record \<lparr>se_session = sid, se_task = '''', se_trace = trace\<rparr> EventSensitiveMarked [];
        ret (Inr ())
      })"

definition DenyDNSRebind :: "string \<Rightarrow> session_info \<Rightarrow> (store, egress_decision) state" where
  "DenyDNSRebind host ses = gate_deny host EventBlockedDNSRebind (ReasonDNSRebind host) ses"

section \<open>The hook of the model proxy\<close>

text \<open>
  The request's content length is \<open>-1\<close> when it is unknown.  \<open>Some\<close> is the error the hook
  returns: the gate's own, or one made of the denial's reason.
\<close>

datatype hook_error = GateError go_error | Denied "egress_reason option" | SecretLaneCloudBlocked

definition NewAnthproxyEgressGateHook :: "host_env \<Rightarrow> gate \<Rightarrow> string \<Rightarrow> int \<Rightarrow> string \<Rightarrow> string \<Rightarrow> int64
    \<Rightarrow> (store, hook_error option) state" where
  "NewAnthproxyEgressGateHook v g host port task trace content_length = do {
     r \<leftarrow> Gate_Check v g \<lparr>ta_host = host, ta_port = port\<rparr>
           (if sint content_length < 0 then 0 else content_length)
           \<lparr>se_session = trace, se_task = task, se_trace = trace\<rparr>;
     ret (case r of
            Inl e \<Rightarrow> Some (GateError e)
          | Inr d \<Rightarrow> if ed_allow d then None else Some (Denied (ed_reason d)))
   }"

end
