(* ===== verification/Egress_Proxy.thy ===== *)
theory Egress_Proxy
  imports Egress
begin

text \<open>
  The forward proxy of \<open>kahyad/internal/egress\<close>, the only way out for a container: the registry
  of the tasks' credentials, the attribution of a request to a session, the resolution of an
  admitted host to a pinned address, and the two handlers up to what they make of the network.
  An address the proxy connects to is a \<open>Dialed\<close> notice.
\<close>

section \<open>Sessions by credential\<close>

type_synonym registry = "string \<rightharpoonup> session_info"

definition reg_Register :: "string \<Rightarrow> session_info \<Rightarrow> registry \<Rightarrow> registry" where
  "reg_Register token ses reg = (if token = '''' then reg else reg(token \<mapsto> ses))"

definition reg_Release :: "string \<Rightarrow> registry \<Rightarrow> registry" where
  "reg_Release token reg = (if token = '''' then reg else reg(token := None))"

definition reg_Lookup :: "string \<Rightarrow> registry \<Rightarrow> session_info option" where
  "reg_Lookup token reg = (if token = '''' then None else reg token)"

text \<open>What the shell server registers: the trace id is the session.\<close>

definition register_task_token :: "string \<Rightarrow> string \<Rightarrow> string \<Rightarrow> registry \<Rightarrow> registry" where
  "register_task_token token trace task =
     reg_Register token \<lparr>se_session = trace, se_task = task, se_trace = trace\<rparr>"

section \<open>Requests\<close>

record proxy_request =
  rq_method :: string
  rq_host :: string             \<comment> \<open>\<open>r.Host\<close>\<close>
  rq_is_abs :: bool             \<comment> \<open>\<open>r.URL.IsAbs()\<close>\<close>
  rq_url_host :: string         \<comment> \<open>\<open>r.URL.Host\<close>\<close>
  rq_length :: int64            \<comment> \<open>\<open>r.ContentLength\<close>, \<open>-1\<close> when unknown\<close>
  rq_authorization :: string    \<comment> \<open>the header \<open>Proxy-Authorization\<close>\<close>

text \<open>\<open>URL.Hostname\<close> and \<open>URL.Port\<close>.\<close>

definition url_split :: "string \<Rightarrow> string \<times> string" where
  "url_split hp =
     (let (h, p) = (case last_index hp (CHR '':'') of
          Some i \<Rightarrow> if list_all (\<lambda>c. dec_digit c \<noteq> None) (drop (Suc i) hp) then (take i hp, drop (Suc i) hp) else (hp, '''')
        | None \<Rightarrow> (hp, ''''))
      in (strip_brackets h, p))"

text \<open>The proxy credential: \<open>Basic\<close> and the base64 text of the token and a colon.\<close>

definition proxyAuthToken :: "string \<Rightarrow> string" where
  "proxyAuthToken h =
     (if \<not> is_prefix ''Basic '' h then ''''
      else case b64_decode (drop 6 h) of
        None \<Rightarrow> ''''
      | Some d \<Rightarrow> (case str_index d '':'' of None \<Rightarrow> '''' | Some i \<Rightarrow> take i d))"

text \<open>
  The network: a resolver's answer, the connection to an address, what becomes of a hijacked
  connection, and a forwarded request with the bytes of the response and of the request's body.
\<close>

datatype hijack_result = NoHijacker | HijackFailed | WriteFailed | Tunnel int64

record proxy_env =
  px_host :: host_env
  px_gate :: gate
  px_tokens :: "registry option"
  px_lookup :: "string \<Rightarrow> ip list option"
  px_dial :: "string \<Rightarrow> bool"
  px_hijack :: hijack_result
  px_roundtrip :: "string \<Rightarrow> (nat \<times> int64 \<times> int64) option"

datatype proxy_reply =
    Forbidden "egress_reason option" | GateFailure | BadRequest | BadGateway
  | HijackUnsupported | ConnectionClosed | Tunnelled | Forwarded nat | HandlerPanic

text \<open>\<open>traceid.New\<close> panics (\<open>None\<close>) when there is no randomness.\<close>

definition traceid_New :: "(store, string option) state" where
  "traceid_New = do { b \<leftarrow> rand_read 16; ret (case b of Inl _ \<Rightarrow> None | Inr bs \<Rightarrow> Some (hex_encode bs)) }"

definition sessionForRequest :: "proxy_env \<Rightarrow> proxy_request \<Rightarrow> (store, session_info option) state" where
  "sessionForRequest p r =
     (case (case px_tokens p of None \<Rightarrow> None
            | Some reg \<Rightarrow> (let token = proxyAuthToken (rq_authorization r) in
                if token = '''' then None else reg_Lookup token reg)) of
        Some ses \<Rightarrow> ret (Some ses)
      | None \<Rightarrow> do {
          t \<leftarrow> traceid_New;
          ret (map_option (\<lambda>trace. \<lparr>se_session = '''', se_task = '''', se_trace = trace\<rparr>) t)
        })"

definition resolveAndPin :: "(string \<Rightarrow> ip list option) \<Rightarrow> string \<Rightarrow> string option" where
  "resolveAndPin lookup host =
     (if IsIPLiteral host then Some host
      else case lookup host of
        None \<Rightarrow> None
      | Some [] \<Rightarrow> None
      | Some (a # as) \<Rightarrow>
          if list_ex (\<lambda>x. isPrivateOrLinkLocal (ip_string x)) (a # as) then None
          else Some (ip_string a))"

section \<open>The handlers\<close>

text \<open>
  What both handlers do before they touch the network: attribute the request, ask the gate,
  resolve and check the host.  \<open>Inr\<close> is the session and the address to connect to.
\<close>

definition admit :: "proxy_env \<Rightarrow> proxy_request \<Rightarrow> string \<Rightarrow> int \<Rightarrow> int64
    \<Rightarrow> (store, proxy_reply + session_info \<times> string) state" where
  "admit p r host port n = do {
     so \<leftarrow> sessionForRequest p r;
     case so of
       None \<Rightarrow> ret (Inl HandlerPanic)
     | Some ses \<Rightarrow> do {
         c \<leftarrow> Gate_Check (px_host p) (px_gate p) \<lparr>ta_host = host, ta_port = port\<rparr> n ses;
         case c of
           Inl _ \<Rightarrow> ret (Inl GateFailure)
         | Inr d \<Rightarrow>
             if \<not> ed_allow d then ret (Inl (Forbidden (ed_reason d)))
             else (case resolveAndPin (px_lookup p) host of
                 None \<Rightarrow> do {
                   d' \<leftarrow> DenyDNSRebind host ses;
                   ret (Inl (Forbidden (ed_reason d')))
                 }
               | Some a \<Rightarrow> ret (Inr (ses, a)))
       }
   }"

definition handleConnect :: "proxy_env \<Rightarrow> proxy_request \<Rightarrow> (store, proxy_reply) state" where
  "handleConnect p r =
     (let (host, ptext) = (case SplitHostPort (rq_host r) of
          None \<Rightarrow> (rq_host r, ''443'') | Some hp \<Rightarrow> hp)
      in case Atoi ptext of
        None \<Rightarrow> ret BadRequest
      | Some port \<Rightarrow> do {
          a \<leftarrow> admit p r host port 0;
          case a of
            Inl reply \<Rightarrow> ret reply
          | Inr (ses, dial_host) \<Rightarrow> do {
              notice (Dialed (JoinHostPort dial_host ptext));
              if \<not> px_dial p (JoinHostPort dial_host ptext) then ret BadGateway
              else (case px_hijack p of
                  NoHijacker \<Rightarrow> ret HijackUnsupported
                | HijackFailed \<Rightarrow> ret ConnectionClosed
                | WriteFailed \<Rightarrow> ret ConnectionClosed
                | Tunnel sent \<Rightarrow> do {
                    MeterUsage (px_host p) (px_gate p) host sent ses;
                    ret Tunnelled
                  })
            }
        })"

definition handlePlainHTTP :: "proxy_env \<Rightarrow> proxy_request \<Rightarrow> (store, proxy_reply) state" where
  "handlePlainHTTP p r =
     (if \<not> rq_is_abs r then ret BadRequest
      else let host = fst (url_split (rq_url_host r)); given = snd (url_split (rq_url_host r));
               ptext = (if given = '''' then ''80'' else given)
      in case Atoi ptext of
        None \<Rightarrow> ret BadRequest
      | Some port \<Rightarrow> do {
          a \<leftarrow> admit p r host port (if sint (rq_length r) < 0 then 0 else rq_length r);
          case a of
            Inl reply \<Rightarrow> ret reply
          | Inr (ses, dial_host) \<Rightarrow> do {
              notice (Dialed (JoinHostPort dial_host ptext));
              (case px_roundtrip p (JoinHostPort dial_host ptext) of
                 None \<Rightarrow> ret BadGateway
               | Some (status, response_bytes, request_bytes) \<Rightarrow> do {
                   MeterUsage (px_host p) (px_gate p) host (response_bytes + request_bytes) ses;
                   ret (Forwarded status)
                 })
            }
        })"

definition ServeHTTP :: "proxy_env \<Rightarrow> proxy_request \<Rightarrow> (store, proxy_reply) state" where
  "ServeHTTP p r = (if rq_method r = ''CONNECT'' then handleConnect p r else handlePlainHTTP p r)"

section \<open>Sequences of operations\<close>

datatype egress_op =
    OpCheck target int64 session_info
  | OpMeter string int64 session_info
  | OpMark string string
  | OpRebind string session_info
  | OpHook string int string string int64
  | OpServe proxy_env proxy_request
  | OpClock int

text \<open>Every operation goes to the one gate of the process.\<close>

fun run_egress :: "host_env \<Rightarrow> gate \<Rightarrow> egress_op \<Rightarrow> store \<Rightarrow> store" where
  "run_egress v g (OpCheck t n ses) s = snd (run_state (Gate_Check v g t n ses) s)"
| "run_egress v g (OpMeter host n ses) s = snd (run_state (MeterUsage v g host n ses) s)"
| "run_egress v g (OpMark sid trace) s = snd (run_state (MarkSensitiveRead sid trace) s)"
| "run_egress v g (OpRebind host ses) s = snd (run_state (DenyDNSRebind host ses) s)"
| "run_egress v g (OpHook host port task trace n) s =
     snd (run_state (NewAnthproxyEgressGateHook v g host port task trace n) s)"
| "run_egress v g (OpServe p r) s = snd (run_state (ServeHTTP (p\<lparr>px_host := v, px_gate := g\<rparr>) r) s)"
| "run_egress v g (OpClock t) s = s\<lparr>clock := t\<rparr>"

definition run_egress_ops :: "host_env \<Rightarrow> gate \<Rightarrow> egress_op list \<Rightarrow> store \<Rightarrow> store" where
  "run_egress_ops v g ops s = fold (run_egress v g) ops s"

end
