(* ===== verification/Egress_Laws.thy ===== *)
theory Egress_Laws
  imports Egress_Proxy
begin

text \<open>
  What every operation of the egress gate keeps.  The locale \<open>egress_preorder\<close> asks of a relation
  on states only that it tolerates a mark, the insertion of a counter and the addition of a
  positive number to one; its lemmas carry the relation through the gate, the hook and the proxy.
  It is interpreted for the growth of marks, the growth of counters, and the preservation of all
  other tables.
\<close>

locale egress_preorder = store_preorder +
  assumes R_mark: "R s (s\<lparr>marked := sid # marked s\<rparr>)"
    and R_insert: "0 < k \<Longrightarrow> key \<notin> bg_key ` set (budgets s) \<Longrightarrow>
      R s (s\<lparr>budgets := budgets s @ [\<lparr>bg_host = fst key, bg_day = snd key, bg_bytes = k\<rparr>]\<rparr>)"
    and R_increment: "0 < k \<Longrightarrow>
      R s (s\<lparr>budgets := update_where (\<lambda>r. bg_key r = key) (\<lambda>r. r\<lparr>bg_bytes := bg_bytes r + k\<rparr>) (budgets s)\<rparr>)"
    and R_clock: "R s (s\<lparr>clock := t\<rparr>)"
begin

lemma keeps_budget_Bytes: "state_io_rel R (budget_Bytes h d)"
  unfolding budget_Bytes_def GetEgressBudget_def
  by (intro keeps_bind keeps_return keeps_db) (simp add: R_refl)

lemma keeps_budget_Add: "0 < sint n \<Longrightarrow> state_io_rel R (budget_Add h d n)"
  unfolding budget_Add_def
proof (intro keeps_bind keeps_case_sum keeps_if keeps_return keeps_budget_Bytes)
  assume "0 < sint n"
  then show "state_io_rel R (IncrementEgressBudget n h d)"
    unfolding IncrementEgressBudget_def by (intro keeps_db) (simp add: R_increment)
  show "state_io_rel R (InsertEgressBudget h d n)"
    unfolding InsertEgressBudget_def
    by (intro keeps_db) (use R_insert [of "sint n" "(h, d)"] \<open>0 < sint n\<close> in \<open>auto simp: R_refl\<close>)
qed

lemma keeps_gate_record: "state_io_rel R (gate_record ses k p)"
  unfolding gate_record_def by (intro keeps_rules)

lemma keeps_gate_deny: "state_io_rel R (gate_deny h k why ses)"
  unfolding gate_deny_def by (intro keeps_rules keeps_gate_record)

lemma keeps_IsMarked: "state_io_rel R (IsMarked sid)"
  by (simp add: IsMarked_def state_io_rel_def R_refl)

lemma keeps_tracker_Mark: "state_io_rel R (tracker_Mark sid)"
  by (simp add: tracker_Mark_def state_io_rel_def R_refl R_mark)

lemma keeps_gate_spend: "state_io_rel R (gate_spend g h port n ses)"
proof (cases "0 < sint n")
  case True
  then show ?thesis
    unfolding gate_spend_def Let_def
    by (intro keeps_rules keeps_budget_Bytes keeps_budget_Add keeps_gate_deny keeps_gate_record)
next
  case False
  then show ?thesis
    unfolding gate_spend_def Let_def if_not_P [OF False]
    by (intro keeps_rules keeps_budget_Bytes keeps_gate_deny keeps_gate_record)
qed

lemma keeps_Gate_Check: "state_io_rel R (Gate_Check v g t n ses)"
  unfolding Gate_Check_def Let_def
  by (intro keeps_rules keeps_IsMarked keeps_gate_deny keeps_gate_spend)

lemma keeps_MeterUsage: "state_io_rel R (MeterUsage v g host n ses)"
proof (cases "sint n \<le> 0")
  case False
  then have "0 < sint n" by simp
  then show ?thesis
    unfolding MeterUsage_def by (intro keeps_rules keeps_budget_Add keeps_gate_record)
qed (simp add: MeterUsage_def keeps_return)

lemma keeps_MarkSensitiveRead: "state_io_rel R (MarkSensitiveRead sid trace)"
  unfolding MarkSensitiveRead_def by (intro keeps_rules keeps_tracker_Mark keeps_gate_record)

lemma keeps_DenyDNSRebind: "state_io_rel R (DenyDNSRebind host ses)"
  unfolding DenyDNSRebind_def by (rule keeps_gate_deny)

lemma keeps_hook: "state_io_rel R (NewAnthproxyEgressGateHook v g host port task trace n)"
  unfolding NewAnthproxyEgressGateHook_def by (intro keeps_rules keeps_Gate_Check)

lemma keeps_sessionForRequest: "state_io_rel R (sessionForRequest p r)"
  unfolding sessionForRequest_def traceid_New_def by (intro keeps_rules)

lemma keeps_admit: "state_io_rel R (admit p r host port n)"
  unfolding admit_def by (intro keeps_rules keeps_sessionForRequest keeps_Gate_Check keeps_DenyDNSRebind)

lemma keeps_hijack:
  "(\<And>n. state_io_rel R (f n)) \<Longrightarrow> state_io_rel R a \<Longrightarrow> state_io_rel R b \<Longrightarrow>
   state_io_rel R (case h of NoHijacker \<Rightarrow> a | HijackFailed \<Rightarrow> b | WriteFailed \<Rightarrow> b | Tunnel n \<Rightarrow> f n)"
  by (cases h) simp_all

lemma keeps_ServeHTTP: "state_io_rel R (ServeHTTP p r)"
  unfolding ServeHTTP_def handleConnect_def handlePlainHTTP_def Let_def
  by (intro keeps_rules keeps_hijack keeps_admit keeps_MeterUsage)

lemma keeps_run_egress: "R s (run_egress v g op s)"
  by (cases op) (simp_all add: R_clock keeps_snd keeps_Gate_Check keeps_MeterUsage
      keeps_MarkSensitiveRead keeps_DenyDNSRebind keeps_hook keeps_ServeHTTP)

lemma keeps_run_egress_ops: "R s (run_egress_ops v g ops s)"
  unfolding run_egress_ops_def by (rule keeps_fold) (rule keeps_run_egress)

end

section \<open>Marks are never removed\<close>

definition marks_grow :: "store \<Rightarrow> store \<Rightarrow> bool" where
  "marks_grow s s' \<longleftrightarrow> set (marked s) \<subseteq> set (marked s')"

interpretation marks_grow: egress_preorder marks_grow
  by unfold_locales (auto simp: marks_grow_def)

section \<open>Counters never decrease\<close>

text \<open>The bytes on record for a host and a day.\<close>

definition spent :: "store \<Rightarrow> string \<Rightarrow> string \<Rightarrow> int" where
  "spent s h d = (case find (\<lambda>r. bg_key r = (h, d)) (budgets s) of None \<Rightarrow> 0 | Some r \<Rightarrow> bg_bytes r)"

definition spent_grows :: "store \<Rightarrow> store \<Rightarrow> bool" where
  "spent_grows s s' \<longleftrightarrow> (\<forall>h d. spent s h d \<le> spent s' h d)"

lemma bg_key_simps [simp]:
  "bg_key (r\<lparr>bg_bytes := k\<rparr>) = bg_key r" "bg_key \<lparr>bg_host = h, bg_day = d, bg_bytes = k\<rparr> = (h, d)"
  by (simp_all add: bg_key_def)

lemma spent_budgets:
  "spent (s\<lparr>faults := fs\<rparr>) h d = spent s h d" "spent (s\<lparr>events := es\<rparr>) h d = spent s h d"
  "spent (s\<lparr>notices := ns\<rparr>) h d = spent s h d" "spent (s\<lparr>entropy := en\<rparr>) h d = spent s h d"
  "spent (s\<lparr>marked := ms\<rparr>) h d = spent s h d" "spent (s\<lparr>clock := t\<rparr>) h d = spent s h d"
  by (simp_all add: spent_def)

lemma spent_insert:
  "(h, d) \<notin> bg_key ` set (budgets s) \<Longrightarrow>
   spent (s\<lparr>budgets := budgets s @ [\<lparr>bg_host = h, bg_day = d, bg_bytes = k\<rparr>]\<rparr>) h' d' =
     (if (h', d') = (h, d) then k else spent s h' d')"
  by (auto simp: spent_def find_append find_key_None split: option.splits)

lemma find_bg_None: "find (\<lambda>r. bg_key r = k) rows = None \<longleftrightarrow> k \<notin> bg_key ` set rows"
  by (induction rows) auto

lemma spent_increment:
  "spent (s\<lparr>budgets := update_where (\<lambda>r. bg_key r = (h, d)) (\<lambda>r. r\<lparr>bg_bytes := bg_bytes r + k\<rparr>) (budgets s)\<rparr>) h' d' =
     (if (h', d') = (h, d) \<and> (h, d) \<in> bg_key ` set (budgets s) then spent s h' d' + k else spent s h' d')"
proof (cases "find (\<lambda>r. bg_key r = (h', d')) (budgets s)")
  case None
  then have "(h', d') \<notin> bg_key ` set (budgets s)" by (rule find_bg_None [THEN iffD1])
  with None show ?thesis
    by (cases "(h', d') = (h, d)") (auto simp: spent_def find_update_where simp del: image_iff)
next
  case (Some r)
  then have "bg_key r = (h', d')" "(h', d') \<in> bg_key ` set (budgets s)"
    using find_Some_in [OF Some] by (simp, metis image_eqI)
  with Some show ?thesis by (cases "(h', d') = (h, d)") (auto simp: spent_def find_update_where)
qed

lemma spent_absent: "(h, d) \<notin> bg_key ` set (budgets s) \<Longrightarrow> spent s h d = 0"
  by (simp add: spent_def find_key_None)

interpretation spent_grows: egress_preorder spent_grows
proof (unfold_locales, unfold spent_grows_def)
  fix s t u :: store
  assume "\<forall>h d. spent s h d \<le> spent t h d" "\<forall>h d. spent t h d \<le> spent u h d"
  then show "\<forall>h d. spent s h d \<le> spent u h d" by (meson order_trans)
next
  fix k :: int and key and s :: store
  assume "0 < k" "key \<notin> bg_key ` set (budgets s)"
  then show "\<forall>h d. spent s h d \<le> spent (s\<lparr>budgets := budgets s @
      [\<lparr>bg_host = fst key, bg_day = snd key, bg_bytes = k\<rparr>]\<rparr>) h d"
    by (cases key) (auto simp: spent_insert spent_absent)
next
  fix k :: int and key and s :: store
  assume "0 < k"
  then show "\<forall>h d. spent s h d \<le> spent (s\<lparr>budgets := update_where (\<lambda>r. bg_key r = key)
      (\<lambda>r. r\<lparr>bg_bytes := bg_bytes r + k\<rparr>) (budgets s)\<rparr>) h d"
    by (cases key) (simp add: spent_increment)
qed (simp_all add: spent_budgets)

section \<open>The other tables are not touched\<close>

definition egress_frame :: "store \<Rightarrow> store \<Rightarrow> bool" where
  "egress_frame s s' \<longleftrightarrow> autonomy s' = autonomy s \<and> tokens s' = tokens s \<and> pendings s' = pendings s
     \<and> undos s' = undos s \<and> tasks s' = tasks s \<and> calls s' = calls s \<and> outbox s' = outbox s \<and> taints s' = taints s
     \<and> (\<exists>es. events s' = events s @ es)"

interpretation egress_frame: egress_preorder egress_frame
  by unfold_locales (auto simp: egress_frame_def)

end
