(* ===== verification/Egress_Facts.thy ===== *)
theory Egress_Facts
  imports Egress_Laws
begin

text \<open>
  What the gate's operations do, whatever database calls fail: the books the budget keeps, the
  decision \<open>Check\<close> takes on every branch, and the bytes a sequence of operations admits.
\<close>

section \<open>The parts of the state a decision reads\<close>

definition dials :: "store \<Rightarrow> string list" where
  "dials s = List.map_filter (\<lambda>n. case n of Dialed a \<Rightarrow> Some a | _ \<Rightarrow> None) (notices s)"

definition quiet :: "store \<Rightarrow> store \<Rightarrow> bool" where
  "quiet s s' \<longleftrightarrow> marked s' = marked s \<and> clock s' = clock s \<and> dials s' = dials s"

lemma dials_simps [simp]:
  "dials (s\<lparr>faults := fs\<rparr>) = dials s" "dials (s\<lparr>events := es\<rparr>) = dials s"
  "dials (s\<lparr>entropy := en\<rparr>) = dials s" "dials (s\<lparr>budgets := bs\<rparr>) = dials s"
  "dials (s\<lparr>notices := notices s @ [Alarmed t k e p]\<rparr>) = dials s"
  "dials (s\<lparr>notices := notices s @ [Dialed a]\<rparr>) = dials s @ [a]"
  by (simp_all add: dials_def map_filter_def)

lemma quiet_refl: "quiet s s" and quiet_trans: "quiet s t \<Longrightarrow> quiet t u \<Longrightarrow> quiet s u"
  by (simp_all add: quiet_def)

text \<open>The counter as the gate reads it.\<close>

definition spent_word :: "store \<Rightarrow> string \<Rightarrow> string \<Rightarrow> int64" where
  "spent_word s h d = word_of_int (spent s h d)"

lemma spent_cong: "budgets s' = budgets s \<Longrightarrow> spent s' h d = spent s h d"
  by (simp add: spent_def)

lemma sint_spent_word: "in_int64 (spent s h d) \<Longrightarrow> sint (spent_word s h d) = spent s h d"
  by (simp add: spent_word_def in_int64_def sint_of_int64)

section \<open>The budget\<close>

lemma budget_Bytes_spec:
  "wp (budget_Bytes h d) (\<lambda>r s'. quiet s s' \<and> budgets s' = budgets s \<and>
     (\<forall>c. r = Inr c \<longrightarrow> c = spent_word s h d \<and> in_int64 (spent s h d))) s"
  unfolding budget_Bytes_def GetEgressBudget_def wp_bind
  by (rule wp_dbI)
     (auto simp: wp_return quiet_def spent_def spent_word_def in_int64_def split: option.splits if_splits)

lemma Increment_spec:
  "wp (IncrementEgressBudget n h d) (\<lambda>r s'. quiet s s' \<and> (\<forall>k. r = Inr k \<longrightarrow>
     k = count_where (\<lambda>r. bg_key r = (h, d)) (budgets s)
     \<and> (\<forall>h' d'. spent s' h' d' = spent s h' d'
          + (if (h', d') = (h, d) \<and> (h, d) \<in> bg_key ` set (budgets s) then sint n else 0))
     \<and> bg_key ` set (budgets s') = bg_key ` set (budgets s))) s"
  unfolding IncrementEgressBudget_def
proof (rule wp_dbI, simp add: quiet_def)
  fix fs and a :: "nat res" and s' :: store
  let ?t = "s\<lparr>faults := fs\<rparr>"
  define u where "u = ?t\<lparr>budgets := update_where (\<lambda>r. bg_key r = (h, d)) (\<lambda>r. r\<lparr>bg_bytes := bg_bytes r + sint n\<rparr>) (budgets ?t)\<rparr>"
  assume "(Inr (count_where (\<lambda>r. bg_key r = (h, d)) (budgets ?t)), ?t\<lparr>budgets :=
      update_where (\<lambda>r. bg_key r = (h, d)) (\<lambda>r. r\<lparr>bg_bytes := bg_bytes r + sint n\<rparr>) (budgets ?t)\<rparr>) = (a, s')"
  then have a: "a = Inr (count_where (\<lambda>r. bg_key r = (h, d)) (budgets s))" and s': "s' = u"
    by (simp_all add: u_def)
  have "map bg_key (budgets u) = map bg_key (budgets s)" by (simp add: u_def)
  then have "bg_key ` set (budgets u) = bg_key ` set (budgets s)" by (metis set_map)
  moreover have "quiet s u" by (simp add: u_def quiet_def)
  moreover have "spent u h' d' = spent s h' d'
      + (if (h', d') = (h, d) \<and> (h, d) \<in> bg_key ` set (budgets s) then sint n else 0)" for h' d'
    using spent_increment [of h d "sint n" ?t h' d'] unfolding u_def by (simp add: spent_budgets)
  ultimately show "quiet s s' \<and> (\<forall>k. a = Inr k \<longrightarrow>
     k = count_where (\<lambda>r. bg_key r = (h, d)) (budgets s)
     \<and> (\<forall>h' d'. spent s' h' d' = spent s h' d'
          + (if (h', d') = (h, d) \<and> (h, d) \<in> bg_key ` set (budgets s) then sint n else 0))
     \<and> bg_key ` set (budgets s') = bg_key ` set (budgets s))"
    unfolding a s' by simp
qed

text \<open>A successful \<open>Add\<close> adds, and leaves a counter that fits into 64 bits.\<close>

lemma budget_Add_spec:
  "wp (budget_Add h d n) (\<lambda>r s'. quiet s s' \<and> (\<forall>x. r = Inr x \<longrightarrow>
     (\<forall>h' d'. spent s' h' d' = spent s h' d' + (if (h', d') = (h, d) then sint n else 0))
     \<and> in_int64 (spent s' h d))) s"
  unfolding budget_Add_def
proof (rule wp_bind_mono [OF Increment_spec], elim conjE)
  fix r1 :: "nat res" and s1 :: store
  assume q: "quiet s s1" and spec: "\<forall>k. r1 = Inr k \<longrightarrow>
     k = count_where (\<lambda>r. bg_key r = (h, d)) (budgets s)
     \<and> (\<forall>h' d'. spent s1 h' d' = spent s h' d'
          + (if (h', d') = (h, d) \<and> (h, d) \<in> bg_key ` set (budgets s) then sint n else 0))
     \<and> bg_key ` set (budgets s1) = bg_key ` set (budgets s)"
  let ?Q = "\<lambda>r s'. quiet s s' \<and> (\<forall>x. r = Inr x \<longrightarrow>
     (\<forall>h' d'. spent s' h' d' = spent s h' d' + (if (h', d') = (h, d) then sint n else 0))
     \<and> in_int64 (spent s' h d))"
  show "wp (case r1 of Inl e \<Rightarrow> ret (Inl e)
     | Inr rows \<Rightarrow> if rows = 0 then do {
           r2 \<leftarrow> InsertEgressBudget h d n;
           ret (case r2 of Inl e \<Rightarrow> Inl e | Inr _ \<Rightarrow> Inr n)
         } else budget_Bytes h d) ?Q s1"
  proof (cases r1)
    case (Inl e)
    with q show ?thesis by (simp add: wp_return)
  next
    case (Inr k)
    show ?thesis
    proof (cases "k = 0")
      case True
      with spec Inr have absent: "(h, d) \<notin> bg_key ` set (budgets s1)"
        by (auto simp: count_where_zero)
      with spec Inr True have same: "spent s1 h' d' = spent s h' d'" for h' d' by simp
      have zero: "spent s1 h d = 0" by (rule spent_absent [OF absent])
      have "wp (InsertEgressBudget h d n) (\<lambda>r s'. quiet s s' \<and> (\<forall>x. r = Inr x \<longrightarrow>
          (\<forall>h' d'. spent s' h' d' = (if (h', d') = (h, d) then sint n else spent s1 h' d')))) s1"
        unfolding InsertEgressBudget_def
        by (rule wp_dbI)
           (use q absent spent_insert [of h d "s1\<lparr>faults := fs\<rparr>" "sint n" for fs]
            in \<open>auto simp: quiet_def spent_budgets\<close>)
      from this have "wp (do { r2 \<leftarrow> InsertEgressBudget h d n;
          ret (case r2 of Inl e \<Rightarrow> Inl e | Inr _ \<Rightarrow> Inr n) }) ?Q s1"
      proof (rule wp_bind_mono, elim conjE)
        fix r2 :: "unit res" and s2 :: store
        assume s2: "quiet s s2" "\<forall>x. r2 = Inr x \<longrightarrow>
          (\<forall>h' d'. spent s2 h' d' = (if (h', d') = (h, d) then sint n else spent s1 h' d'))"
        show "wp (ret (case r2 of Inl e \<Rightarrow> Inl e | Inr _ \<Rightarrow> Inr n)) ?Q s2"
        proof (cases r2)
          case (Inl e)
          with s2(1) show ?thesis by (simp add: wp_return)
        next
          case (Inr x)
          with s2(2) have eq: "spent s2 h' d' = (if (h', d') = (h, d) then sint n else spent s1 h' d')" for h' d'
            by blast
          have "in_int64 (sint n)" using sint64_bounds [of n] by (simp add: in_int64_def)
          moreover have "spent s2 h' d' = spent s h' d' + (if (h', d') = (h, d) then sint n else 0)" for h' d'
            using eq [of h' d'] same [of h' d'] zero by (auto split: if_splits)
          ultimately show ?thesis
            using s2(1) zero same [of h d] by (simp add: Inr wp_return)
        qed
      qed
      with Inr True show ?thesis by simp
    next
      case False
      from spec Inr have "k = count_where (\<lambda>r. bg_key r = (h, d)) (budgets s)" by blast
      with False have "0 < count_where (\<lambda>r. bg_key r = (h, d)) (budgets s)" by simp
      then obtain r where "r \<in> set (budgets s)" "bg_key r = (h, d)"
        unfolding count_where_pos by blast
      then have present: "(h, d) \<in> bg_key ` set (budgets s)" by (metis image_eqI)
      from spec Inr have "spent s1 h' d' = spent s h' d'
          + (if (h', d') = (h, d) \<and> (h, d) \<in> bg_key ` set (budgets s) then sint n else 0)" for h' d'
        by blast
      with present have added: "spent s1 h' d' = spent s h' d' + (if (h', d') = (h, d) then sint n else 0)" for h' d'
        by simp
      have "wp (budget_Bytes h d) ?Q s1"
      proof (rule wp_mono [OF budget_Bytes_spec], elim conjE)
        fix r2 :: "int64 res" and s2 :: store
        assume s2: "quiet s1 s2" "budgets s2 = budgets s1"
          "\<forall>c. r2 = Inr c \<longrightarrow> c = spent_word s1 h d \<and> in_int64 (spent s1 h d)"
        then have same2: "spent s2 h' d' = spent s1 h' d'" for h' d' by (simp add: spent_def)
        show "?Q r2 s2"
          using quiet_trans [OF q s2(1)] s2(3) by (simp add: same2 added)
      qed
      with Inr False show ?thesis by simp
    qed
  qed
qed

section \<open>The decision\<close>

lemma gate_record_spec: "wp (gate_record ses k p) (\<lambda>_ s'. quiet s s' \<and> budgets s' = budgets s) s"
  unfolding gate_record_def LogEvent_def wp_bind
  by (rule wp_dbI) (auto simp: wp_return quiet_def)

lemma gate_deny_spec:
  "wp (gate_deny h k why ses) (\<lambda>d s'. quiet s s' \<and> budgets s' = budgets s
     \<and> d = \<lparr>ed_allow = False, ed_reason = Some why, ed_rule = k\<rparr>) s"
  unfolding gate_deny_def
  by (rule wp_bind_mono [OF gate_record_spec]) (simp add: wp_return)

definition over_budget :: "gate \<Rightarrow> store \<Rightarrow> string \<Rightarrow> int64 \<Rightarrow> bool" where
  "over_budget g s h n \<longleftrightarrow> 0 < sint (budget_limit g h)
     \<and> sint (budget_limit g h) < sint (spent_word s h (gt_day g (clock s)) + n)"

abbreviation today :: "gate \<Rightarrow> store \<Rightarrow> string" where
  "today g s \<equiv> gt_day g (clock s)"

abbreviation allowed :: egress_decision where
  "allowed \<equiv> \<lparr>ed_allow = True, ed_reason = None, ed_rule = EventAllowed\<rparr>"

definition books_after :: "gate \<Rightarrow> store \<Rightarrow> string \<Rightarrow> int64 \<Rightarrow> store \<Rightarrow> bool" where
  "books_after g s h n s' \<longleftrightarrow>
     (\<forall>h' d'. spent s' h' d' = spent s h' d' + (if (h', d') = (h, today g s) then max 0 (sint n) else 0))
     \<and> (0 < sint n \<longrightarrow> in_int64 (spent s' h (today g s)))"

lemma books_after_idle: "budgets s' = budgets s \<Longrightarrow> \<not> 0 < sint n \<Longrightarrow> books_after g s h n s'"
  by (simp add: books_after_def spent_def)

lemma books_after_key:
  assumes "books_after g s h n s'" "0 < sint n"
  shows "spent s' h (today g s) = spent s h (today g s) + sint n" and "in_int64 (spent s' h (today g s))"
proof -
  from assms(1) have "spent s' h (today g s) = spent s h (today g s) + max 0 (sint n)"
    by (simp add: books_after_def)
  with assms(2) show "spent s' h (today g s) = spent s h (today g s) + sint n" by simp
  from assms show "in_int64 (spent s' h (today g s))" unfolding books_after_def by blast
qed

lemma gate_spend_spec:
  "wp (gate_spend g h port n ses) (\<lambda>r s'. quiet s s' \<and> (\<forall>d. r = Inr d \<longrightarrow>
     in_int64 (spent s h (today g s)) \<and>
     (if over_budget g s h n
      then d = \<lparr>ed_allow = False, ed_reason = Some (ReasonBudget h), ed_rule = EventBlockedBudget\<rparr>
           \<and> budgets s' = budgets s
      else d = allowed \<and> books_after g s h n s'))) s"
  (is "wp _ ?Q s")
  unfolding gate_spend_def Let_def wp_bind [of now] wp_now
proof (rule wp_bind_mono [OF budget_Bytes_spec], elim conjE)
  fix r1 :: "int64 res" and s1 :: store
  assume s1: "quiet s s1" "budgets s1 = budgets s"
    and c: "\<forall>c. r1 = Inr c \<longrightarrow> c = spent_word s h (today g s) \<and> in_int64 (spent s h (today g s))"
  have clock: "clock s1 = clock s" using s1(1) by (simp add: quiet_def)
  have spent1: "spent s1 h' d' = spent s h' d'" for h' d' by (simp add: spent_def s1(2))
  show "wp (case r1 of Inl e \<Rightarrow> ret (Inl e)
     | Inr current \<Rightarrow>
         if 0 < sint (budget_limit g h) \<and> sint (budget_limit g h) < sint (current + n) then do {
           d \<leftarrow> gate_deny h EventBlockedBudget (ReasonBudget h) ses;
           notice (Alarmed (se_trace ses) (event_name EventBlockedBudget) (ReasonBudget h)
             [(''host'', JStr h), (''task_id'', JStr (se_task ses))]);
           ret (Inr d)
         } else do {
           r2 \<leftarrow> (if 0 < sint n then budget_Add h (today g s) n else ret (Inr 0));
           case r2 of
             Inl e \<Rightarrow> ret (Inl e)
           | Inr _ \<Rightarrow> do {
               gate_record ses EventAllowed
                 [(''host'', JStr h), (''port'', JInt port), (''bytes'', JInt (sint n))];
               ret (Inr allowed)
             }
         }) ?Q s1"
  proof (cases r1)
    case (Inl e)
    with s1 show ?thesis by (simp add: wp_return)
  next
    case (Inr current)
    with c have current: "current = spent_word s h (today g s)" and fits: "in_int64 (spent s h (today g s))"
      by simp_all
    show ?thesis
    proof (cases "over_budget g s h n")
      case True
      have "wp (do { d \<leftarrow> gate_deny h EventBlockedBudget (ReasonBudget h) ses;
           notice (Alarmed (se_trace ses) (event_name EventBlockedBudget) (ReasonBudget h)
             [(''host'', JStr h), (''task_id'', JStr (se_task ses))]);
           ret (Inr d) }) ?Q s1"
        by (rule wp_bind_mono [OF gate_deny_spec])
           (use s1 fits True in \<open>simp add: wp_bind wp_notice wp_return quiet_def\<close>)
      with True show ?thesis by (simp add: Inr current over_budget_def)
    next
      case False
      have finish: "wp (do { gate_record ses EventAllowed
                 [(''host'', JStr h), (''port'', JInt port), (''bytes'', JInt (sint n))];
               ret (Inr allowed) }) ?Q s2"
        if "quiet s s2" "books_after g s h n s2" for s2
      proof (rule wp_bind_mono [OF gate_record_spec], elim conjE)
        fix u and s3 :: store
        assume s3: "quiet s2 s3" "budgets s3 = budgets s2"
        then have "books_after g s h n s3" using that(2)
          unfolding books_after_def spent_cong [OF s3(2)] by blast
        then show "wp (ret (Inr allowed)) ?Q s3"
          using quiet_trans [OF that(1) s3(1)] fits False by (simp add: wp_return)
      qed
      have "wp (do { r2 \<leftarrow> (if 0 < sint n then budget_Add h (today g s) n else ret (Inr 0));
           case r2 of
             Inl e \<Rightarrow> ret (Inl e)
           | Inr _ \<Rightarrow> do {
               gate_record ses EventAllowed
                 [(''host'', JStr h), (''port'', JInt port), (''bytes'', JInt (sint n))];
               ret (Inr allowed) } }) ?Q s1"
      proof (cases "0 < sint n")
        case True
        show ?thesis
          unfolding if_P [OF True]
        proof (rule wp_bind_mono [OF budget_Add_spec], elim conjE)
          fix r2 :: "int64 res" and s2 :: store
          assume s2: "quiet s1 s2" "\<forall>x. r2 = Inr x \<longrightarrow>
             (\<forall>h' d'. spent s2 h' d' = spent s1 h' d' + (if (h', d') = (h, today g s) then sint n else 0))
             \<and> in_int64 (spent s2 h (today g s))"
          show "wp (case r2 of Inl e \<Rightarrow> ret (Inl e)
             | Inr _ \<Rightarrow> do {
               gate_record ses EventAllowed
                 [(''host'', JStr h), (''port'', JInt port), (''bytes'', JInt (sint n))];
               ret (Inr allowed) }) ?Q s2"
          proof (cases r2)
            case (Inl e)
            with quiet_trans [OF s1(1) s2(1)] show ?thesis by (simp add: wp_return)
          next
            case (Inr x)
            with s2(2) have "\<forall>h' d'. spent s2 h' d' = spent s h' d' + (if (h', d') = (h, today g s) then sint n else 0)"
              and "in_int64 (spent s2 h (today g s))"
              unfolding spent1 by blast+
            with True have "books_after g s h n s2" by (simp add: books_after_def)
            with finish [OF quiet_trans [OF s1(1) s2(1)]] Inr show ?thesis by simp
          qed
        qed
      next
        case False
        with finish [OF s1(1) books_after_idle [OF s1(2) False]] show ?thesis
          by (simp add: wp_bind wp_return)
      qed
      moreover have "\<not> (0 < sint (budget_limit g h) \<and> sint (budget_limit g h) < sint (current + n))"
        using False by (simp add: over_budget_def current)
      ultimately show ?thesis
        unfolding Inr sum.case(2) by (simp only: if_False)
    qed
  qed
qed

text \<open>
  The ladder the package documents, as a function of the state: a host that has no canonical form
  or is not listed (more strictly worded for a session that has read secrets, or for a private
  address), then the budget of the host, then admission.
\<close>

definition blocked :: "egress_event \<Rightarrow> egress_reason \<Rightarrow> egress_decision" where
  "blocked k why = \<lparr>ed_allow = False, ed_reason = Some why, ed_rule = k\<rparr>"

definition decides :: "host_env \<Rightarrow> gate \<Rightarrow> target \<Rightarrow> int64 \<Rightarrow> session_info \<Rightarrow> store \<Rightarrow> egress_decision" where
  "decides v g t n ses s = (case CanonicalizeHost v (ta_host t) of
     None \<Rightarrow> blocked EventBlockedAllowlist (ReasonAllowlist (ta_host t))
   | Some h \<Rightarrow>
       if \<not> matchAllowlist g h (ta_port t) then
         (if se_session ses \<noteq> '''' \<and> se_session ses \<in> set (marked s)
          then blocked EventBlockedSensitive (ReasonSensitive h)
          else blocked EventBlockedAllowlist
                 (if isPrivateOrLinkLocal h then ReasonPrivate h else ReasonAllowlist h))
       else if over_budget g s h n then blocked EventBlockedBudget (ReasonBudget h)
       else allowed)"

definition check_post :: "host_env \<Rightarrow> gate \<Rightarrow> target \<Rightarrow> int64 \<Rightarrow> session_info \<Rightarrow> store
    \<Rightarrow> egress_decision res \<Rightarrow> store \<Rightarrow> bool" where
  "check_post v g t n ses s r s' \<longleftrightarrow> quiet s s' \<and> (\<forall>d. r = Inr d \<longrightarrow> d = decides v g t n ses s
     \<and> (if ed_allow d then \<exists>h. CanonicalizeHost v (ta_host t) = Some h \<and> in_int64 (spent s h (today g s))
          \<and> books_after g s h n s'
        else budgets s' = budgets s))"

lemma private_is_literal: "IsIPLiteral h \<and> isPrivateOrLinkLocal h \<longleftrightarrow> isPrivateOrLinkLocal h"
  by (auto simp: isPrivateOrLinkLocal_def IsIPLiteral_def split: option.splits)

lemma deny_post:
  assumes "decides v g t n ses s = blocked k why"
  shows "wp (do { d \<leftarrow> gate_deny h k why ses; ret (Inr d) }) (check_post v g t n ses s) s"
  by (rule wp_bind_mono [OF gate_deny_spec])
     (simp add: wp_return check_post_def assms blocked_def)

lemma spend_post:
  assumes "CanonicalizeHost v (ta_host t) = Some h" "matchAllowlist g h (ta_port t)"
  shows "wp (gate_spend g h (ta_port t) n ses) (check_post v g t n ses s) s"
proof (rule wp_mono [OF gate_spend_spec], elim conjE)
  fix r :: "egress_decision res" and s' :: store
  assume "quiet s s'" "\<forall>d. r = Inr d \<longrightarrow>
     in_int64 (spent s h (today g s)) \<and>
     (if over_budget g s h n
      then d = \<lparr>ed_allow = False, ed_reason = Some (ReasonBudget h), ed_rule = EventBlockedBudget\<rparr>
           \<and> budgets s' = budgets s
      else d = allowed \<and> books_after g s h n s')"
  with assms show "check_post v g t n ses s r s'"
    by (cases r) (simp_all add: check_post_def decides_def blocked_def split: if_splits)
qed

lemma Gate_Check_spec: "wp (Gate_Check v g t n ses) (check_post v g t n ses s) s"
proof (cases "CanonicalizeHost v (ta_host t)")
  case None
  then show ?thesis
    unfolding Gate_Check_def by (simp add: deny_post decides_def)
next
  case (Some h)
  have marked: "wp (if se_session ses = '''' then ret False else IsMarked (se_session ses))
      (\<lambda>b s'. s' = s \<and> b = (se_session ses \<noteq> '''' \<and> se_session ses \<in> set (marked s))) s"
    by (simp add: wp_return IsMarked_def wp_State)
  show ?thesis
    unfolding Gate_Check_def Some option.case Let_def
  proof (rule wp_bind_mono [OF marked], elim conjE)
    fix b and s1 :: store
    assume "s1 = s" and b: "b = (se_session ses \<noteq> '''' \<and> se_session ses \<in> set (marked s))"
    show "wp (if b \<and> \<not> matchAllowlist g h (ta_port t) then do {
         d \<leftarrow> gate_deny h EventBlockedSensitive (ReasonSensitive h) ses;
         ret (Inr d)
       } else if \<not> matchAllowlist g h (ta_port t) then do {
         d \<leftarrow> gate_deny h EventBlockedAllowlist
               (if IsIPLiteral h \<and> isPrivateOrLinkLocal h then ReasonPrivate h else ReasonAllowlist h) ses;
         ret (Inr d)
       } else gate_spend g h (ta_port t) n ses) (check_post v g t n ses s) s1"
      unfolding \<open>s1 = s\<close> private_is_literal
      using b Some
      by (auto intro: deny_post spend_post simp: decides_def)
  qed
qed

lemma Gate_Check_run:
  "run_state (Gate_Check v g t n ses) s = (r, s') \<Longrightarrow> check_post v g t n ses s r s'"
  by (rule wp_run [OF Gate_Check_spec])

text \<open>What is admitted fits into the budget, however large the numbers.\<close>

lemma within_budget:
  assumes "\<not> over_budget g s h n" "0 < sint (budget_limit g h)"
    and "in_int64 (spent s h (today g s))" "in_int64 (spent s h (today g s) + sint n)"
  shows "spent s h (today g s) + sint n \<le> sint (budget_limit g h)"
proof -
  have "sint (spent_word s h (today g s) + n) = sint (spent_word s h (today g s)) + sint n"
    by (rule sint_add_exact) (use assms(3,4) in \<open>simp_all add: sint_spent_word in_int64_def\<close>)
  with assms show ?thesis by (simp add: over_budget_def sint_spent_word)
qed

section \<open>Bytes admitted by a sequence of operations\<close>

text \<open>
  The bytes one operation of the gate lets out to a host on a day: those of a \<open>Check\<close> that
  allows, called directly or through the hook of the model proxy.
\<close>

definition check_admits :: "host_env \<Rightarrow> gate \<Rightarrow> target \<Rightarrow> int64 \<Rightarrow> session_info \<Rightarrow> store \<Rightarrow> string \<Rightarrow> string \<Rightarrow> int" where
  "check_admits v g t n ses s h d =
     (case fst (run_state (Gate_Check v g t n ses) s) of
        Inl _ \<Rightarrow> 0
      | Inr dec \<Rightarrow> if ed_allow dec \<and> CanonicalizeHost v (ta_host t) = Some h \<and> today g s = d
                  then max 0 (sint n) else 0)"

fun op_admits :: "host_env \<Rightarrow> gate \<Rightarrow> egress_op \<Rightarrow> store \<Rightarrow> string \<Rightarrow> string \<Rightarrow> int" where
  "op_admits v g (OpCheck t n ses) s h d = check_admits v g t n ses s h d"
| "op_admits v g (OpHook host port task trace n) s h d =
     check_admits v g \<lparr>ta_host = host, ta_port = port\<rparr> (if sint n < 0 then 0 else n)
       \<lparr>se_session = trace, se_task = task, se_trace = trace\<rparr> s h d"
| "op_admits v g _ s h d = 0"

fun admitted :: "host_env \<Rightarrow> gate \<Rightarrow> egress_op list \<Rightarrow> store \<Rightarrow> string \<Rightarrow> string \<Rightarrow> int" where
  "admitted v g [] s h d = 0"
| "admitted v g (op # ops) s h d = op_admits v g op s h d + admitted v g ops (run_egress v g op s) h d"

text \<open>The hook asks about no bytes when the length of the request is unknown.\<close>

lemma hook_is_check:
  "snd (run_state (NewAnthproxyEgressGateHook v g host port task trace n) s) =
   snd (run_state (Gate_Check v g \<lparr>ta_host = host, ta_port = port\<rparr> (if sint n < 0 then 0 else n)
       \<lparr>se_session = trace, se_task = task, se_trace = trace\<rparr>) s)"
  by (simp add: NewAnthproxyEgressGateHook_def split: prod.splits)

lemma check_admits_step:
  assumes "s' = snd (run_state (Gate_Check v g t n ses) s)"
  shows "0 \<le> check_admits v g t n ses s h d"
    and "spent s h d + check_admits v g t n ses s h d \<le> spent s' h d"
    and "0 < check_admits v g t n ses s h d \<Longrightarrow> 0 < sint (budget_limit g h) \<Longrightarrow>
      spent s h d + check_admits v g t n ses s h d \<le> sint (budget_limit g h)"
proof -
  obtain r where run: "run_state (Gate_Check v g t n ses) s = (r, s')"
    using assms by (metis prod.collapse)
  note post = Gate_Check_run [OF run]
  have grows: "spent s h d \<le> spent s' h d"
    using spent_grows.keeps_run [OF spent_grows.keeps_Gate_Check run] by (simp add: spent_grows_def)
  show "0 \<le> check_admits v g t n ses s h d"
    by (simp add: check_admits_def split: sum.splits)
  show "spent s h d + check_admits v g t n ses s h d \<le> spent s' h d"
  proof (cases "check_admits v g t n ses s h d = 0")
    case False
    then obtain dec where "r = Inr dec" "ed_allow dec" "CanonicalizeHost v (ta_host t) = Some h" "today g s = d"
      and bytes: "check_admits v g t n ses s h d = max 0 (sint n)"
      by (auto simp: check_admits_def run split: sum.splits if_splits)
    with post have "books_after g s h n s'" by (simp add: check_post_def)
    with \<open>today g s = d\<close> show ?thesis unfolding bytes by (simp add: books_after_def)
  qed (simp add: grows)
  assume pos: "0 < check_admits v g t n ses s h d" and limit: "0 < sint (budget_limit g h)"
  then obtain dec where dec: "r = Inr dec" "ed_allow dec" and host: "CanonicalizeHost v (ta_host t) = Some h"
    and day: "today g s = d" and bytes: "check_admits v g t n ses s h d = max 0 (sint n)"
    by (auto simp: check_admits_def run split: sum.splits if_splits)
  with post have "dec = decides v g t n ses s" and fits: "in_int64 (spent s h d)"
    and books: "books_after g s h n s'" by (simp_all add: check_post_def)
  with dec host have ok: "\<not> over_budget g s h n"
    by (auto simp: decides_def blocked_def split: if_splits)
  have n: "0 < sint n" using pos bytes by simp
  with books have "spent s' h d = spent s h d + sint n" and "in_int64 (spent s' h d)"
    using books_after_key [of g s h n s'] day by blast+
  with within_budget [OF ok limit] fits n bytes day
  show "spent s h d + check_admits v g t n ses s h d \<le> sint (budget_limit g h)" by simp
qed

lemma op_admits_step:
  "0 \<le> op_admits v g op s h d"
  "spent s h d + op_admits v g op s h d \<le> spent (run_egress v g op s) h d"
  "0 < op_admits v g op s h d \<Longrightarrow> 0 < sint (budget_limit g h) \<Longrightarrow>
     spent s h d + op_admits v g op s h d \<le> sint (budget_limit g h)"
proof -
  have grows: "spent s h d \<le> spent (run_egress v g op s) h d"
    using spent_grows.keeps_run_egress [of s v g op] by (simp add: spent_grows_def)
  have "0 \<le> op_admits v g op s h d \<and> spent s h d + op_admits v g op s h d \<le> spent (run_egress v g op s) h d
    \<and> (0 < op_admits v g op s h d \<longrightarrow> 0 < sint (budget_limit g h) \<longrightarrow>
       spent s h d + op_admits v g op s h d \<le> sint (budget_limit g h))"
  proof (cases op)
    case (OpCheck t n ses)
    then show ?thesis
      using check_admits_step [OF refl, where v = v and g = g and t = t and n = n and ses = ses
          and s = s and h = h and d = d] by simp
  next
    case (OpHook host port task trace n)
    then show ?thesis using check_admits_step [OF hook_is_check] by simp
  qed (use grows in simp_all)
  then show "0 \<le> op_admits v g op s h d"
    "spent s h d + op_admits v g op s h d \<le> spent (run_egress v g op s) h d"
    "0 < op_admits v g op s h d \<Longrightarrow> 0 < sint (budget_limit g h) \<Longrightarrow>
       spent s h d + op_admits v g op s h d \<le> sint (budget_limit g h)"
    by simp_all
qed

lemma admitted_within:
  assumes "0 < sint (budget_limit g h)"
  shows "admitted v g ops s h d \<le> max 0 (sint (budget_limit g h) - spent s h d)"
proof (induction ops arbitrary: s)
  case (Cons op ops)
  let ?a = "op_admits v g op s h d" and ?s = "run_egress v g op s"
  have step: "0 \<le> ?a" "spent s h d + ?a \<le> spent ?s h d"
    "0 < ?a \<longrightarrow> spent s h d + ?a \<le> sint (budget_limit g h)"
    using op_admits_step [where v = v and g = g and op = op and s = s and h = h and d = d] assms by simp_all
  have IH: "admitted v g ops ?s h d \<le> max 0 (sint (budget_limit g h) - spent ?s h d)" by (rule Cons.IH)
  show ?case
    unfolding admitted.simps using step IH by arith
qed simp

section \<open>Connections of the proxy\<close>

lemma sessionForRequest_spec:
  "wp (sessionForRequest p r) (\<lambda>_ s'. quiet s s' \<and> budgets s' = budgets s) s"
  unfolding sessionForRequest_def traceid_New_def wp_case_option wp_bind wp_return
  by (auto simp: quiet_def split: option.splits intro!: wp_rand_readI)

lemma MeterUsage_spec: "wp (MeterUsage v g host n ses) (\<lambda>_ s'. quiet s s') s"
  unfolding MeterUsage_def wp_if wp_case_option wp_return wp_bind [of now] wp_now
proof (simp add: quiet_refl split: option.split, intro impI allI)
  fix h
  show "wp (do { r \<leftarrow> budget_Add h (today g s) n;
      case r of Inl _ \<Rightarrow> ret ()
      | Inr _ \<Rightarrow> gate_record ses EventMetered [(''host'', JStr h), (''bytes'', JInt (sint n))] })
    (\<lambda>_. quiet s) s"
  proof (rule wp_bind_mono [OF budget_Add_spec], elim conjE)
    fix r :: "int64 res" and s1 assume q: "quiet s s1"
    show "wp (case r of Inl _ \<Rightarrow> ret ()
      | Inr _ \<Rightarrow> gate_record ses EventMetered [(''host'', JStr h), (''bytes'', JInt (sint n))]) (\<lambda>_. quiet s) s1"
      by (cases r) (auto simp: wp_return q intro!: wp_mono [OF gate_record_spec] intro: quiet_trans [OF q])
  qed
qed

text \<open>A connection is licensed: the host is listed with the port and within its budget, and the
  address is the literal asked for or the first of a resolver's answers, none of them private.\<close>

definition licensed :: "proxy_env \<Rightarrow> store \<Rightarrow> int64 \<Rightarrow> string \<Rightarrow> bool" where
  "licensed p s n addr \<longleftrightarrow> (\<exists>host h port ptext a. addr = JoinHostPort a ptext \<and> Atoi ptext = Some port
     \<and> CanonicalizeHost (px_host p) host = Some h \<and> matchAllowlist (px_gate p) h port
     \<and> \<not> over_budget (px_gate p) s h n \<and> resolveAndPin (px_lookup p) host = Some a)"

lemma admit_spec:
  "wp (admit p r host port n) (\<lambda>x s'. dials s' = dials s \<and> (\<forall>ses a. x = Inr (ses, a) \<longrightarrow>
     (\<exists>h. CanonicalizeHost (px_host p) host = Some h \<and> matchAllowlist (px_gate p) h port
        \<and> \<not> over_budget (px_gate p) s h n) \<and> resolveAndPin (px_lookup p) host = Some a)) s"
  (is "wp _ ?Q s")
  unfolding admit_def
proof (rule wp_bind_mono [OF sessionForRequest_spec], elim conjE)
  fix so and s1 :: store
  assume s1: "quiet s s1" "budgets s1 = budgets s"
  have over: "over_budget (px_gate p) s1 h n = over_budget (px_gate p) s h n" for h
    using s1 by (simp add: over_budget_def spent_word_def spent_cong [OF s1(2)] quiet_def)
  show "wp (case so of
       None \<Rightarrow> ret (Inl HandlerPanic)
     | Some ses \<Rightarrow> do {
         c \<leftarrow> Gate_Check (px_host p) (px_gate p) \<lparr>ta_host = host, ta_port = port\<rparr> n ses;
         case c of
           Inl _ \<Rightarrow> ret (Inl GateFailure)
         | Inr d \<Rightarrow>
             if \<not> ed_allow d then ret (Inl (Forbidden (ed_reason d)))
             else (case resolveAndPin (px_lookup p) host of
                 None \<Rightarrow> do {
                   d' \<leftarrow> DenyDNSRebind host ses;
                   ret (Inl (Forbidden (ed_reason d')))
                 }
               | Some a \<Rightarrow> ret (Inr (ses, a)))
       }) ?Q s1"
  proof (cases so)
    case None
    then show ?thesis using s1 by (simp add: wp_return quiet_def)
  next
    case (Some ses)
    show ?thesis
      unfolding Some option.case
    proof (rule wp_bind_mono [OF Gate_Check_spec])
      fix c :: "egress_decision res" and s2 :: store
      assume post: "check_post (px_host p) (px_gate p) \<lparr>ta_host = host, ta_port = port\<rparr> n ses s1 c s2"
      then have dials: "dials s2 = dials s" using s1 by (simp add: check_post_def quiet_def)
      show "wp (case c of
           Inl _ \<Rightarrow> ret (Inl GateFailure)
         | Inr d \<Rightarrow>
             if \<not> ed_allow d then ret (Inl (Forbidden (ed_reason d)))
             else (case resolveAndPin (px_lookup p) host of
                 None \<Rightarrow> do {
                   d' \<leftarrow> DenyDNSRebind host ses;
                   ret (Inl (Forbidden (ed_reason d')))
                 }
               | Some a \<Rightarrow> ret (Inr (ses, a)))) ?Q s2"
      proof (cases c)
        case (Inl e)
        with dials show ?thesis by (simp add: wp_return)
      next
        case (Inr d)
        show ?thesis
        proof (cases "ed_allow d")
          case False
          with Inr dials show ?thesis by (simp add: wp_return)
        next
          case True
          with Inr post have d: "d = decides (px_host p) (px_gate p) \<lparr>ta_host = host, ta_port = port\<rparr> n ses s1"
            by (simp add: check_post_def)
          with True have "\<exists>h. CanonicalizeHost (px_host p) host = Some h \<and> matchAllowlist (px_gate p) h port
              \<and> \<not> over_budget (px_gate p) s h n"
            by (auto simp: decides_def blocked_def over split: option.splits if_splits)
          moreover have deny: "wp (do { d' \<leftarrow> DenyDNSRebind host ses; ret (Inl (Forbidden (ed_reason d'))) }) ?Q s2"
            unfolding DenyDNSRebind_def
            by (rule wp_bind_mono [OF gate_deny_spec]) (use dials in \<open>simp add: wp_return quiet_def\<close>)
          ultimately show ?thesis
            using Inr True dials by (cases "resolveAndPin (px_lookup p) host") (simp_all add: wp_return)
        qed
      qed
    qed
  qed
qed

end
