(* ===== verification/Go_Net_Facts.thy ===== *)
theory Go_Net_Facts
  imports Go_Net
begin

text \<open>
  Printing an address and parsing the text gives the address back, and whatever parses is sixteen
  bytes: the canonical form of an IP literal stands for the address alone.
\<close>

definition bytes_ok :: "nat list \<Rightarrow> bool" where
  "bytes_ok bs \<longleftrightarrow> (\<forall>b \<in> set bs. b < 256)"

lemma bytes_ok_simps [simp]:
  "bytes_ok []" "bytes_ok (b # bs) \<longleftrightarrow> b < 256 \<and> bytes_ok bs" "bytes_ok (as @ bs) \<longleftrightarrow> bytes_ok as \<and> bytes_ok bs"
  "bytes_ok (replicate n 0)"
  by (auto simp: bytes_ok_def)

lemma bytes_ok_take_drop: "bytes_ok bs \<Longrightarrow> bytes_ok (take n bs)" "bytes_ok bs \<Longrightarrow> bytes_ok (drop n bs)"
  by (auto simp: bytes_ok_def dest: in_set_takeD in_set_dropD)

section \<open>Dotted addresses\<close>

lemma split_on_plain: "d \<notin> set x \<Longrightarrow> split_on d x = [x]"
  by (induction x) auto

lemma split_on_append: "d \<notin> set x \<Longrightarrow> split_on d (x @ d # rest) = x # split_on d rest"
  by (induction x) auto

lemma split_on_join:
  "xs \<noteq> [] \<Longrightarrow> \<forall>x \<in> set xs. d \<notin> set x \<Longrightarrow> split_on d (join_with [d] xs) = xs"
proof (induction "[d]" xs rule: join_with.induct)
  case (3 x y xs)
  then show ?case by (simp add: split_on_append)
qed (simp_all add: split_on_plain)

lemma digit_char_facts:
  "dec_digit (digit_char d) = Some (d mod 10)" "\<not> ip_mark (digit_char d)"
  "digit_char d = CHR ''0'' \<longleftrightarrow> d mod 10 = 0"
proof -
  have "48 + d mod 10 < 256" by (rule le_less_trans [of _ "48 + 9"]) simp_all
  then have code: "(of_char (digit_char d) :: nat) = 48 + d mod 10" by (simp add: digit_char_def of_char_of)
  have "d mod 10 \<le> 9" by simp
  then show digit: "dec_digit (digit_char d) = Some (d mod 10)"
    unfolding dec_digit_def code Let_def by simp
  have none: "dec_digit (CHR ''.'') = None" "dec_digit (CHR '':'') = None" "dec_digit (CHR ''%'') = None"
    "dec_digit (CHR ''0'') = Some 0" "digit_char 0 = CHR ''0''" by code_simp+
  show "\<not> ip_mark (digit_char d)"
    unfolding ip_mark_def using digit none by (metis option.distinct(1))
  show "digit_char d = CHR ''0'' \<longleftrightarrow> d mod 10 = 0"
    using digit none unfolding digit_char_def by (metis mod_0 option.inject)
qed

lemma byte_text_cases:
  assumes "n < 256"
  shows "byte_text n = (if n < 10 then [digit_char n]
    else if n < 100 then [digit_char (n div 10), digit_char n]
    else [digit_char (n div 10 div 10), digit_char (n div 10), digit_char n])"
proof -
  have "n div 10 < 10 \<longleftrightarrow> n < 100" "n div 10 div 10 < 10" using assms by linarith+
  then show ?thesis by (simp add: byte_text_def numeral_3_eq_3)
qed

lemma byte_text_facts:
  assumes "n < 256"
  shows "ipv4_field (byte_text n) = Some n" "\<forall>c \<in> set (byte_text n). \<not> ip_mark c"
proof -
  show "\<forall>c \<in> set (byte_text n). \<not> ip_mark c"
    unfolding byte_text_cases [OF assms] by (simp add: digit_char_facts)
  consider "n < 10" | "10 \<le> n" "n < 100" | "100 \<le> n" by linarith
  then show "ipv4_field (byte_text n) = Some n"
  proof cases
    case 1
    then show ?thesis
      unfolding byte_text_cases [OF assms] by (simp add: ipv4_field_def digit_char_facts)
  next
    case 2
    then have "n div 10 mod 10 = n div 10" "n div 10 \<noteq> 0" "n div 10 * 10 + n mod 10 = n" "\<not> n < 10"
      "\<not> 255 < n div 10" by simp_all
    with 2 show ?thesis
      unfolding byte_text_cases [OF assms] by (simp add: ipv4_field_def digit_char_facts)
  next
    case 3
    then have "n div 10 div 10 mod 10 = n div 10 div 10" "n div 10 div 10 \<noteq> 0"
      "(n div 10 div 10 * 10 + n div 10 mod 10) * 10 + n mod 10 = n"
      "n div 10 div 10 * 10 + n div 10 mod 10 \<le> 255" "\<not> 255 < n div 10 div 10" "\<not> n < 100" "\<not> n < 10"
      using assms by simp_all
    with 3 assms show ?thesis
      unfolding byte_text_cases [OF assms] by (simp add: ipv4_field_def digit_char_facts)
  qed
qed

lemma find_ip_mark_None: "\<forall>c \<in> set s. \<not> ip_mark c \<Longrightarrow> find ip_mark s = None"
  by (auto simp: find_None_iff)

lemma all_some_map: "\<forall>x \<in> set xs. f x = Some x \<Longrightarrow> all_some (map f xs) = Some xs"
  by (induction xs) simp_all

lemma ParseIP_ipv4_text:
  assumes "length q = 4" "bytes_ok q"
  shows "ParseIP (ipv4_text q) = Some (replicate 10 0 @ [255, 255] @ q)"
proof -
  obtain b0 b1 b2 b3 where q: "q = [b0, b1, b2, b3]"
    using assms(1) by (auto simp: length_Suc_conv numeral_eq_Suc)
  have ok: "\<forall>b \<in> set q. b < 256" using assms(2) by (simp add: bytes_ok_def)
  have "CHR ''.'' \<notin> set (byte_text b)" if "b \<in> set q" for b
    using byte_text_facts(2) ok that by (auto simp: ip_mark_def)
  then have "split_on (CHR ''.'') (ipv4_text q) = map byte_text q"
    unfolding ipv4_text_def by (intro split_on_join) (auto simp: q)
  moreover have "all_some (map (\<lambda>x. ipv4_field (byte_text x)) q) = Some q"
    by (rule all_some_map) (use ok in \<open>simp add: byte_text_facts(1)\<close>)
  ultimately have "parse_ipv4 (ipv4_text q) = Some q"
    by (simp add: parse_ipv4_def assms(1) comp_def)
  moreover have "find ip_mark (byte_text b0) = None"
    by (rule find_ip_mark_None) (rule byte_text_facts(2), use ok q in simp)
  then have "find ip_mark (ipv4_text q) = Some (CHR ''.'')"
    by (simp add: q ipv4_text_def find_append) (simp add: ip_mark_def)
  ultimately show ?thesis by (simp only: ParseIP_def) simp
qed

section \<open>Groups\<close>

definition group_bytes :: "nat list \<Rightarrow> nat list" where
  "group_bytes gs = concat (map (\<lambda>g. [g div 256, g mod 256]) gs)"

lemma group_bytes_simps [simp]:
  "group_bytes [] = []" "group_bytes (g # gs) = g div 256 # g mod 256 # group_bytes gs"
  "group_bytes (gs @ hs) = group_bytes gs @ group_bytes hs" "length (group_bytes gs) = 2 * length gs"
  by (simp_all add: group_bytes_def) (induction gs; simp)

lemma group_bytes_zeros: "group_bytes (replicate n 0) = replicate (2 * n) 0"
  by (induction n) simp_all

lemma group_bytes_pairs: "even (length bs) \<Longrightarrow> bytes_ok bs \<Longrightarrow> group_bytes (byte_pairs bs) = bs"
  by (induction bs rule: byte_pairs.induct) auto

lemma length_byte_pairs: "length (byte_pairs bs) = length bs div 2"
  by (induction bs rule: byte_pairs.induct) simp_all

lemma byte_pairs_bound: "bytes_ok bs \<Longrightarrow> g \<in> set (byte_pairs bs) \<Longrightarrow> g < 65536"
  by (induction bs rule: byte_pairs.induct) auto

lemma hex_char_facts:
  assumes "d < 16"
  shows "hex_value (hex_char d) = Some d" "is_hex (hex_char d)" "hex_char d = CHR ''0'' \<longleftrightarrow> d = 0"
proof -
  show *: "hex_value (hex_char d) = Some d" by (rule hex_value_hex_char [OF assms])
  then show "is_hex (hex_char d)" by (simp add: is_hex_def)
  have "hex_value (CHR ''0'') = Some 0" "hex_char 0 = CHR ''0''" by code_simp+
  with * show "hex_char d = CHR ''0'' \<longleftrightarrow> d = 0" by (metis option.inject)
qed

lemma hex_group_chars:
  assumes "a < 16" "b < 16" "c < 16" "d < 16"
  shows "hex_group [hex_char d] = Some d" "hex_group [hex_char c, hex_char d] = Some (16 * c + d)"
    "hex_group [hex_char b, hex_char c, hex_char d] = Some (16 * (16 * b + c) + d)"
    "hex_group [hex_char a, hex_char b, hex_char c, hex_char d] = Some (16 * (16 * (16 * a + b) + c) + d)"
  using assms by (simp_all add: hex_group_def hex_char_facts)

lemma group_text_facts:
  assumes "g < 65536"
  shows "list_all is_hex (group_text g) \<and> group_text g \<noteq> [] \<and> \<not> 4 < length (group_text g)
    \<and> hex_group (group_text g) = Some g"
proof -
  define a b c d where abcd: "a = g div 4096 mod 16" "b = g div 256 mod 16" "c = g div 16 mod 16" "d = g mod 16"
  have lt: "a < 16" "b < 16" "c < 16" "d < 16" by (simp_all add: abcd)
  have div: "g div 256 = g div 16 div 16" "g div 4096 = g div 256 div 16"
    by (simp_all flip: div_mult2_eq)
  have "a = g div 256 div 16" using assms by (simp add: abcd div)
  then have s1: "16 * a + b = g div 256" unfolding abcd(2) by simp
  have s2: "16 * (16 * a + b) + c = g div 16" unfolding s1 abcd(3) div(1) by simp
  have g: "16 * (16 * (16 * a + b) + c) + d = g" unfolding s2 abcd(4) by simp
  have text_eq: "group_text g = (let tr = dropWhile (\<lambda>x. x = CHR ''0'') [hex_char a, hex_char b, hex_char c, hex_char d]
      in if tr = [] then ''0'' else tr)"
    by (simp add: group_text_def abcd Let_def)
  note hex = lt [THEN hex_char_facts(2)] and zero = lt [THEN hex_char_facts(3)]
  note hexval = hex_group_chars [OF lt]
  have zero_char: "hex_char 0 = CHR ''0''" by code_simp
  have none: "is_hex (CHR ''0'')" "hex_group ''0'' = Some 0" by code_simp+
  consider "a \<noteq> 0" | "a = 0" "b \<noteq> 0" | "a = 0" "b = 0" "c \<noteq> 0" | "a = 0" "b = 0" "c = 0" "d \<noteq> 0"
    | "a = 0" "b = 0" "c = 0" "d = 0" by blast
  then show ?thesis
  proof cases
    case 1
    then have "group_text g = [hex_char a, hex_char b, hex_char c, hex_char d]" by (simp add: text_eq zero zero_char)
    then show ?thesis using hex hexval(4) g by simp
  next
    case 2
    then have "group_text g = [hex_char b, hex_char c, hex_char d]" by (simp add: text_eq zero zero_char)
    then show ?thesis using hex hexval(3) g 2 by simp
  next
    case 3
    then have "group_text g = [hex_char c, hex_char d]" by (simp add: text_eq zero zero_char)
    then show ?thesis using hex hexval(2) g 3 by simp
  next
    case 4
    then have "group_text g = [hex_char d]" by (simp add: text_eq zero zero_char)
    then show ?thesis using hex hexval(1) g 4 by simp
  next
    case 5
    then have "group_text g = ''0''" by (simp add: text_eq zero zero_char)
    then show ?thesis using none g 5 by simp
  qed
qed

section \<open>Groups and colons\<close>

definition groups_ok :: "nat list \<Rightarrow> bool" where
  "groups_ok gs \<longleftrightarrow> (\<forall>g \<in> set gs. g < 65536)"

lemma groups_ok_simps [simp]:
  "groups_ok []" "groups_ok (g # gs) \<longleftrightarrow> g < 65536 \<and> groups_ok gs"
  by (simp_all add: groups_ok_def)

lemma groups_ok_take_drop: "groups_ok gs \<Longrightarrow> groups_ok (take n gs)" "groups_ok gs \<Longrightarrow> groups_ok (drop n gs)"
  by (auto simp: groups_ok_def dest: in_set_takeD in_set_dropD)

abbreviation groups_text :: "nat list \<Rightarrow> string" where
  "groups_text gs \<equiv> join_with '':'' (map group_text gs)"

lemma not_hex_colon: "\<not> is_hex (CHR '':'')"
  by code_simp

lemma take_group:
  assumes "g < 65536"
  shows "takeWhile is_hex (group_text g @ CHR '':'' # s) = group_text g"
    "dropWhile is_hex (group_text g @ CHR '':'' # s) = CHR '':'' # s"
    "takeWhile is_hex (group_text g) = group_text g" "dropWhile is_hex (group_text g) = []"
  using group_text_facts [OF assms] not_hex_colon
  by (simp_all add: list_all_iff takeWhile_append2 dropWhile_append2 takeWhile_eq_all_conv dropWhile_eq_Nil_conv)

lemma groups_text_Cons:
  "gs \<noteq> [] \<Longrightarrow> groups_text (g # gs) = group_text g @ CHR '':'' # groups_text gs"
  by (cases gs) simp_all

lemma groups_text_start:
  assumes "gs \<noteq> []" "groups_ok gs"
  shows "\<exists>c cs. groups_text gs = c # cs \<and> is_hex c"
proof -
  obtain g gs' where gs: "gs = g # gs'" using assms(1) by (cases gs) auto
  with assms(2) have t: "list_all is_hex (group_text g)" "group_text g \<noteq> []" using group_text_facts [of g] by simp_all
  then obtain c cs where "group_text g = c # cs" by (cases "group_text g") auto
  with t gs show ?thesis by (cases gs') simp_all
qed

text \<open>The loop reads groups separated by colons to the end.\<close>

lemma ipv6_groups_text:
  assumes "gs \<noteq> []" "groups_ok gs" "length bs + 2 * length gs \<le> 16" "length gs \<le> k"
  shows "ipv6_groups k bs el (groups_text gs) = Some (bs @ group_bytes gs, el)"
  using assms
proof (induction gs arbitrary: bs k)
  case (Cons g gs)
  then obtain j where k: "k = Suc j" by (cases k) auto
  have g: "g < 65536" using Cons.prems by simp
  note gt = group_text_facts [OF g] take_group [OF g]
  have room: "\<not> 16 \<le> length bs" using Cons.prems by simp
  show ?case
  proof (cases "gs = []")
    case True
    with room show ?thesis by (simp add: k Let_def gt)
  next
    case False
    from groups_text_start [OF False] Cons.prems obtain c cs
      where start: "groups_text gs = c # cs" "is_hex c" by auto
    then have "c \<noteq> CHR '':''" using not_hex_colon by auto
    moreover have "ipv6_groups j (bs @ [g div 256, g mod 256]) el (groups_text gs)
        = Some ((bs @ [g div 256, g mod 256]) @ group_bytes gs, el)"
      by (rule Cons.IH) (use Cons.prems False k in simp_all)
    ultimately show ?thesis
      unfolding groups_text_Cons [OF False] k
      using room start by (simp add: Let_def gt)
  qed
qed simp

text \<open>Groups, an ellipsis, more groups.\<close>

lemma ipv6_groups_ellipsis:
  assumes "gs \<noteq> []" "groups_ok gs" "groups_ok hs" "length bs + 2 * length gs + 2 * length hs < 16"
    "length gs + length hs \<le> k"
  shows "ipv6_groups k bs None (groups_text gs @ ''::'' @ groups_text hs) =
    Some (bs @ group_bytes gs @ group_bytes hs, Some (length bs + 2 * length gs))"
  using assms
proof (induction gs arbitrary: bs k)
  case (Cons g gs)
  then obtain j where k: "k = Suc j" by (cases k) auto
  have g: "g < 65536" using Cons.prems by simp
  note gt = group_text_facts [OF g] take_group [OF g]
  have room: "\<not> 16 \<le> length bs" using Cons.prems by simp
  show ?case
  proof (cases "gs = []")
    case True
    show ?thesis
    proof (cases "hs = []")
      case True
      with \<open>gs = []\<close> room show ?thesis by (simp add: k Let_def gt)
    next
      case False
      have "groups_text hs \<noteq> []" using groups_text_start [OF False] Cons.prems by auto
      moreover have "ipv6_groups j (bs @ [g div 256, g mod 256]) (Some (length bs + 2)) (groups_text hs)
          = Some ((bs @ [g div 256, g mod 256]) @ group_bytes hs, Some (length bs + 2))"
        by (rule ipv6_groups_text) (use Cons.prems False k in simp_all)
      ultimately show ?thesis using \<open>gs = []\<close> room by (simp add: k Let_def gt)
    qed
  next
    case False
    from groups_text_start [OF False] Cons.prems obtain c cs
      where start: "groups_text gs = c # cs" "is_hex c" by auto
    then have "c \<noteq> CHR '':''" using not_hex_colon by auto
    moreover have "ipv6_groups j (bs @ [g div 256, g mod 256]) None (groups_text gs @ ''::'' @ groups_text hs)
        = Some ((bs @ [g div 256, g mod 256]) @ group_bytes gs @ group_bytes hs,
                Some (length (bs @ [g div 256, g mod 256]) + 2 * length gs))"
      by (rule Cons.IH) (use Cons.prems False k in simp_all)
    ultimately show ?thesis
      unfolding groups_text_Cons [OF False] k
      using room start by (simp add: Let_def gt)
  qed
qed simp

section \<open>The run of zeros\<close>

lemma longest_zeros_run:
  assumes "longest_zeros gs = Some (i, l)"
  shows "2 \<le> l" "l = zero_run gs i"
proof -
  define step where "step = (\<lambda>i best. let l = zero_run gs i in
     if 2 \<le> l \<and> (case best of None \<Rightarrow> True | Some (_, m) \<Rightarrow> m < l) then Some (i, l) else best)"
  have "fold step is best = Some (i, l) \<Longrightarrow> best = Some (i, l) \<or> 2 \<le> l \<and> l = zero_run gs i" for "is" best
  proof (induction "is" arbitrary: best)
    case (Cons j js)
    then have "fold step js (step j best) = Some (i, l)" by simp
    from Cons.IH [OF this] show ?case by (auto simp: step_def Let_def split: if_splits)
  qed simp
  from this [of "[0..<length gs]" None] assms show "2 \<le> l" "l = zero_run gs i"
    by (simp_all add: longest_zeros_def step_def)
qed

lemma longest_zeros_split:
  assumes "longest_zeros gs = Some (i, l)"
  shows "gs = take i gs @ replicate l 0 @ drop (i + l) gs" "i + l \<le> length gs"
proof -
  have l: "l = length (takeWhile (\<lambda>g. g = 0) (drop i gs))"
    using longest_zeros_run [OF assms] by (simp add: zero_run_def)
  have zeros: "takeWhile (\<lambda>g. g = (0 :: nat)) xs = replicate (length (takeWhile (\<lambda>g. g = 0) xs)) 0" for xs
    by (induction xs) simp_all
  have "take l (drop i gs) = takeWhile (\<lambda>g. g = 0) (drop i gs)"
    unfolding l by (rule takeWhile_eq_take [symmetric])
  also have "\<dots> = replicate l 0" unfolding l by (rule zeros)
  finally show "gs = take i gs @ replicate l 0 @ drop (i + l) gs"
    by (metis append_take_drop_id drop_drop add.commute)
  have "l \<le> length (drop i gs)" unfolding l by (rule length_takeWhile_le)
  moreover have "2 \<le> l" by (rule longest_zeros_run [OF assms])
  ultimately show "i + l \<le> length gs" by simp
qed

section \<open>Printing and parsing\<close>

definition ip_ok :: "ip \<Rightarrow> bool" where
  "ip_ok a \<longleftrightarrow> length a = 16 \<and> bytes_ok a"

lemma groups_text_chars:
  assumes "groups_ok gs"
  shows "\<forall>c \<in> set (groups_text gs). is_hex c \<or> c = CHR '':''"
  using assms
proof (induction gs)
  case (Cons g gs)
  then have "\<forall>c \<in> set (group_text g). is_hex c" "\<forall>c \<in> set (groups_text gs). is_hex c \<or> c = CHR '':''"
    using group_text_facts [of g] by (simp_all add: list_all_iff)
  then show ?case
  proof (cases "gs = []")
    case False
    with \<open>\<forall>c \<in> set (group_text g). is_hex c\<close> \<open>\<forall>c \<in> set (groups_text gs). is_hex c \<or> c = CHR '':''\<close>
    show ?thesis unfolding groups_text_Cons [OF False] by auto
  qed simp
qed simp

lemma find_colon:
  assumes "\<forall>c \<in> set s. is_hex c \<or> c = CHR '':''" "CHR '':'' \<in> set s"
  shows "find ip_mark s = Some (CHR '':'')" "CHR ''%'' \<notin> set s"
proof -
  have nothex: "\<not> is_hex (CHR ''.'')" "\<not> is_hex (CHR ''%'')" by code_simp+
  then show "CHR ''%'' \<notin> set s" using assms(1) by auto
  have "ip_mark (CHR '':'')" by (simp add: ip_mark_def)
  with assms(2) have "find ip_mark s \<noteq> None" by (auto simp: find_None_iff)
  then obtain c where c: "find ip_mark s = Some c" by auto
  from find_Some_in [OF c] assms(1) nothex have "c = CHR '':''" by (auto simp: ip_mark_def)
  with c show "find ip_mark s = Some (CHR '':'')" by simp
qed

lemma not_lead: "is_hex c \<Longrightarrow> \<not> is_prefix ''::'' (c # cs)"
  using not_hex_colon by auto

lemma parse_ipv6_text:
  assumes "length gs = 8" "groups_ok gs"
  shows "parse_ipv6 (ipv6_text gs) = Some (group_bytes gs)"
    and "\<forall>c \<in> set (ipv6_text gs). is_hex c \<or> c = CHR '':''" and "CHR '':'' \<in> set (ipv6_text gs)"
proof -
  have "parse_ipv6 (ipv6_text gs) = Some (group_bytes gs)
    \<and> (\<forall>c \<in> set (ipv6_text gs). is_hex c \<or> c = CHR '':'') \<and> CHR '':'' \<in> set (ipv6_text gs)"
  proof (cases "longest_zeros gs")
    case None
    then have shape: "ipv6_text gs = groups_text gs" by (simp add: ipv6_text_def)
    have ne: "gs \<noteq> []" using assms(1) by auto
    obtain c cs where start: "groups_text gs = c # cs" "is_hex c"
      using groups_text_start [OF ne assms(2)] by blast
    have "ipv6_groups 9 [] None (groups_text gs) = Some (group_bytes gs, None)"
      using ipv6_groups_text [OF ne assms(2), of "[]" 9 None] assms(1) by simp
    moreover have "\<not> is_prefix ''::'' (groups_text gs)" unfolding start(1) by (rule not_lead [OF start(2)])
    ultimately have "parse_ipv6 (groups_text gs) = Some (group_bytes gs)"
      using assms(1) by (simp add: parse_ipv6_def Let_def)
    moreover obtain g h hs where "gs = g # h # hs"
      using assms(1) by (cases gs; cases "tl gs") auto
    then have "CHR '':'' \<in> set (groups_text gs)" by simp
    ultimately show ?thesis using shape groups_text_chars [OF assms(2)] by simp
  next
    case (Some il)
    obtain i l where il: "il = (i, l)" by (cases il)
    with Some have Some': "longest_zeros gs = Some (i, l)" by simp
    let ?ps = "take i gs" and ?qs = "drop (i + l) gs"
    note split = longest_zeros_split [OF Some'] and two = longest_zeros_run(1) [OF Some']
    have shape: "ipv6_text gs = groups_text ?ps @ ''::'' @ groups_text ?qs"
      by (simp add: ipv6_text_def Some' take_map drop_map)
    have ok: "groups_ok ?ps" "groups_ok ?qs" by (simp_all add: groups_ok_take_drop assms(2))
    have len: "length ?ps = i" "length ?qs = 8 - (i + l)" "i + l \<le> 8" using split(2) assms(1) by simp_all
    have bytes: "group_bytes gs = group_bytes ?ps @ replicate (2 * l) 0 @ group_bytes ?qs"
      by (subst split(1)) (simp add: group_bytes_zeros)
    have fill: "16 - (2 * i + 2 * (8 - (i + l))) = 2 * l" using len(3) by simp
    have "parse_ipv6 (ipv6_text gs) = Some (group_bytes gs)"
    proof (cases "i = 0")
      case True
      show ?thesis
      proof (cases "?qs = []")
        case True
        with len have "l = 8" using \<open>i = 0\<close> by simp
        then show ?thesis using \<open>i = 0\<close> True by (simp add: shape bytes parse_ipv6_def Let_def)
      next
        case False
        then have ne: "groups_text ?qs \<noteq> []" using groups_text_start [OF False ok(2)] by auto
        have "ipv6_groups 9 [] (Some 0) (groups_text ?qs) = Some (group_bytes ?qs, Some 0)"
          using ipv6_groups_text [OF False ok(2), of "[]" 9 "Some 0"] len by simp
        with \<open>i = 0\<close> ne two len(2,3) fill show ?thesis
          by (simp add: shape bytes parse_ipv6_def Let_def)
      qed
    next
      case False
      then have ne: "?ps \<noteq> []" using len(1) by auto
      obtain c cs where start: "groups_text ?ps = c # cs" "is_hex c"
        using groups_text_start [OF ne ok(1)] by blast
      then have lead: "\<not> is_prefix ''::'' (groups_text ?ps @ ''::'' @ groups_text ?qs)"
        using not_lead by simp
      have "ipv6_groups 9 [] None (groups_text ?ps @ ''::'' @ groups_text ?qs)
          = Some ([] @ group_bytes ?ps @ group_bytes ?qs, Some (length ([] :: nat list) + 2 * length ?ps))"
        by (rule ipv6_groups_ellipsis [OF ne ok]) (use len two in simp_all)
      then have run: "ipv6_groups 9 [] None (ipv6_text gs) = Some (group_bytes ?ps @ group_bytes ?qs, Some (2 * i))"
        using len by (simp add: shape)
      have "\<not> is_prefix ''::'' (ipv6_text gs)" unfolding shape by (rule lead)
      moreover have "length (group_bytes ?ps @ group_bytes ?qs) = 2 * i + 2 * (8 - (i + l))"
        using len by simp
      moreover have "take (2 * i) (group_bytes ?ps @ group_bytes ?qs) = group_bytes ?ps"
        "drop (2 * i) (group_bytes ?ps @ group_bytes ?qs) = group_bytes ?qs"
        using len by simp_all
      moreover have "2 * i + 2 * (8 - (i + l)) < 16" using two len(3) by simp
      ultimately show ?thesis
        unfolding parse_ipv6_def Let_def using run by (simp only: fill bytes if_False simp_thms option.case prod.case if_True)
    qed
    then show ?thesis using groups_text_chars [OF ok(1)] groups_text_chars [OF ok(2)] by (auto simp: shape)
  qed
  then show "parse_ipv6 (ipv6_text gs) = Some (group_bytes gs)"
    "\<forall>c \<in> set (ipv6_text gs). is_hex c \<or> c = CHR '':''" "CHR '':'' \<in> set (ipv6_text gs)"
    by blast+
qed

lemma ParseIP_ip_string:
  assumes "ip_ok a"
  shows "ParseIP (ip_string a) = Some a"
proof (cases "to4 a")
  case None
  let ?gs = "byte_pairs a"
  have gs: "length ?gs = 8" "groups_ok ?gs"
    using assms byte_pairs_bound by (auto simp: ip_ok_def length_byte_pairs groups_ok_def)
  have "group_bytes ?gs = a" using assms by (simp add: ip_ok_def group_bytes_pairs)
  with parse_ipv6_text(1) [OF gs] find_colon [OF parse_ipv6_text(2) [OF gs] parse_ipv6_text(3) [OF gs]]
  show ?thesis by (simp add: ParseIP_def ip_string_def None)
next
  case (Some q)
  then have q: "q = drop 12 a" "length a = 16" "take 10 a = replicate 10 0" "take 2 (drop 10 a) = [255, 255]"
    using assms by (auto simp: to4_def ip_ok_def split: if_splits)
  have "a = take 10 a @ take 2 (drop 10 a) @ drop 12 a"
    using append_take_drop_id [of 10 a] append_take_drop_id [of 2 "drop 10 a"] by simp
  with q have "a = replicate 10 0 @ [255, 255] @ q" by simp
  moreover have "length q = 4" "bytes_ok q" using q assms by (simp_all add: ip_ok_def bytes_ok_take_drop)
  moreover have "ip_string a = ipv4_text q" by (simp add: ip_string_def Some)
  ultimately show ?thesis
    using ParseIP_ipv4_text [of q] by simp
qed

section \<open>What the parser returns\<close>

lemma dec_value_bound: "dec_value cs acc = Some n \<Longrightarrow> acc \<le> 255 \<Longrightarrow> n \<le> 255"
  by (induction cs arbitrary: acc) (auto split: option.splits if_splits)

lemma all_some_facts: "all_some xs = Some ys \<Longrightarrow> length ys = length xs \<and> (\<forall>y \<in> set ys. Some y \<in> set xs)"
  by (induction xs arbitrary: ys rule: all_some.induct) auto

lemma parse_ipv4_ok: "parse_ipv4 s = Some q \<Longrightarrow> length q = 4 \<and> bytes_ok q"
proof -
  assume "parse_ipv4 s = Some q"
  then have len: "length (split_on (CHR ''.'') s) = 4" and all: "all_some (map ipv4_field (split_on (CHR ''.'') s)) = Some q"
    by (auto simp: parse_ipv4_def Let_def split: if_splits)
  have "b < 256" if "ipv4_field f = Some b" for b f
    using that dec_value_bound [of f 0 b] by (auto simp: ipv4_field_def split: if_splits)
  then show ?thesis using all_some_facts [OF all] len by (auto simp: bytes_ok_def image_iff dest!: bspec)
qed

lemma hex_value_bound: "hex_value c = Some d \<Longrightarrow> d < 16"
  by (auto simp: hex_value_def Let_def split: if_splits)

lemma hex_group_bound: "hex_group ds = Some g \<Longrightarrow> g < 16 ^ length ds"
proof (induction ds arbitrary: g rule: rev_induct)
  case (snoc c ds)
  then obtain a d where "hex_group ds = Some a" "hex_value c = Some d" "g = 16 * a + d"
    by (auto simp: hex_group_def split: option.splits)
  with snoc.IH hex_value_bound [of c d] show ?case by fastforce
qed (simp add: hex_group_def)

lemma hex_group_ok: "hex_group ds = Some g \<Longrightarrow> \<not> 4 < length ds \<Longrightarrow> g < 65536"
proof -
  assume "hex_group ds = Some g" "\<not> 4 < length ds"
  then have "g < 16 ^ length ds" "(16 :: nat) ^ length ds \<le> 16 ^ 4"
    using power_increasing [of "length ds" 4 "16 :: nat"] by (simp_all add: hex_group_bound)
  then show ?thesis by simp
qed

lemma ipv6_groups_ok:
  "ipv6_groups k bs el s = Some (cs, e) \<Longrightarrow> bytes_ok bs \<Longrightarrow> even (length bs) \<Longrightarrow> length bs \<le> 16 \<Longrightarrow>
   (\<And>p. el = Some p \<Longrightarrow> p \<le> length bs) \<Longrightarrow>
   bytes_ok cs \<and> length cs \<le> 16 \<and> (\<forall>p. e = Some p \<longrightarrow> p \<le> length cs)"
proof (induction k arbitrary: bs el s)
  case (Suc k)
  let ?ds = "takeWhile is_hex s" and ?rest = "dropWhile is_hex s"
  show ?case
  proof (cases "16 \<le> length bs")
    case True
    with Suc.prems show ?thesis by (auto split: if_splits)
  next
    case False
    with Suc.prems(3,4) have room: "length bs + 2 \<le> 16" by (auto elim!: evenE)
    have ds: "?ds \<noteq> []" "\<not> 4 < length ?ds"
      using Suc.prems(1) False by (auto simp: Let_def split: if_splits)
    show ?thesis
    proof (cases "?rest")
      case Nil
      with Suc.prems(1) False ds obtain g where g: "hex_group ?ds = Some g" "cs = bs @ [g div 256, g mod 256]" "e = el"
        by (auto simp: Let_def split: option.splits)
      with hex_group_ok [OF g(1) ds(2)] Suc.prems room show ?thesis
        by (force simp: less_mult_imp_div_less)
    next
      case (Cons c t)
      show ?thesis
      proof (cases "c = CHR ''.''")
        case True
        with Suc.prems(1) False ds Cons obtain q where q: "parse_ipv4 s = Some q" "cs = bs @ q" "e = el"
          "\<not> 16 < length bs + 4"
          by (auto simp: Let_def split: if_splits)
        with parse_ipv4_ok [OF q(1)] Suc.prems show ?thesis by force
      next
        case False
        with Suc.prems(1) \<open>\<not> 16 \<le> length bs\<close> ds Cons obtain g where g: "hex_group ?ds = Some g"
          by (auto simp: Let_def split: if_splits option.splits)
        let ?bs = "bs @ [g div 256, g mod 256]"
        have bs: "bytes_ok ?bs" "even (length ?bs)" "length ?bs \<le> 16"
          using hex_group_ok [OF g ds(2)] Suc.prems room by (simp_all add: less_mult_imp_div_less)
        have le: "p \<le> length ?bs" if "el = Some p" for p using Suc.prems(5) [OF that] by simp
        consider "el = None" "cs = ?bs" "e = Some (length ?bs)"
          | "ipv6_groups k ?bs (Some (length ?bs)) (tl t) = Some (cs, e)"
          | "ipv6_groups k ?bs el t = Some (cs, e)"
          using Suc.prems(1) \<open>\<not> 16 \<le> length bs\<close> ds Cons False g
          by (auto simp: Let_def split: if_splits)
        then show ?thesis
        proof cases
          case 1
          with bs show ?thesis by simp
        next
          case 2
          from Suc.IH [OF this bs] show ?thesis by simp
        next
          case 3
          from Suc.IH [OF this bs le] show ?thesis .
        qed
      qed
    qed
  qed
qed simp

lemma ParseIP_ok: "ParseIP s = Some a \<Longrightarrow> ip_ok a"
proof -
  assume "ParseIP s = Some a"
  then consider q where "parse_ipv4 s = Some q" "a = replicate 10 0 @ [255, 255] @ q" | "parse_ipv6 s = Some a"
    by (auto simp: ParseIP_def split: option.splits if_splits)
  then show ?thesis
  proof cases
    case 1
    with parse_ipv4_ok [OF 1(1)] show ?thesis by (simp add: ip_ok_def)
  next
    case 2
    show ?thesis
    proof (cases "is_prefix ''::'' s \<and> drop 2 s = []")
      case True
      with 2 have "a = replicate 16 0" by (simp add: parse_ipv6_def Let_def)
      then show ?thesis by (simp add: ip_ok_def)
    next
      case False
      let ?el = "if is_prefix ''::'' s then Some 0 else None :: nat option"
      have not_all: "\<not> (is_prefix ''::'' s \<and> (if is_prefix ''::'' s then drop 2 s else s) = [])"
        using False by auto
      from 2 obtain bs el where run: "ipv6_groups 9 [] ?el (if is_prefix ''::'' s then drop 2 s else s) = Some (bs, el)"
        and a: "(case el of None \<Rightarrow> if length bs = 16 then Some bs else None
           | Some p \<Rightarrow> if length bs < 16 then Some (take p bs @ replicate (16 - length bs) 0 @ drop p bs) else None) = Some a"
        unfolding parse_ipv6_def Let_def if_not_P [OF not_all] by (auto split: option.splits prod.splits)
      have "p \<le> length ([] :: nat list)" if "?el = Some p" for p using that by (simp split: if_splits)
      from ipv6_groups_ok [OF run _ _ _ this] have "bytes_ok bs" "length bs \<le> 16" "\<forall>p. el = Some p \<longrightarrow> p \<le> length bs"
        by simp_all
      with a show ?thesis
        by (auto simp: ip_ok_def bytes_ok_take_drop split: option.splits if_splits)
    qed
  qed
qed

end
