(* ===== verification/Egress_Props.thy ===== *)
theory Egress_Props
  imports Egress_Facts Go_Net_Facts
begin

text \<open>
  The properties of the egress gate and the proxy: what an admission means, the order of the
  decision, the effect of a read of secrets on all later decisions of the session, the daily
  budget over whole sequences of operations, and the connections the proxy makes.
\<close>

section \<open>The allowlist of a new gate\<close>

lemma allow_host_fold:
  "fold (allow_host v) es m h = Some ports \<Longrightarrow> m h = Some ports \<or>
     (\<exists>e \<in> set es. CanonicalizeHost v (ea_host e) = Some h
        \<and> ports = (if ea_ports e = [] then [443] else ea_ports e))"
proof (induction es arbitrary: m)
  case (Cons e es)
  then have "fold (allow_host v) es (allow_host v e m) h = Some ports" by simp
  from Cons.IH [OF this] show ?case
    by (auto simp: allow_host_def split: option.splits if_splits)
qed simp

lemma NewGate_matches:
  assumes "matchAllowlist (NewGate v day cfg) h port"
  shows "\<exists>e \<in> set (ec_allowlist cfg). CanonicalizeHost v (ea_host e) = Some h
    \<and> (if ea_ports e = [] then port = 443 else port \<in> set (ea_ports e))"
proof -
  obtain ports where ports: "fold (allow_host v) (ec_allowlist cfg) Map.empty h = Some ports"
    and port: "ports = [] \<or> port \<in> set ports"
    using assms by (auto simp: matchAllowlist_def NewGate_def split: option.splits)
  from allow_host_fold [OF ports] obtain e where e: "e \<in> set (ec_allowlist cfg)"
    "CanonicalizeHost v (ea_host e) = Some h" "ports = (if ea_ports e = [] then [443] else ea_ports e)"
    by auto
  with port show ?thesis by (auto split: if_splits)
qed

lemma decides_allow:
  assumes "ed_allow (decides v g t n ses s)"
  obtains h where "CanonicalizeHost v (ta_host t) = Some h" "matchAllowlist g h (ta_port t)"
    "\<not> over_budget g s h n"
  using assms by (auto simp: decides_def blocked_def split: option.splits if_splits)

section \<open>Connections\<close>






section \<open>Properties\<close>

text \<open>A gate for the examples: one host, the default port, a budget of 100 bytes a day.\<close>

definition demo_hosts :: host_env where
  "demo_hosts = \<lparr>hv_lower = id, hv_idna = Some\<rparr>"

definition demo_egress :: egress_config where
  "demo_egress = \<lparr>ec_allowlist = [\<lparr>ea_host = ''Api.Test.'', ea_ports = [], ea_methods = []\<rparr>],
     ec_default_budget = 1000, ec_budget = [(''api.test'', 100)]\<rparr>"

definition demo_gate :: gate where
  "demo_gate = NewGate demo_hosts (\<lambda>_. ''2026-01-01'') demo_egress"

lemma canon_demo [simp]:
  "CanonicalizeHost demo_hosts ''Api.Test.'' = Some ''api.test''"
  "CanonicalizeHost demo_hosts ''api.test'' = Some ''api.test''"
  "CanonicalizeHost demo_hosts '' API.test'' = Some ''api.test''"
  "CanonicalizeHost demo_hosts ''evil.test'' = Some ''evil.test''"
  by code_simp+

lemma demo_gate_simps [simp]:
  "gt_allowlist demo_gate = [''api.test'' \<mapsto> [443]]" "gt_per_host demo_gate = [''api.test'' \<mapsto> 100]"
  "gt_default demo_gate = 1000" "gt_day demo_gate = (\<lambda>_. ''2026-01-01'')"
  by (simp_all add: demo_gate_def NewGate_def demo_egress_def allow_host_def override_budget_def)

definition demo_target :: target where
  "demo_target = \<lparr>ta_host = '' API.test'', ta_port = 443\<rparr>"

definition demo_info :: session_info where
  "demo_info = \<lparr>se_session = ''s1'', se_task = ''t1'', se_trace = ''s1''\<rparr>"

lemma demo_checks:
  "fst (run_state (Gate_Check demo_hosts demo_gate demo_target 40 demo_info) empty_store) = Inr allowed"
  "fst (run_state (Gate_Check demo_hosts demo_gate demo_target 101 demo_info) empty_store) =
     Inr (blocked EventBlockedBudget (ReasonBudget ''api.test''))"
  by code_simp+

text \<open>
  C33.  \<open>Check\<close> allows only what the configuration lists: the host asked for and the host of an
  entry have the same canonical form, the port is one of the entry's, or 443 when the entry names
  none, and the bytes on record for the host and the local day, those of this call included, are
  within the host's budget.  This holds whatever database calls fail, and without a bound on the
  numbers: a sum that wraps around is not admitted.
\<close>

theorem egress_allow_is_licensed:
  assumes "run_state (Gate_Check v (NewGate v day cfg) t n ses) s = (Inr d, s')" and "ed_allow d"
  shows "\<exists>h e. CanonicalizeHost v (ta_host t) = Some h
    \<and> e \<in> set (ec_allowlist cfg) \<and> CanonicalizeHost v (ea_host e) = Some h
    \<and> (if ea_ports e = [] then ta_port t = 443 else ta_port t \<in> set (ea_ports e))
    \<and> (0 < sint n \<and> 0 < sint (budget_limit (NewGate v day cfg) h) \<longrightarrow>
         spent s' h (day (clock s)) = spent s h (day (clock s)) + sint n
         \<and> spent s' h (day (clock s)) \<le> sint (budget_limit (NewGate v day cfg) h))"
proof -
  let ?g = "NewGate v day cfg"
  have day: "gt_day ?g = day" by (simp add: NewGate_def)
  from Gate_Check_run [OF assms(1)] assms(2) obtain h where d: "d = decides v ?g t n ses s"
    and h: "CanonicalizeHost v (ta_host t) = Some h" and fits: "in_int64 (spent s h (today ?g s))"
    and books: "books_after ?g s h n s'"
    by (auto simp: check_post_def)
  from d assms(2) h have m: "matchAllowlist ?g h (ta_port t)" and ok: "\<not> over_budget ?g s h n"
    by (auto elim!: decides_allow)
  have "spent s' h (day (clock s)) = spent s h (day (clock s)) + sint n
      \<and> spent s' h (day (clock s)) \<le> sint (budget_limit ?g h)"
    if "0 < sint n" "0 < sint (budget_limit ?g h)"
  proof -
    have eq: "spent s' h (today ?g s) = spent s h (today ?g s) + sint n"
      and "in_int64 (spent s' h (today ?g s))"
      using books_after_key [OF books that(1)] by simp_all
    then show ?thesis using within_budget [OF ok that(2) fits] unfolding day by simp
  qed
  with NewGate_matches [OF m] h show ?thesis by blast
qed

theorem egress_allow_is_licensed_witness:
  "\<exists>s'. run_state (Gate_Check demo_hosts demo_gate demo_target 40 demo_info) empty_store = (Inr allowed, s')
     \<and> (\<exists>h. CanonicalizeHost demo_hosts '' API.test'' = Some h \<and> spent s' h ''2026-01-01'' \<le> 100)"
proof -
  obtain s' where run: "run_state (Gate_Check demo_hosts demo_gate demo_target 40 demo_info) empty_store
      = (Inr allowed, s')"
    using demo_checks(1) by (metis prod.collapse)
  from egress_allow_is_licensed [OF run [unfolded demo_gate_def], folded demo_gate_def] run
  show ?thesis by (auto simp: demo_target_def budget_limit_def)
qed

text \<open>
   Every decision is the one the documented ladder gives in the state before the call: first
  the refusals for a host that is not listed, worded by whether the session has read secrets and
  whether the address is private, then the budget, then admission.  A refusal books no bytes, an
  admission books those asked for on the local day, and no other table of the database changes.
\<close>

theorem egress_check_follows_the_ladder:
  assumes "run_state (Gate_Check v g t n ses) s = (Inr d, s')"
  shows "d = decides v g t n ses s \<and> egress_frame s s'
    \<and> (if ed_allow d then \<exists>h. CanonicalizeHost v (ta_host t) = Some h \<and> books_after g s h n s'
        else budgets s' = budgets s)"
  using Gate_Check_run [OF assms] egress_frame.keeps_run [OF egress_frame.keeps_Gate_Check assms]
  by (auto simp: check_post_def split: if_splits)

theorem egress_check_follows_the_ladder_witness:
  "decides demo_hosts demo_gate demo_target 101 demo_info empty_store
     = blocked EventBlockedBudget (ReasonBudget ''api.test'')"
proof -
  obtain s' where run: "run_state (Gate_Check demo_hosts demo_gate demo_target 101 demo_info) empty_store
      = (Inr (blocked EventBlockedBudget (ReasonBudget ''api.test'')), s')"
    using demo_checks(2) by (metis prod.collapse)
  from egress_check_follows_the_ladder [OF run] show ?thesis by simp
qed

text \<open>
   Once a session has read a secret, no request it makes to a host that is not listed is
  allowed, whatever the gate, the hook and the proxy do in between, whatever time passes and
  whatever database calls fail: if there is a decision, it is the strict refusal.
\<close>

theorem marked_session_is_confined:
  assumes "se_session ses \<noteq> ''''"
    and "CanonicalizeHost v (ta_host t) = Some h" and "\<not> matchAllowlist g h (ta_port t)"
    and "run_state (Gate_Check v g t n ses)
      (run_egress_ops v g ops (run_egress v g (OpMark (se_session ses) trace) s)) = (Inr d, s')"
  shows "d = blocked EventBlockedSensitive (ReasonSensitive h)"
proof -
  let ?s1 = "run_egress v g (OpMark (se_session ses) trace) s"
  have "wp (MarkSensitiveRead (se_session ses) trace) (\<lambda>_ s'. se_session ses \<in> set (marked s')) s"
    unfolding MarkSensitiveRead_def if_not_P [OF assms(1)]
  proof (rule wp_bind_mono)
    show "wp (tracker_Mark (se_session ses)) (\<lambda>_ s'. se_session ses \<in> set (marked s')) s"
      using assms(1) by (simp add: tracker_Mark_def wp_State)
    fix b and s1 :: store assume m: "se_session ses \<in> set (marked s1)"
    show "wp (do { gate_record \<lparr>se_session = se_session ses, se_task = '''', se_trace = trace\<rparr> EventSensitiveMarked [];
        ret (Inr ()) }) (\<lambda>_ s'. se_session ses \<in> set (marked s')) s1"
      by (rule wp_bind_mono [OF gate_record_spec]) (use m in \<open>simp add: wp_return quiet_def\<close>)
  qed
  then have "se_session ses \<in> set (marked ?s1)" by (simp add: wp_def split_beta)
  moreover have "marks_grow ?s1 (run_egress_ops v g ops ?s1)" by (rule marks_grow.keeps_run_egress_ops)
  ultimately have "se_session ses \<in> set (marked (run_egress_ops v g ops ?s1))" by (auto simp: marks_grow_def)
  with Gate_Check_run [OF assms(4)] assms(1-3) show ?thesis
    by (simp add: check_post_def decides_def)
qed

theorem marked_session_is_confined_witness:
  "fst (run_state (Gate_Check demo_hosts demo_gate \<lparr>ta_host = ''evil.test'', ta_port = 443\<rparr> 0 demo_info)
     (run_egress demo_hosts demo_gate (OpMark ''s1'' ''s1'') empty_store))
   = Inr (blocked EventBlockedSensitive (ReasonSensitive ''evil.test''))"
proof -
  let ?t = "\<lparr>ta_host = ''evil.test'', ta_port = 443\<rparr>"
  let ?s = "run_egress_ops demo_hosts demo_gate [] (run_egress demo_hosts demo_gate (OpMark (se_session demo_info) ''s1'') empty_store)"
  have "\<not> isl (fst (run_state (Gate_Check demo_hosts demo_gate ?t 0 demo_info) ?s))" by code_simp
  then obtain d s' where run: "run_state (Gate_Check demo_hosts demo_gate ?t 0 demo_info) ?s = (Inr d, s')"
    by (metis prod.collapse sum.collapse(2))
  have "d = blocked EventBlockedSensitive (ReasonSensitive ''evil.test'')"
    by (rule marked_session_is_confined [OF _ _ _ run]) (simp_all add: demo_info_def matchAllowlist_def)
  with run show ?thesis by (simp add: run_egress_ops_def demo_info_def)
qed






definition demo_proxy :: proxy_env where
  "demo_proxy = \<lparr>px_host = demo_hosts, px_gate = demo_gate, px_tokens = None,
     px_lookup = (\<lambda>_. Some [[93, 184, 216, 34]]), px_dial = (\<lambda>_. True), px_hijack = Tunnel 70,
     px_roundtrip = (\<lambda>_. None)\<rparr>"

definition demo_connect :: proxy_request where
  "demo_connect = \<lparr>rq_method = ''CONNECT'', rq_host = ''api.test:443'', rq_is_abs = False,
     rq_url_host = '''', rq_length = 0, rq_authorization = ''''\<rparr>"


text \<open>The address a text names as an IP literal, after the steps of \<open>CanonicalizeHost\<close> before it.\<close>

definition literal_of :: "host_env \<Rightarrow> string \<Rightarrow> ip option" where
  "literal_of v raw = (if trim_space raw = '''' then None
     else ParseIP (trim_dot (ToLower v (strip_brackets (trim_space raw)))))"

lemma canonical_literal: "literal_of v raw = Some a \<Longrightarrow> CanonicalizeHost v raw = Some (ip_string a)"
  by (simp add: literal_of_def CanonicalizeHost_def Let_def split: if_splits)

text \<open>
  C38.  IP literals are compared by address: two texts that name addresses have the same canonical
  form exactly if the addresses are the same, however they are written; the canonical form names the
  address again, so it is its own canonical form to the parser, and the test for private addresses
  on it is the test on the address.
\<close>

theorem ip_literals_are_compared_by_address:
  assumes "literal_of v r1 = Some a" and "literal_of v r2 = Some b"
  shows "(CanonicalizeHost v r1 = CanonicalizeHost v r2 \<longleftrightarrow> a = b)
    \<and> CanonicalizeHost v r1 = Some (ip_string a) \<and> ParseIP (ip_string a) = Some a
    \<and> (isPrivateOrLinkLocal (ip_string a) \<longleftrightarrow> private_ip a)"
proof -
  have "ip_ok a" "ip_ok b"
    using assms ParseIP_ok by (auto simp: literal_of_def split: if_splits)
  then have parse: "ParseIP (ip_string a) = Some a" "ParseIP (ip_string b) = Some b"
    by (simp_all add: ParseIP_ip_string)
  then have "ip_string a = ip_string b \<longleftrightarrow> a = b" by (metis option.inject)
  with parse show ?thesis
    by (simp add: canonical_literal [OF assms(1)] canonical_literal [OF assms(2)] isPrivateOrLinkLocal_def)
qed

lemma demo_literals:
  "literal_of demo_hosts '' [0:00::0001]'' = Some (replicate 15 0 @ [1])"
  "literal_of demo_hosts ''::1.'' = Some (replicate 15 0 @ [1])"
  by code_simp+

theorem ip_literals_are_compared_by_address_witness:
  "CanonicalizeHost demo_hosts '' [0:00::0001]'' = CanonicalizeHost demo_hosts ''::1.''
   \<and> isPrivateOrLinkLocal (ip_string (replicate 15 0 @ [1]))"
proof -
  have "private_ip (replicate 15 0 @ [1])" by code_simp
  with ip_literals_are_compared_by_address [OF demo_literals] show ?thesis by blast
qed

section \<open>Observations\<close>

text \<open>
  The sum of a counter and the bytes asked for wraps around in \<open>Check\<close>, which then books them:
  the call fails, since the stored counter no longer fits into 64 bits, and so does every later
  call for that host on that day, for no bytes at all as well.
\<close>

definition huge_then_nothing :: "egress_op list" where
  "huge_then_nothing = [OpCheck demo_target 40 demo_info, OpCheck demo_target 0x7FFFFFFFFFFFFFFF demo_info]"

lemma wrapped_sum_blocks_the_host:
  "\<not> over_budget demo_gate (run_egress_ops demo_hosts demo_gate [OpCheck demo_target 40 demo_info] empty_store)
       ''api.test'' 0x7FFFFFFFFFFFFFFF"
  "fst (run_state (Gate_Check demo_hosts demo_gate demo_target 0 demo_info)
      (run_egress_ops demo_hosts demo_gate huge_then_nothing empty_store)) = Inl DecodeError"
  by code_simp+

text \<open>The unspecified address, which connects to this machine, passes the test for private addresses.\<close>

lemma unspecified_address_is_not_private:
  "\<not> isPrivateOrLinkLocal ''0.0.0.0''" "\<not> isPrivateOrLinkLocal ''::''"
  "resolveAndPin (\<lambda>_. Some [[0, 0, 0, 0]]) ''api.test'' = Some ''0.0.0.0''"
  by code_simp+

text \<open>A field with a leading zero is not an IP literal, so the text is kept as it is.\<close>

lemma leading_zeros_are_kept:
  "CanonicalizeHost demo_hosts ''192.168.001.001'' = Some ''192.168.001.001''"
  "\<not> isPrivateOrLinkLocal ''192.168.001.001''"
  by code_simp+

text \<open>A forwarded request with a known length is booked twice, before it is sent and after.\<close>

lemma known_length_is_booked_twice:
  "spent (run_egress demo_hosts demo_gate
      (OpServe (demo_proxy\<lparr>px_roundtrip := (\<lambda>_. Some (200, 0, 30))\<rparr>)
        (demo_connect\<lparr>rq_method := ''POST'', rq_is_abs := True, rq_url_host := ''api.test:443'', rq_length := 30\<rparr>))
      (empty_store\<lparr>entropy := [Some ''x'']\<rparr>)) ''api.test'' ''2026-01-01'' = 60"
  by code_simp

text \<open>When the upstream breaks off, what had been sent of a body of unknown length is never booked.\<close>

lemma broken_upload_is_not_booked:
  "budgets (run_egress demo_hosts demo_gate
      (OpServe demo_proxy
        (demo_connect\<lparr>rq_method := ''POST'', rq_is_abs := True, rq_url_host := ''api.test:443'', rq_length := - 1\<rparr>))
      (empty_store\<lparr>entropy := [Some ''x'']\<rparr>)) = []"
  by code_simp

end
