(* ===== verification/Ledger_Anchor.thy ===== *)
theory Ledger_Anchor
  imports Sha256
begin

text \<open>
  The tamper-evident ledger: \<open>kahyad/internal/ledgerdigest\<close> (the running digest),
  \<open>store.InsertEventWithDigest\<close> (the only writer of the events table) and
  \<open>kahyad/internal/anchor\<close> (the push of the digest to a remote repository and the
  verification).

  The state holds the three tables, the working copy of \<open>anchors.log\<close> and the alarms raised.
  Database calls fail by a schedule, as in \<open>Store\<close>.  Git, the deploy key, JSON and the text of a
  time are the record \<open>anchor_env\<close>.
\<close>

section \<open>The running digest\<close>

definition Genesis :: string where
  "Genesis = replicate 32 (char_of (0 :: nat))"

definition Next :: "string \<Rightarrow> int \<Rightarrow> string \<Rightarrow> string" where
  "Next prev i payload = sha256 (prev @ big_endian 8 i @ payload)"

section \<open>Tables\<close>

record ledger_row =
  lr_id :: int
  lr_trace :: string
  lr_ts :: stamp
  lr_kind :: string
  lr_payload :: string

record anchor_row =
  ar_id :: int
  ar_event :: int
  ar_digest :: string
  ar_at :: stamp
  ar_remote :: "string option"
  ar_pushed :: bool

text \<open>What the package writes to the ledger about itself; the last two are alarms.\<close>

datatype anchor_note =
    AnchorPushed int string
  | AnchorStalePending int int stamp
  | AnchorMismatch int

fun note_kind :: "anchor_note \<Rightarrow> string" where
  "note_kind (AnchorPushed _ _) = ''anchor.pushed''"
| "note_kind (AnchorStalePending _ _ _) = ''anchor.stale_pending''"
| "note_kind (AnchorMismatch _) = ''anchor.mismatch''"

record ledger_db =
  l_events :: "ledger_row list"
  l_seq :: int                       \<comment> \<open>the \<open>AUTOINCREMENT\<close> sequence of the events table\<close>
  l_state :: "(int \<times> string) option"  \<comment> \<open>\<open>ledger_digest_state\<close>: last event id and digest\<close>
  l_anchors :: "anchor_row list"
  l_file :: "string option"
  l_fallback :: string
  l_alarms :: "anchor_note list"
  l_faults :: "bool list"
  l_clock :: int

definition new_ledger :: ledger_db where
  "new_ledger = \<lparr>l_events = [], l_seq = 0, l_state = Some (0, Genesis), l_anchors = [], l_file = None,
     l_fallback = '''', l_alarms = [], l_faults = [], l_clock = 0\<rparr>"

record anchor_env =
  ge_remote :: string
  ge_interval :: int
  ge_fallback :: bool
  ge_key :: bool
  ge_sync :: "string option \<Rightarrow> string option option"
  ge_append :: bool
  ge_add :: bool
  ge_commit :: bool
  ge_push :: bool
  ge_host :: "string option"
  ge_time :: "int \<Rightarrow> string"
  ge_json :: "anchor_note \<Rightarrow> string"

section \<open>Queries\<close>

definition ldb :: "(ledger_db \<Rightarrow> 'a res \<times> ledger_db) \<Rightarrow> (ledger_db, 'a res) state" where
  "ldb f = State (\<lambda>s. case l_faults s of
     [] \<Rightarrow> f s
   | b # bs \<Rightarrow> (let s' = s\<lparr>l_faults := bs\<rparr> in if b then (Inl DbError, s') else f s'))"

definition lget :: "(ledger_db \<Rightarrow> 'a res) \<Rightarrow> (ledger_db, 'a res) state" where
  "lget f = ldb (\<lambda>s. (f s, s))"

definition lnow :: "(ledger_db, int) state" where
  "lnow = State (\<lambda>s. (l_clock s, s))"

definition InsertEvent :: "string \<Rightarrow> stamp \<Rightarrow> string \<Rightarrow> string \<Rightarrow> (ledger_db, ledger_row res) state" where
  "InsertEvent trace ts kind payload = ldb (\<lambda>s.
     let r = \<lparr>lr_id = l_seq s + 1, lr_trace = trace, lr_ts = ts, lr_kind = kind, lr_payload = payload\<rparr>
     in (Inr r, s\<lparr>l_events := l_events s @ [r], l_seq := l_seq s + 1\<rparr>))"

definition GetLedgerDigestState :: "(ledger_db, (int \<times> string) res) state" where
  "GetLedgerDigestState = lget (\<lambda>s. case l_state s of None \<Rightarrow> Inl NoRows | Some x \<Rightarrow> Inr x)"

definition AdvanceLedgerDigestState :: "int \<Rightarrow> string \<Rightarrow> (ledger_db, unit res) state" where
  "AdvanceLedgerDigestState i d = ldb (\<lambda>s. (Inr (), s\<lparr>l_state := map_option (\<lambda>_. (i, d)) (l_state s)\<rparr>))"

definition ListAllEvents :: "(ledger_db, ledger_row list res) state" where
  "ListAllEvents = lget (\<lambda>s. Inr (sort_key lr_id (l_events s)))"

definition ListAnchorLogs :: "(ledger_db, anchor_row list res) state" where
  "ListAnchorLogs = lget (\<lambda>s. Inr (sort_key ar_event (l_anchors s)))"

definition ListPendingAnchorLogs :: "(ledger_db, anchor_row list res) state" where
  "ListPendingAnchorLogs = lget (\<lambda>s. Inr (sort_key ar_id (filter (\<lambda>a. \<not> ar_pushed a) (l_anchors s))))"

definition GetLatestAnchorLog :: "(ledger_db, anchor_row res) state" where
  "GetLatestAnchorLog = lget (\<lambda>s. if l_anchors s = [] then Inl NoRows
     else Inr (last (sort_key ar_id (l_anchors s))))"

definition InsertAnchorLog :: "int \<Rightarrow> string \<Rightarrow> stamp \<Rightarrow> (ledger_db, anchor_row res) state" where
  "InsertAnchorLog e d at = ldb (\<lambda>s.
     let r = \<lparr>ar_id = 1 + fold max (map ar_id (l_anchors s)) 0, ar_event = e, ar_digest = d, ar_at = at,
              ar_remote = None, ar_pushed = False\<rparr>
     in (Inr r, s\<lparr>l_anchors := l_anchors s @ [r]\<rparr>))"

definition MarkAnchorPushed :: "int \<Rightarrow> string \<Rightarrow> (ledger_db, unit res) state" where
  "MarkAnchorPushed i remote = ldb (\<lambda>s. (Inr (), s\<lparr>l_anchors :=
     update_where (\<lambda>a. ar_id a = i) (\<lambda>a. a\<lparr>ar_pushed := True, ar_remote := Some remote\<rparr>) (l_anchors s)\<rparr>))"

section \<open>The writer of the ledger\<close>

text \<open>The transaction: the event and its digest step, or, after any error, neither.\<close>

definition append_steps :: "string \<Rightarrow> string \<Rightarrow> string \<Rightarrow> int \<Rightarrow> (ledger_db, ledger_row res) state" where
  "append_steps trace kind payload t = do {
     b \<leftarrow> lget (\<lambda>_. Inr ());
     case b of Inl e \<Rightarrow> ret (Inl e) | Inr _ \<Rightarrow> do {
     r \<leftarrow> InsertEvent trace (Stamp t) kind payload;
     case r of Inl e \<Rightarrow> ret (Inl e) | Inr ev \<Rightarrow> do {
     st \<leftarrow> GetLedgerDigestState;
     case st of Inl e \<Rightarrow> ret (Inl e) | Inr x \<Rightarrow> do {
     a \<leftarrow> AdvanceLedgerDigestState (lr_id ev) (Next (snd x) (lr_id ev) (lr_payload ev));
     case a of Inl e \<Rightarrow> ret (Inl e) | Inr _ \<Rightarrow> do {
     c \<leftarrow> lget (\<lambda>_. Inr ());
     ret (case c of Inl e \<Rightarrow> Inl e | Inr _ \<Rightarrow> Inr ev)
     }}}}
   }"

definition InsertEventWithDigest :: "string \<Rightarrow> string \<Rightarrow> string \<Rightarrow> int \<Rightarrow> (ledger_db, ledger_row res) state" where
  "InsertEventWithDigest trace kind payload t = State (\<lambda>s.
     case run_state (append_steps trace kind payload t) s of
       (Inr ev, s') \<Rightarrow> (Inr ev, s')
     | (Inl e, s') \<Rightarrow> (Inl e, s\<lparr>l_faults := l_faults s'\<rparr>))"

text \<open>\<open>Store.LogEvent\<close>, with the marshalled payload.\<close>

definition LogBytes :: "string \<Rightarrow> string \<Rightarrow> string \<Rightarrow> (ledger_db, unit res) state" where
  "LogBytes trace kind payload = do {
     t \<leftarrow> lnow;
     r \<leftarrow> InsertEventWithDigest trace kind payload t;
     ret (case r of Inl e \<Rightarrow> Inl e | Inr _ \<Rightarrow> Inr ())
   }"

definition anchor_log_note :: "anchor_env \<Rightarrow> string \<Rightarrow> anchor_note \<Rightarrow> (ledger_db, unit) state" where
  "anchor_log_note v trace n = do { _ \<leftarrow> LogBytes trace (note_kind n) (ge_json v n); ret () }"

text \<open>\<open>Notifier.Alarm\<close>: the alarm, and its row in the ledger.\<close>

definition anchor_alarm :: "anchor_env \<Rightarrow> string \<Rightarrow> anchor_note \<Rightarrow> (ledger_db, unit) state" where
  "anchor_alarm v trace n = do {
     _ \<leftarrow> State (\<lambda>s. ((), s\<lparr>l_alarms := l_alarms s @ [n]\<rparr>));
     anchor_log_note v trace n
   }"

section \<open>Lines of \<open>anchors.log\<close>\<close>

definition formatAnchorLine :: "int \<Rightarrow> string \<Rightarrow> string \<Rightarrow> string \<Rightarrow> string" where
  "formatAnchorLine e d ts host = int_text e @ '' '' @ d @ '' '' @ ts @ '' '' @ host @ [CHR 0x0A]"

text \<open>\<open>fmt.Sscanf(s, "%d", ...)\<close>: a sign, digits, within 64 bits; what follows is not looked at.\<close>

definition is_digit :: "char \<Rightarrow> bool" where
  "is_digit c \<longleftrightarrow> (let n = of_char c :: nat in 48 \<le> n \<and> n \<le> 57)"

definition scan_int :: "string \<Rightarrow> int option" where
  "scan_int s =
     (let neg = is_prefix ''-'' s; body = (if neg \<or> is_prefix ''+'' s then tl s else s);
          ds = takeWhile is_digit body;
          n = foldl (\<lambda>acc c. 10 * acc + (of_char c - 48)) (0 :: int) ds;
          k = (if neg then - n else n)
      in if ds = [] \<or> k < - (2 ^ 63) \<or> 2 ^ 63 \<le> k then None else Some k)"

text \<open>\<open>None\<close> for an error; \<open>Some None\<close> when there is no line.\<close>

definition lastAnchorLine :: "string option \<Rightarrow> (int \<times> string) option option" where
  "lastAnchorLine file = (case file of
     None \<Rightarrow> Some None
   | Some content \<Rightarrow>
       let lines = split_on (CHR 0x0A) content in
       if list_ex (\<lambda>l. 1048576 \<le> length l) lines then None
       else (case filter (\<lambda>l. l \<noteq> '''') (map trim_space lines) of
           [] \<Rightarrow> Some None
         | l # ls \<Rightarrow>
             let fs = fields_by is_space (last (l # ls)) in
             if length fs < 4 then None
             else map_option (\<lambda>e. Some (e, fs ! 1)) (scan_int (hd fs))))"

section \<open>The push\<close>

definition step_or :: "bool \<Rightarrow> go_error \<Rightarrow> (ledger_db, unit res) state \<Rightarrow> (ledger_db, unit res) state" where
  "step_or ok e m = (if ok then m else ret (Inl e))"

definition ensureClone :: "anchor_env \<Rightarrow> (ledger_db, unit res) state" where
  "ensureClone v = State (\<lambda>s. case ge_sync v (l_file s) of
     None \<Rightarrow> (Inl (EffectError ''git''), s)
   | Some f \<Rightarrow> (Inr (), s\<lparr>l_file := f\<rparr>))"

definition appendAnchorLine :: "string \<Rightarrow> (ledger_db, unit res) state" where
  "appendAnchorLine line = State (\<lambda>s. (Inr (),
     s\<lparr>l_file := Some ((case l_file s of None \<Rightarrow> '''' | Some c \<Rightarrow> c) @ line)\<rparr>))"

definition pushRow :: "anchor_env \<Rightarrow> string \<Rightarrow> anchor_row \<Rightarrow> (ledger_db, unit res) state" where
  "pushRow v trace row = step_or (ge_key v) (EffectError ''key'') (do {
     c \<leftarrow> ensureClone v;
     case c of Inl e \<Rightarrow> ret (Inl e) | Inr _ \<Rightarrow> do {
     t \<leftarrow> lnow;
     let line = formatAnchorLine (ar_event row) (ar_digest row) (ge_time v t)
           (case ge_host v of Some h \<Rightarrow> if h = '''' then ''unknown'' else h | None \<Rightarrow> ''unknown'');
     step_or (ge_append v) (EffectError ''append'') (do {
       _ \<leftarrow> appendAnchorLine line;
       step_or (ge_add v \<and> ge_commit v \<and> ge_push v) (EffectError ''git'') (do {
         _ \<leftarrow> State (\<lambda>s. ((), if ge_fallback v then s\<lparr>l_fallback := l_fallback s @ line\<rparr> else s));
         m \<leftarrow> MarkAnchorPushed (ar_id row) (ge_remote v);
         case m of Inl e \<Rightarrow> ret (Inl e) | Inr _ \<Rightarrow> do {
           anchor_log_note v trace (AnchorPushed (ar_event row) (ar_digest row));
           ret (Inr ())
         }
       })
     })
     }
   })"

definition insertPending :: "int \<times> string \<Rightarrow> (ledger_db, anchor_row res) state" where
  "insertPending st = do {
     t \<leftarrow> lnow;
     InsertAnchorLog (fst st) (hex_encode (snd st)) (Stamp t)
   }"

definition claimPendingRow :: "int \<times> string \<Rightarrow> (ledger_db, anchor_row option res) state" where
  "claimPendingRow st = do {
     l \<leftarrow> GetLatestAnchorLog;
     case l of
       Inl e \<Rightarrow>
         if e = NoRows then do {
           r \<leftarrow> insertPending st;
           ret (case r of Inl e \<Rightarrow> Inl e | Inr row \<Rightarrow> Inr (Some row))
         } else ret (Inl e)
     | Inr latest \<Rightarrow>
         if \<not> ar_pushed latest then ret (Inr (Some latest))
         else if ar_event latest = fst st then ret (Inr None)
         else do {
           r \<leftarrow> insertPending st;
           ret (case r of Inl e \<Rightarrow> Inl e | Inr row \<Rightarrow> Inr (Some row))
         }
   }"

definition checkStalePending :: "anchor_env \<Rightarrow> string \<Rightarrow> (ledger_db, unit) state" where
  "checkStalePending v trace = do {
     r \<leftarrow> ListPendingAnchorLogs;
     case r of
       Inl _ \<Rightarrow> ret ()
     | Inr [] \<Rightarrow> ret ()
     | Inr (oldest # _) \<Rightarrow> (case parse_stamp (ar_at oldest) of
         None \<Rightarrow> ret ()
       | Some at \<Rightarrow> do {
           t \<leftarrow> lnow;
           if t - at < ge_interval v * 2 * hour_ns then ret ()
           else anchor_alarm v trace (AnchorStalePending (t - at) (ar_event oldest) (ar_at oldest))
         })
   }"

definition Pusher_Run :: "anchor_env \<Rightarrow> string \<Rightarrow> (ledger_db, unit res) state" where
  "Pusher_Run v trace =
     (if ge_remote v = '''' then ret (Inr ())
      else do {
        st \<leftarrow> GetLedgerDigestState;
        case st of Inl e \<Rightarrow> ret (Inl e) | Inr x \<Rightarrow>
          if 0 < fst x then do {
            c \<leftarrow> claimPendingRow x;
            case c of
              Inl e \<Rightarrow> ret (Inl e)
            | Inr None \<Rightarrow> do { checkStalePending v trace; ret (Inr ()) }
            | Inr (Some row) \<Rightarrow> do {
                _ \<leftarrow> pushRow v trace row;
                checkStalePending v trace;
                ret (Inr ())
              }
          } else do { checkStalePending v trace; ret (Inr ()) }
      })"

section \<open>The verification\<close>

record verify_result =
  vr_ok :: bool
  vr_mismatch :: int

definition want_digest :: "anchor_row list \<Rightarrow> int \<rightharpoonup> string" where
  "want_digest rows = fold (\<lambda>a m. m(ar_event a \<mapsto> ar_digest a)) rows Map.empty"

text \<open>The loop over the events: the first checkpoint the recomputed digest disagrees with.\<close>

fun first_mismatch :: "(int \<rightharpoonup> string) \<Rightarrow> string \<Rightarrow> ledger_row list \<Rightarrow> int option" where
  "first_mismatch want d [] = None"
| "first_mismatch want d (ev # evs) =
     (let d' = Next d (lr_id ev) (lr_payload ev) in
      case want (lr_id ev) of
        None \<Rightarrow> first_mismatch want d' evs
      | Some w \<Rightarrow> if hex_encode d' \<noteq> w then Some (lr_id ev) else first_mismatch want d' evs)"

definition verify_mismatch :: "anchor_env \<Rightarrow> string \<Rightarrow> int \<Rightarrow> (ledger_db, verify_result res) state" where
  "verify_mismatch v trace i = do {
     anchor_alarm v trace (AnchorMismatch i);
     ret (Inr \<lparr>vr_ok = False, vr_mismatch = i\<rparr>)
   }"

text \<open>\<open>Inr None\<close>: nothing disagrees with the remote.\<close>

definition checkRemote :: "anchor_env \<Rightarrow> (ledger_db, int option res) state" where
  "checkRemote v =
     (if \<not> ge_key v then ret (Inl (EffectError ''key''))
      else do {
        c \<leftarrow> ensureClone v;
        case c of Inl e \<Rightarrow> ret (Inl e) | Inr _ \<Rightarrow> do {
        s \<leftarrow> State_Monad.get;
        case lastAnchorLine (l_file s) of
          None \<Rightarrow> ret (Inl InvalidArgument)
        | Some remote \<Rightarrow> do {
            l \<leftarrow> GetLatestAnchorLog;
            ret (case l of
              Inl e \<Rightarrow> if e = NoRows then Inr None else Inl e
            | Inr local \<Rightarrow> (case remote of
                None \<Rightarrow> Inr None
              | Some (e, d) \<Rightarrow>
                  if e \<noteq> ar_event local \<or> d \<noteq> ar_digest local then Inr (Some (max e (ar_event local)))
                  else Inr None))
          }
        }
      })"

definition Verify :: "anchor_env \<Rightarrow> string \<Rightarrow> (ledger_db, verify_result res) state" where
  "Verify v trace = do {
     es \<leftarrow> ListAllEvents;
     case es of Inl e \<Rightarrow> ret (Inl e) | Inr evs \<Rightarrow> do {
     cs \<leftarrow> ListAnchorLogs;
     case cs of Inl e \<Rightarrow> ret (Inl e) | Inr checkpoints \<Rightarrow>
       (case first_mismatch (want_digest checkpoints) Genesis evs of
          Some i \<Rightarrow> verify_mismatch v trace i
        | None \<Rightarrow>
            if ge_remote v = '''' then ret (Inr \<lparr>vr_ok = True, vr_mismatch = 0\<rparr>)
            else do {
              r \<leftarrow> checkRemote v;
              case r of
                Inl e \<Rightarrow> ret (Inl e)
              | Inr (Some i) \<Rightarrow> verify_mismatch v trace i
              | Inr None \<Rightarrow> ret (Inr \<lparr>vr_ok = True, vr_mismatch = 0\<rparr>)
            })
     }
   }"

end
