(* ===== verification/Ledger_Facts.thy ===== *)
theory Ledger_Facts
  imports Ledger_Anchor
begin

text \<open>
  Facts about the running digest (two histories with the same digest are the same history, or
  SHA-256 has been broken), the invariant of the ledger's tables, and what the verification
  computes.
\<close>

section \<open>The digest binds the history\<close>

type_synonym entry = "int \<times> string"

definition chain :: "string \<Rightarrow> entry list \<Rightarrow> string" where
  "chain d es = foldl (\<lambda>d e. Next d (fst e) (snd e)) d es"

lemma chain_simps [simp]: "chain d [] = d" "chain d (e # es) = chain (Next d (fst e) (snd e)) es"
  "chain d (es @ fs) = chain (chain d es) fs"
  by (simp_all add: chain_def)

lemma length_sha256 [simp]: "length (sha256 x) = 32"
  by (simp add: sha256_def state_words_def word_to_bytes_def Let_def split: prod.split)

lemma length_big_endian [simp]: "length (big_endian k n) = k"
  by (induction k arbitrary: n) simp_all

lemma char_of_int_eq: "(char_of n :: char) = char_of m \<longleftrightarrow> n mod 256 = m mod (256 :: int)"
proof
  assume "(char_of n :: char) = char_of m"
  then have "(of_char (char_of n :: char) :: int) = of_char (char_of m :: char)" by simp
  then show "n mod 256 = m mod 256" by (simp add: of_char_of)
next
  assume "n mod 256 = m mod 256"
  then show "(char_of n :: char) = char_of m" by (metis char_of_mod_256)
qed

lemma big_endian_mod: "big_endian k n = big_endian k m \<Longrightarrow> n mod 256 ^ k = m mod (256 :: int) ^ k"
proof (induction k arbitrary: n m)
  case (Suc k)
  then have "big_endian k (n div 256) = big_endian k (m div 256)" and low: "(char_of n :: char) = char_of m"
    by simp_all
  from Suc.IH [OF this(1)] low have "n div 256 mod 256 ^ k = m div 256 mod 256 ^ k" "n mod 256 = m mod 256"
    by (simp_all only: char_of_int_eq)
  moreover have "j mod (256 * 256 ^ k) = 256 * (j div 256 mod 256 ^ k) + j mod (256 :: int)" for j
    by (rule zmod_zmult2_eq) simp
  ultimately show ?case by (simp only: power_Suc)
qed simp

definition int64 :: "int \<Rightarrow> bool" where
  "int64 n \<longleftrightarrow> - (2 ^ 63) \<le> n \<and> n < 2 ^ 63"

lemma big_endian_inject: "int64 n \<Longrightarrow> int64 m \<Longrightarrow> big_endian 8 n = big_endian 8 m \<Longrightarrow> n = m"
proof -
  assume r: "int64 n" "int64 m" and "big_endian 8 n = big_endian 8 m"
  then have "n mod 2 ^ 64 = m mod 2 ^ 64" using big_endian_mod [of 8 n m] by simp
  then have "2 ^ 64 dvd n - m" by (simp add: mod_eq_dvd_iff)
  moreover have "\<bar>n - m\<bar> < 2 ^ 64" using r by (auto simp: int64_def abs_less_iff)
  ultimately show "n = m" using dvd_imp_le_int [of "n - m" "2 ^ 64"] by auto
qed

text \<open>A collision, or a preimage of the genesis digest.\<close>

definition sha256_broken :: bool where
  "sha256_broken \<longleftrightarrow> (\<exists>x y. x \<noteq> y \<and> sha256 x = sha256 y) \<or> (\<exists>x. sha256 x = Genesis)"

lemma length_chain: "length d = 32 \<Longrightarrow> length (chain d es) = 32"
  by (induction es arbitrary: d) (simp_all add: Next_def)

lemma length_Genesis [simp]: "length Genesis = 32"
  by (simp add: Genesis_def)

lemma Next_inject:
  assumes "Next c i p = Next d j q" "length c = 32" "length d = 32" "int64 i" "int64 j" "\<not> sha256_broken"
  shows "c = d \<and> i = j \<and> p = q"
proof -
  have "c @ big_endian 8 i @ p = d @ big_endian 8 j @ q"
    using assms(1,6) unfolding Next_def sha256_broken_def by blast
  then have "c = d" "big_endian 8 i @ p = big_endian 8 j @ q" using assms(2,3) by simp_all
  then have "big_endian 8 i = big_endian 8 j" "p = q" by simp_all
  then show ?thesis using big_endian_inject [OF assms(4,5)] \<open>c = d\<close> by simp
qed

lemma chain_inject:
  assumes "\<not> sha256_broken"
  shows "chain Genesis es = chain Genesis fs \<Longrightarrow> \<forall>e \<in> set es. int64 (fst e) \<Longrightarrow> \<forall>e \<in> set fs. int64 (fst e) \<Longrightarrow> es = fs"
proof (induction es arbitrary: fs rule: rev_induct)
  case Nil
  show ?case
  proof (cases fs rule: rev_cases)
    case (snoc fs' f)
    then have "sha256 (chain Genesis fs' @ big_endian 8 (fst f) @ snd f) = Genesis"
      using Nil(1) by (simp add: Next_def)
    with assms show ?thesis unfolding sha256_broken_def by blast
  qed simp
next
  case (snoc e es)
  show ?case
  proof (cases fs rule: rev_cases)
    case Nil
    then have "sha256 (chain Genesis es @ big_endian 8 (fst e) @ snd e) = Genesis"
      using snoc.prems(1) by (simp add: Next_def)
    with assms show ?thesis unfolding sha256_broken_def by blast
  next
    case snoc': (snoc fs' f)
    have "chain Genesis es = chain Genesis fs' \<and> fst e = fst f \<and> snd e = snd f"
      by (rule Next_inject [OF _ _ _ _ _ assms])
         (use snoc.prems snoc' in \<open>simp_all add: length_chain\<close>)
    with snoc.IH [of fs'] snoc.prems snoc' show ?thesis by (simp add: prod_eq_iff)
  qed
qed

section \<open>Histories\<close>

definition entry_of :: "ledger_row \<Rightarrow> entry" where
  "entry_of r = (lr_id r, lr_payload r)"

definition upto_id :: "int \<Rightarrow> entry list \<Rightarrow> entry list" where
  "upto_id i es = filter (\<lambda>e. fst e \<le> i) es"

abbreviation entries :: "ledger_db \<Rightarrow> entry list" where
  "entries s \<equiv> map entry_of (l_events s)"

definition ids_rise :: "ledger_row list \<Rightarrow> bool" where
  "ids_rise rows \<longleftrightarrow> sorted_wrt (<) (map lr_id rows)"

lemma upto_id_all: "\<forall>r \<in> set rows. lr_id r \<le> i \<Longrightarrow> upto_id i (map entry_of rows) = map entry_of rows"
  by (auto simp: upto_id_def entry_of_def filter_id_conv)

lemma upto_id_none: "\<forall>r \<in> set rows. i < lr_id r \<Longrightarrow> upto_id i (map entry_of rows) = []"
  by (auto simp: upto_id_def entry_of_def filter_empty_conv)

lemma upto_id_append: "upto_id i (es @ fs) = upto_id i es @ upto_id i fs"
  by (simp add: upto_id_def)

lemma upto_id_split:
  assumes "ids_rise (pre @ ev # post)"
  shows "upto_id (lr_id ev) (map entry_of (pre @ ev # post)) = map entry_of (pre @ [ev])"
proof -
  have "\<forall>r \<in> set pre. lr_id r \<le> lr_id ev" "\<forall>r \<in> set post. lr_id ev < lr_id r"
    using assms by (auto simp: ids_rise_def sorted_wrt_append less_imp_le)
  then have "upto_id (lr_id ev) (map entry_of (pre @ [ev]) @ map entry_of post) = map entry_of (pre @ [ev])"
    using upto_id_all [of "pre @ [ev]" "lr_id ev"] upto_id_none [of post "lr_id ev"]
    unfolding upto_id_append by auto
  then show ?thesis by simp
qed

section \<open>What the loop of the verification finds\<close>

lemma first_mismatch_honest:
  assumes "ids_rise (pre @ post)"
    and "\<And>i w. want i = Some w \<Longrightarrow> w = hex_encode (chain Genesis (upto_id i (map entry_of (pre @ post))))"
  shows "first_mismatch want (chain Genesis (map entry_of pre)) post = None"
  using assms
proof (induction post arbitrary: pre)
  case (Cons ev post)
  have next_eq: "chain Genesis (map entry_of (pre @ [ev]))
      = Next (chain Genesis (map entry_of pre)) (lr_id ev) (lr_payload ev)"
    by (simp add: entry_of_def)
  have "first_mismatch want (chain Genesis (map entry_of (pre @ [ev]))) post = None"
    by (rule Cons.IH) (use Cons.prems in simp_all)
  moreover have "w = hex_encode (chain Genesis (map entry_of (pre @ [ev])))" if "want (lr_id ev) = Some w" for w
    using Cons.prems(2) [OF that] upto_id_split [OF Cons.prems(1)] by simp
  ultimately show ?case
    unfolding next_eq by (auto simp: Let_def split: option.split)
qed simp

lemma first_mismatch_None:
  assumes "ids_rise (pre @ post)" "first_mismatch want (chain Genesis (map entry_of pre)) post = None"
    and "ev \<in> set post" "want (lr_id ev) = Some w"
  shows "w = hex_encode (chain Genesis (upto_id (lr_id ev) (map entry_of (pre @ post))))"
  using assms(1,2,3)
proof (induction post arbitrary: pre)
  case (Cons x post)
  have next_eq: "chain Genesis (map entry_of (pre @ [x]))
      = Next (chain Genesis (map entry_of pre)) (lr_id x) (lr_payload x)"
    by (simp add: entry_of_def)
  show ?case
  proof (cases "ev = x")
    case True
    with Cons.prems(2) assms(4) have "w = hex_encode (chain Genesis (map entry_of (pre @ [x])))"
      unfolding next_eq by (simp add: Let_def split: if_splits)
    with upto_id_split [OF Cons.prems(1)] True show ?thesis by simp
  next
    case False
    have "w = hex_encode (chain Genesis (upto_id (lr_id ev) (map entry_of ((pre @ [x]) @ post))))"
    proof (rule Cons.IH)
      show "ids_rise ((pre @ [x]) @ post)" "ev \<in> set post" using Cons.prems False by simp_all
      show "first_mismatch want (chain Genesis (map entry_of (pre @ [x]))) post = None"
        using Cons.prems(2) unfolding next_eq by (simp add: Let_def split: option.splits if_splits)
    qed
    then show ?thesis by simp
  qed
qed simp

lemma want_digest_in:
  assumes "want_digest rows i = Some w"
  shows "\<exists>a \<in> set rows. ar_event a = i \<and> ar_digest a = w"
proof -
  have "fold (\<lambda>a m. m(ar_event a \<mapsto> ar_digest a)) rows m i = Some w \<Longrightarrow>
      m i = Some w \<or> (\<exists>a \<in> set rows. ar_event a = i \<and> ar_digest a = w)" for m
    by (induction rows arbitrary: m) (force split: if_splits)+
  from this [of Map.empty] assms show ?thesis by (auto simp: want_digest_def)
qed

lemma want_digest_dom: "a \<in> set rows \<Longrightarrow> \<exists>w. want_digest rows (ar_event a) = Some w"
proof -
  have keep: "m i \<noteq> None \<Longrightarrow> fold (\<lambda>a m. m(ar_event a \<mapsto> ar_digest a)) rows m i \<noteq> None" for m rows i
    by (induction rows arbitrary: m) simp_all
  have "a \<in> set rows \<Longrightarrow> fold (\<lambda>a m. m(ar_event a \<mapsto> ar_digest a)) rows m (ar_event a) \<noteq> None" for m
  proof (induction rows arbitrary: m)
    case (Cons x rows)
    show ?case
    proof (cases "a = x")
      case True
      show ?thesis unfolding True fold_simps by (rule keep) simp
    next
      case False
      with Cons show ?thesis by (simp del: not_None_eq)
    qed
  qed simp
  then show "a \<in> set rows \<Longrightarrow> \<exists>w. want_digest rows (ar_event a) = Some w"
    unfolding want_digest_def by blast
qed

end
