(* ===== verification/Ledger_Laws.thy ===== *)
theory Ledger_Laws
  imports Ledger_Facts
begin

text \<open>
  The invariant of the ledger's tables (the stored digest and every recorded checkpoint are those
  of the history) and that every operation of the package keeps it, whatever database calls and
  git steps fail.
\<close>

definition ledger_ok :: "ledger_db \<Rightarrow> bool" where
  "ledger_ok s \<longleftrightarrow> ids_rise (l_events s) \<and> (\<forall>r \<in> set (l_events s). 0 < lr_id r \<and> lr_id r \<le> l_seq s) \<and> 0 \<le> l_seq s
     \<and> l_state s = Some (if l_events s = [] then 0 else lr_id (last (l_events s)), chain Genesis (entries s))
     \<and> (\<forall>a \<in> set (l_anchors s). ar_event a \<in> lr_id ` set (l_events s)
          \<and> ar_digest a = hex_encode (chain Genesis (upto_id (ar_event a) (entries s))))"

lemma ledger_ok_new: "ledger_ok new_ledger"
  by (simp add: ledger_ok_def new_ledger_def ids_rise_def)

lemma ledger_ok_simps [simp]:
  "ledger_ok (s\<lparr>l_faults := fs\<rparr>) = ledger_ok s" "ledger_ok (s\<lparr>l_file := f\<rparr>) = ledger_ok s"
  "ledger_ok (s\<lparr>l_fallback := t\<rparr>) = ledger_ok s" "ledger_ok (s\<lparr>l_alarms := as\<rparr>) = ledger_ok s"
  "ledger_ok (s\<lparr>l_clock := c\<rparr>) = ledger_ok s"
  by (simp_all add: ledger_ok_def)

lemma wp_ldbI:
  assumes "\<And>fs. Q (Inl DbError) (s\<lparr>l_faults := fs\<rparr>)"
    and "\<And>fs a s'. f (s\<lparr>l_faults := fs\<rparr>) = (a, s') \<Longrightarrow> Q a s'"
  shows "wp (ldb f) Q s"
proof (cases "l_faults s")
  case Nil
  then have "s\<lparr>l_faults := []\<rparr> = s" by simp
  with Nil assms(2) [of "[]"] show ?thesis by (simp add: ldb_def wp_def split: prod.splits)
next
  case (Cons b bs)
  with assms show ?thesis by (auto simp: ldb_def wp_def Let_def split: prod.splits)
qed

lemma wp_lgetI:
  assumes "\<And>fs. Q (Inl DbError) (s\<lparr>l_faults := fs\<rparr>)" "\<And>fs. Q (f (s\<lparr>l_faults := fs\<rparr>)) (s\<lparr>l_faults := fs\<rparr>)"
  shows "wp (lget f) Q s"
  unfolding lget_def by (rule wp_ldbI) (use assms in auto)

section \<open>Appending\<close>

definition appended :: "string \<Rightarrow> string \<Rightarrow> string \<Rightarrow> int \<Rightarrow> int \<times> string \<Rightarrow> ledger_db \<Rightarrow> ledger_db" where
  "appended trace kind payload t x s =
     s\<lparr>l_events := l_events s @ [\<lparr>lr_id = l_seq s + 1, lr_trace = trace, lr_ts = Stamp t, lr_kind = kind, lr_payload = payload\<rparr>],
       l_seq := l_seq s + 1, l_state := Some (l_seq s + 1, Next (snd x) (l_seq s + 1) payload)\<rparr>"

lemma append_steps_spec:
  assumes "l_state s = Some x"
  shows "wp (append_steps trace kind payload t) (\<lambda>r s'. \<forall>ev. r = Inr ev \<longrightarrow>
    (\<exists>fs. s' = (appended trace kind payload t x s)\<lparr>l_faults := fs\<rparr>)) s"
proof -
  define ev where "ev = \<lparr>lr_id = l_seq s + 1, lr_trace = trace, lr_ts = Stamp t, lr_kind = kind, lr_payload = payload\<rparr>"
  define m where "m = s\<lparr>l_events := l_events s @ [ev], l_seq := l_seq s + 1\<rparr>"
  define u where "u = appended trace kind payload t x s"
  have ins: "s\<lparr>l_faults := fs, l_events := l_events s @ [ev], l_seq := l_seq s + 1\<rparr> = m\<lparr>l_faults := fs\<rparr>" for fs
    by (simp add: m_def)
  have m: "l_state m = Some x" by (simp add: m_def assms)
  have step: "m\<lparr>l_faults := fs, l_state := Some (lr_id ev, Next (snd x) (lr_id ev) (lr_payload ev))\<rparr> = u\<lparr>l_faults := fs\<rparr>" for fs
    by (simp add: m_def u_def appended_def ev_def)
  let ?Q = "\<lambda>r s'. \<forall>e :: ledger_row. r = Inr e \<longrightarrow> (\<exists>fs. s' = u\<lparr>l_faults := fs\<rparr>)"
  have commit: "wp (do { c \<leftarrow> lget (\<lambda>_. Inr ()); ret (case c of Inl e \<Rightarrow> Inl e | Inr _ \<Rightarrow> Inr ev) }) ?Q
      (u\<lparr>l_faults := fs\<rparr>)" for fs
    unfolding wp_bind by (rule wp_lgetI) (auto simp: wp_return)
  have advance: "wp (do { a \<leftarrow> AdvanceLedgerDigestState (lr_id ev) (Next (snd x) (lr_id ev) (lr_payload ev));
     case a of Inl e \<Rightarrow> ret (Inl e) | Inr _ \<Rightarrow> do {
     c \<leftarrow> lget (\<lambda>_. Inr ()); ret (case c of Inl e \<Rightarrow> Inl e | Inr _ \<Rightarrow> Inr ev) } }) ?Q
      (m\<lparr>l_faults := fs\<rparr>)" for fs
    unfolding AdvanceLedgerDigestState_def wp_bind [of "ldb _"]
    by (rule wp_ldbI) (use commit m step in \<open>auto simp: wp_return\<close>)
  have read: "wp (do { st \<leftarrow> GetLedgerDigestState;
     case st of Inl e \<Rightarrow> ret (Inl e) | Inr x \<Rightarrow> do {
     a \<leftarrow> AdvanceLedgerDigestState (lr_id ev) (Next (snd x) (lr_id ev) (lr_payload ev));
     case a of Inl e \<Rightarrow> ret (Inl e) | Inr _ \<Rightarrow> do {
     c \<leftarrow> lget (\<lambda>_. Inr ()); ret (case c of Inl e \<Rightarrow> Inl e | Inr _ \<Rightarrow> Inr ev) } } }) ?Q
      (m\<lparr>l_faults := fs\<rparr>)" for fs
    unfolding GetLedgerDigestState_def wp_bind [of "lget _"]
    by (rule wp_lgetI) (use advance m in \<open>auto simp: wp_return\<close>)
  have insert: "wp (do { r \<leftarrow> InsertEvent trace (Stamp t) kind payload;
       case r of Inl e \<Rightarrow> ret (Inl e) | Inr ev \<Rightarrow> do {
       st \<leftarrow> GetLedgerDigestState;
       case st of Inl e \<Rightarrow> ret (Inl e) | Inr x \<Rightarrow> do {
       a \<leftarrow> AdvanceLedgerDigestState (lr_id ev) (Next (snd x) (lr_id ev) (lr_payload ev));
       case a of Inl e \<Rightarrow> ret (Inl e) | Inr _ \<Rightarrow> do {
       c \<leftarrow> lget (\<lambda>_. Inr ()); ret (case c of Inl e \<Rightarrow> Inl e | Inr _ \<Rightarrow> Inr ev) } } } }) ?Q (s\<lparr>l_faults := fs\<rparr>)" for fs
    unfolding InsertEvent_def wp_bind [of "ldb _"]
  proof (rule wp_ldbI)
    fix gs and a :: "ledger_row res" and s1 :: ledger_db
    assume "(let r = \<lparr>lr_id = l_seq (s\<lparr>l_faults := fs, l_faults := gs\<rparr>) + 1, lr_trace = trace, lr_ts = Stamp t,
          lr_kind = kind, lr_payload = payload\<rparr>
        in (Inr r, s\<lparr>l_faults := fs, l_faults := gs, l_events := l_events (s\<lparr>l_faults := fs, l_faults := gs\<rparr>) @ [r],
             l_seq := l_seq (s\<lparr>l_faults := fs, l_faults := gs\<rparr>) + 1\<rparr>)) = (a, s1)"
    then have "a = Inr ev" "s1 = m\<lparr>l_faults := gs\<rparr>" using ins [of gs] by (auto simp: Let_def ev_def)
    with read [of gs] show "wp (case a of Inl e \<Rightarrow> ret (Inl e) | Inr ev \<Rightarrow> do {
       st \<leftarrow> GetLedgerDigestState;
       case st of Inl e \<Rightarrow> ret (Inl e) | Inr x \<Rightarrow> do {
       a \<leftarrow> AdvanceLedgerDigestState (lr_id ev) (Next (snd x) (lr_id ev) (lr_payload ev));
       case a of Inl e \<Rightarrow> ret (Inl e) | Inr _ \<Rightarrow> do {
       c \<leftarrow> lget (\<lambda>_. Inr ()); ret (case c of Inl e \<Rightarrow> Inl e | Inr _ \<Rightarrow> Inr ev) } } }) ?Q s1"
      by simp
  qed (simp add: wp_return)
  show ?thesis
    unfolding append_steps_def wp_bind [of "lget _"] u_def [symmetric]
    by (rule wp_lgetI) (use insert in \<open>simp_all add: wp_return\<close>)
qed

lemma ledger_ok_appended:
  assumes "ledger_ok s" "l_state s = Some x"
  shows "ledger_ok (appended trace kind payload t x s)"
proof -
  let ?ev = "\<lparr>lr_id = l_seq s + 1, lr_trace = trace, lr_ts = Stamp t, lr_kind = kind, lr_payload = payload\<rparr>"
  have x: "snd x = chain Genesis (entries s)" using assms by (simp add: ledger_ok_def)
  have rows: "\<forall>r \<in> set (l_events s). 0 < lr_id r \<and> lr_id r \<le> l_seq s" using assms(1) by (simp add: ledger_ok_def)
  have "upto_id (ar_event a) [entry_of ?ev] = []" if "a \<in> set (l_anchors s)" for a
    using assms(1) that rows by (force simp: ledger_ok_def upto_id_def entry_of_def)
  then show ?thesis
    using assms(1) rows x
    by (auto simp: ledger_ok_def appended_def ids_rise_def sorted_wrt_append upto_id_append entry_of_def)
qed

definition ok_kept :: "ledger_db \<Rightarrow> ledger_db \<Rightarrow> bool" where
  "ok_kept s s' \<longleftrightarrow> (ledger_ok s \<longrightarrow> ledger_ok s')"

interpretation ok: state_preorder ok_kept
  by unfold_locales (auto simp: ok_kept_def)

lemma ok_ldb: "(\<And>s. ledger_ok s \<Longrightarrow> ledger_ok (snd (f s))) \<Longrightarrow> state_io_rel ok_kept (ldb f)"
  by (rule wp_keeps, rule wp_ldbI) (auto simp: ok_kept_def, metis ledger_ok_simps(1) snd_conv)

lemma ok_lget: "state_io_rel ok_kept (lget f)"
  unfolding lget_def by (rule ok_ldb) simp

lemma ok_lnow: "state_io_rel ok_kept lnow"
  by (simp add: lnow_def state_io_rel_def ok_kept_def)

lemma ok_append: "state_io_rel ok_kept (InsertEventWithDigest trace kind payload t)"
proof (rule wp_keeps)
  fix s
  show "wp (InsertEventWithDigest trace kind payload t) (\<lambda>_ s'. ok_kept s s') s"
  proof (cases "ledger_ok s")
    case True
    then obtain x where x: "l_state s = Some x" by (simp add: ledger_ok_def)
    obtain r s' where run: "run_state (append_steps trace kind payload t) s = (r, s')" by fastforce
    show ?thesis
    proof (cases r)
      case (Inl e)
      with run True show ?thesis by (simp add: InsertEventWithDigest_def wp_State ok_kept_def)
    next
      case (Inr ev)
      with wp_run [OF append_steps_spec [OF x] run] ledger_ok_appended [OF True x]
      have "ledger_ok s'" by auto
      with run Inr show ?thesis by (simp add: InsertEventWithDigest_def wp_State ok_kept_def)
    qed
  qed (simp add: ok_kept_def wp_any)
qed

lemma ok_note: "state_io_rel ok_kept (anchor_log_note v trace n)"
  unfolding anchor_log_note_def LogBytes_def by (intro keeps_rules ok_lnow ok_append)

lemma ok_alarm: "state_io_rel ok_kept (anchor_alarm v trace n)"
  unfolding anchor_alarm_def
  by (intro keeps_rules ok_note) (simp add: state_io_rel_def ok_kept_def)

section \<open>The push and the verification\<close>

lemma ok_mark: "state_io_rel ok_kept (MarkAnchorPushed i remote)"
  unfolding MarkAnchorPushed_def
  by (rule ok_ldb) (auto simp: ledger_ok_def set_update_where)

lemma ok_pushRow: "state_io_rel ok_kept (pushRow v trace row)"
proof -
  have sync: "state_io_rel ok_kept (ensureClone v)"
    by (auto simp: ensureClone_def state_io_rel_def ok_kept_def split: option.splits)
  have line_kept: "state_io_rel ok_kept (appendAnchorLine line)" for line
    by (simp add: appendAnchorLine_def state_io_rel_def ok_kept_def)
  have fallback: "state_io_rel ok_kept (State (\<lambda>s. ((), if ge_fallback v then s\<lparr>l_fallback := l_fallback s @ line\<rparr> else s)))" for line
    by (simp add: state_io_rel_def ok_kept_def)
  show ?thesis
    unfolding pushRow_def step_or_def Let_def
    by (intro keeps_rules sync line_kept fallback ok_lnow ok_mark ok_note)
qed

lemma ok_stale: "state_io_rel ok_kept (checkStalePending v trace)"
  unfolding checkStalePending_def ListPendingAnchorLogs_def
  by (intro keeps_rules ok_lget ok_lnow ok_alarm)

lemma ok_checkRemote: "state_io_rel ok_kept (checkRemote v)"
proof -
  have sync: "state_io_rel ok_kept (ensureClone v)"
    by (auto simp: ensureClone_def state_io_rel_def ok_kept_def split: option.splits)
  show ?thesis
    unfolding checkRemote_def GetLatestAnchorLog_def by (intro keeps_rules sync ok_lget)
qed

lemma ok_Verify: "state_io_rel ok_kept (Verify v trace)"
  unfolding Verify_def verify_mismatch_def ListAllEvents_def ListAnchorLogs_def
  by (intro keeps_rules ok_lget ok_alarm ok_checkRemote)

text \<open>A new checkpoint is the digest of the whole history.\<close>

lemma ok_insertPending:
  assumes "ledger_ok s" "l_state s = Some x" "0 < fst x"
  shows "wp (insertPending x) (\<lambda>_ s'. ledger_ok s') s"
proof -
  have ne: "l_events s \<noteq> []" using assms by (auto simp: ledger_ok_def)
  then have x: "fst x = lr_id (last (l_events s))" "snd x = chain Genesis (entries s)"
    using assms by (simp_all add: ledger_ok_def)
  have "ids_rise (butlast (l_events s) @ last (l_events s) # [])"
    using assms(1) ne by (simp add: ledger_ok_def)
  from upto_id_split [OF this] ne have all: "upto_id (fst x) (entries s) = entries s"
    by (simp add: x)
  have "fst x \<in> lr_id ` set (l_events s)" using ne x by simp
  with assms(1) all x(2) show ?thesis
    unfolding insertPending_def InsertAnchorLog_def lnow_def wp_bind wp_State prod.case
    by (intro wp_ldbI) (auto simp: ledger_ok_def Let_def)
qed

lemma ok_claim:
  assumes "ledger_ok s" "l_state s = Some x" "0 < fst x"
  shows "wp (claimPendingRow x) (\<lambda>_ s'. ledger_ok s') s"
proof -
  have ins: "wp (do { r \<leftarrow> insertPending x; ret (case r of Inl e \<Rightarrow> Inl e | Inr row \<Rightarrow> Inr (Some row)) })
      (\<lambda>_ s'. ledger_ok s') (s\<lparr>l_faults := fs\<rparr>)" for fs
    by (rule wp_bind_mono [OF ok_insertPending]) (use assms in \<open>simp_all add: wp_return\<close>)
  show ?thesis
    unfolding claimPendingRow_def GetLatestAnchorLog_def wp_bind [of "lget _"]
    by (rule wp_lgetI) (use assms ins in \<open>auto simp: wp_return\<close>)
qed

lemma ok_Run: "state_io_rel ok_kept (Pusher_Run v trace)"
proof (rule wp_keeps)
  fix s
  have tail: "wp (case c of
              Inl e \<Rightarrow> ret (Inl e)
            | Inr None \<Rightarrow> do { checkStalePending v trace; ret (Inr ()) }
            | Inr (Some row) \<Rightarrow> do {
                _ \<leftarrow> pushRow v trace row;
                checkStalePending v trace;
                ret (Inr ())
              }) (\<lambda>(_ :: unit res) s'. ledger_ok s') s1" if "ledger_ok s1" for c :: "anchor_row option res" and s1
    by (rule wp_io_rel [where R = ok_kept], intro keeps_rules ok_stale ok_pushRow)
       (use that in \<open>simp add: ok_kept_def\<close>)
  have stale: "wp (do { checkStalePending v trace; ret (Inr () :: unit res) }) (\<lambda>_ s'. ledger_ok s') s1"
    if "ledger_ok s1" for s1
    by (rule wp_bind_rel [OF ok_stale]) (use that in \<open>simp add: wp_return ok_kept_def\<close>)
  show "wp (Pusher_Run v trace) (\<lambda>_ s'. ok_kept s s') s"
  proof (cases "ledger_ok s")
    case ok: True
    then obtain x where x: "l_state s = Some x" by (simp add: ledger_ok_def)
    have claim: "wp (do { c \<leftarrow> claimPendingRow x;
            case c of
              Inl e \<Rightarrow> ret (Inl e)
            | Inr None \<Rightarrow> do { checkStalePending v trace; ret (Inr ()) }
            | Inr (Some row) \<Rightarrow> do {
                _ \<leftarrow> pushRow v trace row;
                checkStalePending v trace;
                ret (Inr ())
              } }) (\<lambda>_ s'. ledger_ok s') (s\<lparr>l_faults := fs\<rparr>)" if "0 < fst x" for fs
      by (rule wp_bind_mono [OF ok_claim]) (use ok x that tail in simp_all)
    show ?thesis
    proof (cases "ge_remote v = ''''")
      case False
      have "wp (Pusher_Run v trace) (\<lambda>_ s'. ledger_ok s') s"
        unfolding Pusher_Run_def if_not_P [OF False] GetLedgerDigestState_def wp_bind [of "lget _"]
        by (rule wp_lgetI) (use ok x claim stale in \<open>auto simp: wp_return\<close>)
      then show ?thesis by (rule wp_mono) (simp add: ok_kept_def)
    qed (simp add: Pusher_Run_def wp_return ok_kept_def)
  qed (simp add: ok_kept_def wp_any)
qed

end
