(* ===== verification/Ledger_Props.thy ===== *)
theory Ledger_Props
  imports Ledger_Laws
begin

text \<open>
  The properties of the tamper-evident ledger: an honest ledger verifies, and a history that
  verifies is the one the checkpoint was taken of.
\<close>

section \<open>What the verification returns\<close>

definition remote_disagrees :: "anchor_env \<Rightarrow> ledger_db \<Rightarrow> bool" where
  "remote_disagrees v s \<longleftrightarrow> (\<exists>f e d. ge_sync v (l_file s) = Some f \<and> lastAnchorLine f = Some (Some (e, d))
     \<and> l_anchors s \<noteq> [] \<and> (let a = last (sort_key ar_id (l_anchors s)) in e \<noteq> ar_event a \<or> d \<noteq> ar_digest a))"

abbreviation found :: "ledger_db \<Rightarrow> int option" where
  "found s \<equiv> first_mismatch (want_digest (sort_key ar_event (l_anchors s))) Genesis (sort_key lr_id (l_events s))"

lemma checkRemote_spec: "wp (checkRemote v) (\<lambda>r s'. \<forall>i. r = Inr (Some i) \<longrightarrow> remote_disagrees v s) s"
proof (cases "ge_key v \<and> ge_sync v (l_file s) \<noteq> None")
  case True
  then obtain f where f: "ge_key v" "ge_sync v (l_file s) = Some f" by auto
  show ?thesis
  proof (cases "lastAnchorLine f")
    case None
    with f show ?thesis
      by (simp add: checkRemote_def wp_bind ensureClone_def wp_State wp_get wp_return)
  next
    case (Some remote)
    have "wp GetLatestAnchorLog (\<lambda>l s'. \<forall>local. l = Inr local \<longrightarrow> l_anchors s \<noteq> []
        \<and> local = last (sort_key ar_id (l_anchors s))) (s\<lparr>l_file := f\<rparr>)"
      unfolding GetLatestAnchorLog_def by (rule wp_lgetI) auto
    then have "wp GetLatestAnchorLog (\<lambda>l s'. \<forall>i. (case l of
              Inl e \<Rightarrow> if e = NoRows then Inr None else Inl e
            | Inr local \<Rightarrow> (case remote of
                None \<Rightarrow> Inr None
              | Some (e, d) \<Rightarrow>
                  if e \<noteq> ar_event local \<or> d \<noteq> ar_digest local then Inr (Some (max e (ar_event local)))
                  else Inr None)) = Inr (Some i) \<longrightarrow> remote_disagrees v s) (s\<lparr>l_file := f\<rparr>)"
      by (rule wp_mono)
         (use f Some in \<open>auto simp: remote_disagrees_def Let_def split: sum.splits option.splits if_splits\<close>)
    with f Some show ?thesis
      by (simp add: checkRemote_def wp_bind ensureClone_def wp_State wp_get wp_return_eq)
  qed
qed (auto simp: checkRemote_def wp_bind ensureClone_def wp_State wp_return)

lemma verify_mismatch_spec:
  "wp (verify_mismatch v trace i) (\<lambda>r _. r = Inr \<lparr>vr_ok = False, vr_mismatch = i\<rparr>) s"
  unfolding verify_mismatch_def by (rule wp_bindI) (simp add: wp_return)

definition verify_post :: "anchor_env \<Rightarrow> ledger_db \<Rightarrow> verify_result res \<Rightarrow> bool" where
  "verify_post v s r \<longleftrightarrow> (\<forall>res. r = Inr res \<longrightarrow> (case found s of
     Some i \<Rightarrow> res = \<lparr>vr_ok = False, vr_mismatch = i\<rparr>
   | None \<Rightarrow> vr_ok res \<or> ge_remote v \<noteq> '''' \<and> remote_disagrees v s))"

lemma remote_disagrees_faults [simp]: "remote_disagrees v (s\<lparr>l_faults := fs\<rparr>) = remote_disagrees v s"
  by (simp add: remote_disagrees_def)

lemma Verify_spec: "wp (Verify v trace) (\<lambda>r _. verify_post v s r) s"
proof -
  have remote: "wp (do { r \<leftarrow> checkRemote v;
              case r of
                Inl e \<Rightarrow> ret (Inl e)
              | Inr (Some i) \<Rightarrow> verify_mismatch v trace i
              | Inr None \<Rightarrow> ret (Inr \<lparr>vr_ok = True, vr_mismatch = 0\<rparr>) })
      (\<lambda>r _. verify_post v s r) (s\<lparr>l_faults := fs\<rparr>)"
    if "found s = None" "ge_remote v \<noteq> ''''" for fs
  proof (rule wp_bind_mono [OF checkRemote_spec])
    fix r :: "int option res" and s1
    assume r: "\<forall>i. r = Inr (Some i) \<longrightarrow> remote_disagrees v (s\<lparr>l_faults := fs\<rparr>)"
    then show "wp (case r of
                Inl e \<Rightarrow> ret (Inl e)
              | Inr (Some i) \<Rightarrow> verify_mismatch v trace i
              | Inr None \<Rightarrow> ret (Inr \<lparr>vr_ok = True, vr_mismatch = 0\<rparr>)) (\<lambda>r _. verify_post v s r) s1"
      using that
      by (auto simp: wp_return verify_post_def split: sum.splits option.splits
          intro: wp_mono [OF verify_mismatch_spec])
  qed
  have loop: "wp (case found s of
          Some i \<Rightarrow> verify_mismatch v trace i
        | None \<Rightarrow>
            if ge_remote v = '''' then ret (Inr \<lparr>vr_ok = True, vr_mismatch = 0\<rparr>)
            else do {
              r \<leftarrow> checkRemote v;
              case r of
                Inl e \<Rightarrow> ret (Inl e)
              | Inr (Some i) \<Rightarrow> verify_mismatch v trace i
              | Inr None \<Rightarrow> ret (Inr \<lparr>vr_ok = True, vr_mismatch = 0\<rparr>)
            }) (\<lambda>r _. verify_post v s r) (s\<lparr>l_faults := fs\<rparr>)" for fs
  proof (cases "found s")
    case None
    with remote show ?thesis by (simp add: wp_return verify_post_def)
  next
    case (Some i)
    then show ?thesis by (simp, intro wp_mono [OF verify_mismatch_spec]) (simp add: verify_post_def)
  qed
  have checkpoints: "wp (do { cs \<leftarrow> ListAnchorLogs;
     case cs of Inl e \<Rightarrow> ret (Inl e) | Inr checkpoints \<Rightarrow>
       (case first_mismatch (want_digest checkpoints) Genesis (sort_key lr_id (l_events s)) of
          Some i \<Rightarrow> verify_mismatch v trace i
        | None \<Rightarrow>
            if ge_remote v = '''' then ret (Inr \<lparr>vr_ok = True, vr_mismatch = 0\<rparr>)
            else do {
              r \<leftarrow> checkRemote v;
              case r of
                Inl e \<Rightarrow> ret (Inl e)
              | Inr (Some i) \<Rightarrow> verify_mismatch v trace i
              | Inr None \<Rightarrow> ret (Inr \<lparr>vr_ok = True, vr_mismatch = 0\<rparr>)
            }) }) (\<lambda>r _. verify_post v s r) (s\<lparr>l_faults := fs\<rparr>)" for fs
    unfolding ListAnchorLogs_def wp_bind [of "lget _"]
    by (rule wp_lgetI) (use loop in \<open>simp_all add: wp_return verify_post_def\<close>)
  show ?thesis
    unfolding Verify_def ListAllEvents_def wp_bind [of "lget _"]
    by (rule wp_lgetI) (use checkpoints in \<open>simp_all add: wp_return verify_post_def\<close>)
qed

section \<open>Honest ledgers\<close>

lemma rising_sorted: "ids_rise rows \<Longrightarrow> sort_key lr_id rows = rows"
  by (rule sort_key_id_if_sorted) (simp add: ids_rise_def strict_sorted_imp_sorted)

lemma want_of_checkpoints:
  "want_digest (sort_key ar_event rows) i = Some w \<Longrightarrow> \<exists>a \<in> set rows. ar_event a = i \<and> ar_digest a = w"
  using want_digest_in [of "sort_key ar_event rows" i w] by simp

lemma honest_found:
  assumes "ledger_ok s"
  shows "found s = None"
proof -
  have rise: "ids_rise ([] @ l_events s)" using assms by (simp add: ledger_ok_def)
  have "w = hex_encode (chain Genesis (upto_id i (map entry_of ([] @ l_events s))))"
    if "want_digest (sort_key ar_event (l_anchors s)) i = Some w" for i w
    using want_of_checkpoints [OF that] assms by (auto simp: ledger_ok_def)
  from first_mismatch_honest [OF rise this] rise show ?thesis by (simp add: rising_sorted)
qed

datatype ledger_op =
    LedgerAppend string string string
  | LedgerPush anchor_env string
  | LedgerVerify anchor_env string
  | LedgerClock int

fun run_ledger_op :: "ledger_op \<Rightarrow> ledger_db \<Rightarrow> ledger_db" where
  "run_ledger_op (LedgerAppend trace kind payload) s = snd (run_state (LogBytes trace kind payload) s)"
| "run_ledger_op (LedgerPush v trace) s = snd (run_state (Pusher_Run v trace) s)"
| "run_ledger_op (LedgerVerify v trace) s = snd (run_state (Verify v trace) s)"
| "run_ledger_op (LedgerClock t) s = s\<lparr>l_clock := t\<rparr>"

definition run_ledger :: "ledger_op list \<Rightarrow> ledger_db \<Rightarrow> ledger_db" where
  "run_ledger ops s = fold run_ledger_op ops s"

lemma run_ledger_ok: "ledger_ok s \<Longrightarrow> ledger_ok (run_ledger ops s)"
proof -
  have log: "state_io_rel ok_kept (LogBytes trace kind payload)" for trace kind payload
    unfolding LogBytes_def by (intro keeps_rules ok_lnow ok_append)
  have "ok_kept s (run_ledger_op op s)" for op s
    by (cases op) (simp_all add: ok.keeps_snd log ok_Run ok_Verify, simp add: ok_kept_def)
  then have "ok_kept s (run_ledger ops s)" unfolding run_ledger_def by (rule ok.keeps_fold)
  then show "ledger_ok s \<Longrightarrow> ledger_ok (run_ledger ops s)" by (simp add: ok_kept_def)
qed

section \<open>Properties\<close>

text \<open>
  C39.  From a new ledger on, under any sequence of appends, pushes and verifications and any
  failures of database calls and git steps, the stored digest is the digest of the stored events,
  every checkpoint is the digest of the events up to it, and a verification that completes finds
  the events in order: it can only object to a remote whose last line is not the latest checkpoint.
\<close>

theorem honest_ledger_verifies:
  assumes "s = run_ledger ops (new_ledger\<lparr>l_faults := fs\<rparr>)"
    and "run_state (Verify v trace) s = (Inr res, s')"
  shows "l_state s = Some (if l_events s = [] then 0 else lr_id (last (l_events s)), chain Genesis (entries s))
    \<and> (\<forall>a \<in> set (l_anchors s). ar_digest a = hex_encode (chain Genesis (upto_id (ar_event a) (entries s))))
    \<and> (vr_ok res \<or> ge_remote v \<noteq> '''' \<and> remote_disagrees v s)"
proof -
  have ok: "ledger_ok s" unfolding assms(1) by (rule run_ledger_ok) (simp add: ledger_ok_new)
  from wp_run [OF Verify_spec assms(2)] honest_found [OF ok]
  have "vr_ok res \<or> ge_remote v \<noteq> '''' \<and> remote_disagrees v s" by (simp add: verify_post_def)
  with ok show ?thesis by (auto simp: ledger_ok_def)
qed

text \<open>An environment without a remote for the verification, and one whose git steps all succeed.\<close>

definition local_env :: anchor_env where
  "local_env = \<lparr>ge_remote = '''', ge_interval = 1, ge_fallback = False, ge_key = True, ge_sync = Some,
     ge_append = True, ge_add = True, ge_commit = True, ge_push = True, ge_host = Some ''mac'',
     ge_time = (\<lambda>_. ''2026-01-01T00:00:00Z''), ge_json = note_kind\<rparr>"

definition push_env :: anchor_env where
  "push_env = local_env\<lparr>ge_remote := ''git@remote''\<rparr>"

definition demo_ops :: "ledger_op list" where
  "demo_ops = [LedgerAppend ''t'' ''k1'' ''p1'', LedgerPush push_env ''t'', LedgerAppend ''t'' ''k2'' ''p2'']"

lemma Verify_completes:
  assumes "l_faults s = []" "ge_remote v = ''''" "found s = None"
  shows "fst (run_state (Verify v trace) s) = Inr \<lparr>vr_ok = True, vr_mismatch = 0\<rparr>"
  using assms by (simp add: Verify_def ListAllEvents_def ListAnchorLogs_def lget_def ldb_def)

lemmas ledger_run_defs = run_ledger_def LogBytes_def lnow_def InsertEventWithDigest_def append_steps_def
  lget_def ldb_def InsertEvent_def GetLedgerDigestState_def AdvanceLedgerDigestState_def Pusher_Run_def
  claimPendingRow_def GetLatestAnchorLog_def insertPending_def InsertAnchorLog_def pushRow_def step_or_def
  ensureClone_def appendAnchorLine_def MarkAnchorPushed_def anchor_log_note_def checkStalePending_def
  ListPendingAnchorLogs_def update_where_def

lemma demo_ledger:
  "l_faults (run_ledger demo_ops new_ledger) = []"
  "map (\<lambda>a. (ar_event a, ar_pushed a)) (l_anchors (run_ledger demo_ops new_ledger)) = [(1, True)]"
  "map lr_id (l_events (run_ledger demo_ops new_ledger)) = [1, 2, 3]"
  by (simp_all add: ledger_run_defs demo_ops_def push_env_def local_env_def new_ledger_def Let_def)

lemma demo_ledger_ok: "ledger_ok (run_ledger demo_ops new_ledger)"
  by (rule run_ledger_ok) (rule ledger_ok_new)

lemma demo_start: "new_ledger\<lparr>l_faults := []\<rparr> = new_ledger"
  by (simp add: new_ledger_def)

theorem honest_ledger_verifies_witness:
  "fst (run_state (Verify local_env ''t'') (run_ledger demo_ops new_ledger)) = Inr \<lparr>vr_ok = True, vr_mismatch = 0\<rparr>
   \<and> (\<exists>a d. l_anchors (run_ledger demo_ops new_ledger) = [a] \<and> l_state (run_ledger demo_ops new_ledger) = Some (3, d)
        \<and> ar_digest a = hex_encode (chain Genesis (upto_id 1 (entries (run_ledger demo_ops new_ledger)))))"
proof -
  let ?s = "run_ledger demo_ops new_ledger"
  have res: "fst (run_state (Verify local_env ''t'') ?s) = Inr \<lparr>vr_ok = True, vr_mismatch = 0\<rparr>"
    by (rule Verify_completes [OF demo_ledger(1) _ honest_found [OF demo_ledger_ok]]) (simp add: local_env_def)
  then obtain s' where run: "run_state (Verify local_env ''t'') ?s = (Inr \<lparr>vr_ok = True, vr_mismatch = 0\<rparr>, s')"
    by (metis prod.collapse)
  have start: "?s = run_ledger demo_ops (new_ledger\<lparr>l_faults := []\<rparr>)" by (simp only: demo_start)
  note facts = honest_ledger_verifies [OF start run]
  obtain a where a: "l_anchors ?s = [a]" "ar_event a = 1" using demo_ledger(2) by auto
  have "lr_id (last (l_events ?s)) = 3" using demo_ledger(3) by (metis last_ConsL last_ConsR last_map list.distinct(1) map_is_Nil_conv)
  moreover have "l_events ?s \<noteq> []" using demo_ledger(3) by auto
  ultimately show ?thesis using res facts a by auto
qed






section \<open>Observations\<close>

text \<open>
  The verification compares a checkpoint only when it meets the event it names: with the events from
  the first checkpoint on deleted, or all of them, nothing is compared and the ledger is accepted.
\<close>

lemma truncated_ledger_verifies:
  assumes "l_faults s = []" "ge_remote v = ''''"
  shows "fst (run_state (Verify v trace) (s\<lparr>l_events := []\<rparr>)) = Inr \<lparr>vr_ok = True, vr_mismatch = 0\<rparr>"
  by (rule Verify_completes) (use assms in simp_all)

text \<open>
  A push that fails before it reaches the local copy leaves a pending checkpoint; a verification
  that reaches the remote before the next push then reports tampering of an honest ledger.
\<close>

lemma pending_checkpoint_raises_alarm:
  assumes "ledger_ok s" "l_faults s = []" "ge_remote v \<noteq> ''''" "ge_key v"
    and "ge_sync v (l_file s) = Some f" "lastAnchorLine f = Some (Some (e, d))"
    and "l_anchors s \<noteq> []" "e < ar_event (last (sort_key ar_id (l_anchors s)))"
  shows "fst (run_state (Verify v trace) s) =
    Inr \<lparr>vr_ok = False, vr_mismatch = ar_event (last (sort_key ar_id (l_anchors s)))\<rparr>"
  using assms honest_found [OF assms(1)]
  by (simp add: Verify_def ListAllEvents_def ListAnchorLogs_def lget_def ldb_def checkRemote_def ensureClone_def
      GetLatestAnchorLog_def verify_mismatch_def State_Monad.bind_def split_beta)

end
