(* ===== verification/Go_Float.thy ===== *)
theory Go_Float
  imports Kahya_Prelude Go_Net Complex_Main
begin

text \<open>
  Two parts of Go's standard library the cloud proxy computes with: \<open>float64\<close> arithmetic and the
  calendar texts of an instant.

  A finite \<open>float64\<close> is the rational it stands for, and an operation is the exact one followed by
  \<open>round64\<close>, the rounding of IEEE 754 to the nearest value with 53 significant bits, ties to even,
  with the subnormals below \<open>2 ^ (-1022)\<close>.  The exponent is not bounded above: the values the
  program computes with (dollars, token counts, ratios) stay far below \<open>2 ^ 1024\<close>.
\<close>

section \<open>Floating-point numbers\<close>

type_synonym f64 = rat

function bit_len :: "int \<Rightarrow> int" where
  "bit_len n = (if n \<le> 0 then 0 else 1 + bit_len (n div 2))"
  by pat_completeness auto
termination
  by (relation "measure nat") auto

declare bit_len.simps [simp del]

text \<open>\<open>2 ^ e\<close> for any integer \<open>e\<close>, in a form that evaluates.\<close>

definition pow2 :: "int \<Rightarrow> rat" where
  "pow2 e = (if 0 \<le> e then of_int (2 ^ nat e) else 1 / of_int (2 ^ nat (- e)))"

lemma pow2_pos [simp]: "0 < pow2 e"
  by (simp add: pow2_def)

text \<open>\<open>ilog2 x\<close> is the \<open>k\<close> with \<open>2 ^ k \<le> x < 2 ^ (k + 1)\<close>, for a positive \<open>x\<close>.\<close>

definition ilog2_near :: "rat \<Rightarrow> int \<Rightarrow> int" where
  "ilog2_near x k = (if pow2 k \<le> x then k else k - 1)"

definition ilog2 :: "rat \<Rightarrow> int" where
  "ilog2 x = ilog2_near x
     (bit_len (fst (quotient_of x)) - bit_len (snd (quotient_of x)))"

definition round_even :: "rat \<Rightarrow> int" where
  "round_even x = (let f = \<lfloor>x\<rfloor>; d = x - of_int f in
     if d < 1 / 2 then f else if 1 / 2 < d then f + 1 else if even f then f else f + 1)"

definition round_at :: "int \<Rightarrow> rat \<Rightarrow> f64" where
  "round_at e x = of_int (round_even (x / pow2 e)) * pow2 e"

definition round64 :: "rat \<Rightarrow> f64" where
  "round64 x = (if x = 0 then 0 else round_at (max (ilog2 \<bar>x\<bar> - 52) (- 1074)) x)"

definition fadd :: "f64 \<Rightarrow> f64 \<Rightarrow> f64" where "fadd a b = round64 (a + b)"
definition fsub :: "f64 \<Rightarrow> f64 \<Rightarrow> f64" where "fsub a b = round64 (a - b)"
definition fmul :: "f64 \<Rightarrow> f64 \<Rightarrow> f64" where "fmul a b = round64 (a * b)"
definition fdiv :: "f64 \<Rightarrow> f64 \<Rightarrow> f64" where "fdiv a b = round64 (a / b)"

text \<open>The conversion \<open>float64(n)\<close> of an \<open>int64\<close>.\<close>

definition float_of :: "int64 \<Rightarrow> f64" where
  "float_of n = round64 (of_int (sint n))"

lemma round64_0 [simp]: "round64 0 = 0"
  by (simp add: round64_def)

lemma round_even_floor: "\<lfloor>x\<rfloor> \<le> round_even x" "round_even x \<le> \<lfloor>x\<rfloor> + 1"
  by (simp_all add: round_even_def Let_def)

lemma round_even_mono: "x \<le> y \<Longrightarrow> round_even x \<le> round_even y"
proof -
  assume le: "x \<le> y"
  show ?thesis
  proof (cases "\<lfloor>x\<rfloor> < \<lfloor>y\<rfloor>")
    case True
    then show ?thesis
      using round_even_floor(2) [of x] round_even_floor(1) [of y] by linarith
  next
    case False
    with floor_mono [OF le] have "\<lfloor>x\<rfloor> = \<lfloor>y\<rfloor>" by simp
    with le show ?thesis by (auto simp: round_even_def Let_def)
  qed
qed

lemma round_even_of_int [simp]: "round_even (of_int n) = n"
  by (simp add: round_even_def)

lemma round_even_nonneg: "0 \<le> x \<Longrightarrow> 0 \<le> round_even x"
  using round_even_mono [of 0 x] round_even_of_int [of 0] by simp

lemma round64_nonneg: "0 \<le> x \<Longrightarrow> 0 \<le> round64 x"
  by (simp add: round64_def round_at_def round_even_nonneg less_imp_le)

section \<open>Calendar\<close>

text \<open>
  The civil date of a day counted from the epoch, in the proleptic Gregorian calendar: eras of 400
  years that begin on March 1st.
\<close>

definition day_ns :: int where "day_ns = 24 * hour_ns"

definition civil_of_march :: "int \<Rightarrow> int \<Rightarrow> int \<Rightarrow> int \<times> int \<times> int" where
  "civil_of_march y doy mp =
     (if mp < 10 then (y, mp + 3, doy - (153 * mp + 2) div 5 + 1)
      else (y + 1, mp - 9, doy - (153 * mp + 2) div 5 + 1))"

definition civil_of_doy :: "int \<Rightarrow> int \<Rightarrow> int \<times> int \<times> int" where
  "civil_of_doy y doy = civil_of_march y doy ((5 * doy + 2) div 153)"

definition civil_of_year :: "int \<Rightarrow> int \<Rightarrow> int \<Rightarrow> int \<times> int \<times> int" where
  "civil_of_year era doe yoe = civil_of_doy (yoe + era * 400) (doe - (365 * yoe + yoe div 4 - yoe div 100))"

definition civil_of_era :: "int \<Rightarrow> int \<Rightarrow> int \<times> int \<times> int" where
  "civil_of_era era doe =
     civil_of_year era doe ((doe - doe div 1460 + doe div 36524 - doe div 146096) div 365)"

definition civil_date :: "int \<Rightarrow> int \<times> int \<times> int" where
  "civil_date day = civil_of_era ((day + 719468) div 146097) ((day + 719468) mod 146097)"

text \<open>\<open>UTC().Format("2006-01")\<close> and \<open>UTC().Format("2006-01-02")\<close>, for the years 0 to 9999.\<close>

fun month_text :: "int \<times> int \<times> int \<Rightarrow> string" where
  "month_text (y, m, d) = fixed_digits 4 (nat y) @ ''-'' @ fixed_digits 2 (nat m)"

fun day_text :: "int \<times> int \<times> int \<Rightarrow> string" where
  "day_text (y, m, d) = month_text (y, m, d) @ ''-'' @ fixed_digits 2 (nat d)"

definition utc_month :: "int \<Rightarrow> string" where
  "utc_month t = month_text (civil_date (t div day_ns))"

definition utc_day :: "int \<Rightarrow> string" where
  "utc_day t = day_text (civil_date (t div day_ns))"

text \<open>Spot checks: a leap day, the first and the last second of a month, and roundings.\<close>

lemma calendar_examples:
  "day_text (civil_date 20697) = ''2026-09-01''"
  "month_text (civil_date 20696) = ''2026-08''"
  "civil_date 19782 = (2024, 2, 29)"
  by code_simp+

lemma round64_examples:
  "round64 (3 / 4) = 3 / 4"
  "fadd 9007199254740992 1 = 9007199254740992"
  "fmul (round64 (1 / 10)) 3 \<noteq> 3 / 10"
  by code_simp+

end
