(* ===== verification/Cloud_Usage.thy ===== *)
theory Cloud_Usage
  imports Go_Float
begin

text \<open>
  The pure parts of the cloud proxy: token usage and its price (\<open>anthproxy/usage.go\<close>), the classes
  of failed calls and the delays between attempts (\<open>cloudretry\<close>), and the shaping of requests for
  one model (\<open>anthproxy/fable5.go\<close>).  Decoding and encoding of JSON and of HTTP dates is the record
  \<open>wire_env\<close>, each decoder \<open>None\<close> where \<open>json.Unmarshal\<close> fails.
\<close>

section \<open>Usage and prices\<close>

record usage =
  us_input :: int64
  us_output :: int64
  us_cache_creation :: int64
  us_cache_read :: int64

definition no_usage :: usage where
  "no_usage = \<lparr>us_input = 0, us_output = 0, us_cache_creation = 0, us_cache_read = 0\<rparr>"

definition BillableCeilingTokens :: "usage \<Rightarrow> int64" where
  "BillableCeilingTokens u = us_input u + us_output u + us_cache_creation u"

definition cache_denominator :: "int64 \<Rightarrow> int64" where
  "cache_denominator n = (if sint n \<le> 0 then 1 else n)"

definition CacheHitRatio :: "usage \<Rightarrow> f64" where
  "CacheHitRatio u =
     fdiv (float_of (us_cache_read u)) (float_of (cache_denominator (us_input u + us_cache_read u)))"

text \<open>A dated row of the price table; a bound of the window that is absent is Go's zero time.\<close>

record price_row =
  pr_model :: string
  pr_from :: "int option"
  pr_to :: "int option"
  pr_in :: f64
  pr_out :: f64
  pr_cache_read :: f64
  pr_cache_write :: f64

definition cacheReadMultiplier :: f64 where "cacheReadMultiplier = round64 (1 / 10)"
definition cacheWrite1hMultiplier :: f64 where "cacheWrite1hMultiplier = 2"

definition priceRow :: "string \<Rightarrow> int option \<Rightarrow> int option \<Rightarrow> f64 \<Rightarrow> f64 \<Rightarrow> price_row" where
  "priceRow m from_t to_t pin pout = \<lparr>pr_model = m, pr_from = from_t, pr_to = to_t, pr_in = pin, pr_out = pout,
     pr_cache_read = fmul pin cacheReadMultiplier, pr_cache_write = fmul pin cacheWrite1hMultiplier\<rparr>"

text \<open>2026-09-01T00:00:00Z.\<close>

definition sonnet5IntroEnd :: int where
  "sonnet5IntroEnd = 1788220800 * second_ns"

definition pricingTable :: "price_row list" where
  "pricingTable = [
     priceRow ''claude-opus-4-8'' None None 5 25,
     priceRow ''claude-sonnet-5'' None (Some sonnet5IntroEnd) 2 10,
     priceRow ''claude-sonnet-5'' (Some sonnet5IntroEnd) None 3 15,
     priceRow ''claude-haiku-4-5'' None None 1 5,
     priceRow ''claude-fable-5'' None None 10 50]"

definition in_window :: "price_row \<Rightarrow> int \<Rightarrow> bool" where
  "in_window r t \<longleftrightarrow> (case pr_from r of None \<Rightarrow> True | Some f \<Rightarrow> f \<le> t)
     \<and> (case pr_to r of None \<Rightarrow> True | Some e \<Rightarrow> t < e)"

definition PriceFor :: "string \<Rightarrow> int \<Rightarrow> price_row option" where
  "PriceFor m t = find (\<lambda>r. pr_model r = m \<and> in_window r t) pricingTable"

definition per_mtok :: "int64 \<Rightarrow> f64 \<Rightarrow> f64" where
  "per_mtok n price = fdiv (fmul (float_of n) price) 1000000"

definition CostUSD :: "usage \<Rightarrow> price_row \<Rightarrow> f64" where
  "CostUSD u r = fadd (fadd (fadd (per_mtok (us_input u) (pr_in r)) (per_mtok (us_output u) (pr_out r)))
     (per_mtok (us_cache_read u) (pr_cache_read r))) (per_mtok (us_cache_creation u) (pr_cache_write r))"

section \<open>What the wire carries\<close>

text \<open>
  \<open>we_usage\<close> decodes a whole response; \<open>we_type\<close>, \<open>we_start\<close> and \<open>we_delta\<close> one event of a stream;
  \<open>we_max_tokens\<close>, \<open>we_probe\<close> (model and the raw bytes of \<open>system\<close>, empty when absent) and \<open>we_blocks\<close>
  a request; \<open>we_object\<close>, \<open>we_string\<close>, \<open>we_strings\<close> and the \<open>emit\<close> functions the parts of a
  request that is rewritten; \<open>we_time\<close> is \<open>http.ParseTime\<close>.
\<close>

record wire_env =
  we_usage :: "string \<Rightarrow> usage option"
  we_type :: "string \<Rightarrow> string option"
  we_start :: "string \<Rightarrow> (int64 \<times> int64 \<times> int64) option"
  we_delta :: "string \<Rightarrow> int64 option"
  we_max_tokens :: "string \<Rightarrow> int64 option"
  we_probe :: "string \<Rightarrow> (string \<times> string) option"
  we_blocks :: "string \<Rightarrow> string list option"
  we_object :: "string \<Rightarrow> (string \<rightharpoonup> string) option"
  we_string :: "string \<Rightarrow> string option"
  we_strings :: "string \<Rightarrow> string list option"
  we_emit_strings :: "string list \<Rightarrow> string"
  we_emit_object :: "(string \<rightharpoonup> string) \<Rightarrow> string option"
  we_time :: "string \<Rightarrow> int option"

definition ParseNonStreamUsage :: "wire_env \<Rightarrow> string \<Rightarrow> usage option" where
  "ParseNonStreamUsage v body = we_usage v body"

text \<open>\<open>strings.TrimRight\<close> of line ends, and one line of an event stream.\<close>

definition trim_line_end :: "string \<Rightarrow> string" where
  "trim_line_end s = rev (dropWhile (\<lambda>c. c = CHR 0x0A \<or> c = CHR 0x0D) (rev s))"

definition Feed_data :: "wire_env \<Rightarrow> string \<Rightarrow> usage \<Rightarrow> usage" where
  "Feed_data v data u =
     (if data = '''' then u
      else case we_type v data of
        None \<Rightarrow> u
      | Some ty \<Rightarrow>
          if ty = ''message_start'' then
            (case we_start v data of
               None \<Rightarrow> u
             | Some (i, c, r) \<Rightarrow> u\<lparr>us_input := i, us_cache_creation := c, us_cache_read := r\<rparr>)
          else if ty = ''message_delta'' then
            (case we_delta v data of None \<Rightarrow> u | Some n \<Rightarrow> u\<lparr>us_output := n\<rparr>)
          else u)"

definition Feed :: "wire_env \<Rightarrow> string \<Rightarrow> usage \<Rightarrow> usage" where
  "Feed v line u =
     (let t = trim_line_end line in
      if is_prefix ''data: '' t then Feed_data v (trim_space (drop 6 t)) u else u)"

section \<open>Failed calls\<close>

text \<open>A transport error, by the tests \<open>errors.Is\<close> and \<open>errors.As\<close> the classifier makes of it.\<close>

record transport_error =
  te_text :: string
  te_deadline :: bool
  te_dns :: bool
  te_refused :: bool
  te_reset :: bool
  te_op :: bool
  te_timeout :: bool

datatype retry_class = Retryable | NonRetryable

definition retryableStatuses :: "int list" where
  "retryableStatuses = [408, 429, 500, 502, 503, 504, 529]"

definition classifyTransportErr :: "transport_error option \<Rightarrow> retry_class" where
  "classifyTransportErr e = (case e of
     None \<Rightarrow> NonRetryable
   | Some t \<Rightarrow> if te_deadline t \<or> te_dns t \<or> te_refused t \<or> te_reset t \<or> te_op t \<or> te_timeout t
              then Retryable else NonRetryable)"

definition Classify :: "int \<Rightarrow> transport_error option \<Rightarrow> retry_class" where
  "Classify status e =
     (if status \<noteq> 0 then (if status \<in> set retryableStatuses then Retryable else NonRetryable)
      else classifyTransportErr e)"

definition ReasonForStatus :: "int \<Rightarrow> string" where
  "ReasonForStatus status =
     (if status = 400 then ''invalid_request_error''
      else if status = 401 then ''authentication_error''
      else if status = 403 then ''permission_error''
      else if status = 404 then ''not_found_error''
      else if status = 413 then ''request_too_large''
      else if status = 422 then ''unprocessable_entity''
      else ''http_'' @ int_text status)"

section \<open>Delays\<close>

text \<open>
  A \<open>time.Duration\<close> is an \<open>int64\<close> of nanoseconds: the product of the seconds of a header and
  \<open>time.Second\<close> wraps around.  \<open>time.Until\<close> saturates instead.
\<close>

definition maxRetryAfter :: int64 where "maxRetryAfter = word_of_int (60 * second_ns)"

definition capRetryAfter :: "int64 \<Rightarrow> int64" where
  "capRetryAfter d = (if sint maxRetryAfter < sint d then maxRetryAfter else d)"

definition saturate64 :: "int \<Rightarrow> int64" where
  "saturate64 n = word_of_int (max (- (2 ^ 63)) (min (2 ^ 63 - 1) n))"

definition ParseRetryAfter :: "wire_env \<Rightarrow> int \<Rightarrow> string \<Rightarrow> int64 option" where
  "ParseRetryAfter v t_now header =
     (let h = trim_space header in
      if h = '''' then None
      else case Atoi h of
        Some secs \<Rightarrow> Some (capRetryAfter (word_of_int (max 0 secs) * word_of_int second_ns))
      | None \<Rightarrow> (case we_time v h of
            Some t \<Rightarrow> (let d = saturate64 (t - t_now) in Some (capRetryAfter (if sint d < 0 then 0 else d)))
          | None \<Rightarrow> None))"

text \<open>
  The backoff schedule.  \<open>math.Pow\<close> is exact for the factor 2 the daemon runs with and is modelled
  by the power; the jitter is what the random source returns, a value in \<open>[0, 1)\<close>.
\<close>

record backoff =
  bo_base :: int64
  bo_factor :: f64
  bo_jitter :: f64
  bo_rand :: f64

definition default_factor :: "f64 \<Rightarrow> f64" where
  "default_factor f = (if f \<le> 0 then 2 else f)"

definition jittered :: "f64 \<Rightarrow> f64 \<Rightarrow> f64 \<Rightarrow> f64" where
  "jittered d jf r = fadd d (fmul d (fmul (fsub (fmul r 2) 1) jf))"

definition backoff_Delay :: "backoff \<Rightarrow> nat \<Rightarrow> int64" where
  "backoff_Delay b attempt =
     (let base = (if sint (bo_base b) \<le> 0 then word_of_int second_ns else bo_base b);
          d = fmul (float_of base) (round64 (default_factor (bo_factor b) ^ (max 1 attempt - 1)));
          j = jittered d (max 0 (bo_jitter b)) (bo_rand b)
      in word_of_int \<lfloor>max 0 j\<rfloor>)"

section \<open>Requests for the model with a server-side fallback\<close>

definition fable5Model :: string where "fable5Model = ''claude-fable-5''"
definition fable5RequiredBeta :: string where "fable5RequiredBeta = ''server-side-fallback-2026-06-01''"
definition fable5FallbackModel :: string where "fable5FallbackModel = ''claude-opus-4-8''"

definition fable5_fallbacks :: string where
  "fable5_fallbacks = ''[{'' @ CHR 0x22 # ''model'' @ CHR 0x22 # '':'' @ CHR 0x22 # fable5FallbackModel
     @ CHR 0x22 # ''}]''"

definition decodeBetas :: "wire_env \<Rightarrow> string option \<Rightarrow> string list" where
  "decodeBetas v raw = (case raw of
     None \<Rightarrow> []
   | Some r \<Rightarrow> if r = '''' then [] else (case we_strings v r of None \<Rightarrow> [] | Some bs \<Rightarrow> bs))"

definition required_betas :: "string list \<Rightarrow> string list" where
  "required_betas bs = (if fable5RequiredBeta \<in> set bs then bs else bs @ [fable5RequiredBeta])"

definition object_model :: "wire_env \<Rightarrow> (string \<rightharpoonup> string) \<Rightarrow> string" where
  "object_model v doc = (case doc ''model'' of
     None \<Rightarrow> ''''
   | Some raw \<Rightarrow> (case we_string v raw of None \<Rightarrow> '''' | Some m \<Rightarrow> m))"

definition shapeFable5Body :: "wire_env \<Rightarrow> string \<Rightarrow> string \<times> bool" where
  "shapeFable5Body v body = (case we_object v body of
     None \<Rightarrow> (body, False)
   | Some doc \<Rightarrow>
       if object_model v doc \<noteq> fable5Model then (body, False)
       else case we_emit_object v (doc(''betas'' \<mapsto> we_emit_strings v (required_betas (decodeBetas v (doc ''betas''))),
                                       ''fallbacks'' \<mapsto> fable5_fallbacks)) of
         None \<Rightarrow> (body, False)
       | Some out \<Rightarrow> (out, True))"

section \<open>Facts\<close>

text \<open>Every instant has a price for a listed model, and only for one.\<close>

lemma opus_always_priced: "PriceFor ''claude-opus-4-8'' t \<noteq> None"
  by (simp add: PriceFor_def pricingTable_def priceRow_def in_window_def)

lemma sonnet_always_priced: "PriceFor ''claude-sonnet-5'' t \<noteq> None"
  by (auto simp: PriceFor_def pricingTable_def priceRow_def in_window_def)

lemma unknown_model_has_no_price: "m \<notin> pr_model ` set pricingTable \<Longrightarrow> PriceFor m t = None"
  by (auto simp: PriceFor_def find_None_iff)

lemma capRetryAfter_le: "sint (capRetryAfter d) \<le> 60 * second_ns"
  by (simp add: capRetryAfter_def maxRetryAfter_def second_ns_def)

lemma ParseRetryAfter_capped: "ParseRetryAfter v t h = Some d \<Longrightarrow> sint d \<le> 60 * second_ns"
  using capRetryAfter_le by (auto simp: ParseRetryAfter_def Let_def split: if_splits option.splits)

text \<open>The product of the seconds and a nanosecond count wraps: a delay of centuries reads as none.\<close>

lemma huge_retry_after_wraps:
  "map_option sint (ParseRetryAfter v t ''9223372037'') = Some (- 9223372036709551616)"
proof -
  have a: "trim_space ''9223372037'' = ''9223372037''" by code_simp
  have b: "Atoi ''9223372037'' = Some 9223372037" by code_simp
  show ?thesis
    by (simp add: ParseRetryAfter_def a b Let_def capRetryAfter_def maxRetryAfter_def second_ns_def)
qed

end
