(* ===== verification/Cloud_Governor.thy ===== *)
theory Cloud_Governor
  imports Cloud_Usage
begin

text \<open>
  \<open>kahyad/internal/anthproxy/governor.go\<close>: the cost governor every request to the model provider is
  admitted by.  The mutex makes each method one step on the record \<open>governor\<close>; what
  \<open>RecordUsage\<close> writes to the ledger and the notifier after releasing the lock is the list of events
  it returns.  A map that is only read through its zero value is a total function.
\<close>

record limits =
  li_daily :: f64
  li_monthly :: f64
  li_ceiling :: int64
  li_ratio :: f64
  li_cache :: f64
  li_est :: int64

definition defaultEstRequestTokens :: int64 where "defaultEstRequestTokens = 50000"
definition estRequestBytesPerToken :: int where "estRequestBytesPerToken = 3"
definition spendAlarmRatio80 :: f64 where "spendAlarmRatio80 = round64 (4 / 5)"
definition spendAlarmRatio100 :: f64 where "spendAlarmRatio100 = 1"
definition minCallsForCacheHitAlarm :: int where "minCallsForCacheHitAlarm = 20"
definition maxSystemHashChangesPerDay :: int where "maxSystemHashChangesPerDay = 2"

datatype budget_message = MsgTaskCeiling | MsgDailyBudgetBlock | MsgMonthlyBudgetBlock

record daily_agg =
  da_usd :: f64
  da_calls :: int64
  da_input :: int64
  da_read :: int64
  da_down :: bool
  da_80 :: bool
  da_100 :: bool
  da_cache :: bool
  da_hash :: string
  da_changes :: int64

definition new_agg :: daily_agg where
  "new_agg = \<lparr>da_usd = 0, da_calls = 0, da_input = 0, da_read = 0, da_down = False, da_80 = False,
     da_100 = False, da_cache = False, da_hash = '''', da_changes = 0\<rparr>"

type_synonym reservation_id = "64 word"

record reservation =
  rv_task :: string
  rv_tokens :: int64
  rv_usd :: f64
  rv_day :: string
  rv_month :: string

record governor =
  gv_limits :: limits
  gv_tokens :: "string \<Rightarrow> int64"
  gv_daily :: "string \<rightharpoonup> daily_agg"
  gv_monthly :: "string \<Rightarrow> f64"
  gv_next :: reservation_id
  gv_live :: "reservation_id \<rightharpoonup> reservation"
  gv_task_reserved :: "string \<Rightarrow> int64"
  gv_day_reserved :: "string \<Rightarrow> f64"
  gv_month_reserved :: "string \<Rightarrow> f64"

definition NewGovernor :: "limits \<Rightarrow> governor" where
  "NewGovernor li = \<lparr>gv_limits = li, gv_tokens = (\<lambda>_. 0), gv_daily = Map.empty, gv_monthly = (\<lambda>_. 0),
     gv_next = 0, gv_live = Map.empty, gv_task_reserved = (\<lambda>_. 0), gv_day_reserved = (\<lambda>_. 0),
     gv_month_reserved = (\<lambda>_. 0)\<rparr>"

section \<open>Recording a completed call\<close>

record call_record =
  cr_task :: string
  cr_model :: string
  cr_usage :: usage
  cr_usd :: f64
  cr_status :: string
  cr_duration :: int64

definition dayAgg :: "string \<Rightarrow> governor \<Rightarrow> daily_agg" where
  "dayAgg day g = (case gv_daily g day of None \<Rightarrow> new_agg | Some a \<Rightarrow> a)"

definition agg_call :: "call_record \<Rightarrow> daily_agg \<Rightarrow> daily_agg" where
  "agg_call r a = a\<lparr>da_usd := fadd (da_usd a) (cr_usd r), da_calls := da_calls a + 1,
     da_input := da_input a + us_input (cr_usage r), da_read := da_read a + us_cache_read (cr_usage r)\<rparr>"

definition recordLocked :: "int \<Rightarrow> call_record \<Rightarrow> governor \<Rightarrow> governor" where
  "recordLocked ts r g =
     g\<lparr>gv_tokens := (if cr_task r = '''' then gv_tokens g
         else (gv_tokens g)(cr_task r := gv_tokens g (cr_task r) + BillableCeilingTokens (cr_usage r))),
       gv_daily := (gv_daily g)(utc_day ts \<mapsto> agg_call r (dayAgg (utc_day ts) g)),
       gv_monthly := (gv_monthly g)(utc_month ts := fadd (gv_monthly g (utc_month ts)) (cr_usd r))\<rparr>"

definition Boot :: "(int \<times> call_record) list \<Rightarrow> limits \<Rightarrow> governor" where
  "Boot evs li = fold (\<lambda>(ts, r). recordLocked ts r) evs (NewGovernor li)"

section \<open>Reservations\<close>

definition reserveLocked :: "string \<Rightarrow> int64 \<Rightarrow> f64 \<Rightarrow> string \<Rightarrow> string \<Rightarrow> governor \<Rightarrow> reservation_id \<times> governor" where
  "reserveLocked task tokens usd day month g =
     (gv_next g + 1,
      g\<lparr>gv_next := gv_next g + 1,
        gv_live := (gv_live g)(gv_next g + 1 \<mapsto> \<lparr>rv_task = task, rv_tokens = tokens, rv_usd = usd,
          rv_day = day, rv_month = month\<rparr>),
        gv_task_reserved := (gv_task_reserved g)(task := gv_task_reserved g task + tokens),
        gv_day_reserved := (gv_day_reserved g)(day := fadd (gv_day_reserved g day) usd),
        gv_month_reserved := (gv_month_reserved g)(month := fadd (gv_month_reserved g month) usd)\<rparr>)"

definition releaseLocked :: "reservation_id \<Rightarrow> governor \<Rightarrow> governor" where
  "releaseLocked rid g =
     (if rid = 0 then g
      else case gv_live g rid of
        None \<Rightarrow> g
      | Some r \<Rightarrow> g\<lparr>gv_live := (gv_live g)(rid := None),
          gv_task_reserved := (gv_task_reserved g)(rv_task r := gv_task_reserved g (rv_task r) - rv_tokens r),
          gv_day_reserved := (gv_day_reserved g)(rv_day r := fsub (gv_day_reserved g (rv_day r)) (rv_usd r)),
          gv_month_reserved := (gv_month_reserved g)(rv_month r := fsub (gv_month_reserved g (rv_month r)) (rv_usd r))\<rparr>)"

definition ReleaseReservation :: "reservation_id \<Rightarrow> governor \<Rightarrow> governor" where
  "ReleaseReservation rid g = releaseLocked rid g"

section \<open>Admission\<close>

definition parseEstimateProbe :: "wire_env \<Rightarrow> string \<Rightarrow> int64 option" where
  "parseEstimateProbe v body = (if body = '''' then None else we_max_tokens v body)"

definition fallback_tokens :: "limits \<Rightarrow> int64" where
  "fallback_tokens li = (if sint (li_est li) \<le> 0 then defaultEstRequestTokens else li_est li)"

definition input_estimate :: "string \<Rightarrow> int64" where
  "input_estimate body = (let n = word_of_int (int (length body) div estRequestBytesPerToken) :: int64
     in if sint n \<le> 0 then 1 else n)"

definition output_estimate :: "limits \<Rightarrow> int64 \<Rightarrow> int64" where
  "output_estimate li n = (if sint n \<le> 0 then fallback_tokens li else n)"

definition estimateRequest :: "wire_env \<Rightarrow> limits \<Rightarrow> int \<Rightarrow> string \<Rightarrow> string \<Rightarrow> int64 \<times> f64" where
  "estimateRequest v li t model body = (case parseEstimateProbe v body of
     Some n \<Rightarrow> (input_estimate body + output_estimate li n,
       case PriceFor model t of
         None \<Rightarrow> 0
       | Some row \<Rightarrow> fadd (per_mtok (input_estimate body) (pr_cache_write row))
                        (per_mtok (output_estimate li n) (pr_out row)))
   | None \<Rightarrow> (fallback_tokens li,
       case PriceFor model t of None \<Rightarrow> 0 | Some row \<Rightarrow> per_mtok (fallback_tokens li) (pr_out row)))"

datatype check_result = Blocked budget_message | Admitted reservation_id

definition CheckBeforeForward :: "wire_env \<Rightarrow> int \<Rightarrow> string \<Rightarrow> string \<Rightarrow> string \<Rightarrow> governor \<Rightarrow> check_result \<times> governor" where
  "CheckBeforeForward v t task model body g =
     (let li = gv_limits g; est = estimateRequest v li t model body; day = utc_day t; month = utc_month t in
      if 0 < sint (li_ceiling li)
         \<and> sint (li_ceiling li) < sint (gv_tokens g task + gv_task_reserved g task + fst est)
      then (Blocked MsgTaskCeiling, g)
      else if 0 < li_daily li
         \<and> li_daily li < fadd (fadd (da_usd (dayAgg day g)) (gv_day_reserved g day)) (snd est)
      then (Blocked MsgDailyBudgetBlock, g)
      else if 0 < li_monthly li
         \<and> li_monthly li < fadd (fadd (gv_monthly g month) (gv_month_reserved g month)) (snd est)
      then (Blocked MsgMonthlyBudgetBlock, g)
      else case reserveLocked task (fst est) (snd est) day month g of (rid, g') \<Rightarrow> (Admitted rid, g'))"

section \<open>Routing\<close>

definition DowngradeModel :: "string \<Rightarrow> string \<times> bool" where
  "DowngradeModel m = (if m = ''claude-opus-4-8'' then (''claude-sonnet-5'', True) else (m, False))"

definition Downgraded :: "int \<Rightarrow> governor \<Rightarrow> bool" where
  "Downgraded t g =
     (if li_daily (gv_limits g) \<le> 0 then False
      else case gv_daily g (utc_day t) of
        None \<Rightarrow> False
      | Some a \<Rightarrow> fmul (li_daily (gv_limits g)) (li_ratio (gv_limits g)) \<le> da_usd a)"

section \<open>Usage\<close>

datatype gov_event =
    ModelCall call_record
  | CacheBusterSuspect string string
  | BudgetDowngradeOn string
  | SpendAlarm80 f64 f64
  | SpendAlarm100 f64 f64
  | CacheHitAlarm

text \<open>The cache-buster detector: a hash that differs from the one of the call before it.\<close>

definition agg_hash :: "string \<Rightarrow> daily_agg \<Rightarrow> bool \<times> daily_agg" where
  "agg_hash h a =
     (if h = '''' then (False, a)
      else if da_hash a \<noteq> '''' \<and> da_hash a \<noteq> h
      then (maxSystemHashChangesPerDay < sint (da_changes a + 1), a\<lparr>da_changes := da_changes a + 1, da_hash := h\<rparr>)
      else (False, a\<lparr>da_hash := h\<rparr>))"

definition crosses :: "limits \<Rightarrow> f64 \<Rightarrow> daily_agg \<Rightarrow> bool" where
  "crosses li ratio a \<longleftrightarrow> 0 < li_daily li \<and> fmul (li_daily li) ratio \<le> da_usd a"

definition low_hit_ratio :: "limits \<Rightarrow> daily_agg \<Rightarrow> bool" where
  "low_hit_ratio li a \<longleftrightarrow> minCallsForCacheHitAlarm \<le> sint (da_calls a)
     \<and> fdiv (float_of (da_read a)) (float_of (cache_denominator (da_input a + da_read a))) < li_cache li"

definition agg_alarms :: "limits \<Rightarrow> string \<Rightarrow> daily_agg \<Rightarrow> gov_event list \<times> daily_agg" where
  "agg_alarms li day a =
     (let down = (crosses li (li_ratio li) a \<and> \<not> da_down a);
          a80 = (crosses li spendAlarmRatio80 a \<and> \<not> da_80 a);
          a100 = (crosses li spendAlarmRatio100 a \<and> \<not> da_100 a);
          low = (low_hit_ratio li a \<and> \<not> da_cache a)
      in ((if down then [BudgetDowngradeOn day] else [])
            @ (if a80 then [SpendAlarm80 (da_usd a) (li_daily li)] else [])
            @ (if a100 then [SpendAlarm100 (da_usd a) (li_daily li)] else [])
            @ (if low then [CacheHitAlarm] else []),
          a\<lparr>da_down := da_down a \<or> down, da_80 := da_80 a \<or> a80, da_100 := da_100 a \<or> a100,
            da_cache := da_cache a \<or> low\<rparr>))"

definition RecordUsage :: "int \<Rightarrow> reservation_id \<Rightarrow> call_record \<Rightarrow> string \<Rightarrow> governor \<Rightarrow> gov_event list \<times> governor" where
  "RecordUsage t rid r h g =
     (let g1 = recordLocked t r (releaseLocked rid g); day = utc_day t in
      case agg_hash h (dayAgg day g1) of (suspect, a1) \<Rightarrow>
      (case agg_alarms (gv_limits g) day a1 of (evs, a2) \<Rightarrow>
        (ModelCall r # (if suspect then [CacheBusterSuspect (cr_task r) h] else []) @ evs,
         g1\<lparr>gv_daily := (gv_daily g1)(day \<mapsto> a2)\<rparr>)))"

text \<open>
  Where an event goes: alarms to the notifier when one is wired, which ledgers them itself, and
  everything else to the ledger; without a ledger the event is dropped.
\<close>

fun is_alarm :: "gov_event \<Rightarrow> bool" where
  "is_alarm (SpendAlarm80 _ _) = True"
| "is_alarm (SpendAlarm100 _ _) = True"
| "is_alarm CacheHitAlarm = True"
| "is_alarm _ = False"

datatype gov_output = Ledgered gov_event | AlarmSent gov_event

definition deliver :: "bool \<Rightarrow> bool \<Rightarrow> gov_event \<Rightarrow> gov_output list" where
  "deliver notifier ledger e =
     (if is_alarm e \<and> notifier then [AlarmSent e] else if ledger then [Ledgered e] else [])"

end
