(* ===== verification/Cloud_Proxy.thy ===== *)
theory Cloud_Proxy
  imports Cloud_Governor Sha256 Egress
begin

text \<open>
  \<open>kahyad/internal/anthproxy\<close>: the retry transport (\<open>retry.go\<close>) and the forward proxy of one task
  (\<open>proxy.go\<close>), from the check of the local token to the release of the reservation.

  The upstream is a function from the number of an attempt to its outcome; a response is the list
  of what the successive reads of its body return.  The client accepts every write, or the first
  few.  The governor is shared: what other requests do to it between this one's admission and its
  recording, and between that and the release, is the pair \<open>px_meanwhile\<close>.  The effects of a
  request, in order, are \<open>cs_out\<close>; the egress gate runs on the daemon's database.  What
  \<open>httputil.ReverseProxy\<close> itself does to headers that carry no credential is not modelled.
\<close>

section \<open>Attempts\<close>

record response =
  rs_status :: int
  rs_retry_after :: string
  rs_content_type :: string
  rs_reads :: "string list"
  rs_last :: string
  rs_eof :: bool

datatype attempt = Answered response | Unanswered transport_error

text \<open>The outcome of \<open>RoundTrip\<close>, and what it leaves in the request's \<open>reqData\<close>.\<close>

datatype trip = TripResponse response | TripNonRetryable | TripExhausted

record req_data =
  rd_attempts :: nat
  rd_reason :: string
  rd_exhausted :: bool

record transport =
  tr_max :: int
  tr_base :: int64
  tr_factor :: f64
  tr_jitter :: f64
  tr_rand :: "nat \<Rightarrow> f64"
  tr_now :: "nat \<Rightarrow> int"
  tr_upstream :: "nat \<Rightarrow> attempt"

datatype trip_event = Attempted nat int string | Slept int64

definition defaultMaxInlineRetries :: nat where "defaultMaxInlineRetries = 3"

definition max_inline :: "int \<Rightarrow> nat" where
  "max_inline n = (if n \<le> 0 then defaultMaxInlineRetries else nat n)"

definition sleepBeforeRetry :: "wire_env \<Rightarrow> transport \<Rightarrow> nat \<Rightarrow> response option \<Rightarrow> trip_event" where
  "sleepBeforeRetry v tr n resp =
     (let asked = (case resp of None \<Rightarrow> 0
          | Some r \<Rightarrow> (case ParseRetryAfter v (tr_now tr n) (rs_retry_after r) of None \<Rightarrow> 0 | Some d \<Rightarrow> d))
      in Slept (if sint asked \<le> 0
         then backoff_Delay \<lparr>bo_base = tr_base tr, bo_factor = tr_factor tr, bo_jitter = tr_jitter tr, bo_rand = tr_rand tr n\<rparr> n
         else asked))"

definition attempt_status :: "attempt \<Rightarrow> int" where
  "attempt_status a = (case a of Answered r \<Rightarrow> rs_status r | Unanswered e \<Rightarrow> 0)"

definition attempt_error :: "attempt \<Rightarrow> transport_error option" where
  "attempt_error a = (case a of Answered r \<Rightarrow> None | Unanswered e \<Rightarrow> Some e)"

definition attempted :: "nat \<Rightarrow> attempt \<Rightarrow> trip_event" where
  "attempted n a = Attempted n (attempt_status a) (case a of Answered r \<Rightarrow> '''' | Unanswered e \<Rightarrow> te_text e)"

text \<open>The verdict on one attempt: \<open>Some\<close> ends the loop.\<close>

definition settle_attempt :: "nat \<Rightarrow> attempt \<Rightarrow> (trip \<times> req_data) option" where
  "settle_attempt n a = (case a of
     Answered r \<Rightarrow>
       if rs_status r < 400 then Some (TripResponse r, \<lparr>rd_attempts = n, rd_reason = '''', rd_exhausted = False\<rparr>)
       else if Classify (rs_status r) None = NonRetryable
       then Some (TripResponse r, \<lparr>rd_attempts = n, rd_reason = ReasonForStatus (rs_status r), rd_exhausted = False\<rparr>)
       else None
   | Unanswered e \<Rightarrow>
       if Classify 0 (Some e) = NonRetryable
       then Some (TripNonRetryable, \<lparr>rd_attempts = n, rd_reason = ''transport_error'', rd_exhausted = False\<rparr>)
       else None)"

text \<open>\<open>retry_loop v tr k n\<close>: \<open>k\<close> attempts are left, the next one has number \<open>n\<close>.\<close>

fun retry_loop :: "wire_env \<Rightarrow> transport \<Rightarrow> nat \<Rightarrow> nat \<Rightarrow> trip \<times> req_data \<times> trip_event list" where
  "retry_loop v tr 0 n = (TripExhausted, \<lparr>rd_attempts = n - 1, rd_reason = '''', rd_exhausted = True\<rparr>, [])"
| "retry_loop v tr (Suc k) n =
     (let a = tr_upstream tr n in
      case settle_attempt n a of
        Some (t, d) \<Rightarrow> (t, d, [attempted n a])
      | None \<Rightarrow> (case retry_loop v tr k (Suc n) of (t, d, evs) \<Rightarrow>
          (t, d, attempted n a
            # (if k = 0 then [] else [sleepBeforeRetry v tr n (case a of Answered r \<Rightarrow> Some r | Unanswered e \<Rightarrow> None)])
            @ evs)))"

definition RoundTrip :: "wire_env \<Rightarrow> transport \<Rightarrow> trip \<times> req_data \<times> trip_event list" where
  "RoundTrip v tr = retry_loop v tr (max_inline (tr_max tr)) 1"

section \<open>Bodies\<close>

text \<open>
  The copy loop of the reverse proxy over the reads before the last one: every non-empty read is
  written on to the client, and a failed write stops the copying (\<open>False\<close>).
\<close>

fun relay_reads :: "nat option \<Rightarrow> string list \<Rightarrow> string list \<times> bool" where
  "relay_reads cl [] = ([], True)"
| "relay_reads cl (c # cs) =
     (if c = '''' then relay_reads cl cs
      else case cl of
        Some 0 \<Rightarrow> ([], False)
      | Some (Suc n) \<Rightarrow> (case relay_reads (Some n) cs of (out, done) \<Rightarrow> (c # out, done))
      | None \<Rightarrow> (case relay_reads None cs of (out, done) \<Rightarrow> (c # out, done)))"

definition feedSSE :: "wire_env \<Rightarrow> string \<Rightarrow> usage \<times> string \<Rightarrow> usage \<times> string" where
  "feedSSE v chunk st =
     (let ls = split_on (CHR 0x0A) (snd st @ chunk) in (fold (Feed v) (butlast ls) (fst st), last ls))"

definition observed_usage :: "wire_env \<Rightarrow> response \<Rightarrow> usage" where
  "observed_usage v r =
     (if contains_text (rs_content_type r) ''text/event-stream''
      then fst (fold (feedSSE v) (rs_reads r @ [rs_last r]) (no_usage, ''''))
      else case ParseNonStreamUsage v (concat (rs_reads r) @ rs_last r) of None \<Rightarrow> no_usage | Some u \<Rightarrow> u)"

section \<open>The proxy of one task\<close>

type_synonym headers = "string \<rightharpoonup> string list"

definition header_get :: "headers \<Rightarrow> string \<Rightarrow> string" where
  "header_get h k = (case h k of Some (x # xs) \<Rightarrow> x | _ \<Rightarrow> '''')"

record cloud_request =
  cq_headers :: headers
  cq_length :: int64
  cq_body :: "string option"     \<comment> \<open>\<open>None\<close>: the body cannot be read\<close>

record proxy_cfg =
  pc_task :: string
  pc_trace :: string
  pc_token :: string
  pc_upstream :: string
  pc_mode :: string
  pc_env :: string
  pc_credential :: bool
  pc_governor :: bool
  pc_notifier :: bool
  pc_ledger :: bool
  pc_pause :: bool
  pc_on_unreachable :: bool
  pc_on_nonretryable :: bool
  pc_gate :: "(int64 \<Rightarrow> (store, hook_error option) state) option"

text \<open>What a request meets: the wire, the upstream, the client, the clock and the keychain.\<close>

record proxy_world =
  px_wire :: wire_env
  px_transport :: transport
  px_client :: "nat option"
  px_check_at :: int
  px_done_at :: int
  px_duration :: int64
  px_override :: string
  px_keychain :: "string option"
  px_meanwhile :: "(governor \<Rightarrow> governor) \<times> (governor \<Rightarrow> governor)"

datatype reply_message =
    MsgBadToken | MsgGate hook_error | MsgUnreadableBody | MsgBudget budget_message
  | MsgKeychainUnavailable | MsgCloudUnreachableMarker | MsgUpstreamFailed

datatype cloud_effect =
    LedgerAuthReject
  | LedgerShaped
  | LedgerPaused budget_message
  | LedgerKeychain
  | LedgerUnreachable nat
  | PauseTask
  | AlarmPaused budget_message
  | NotifyKeychain
  | OverrideIgnored
  | SentUpstream headers string
  | Traced trip_event
  | RelayedHead int
  | Relayed string
  | Governed gov_output
  | CloudUnreachable
  | NonRetryableFailure string
  | Replied int string reply_message

record cloud_state =
  cs_gov :: governor
  cs_store :: store
  cs_warned :: bool
  cs_count :: int64
  cs_out :: "cloud_effect list"

definition emit :: "cloud_effect list \<Rightarrow> cloud_state \<Rightarrow> cloud_state" where
  "emit es s = s\<lparr>cs_out := cs_out s @ es\<rparr>"

definition on_gov :: "(governor \<Rightarrow> governor) \<Rightarrow> cloud_state \<Rightarrow> cloud_state" where
  "on_gov f s = s\<lparr>cs_gov := f (cs_gov s)\<rparr>"

text \<open>\<open>New\<close>: a proxy needs a token, an upstream, a governor and, for the keychain, a credential source.\<close>

definition New_proxy :: "proxy_cfg \<Rightarrow> proxy_cfg option" where
  "New_proxy c =
     (if trim_space (pc_token c) = '''' then None
      else if trim_space (pc_upstream c) = '''' then None
      else if \<not> pc_governor c then None
      else let c' = (if pc_mode c = '''' then c\<lparr>pc_mode := ''passthrough''\<rparr> else c) in
        if pc_mode c' = ''keychain'' \<and> \<not> pc_credential c' then None else Some c')"

definition checkLocalAuth :: "proxy_cfg \<Rightarrow> headers \<Rightarrow> bool" where
  "checkLocalAuth c h =
     (if header_get h ''X-Api-Key'' \<noteq> '''' then header_get h ''X-Api-Key'' = pc_token c
      else if header_get h ''Authorization'' \<noteq> ''''
      then header_get h ''Authorization'' \<in> {pc_token c, ''Bearer '' @ pc_token c}
      else False)"

definition stripTokenHeader :: "string \<Rightarrow> headers \<Rightarrow> headers" where
  "stripTokenHeader token h =
     (let h1 = (if header_get h ''X-Api-Key'' = token then h(''X-Api-Key'' := None) else h) in
      if header_get h1 ''Authorization'' \<in> {token, ''Bearer '' @ token} then h1(''Authorization'' := None) else h1)"

definition director_headers :: "proxy_cfg \<Rightarrow> (string \<times> string) option \<Rightarrow> headers \<Rightarrow> headers" where
  "director_headers c cred h =
     (if pc_mode c = ''keychain'' then
        (let h1 = h(''X-Api-Key'' := None, ''Authorization'' := None) in
         case cred of None \<Rightarrow> h1 | Some (k, x) \<Rightarrow> if k = '''' then h1 else h1(k \<mapsto> [x]))
      else stripTokenHeader (pc_token c) h)"

text \<open>\<open>keychainSource.UpstreamAuth\<close>; the header \<open>x-api-key\<close> is stored under its canonical name.\<close>

definition UpstreamAuth :: "proxy_cfg \<Rightarrow> proxy_world \<Rightarrow> (string \<times> string) option \<times> cloud_effect list" where
  "UpstreamAuth c w =
     (if px_override w \<noteq> '''' \<and> pc_env c = ''dev'' then (Some (''X-Api-Key'', px_override w), [])
      else (map_option (\<lambda>k. (''X-Api-Key'', k)) (px_keychain w),
            if px_override w \<noteq> '''' then [OverrideIgnored] else []))"

definition onBudgetBlocked :: "proxy_cfg \<Rightarrow> budget_message \<Rightarrow> cloud_state \<Rightarrow> cloud_state" where
  "onBudgetBlocked c m = emit
     ((if pc_pause c then [PauseTask] else []) @ (if pc_ledger c then [LedgerPaused m] else [])
        @ (if pc_notifier c then [AlarmPaused m] else []))"

definition onKeychainUnavailable :: "proxy_cfg \<Rightarrow> cloud_state \<Rightarrow> cloud_state" where
  "onKeychainUnavailable c s =
     (if cs_warned s then s
      else emit (if pc_notifier c then [NotifyKeychain] else if pc_ledger c then [LedgerKeychain] else [])
             (s\<lparr>cs_warned := True\<rparr>))"

definition probeRequest :: "wire_env \<Rightarrow> string \<Rightarrow> string \<times> string" where
  "probeRequest v body = (case we_probe v body of
     None \<Rightarrow> ('''', '''')
   | Some (model, sys) \<Rightarrow>
       if sys = '''' then (model, '''')
       else (model, sha256_hex (case we_blocks v sys of Some (b # bs) \<Rightarrow> b | _ \<Rightarrow> sys)))"

definition proxyRequestMaxBytes :: nat where "proxyRequestMaxBytes = 16777216"

definition readAndRestoreBody :: "cloud_request \<Rightarrow> string option" where
  "readAndRestoreBody rq = (case cq_body rq of
     None \<Rightarrow> None
   | Some b \<Rightarrow> if proxyRequestMaxBytes < length b then None else Some b)"

text \<open>What \<open>wrapResponseBody\<close> does when the last read of the body has returned.\<close>

definition call_status_text :: "response \<Rightarrow> string" where
  "call_status_text r = (if 400 \<le> rs_status r then ''error'' else if rs_eof r then ''ok'' else ''error'')"

definition completed_call :: "proxy_cfg \<Rightarrow> proxy_world \<Rightarrow> string \<Rightarrow> response \<Rightarrow> call_record" where
  "completed_call c w model r =
     (let u = observed_usage (px_wire w) r in
      \<lparr>cr_task = pc_task c, cr_model = model, cr_usage = u,
       cr_usd = (case PriceFor model (px_done_at w) of None \<Rightarrow> 0 | Some row \<Rightarrow> CostUSD u row),
       cr_status = call_status_text r, cr_duration = px_duration w\<rparr>)"

definition body_done :: "proxy_cfg \<Rightarrow> proxy_world \<Rightarrow> string \<Rightarrow> string \<Rightarrow> reservation_id \<Rightarrow> req_data \<Rightarrow> response
    \<Rightarrow> cloud_state \<Rightarrow> cloud_state" where
  "body_done c w model hash rid d r s =
     (case RecordUsage (px_done_at w) rid (completed_call c w model r) hash (cs_gov s) of (evs, g) \<Rightarrow>
        emit (map Governed (concat (map (deliver (pc_notifier c) (pc_ledger c)) evs))
              @ (if rd_reason d \<noteq> '''' \<and> pc_on_nonretryable c then [NonRetryableFailure (rd_reason d)] else []))
          (s\<lparr>cs_gov := g\<rparr>))"

definition relay_response :: "proxy_cfg \<Rightarrow> proxy_world \<Rightarrow> string \<Rightarrow> string \<Rightarrow> reservation_id \<Rightarrow> req_data \<Rightarrow> response
    \<Rightarrow> cloud_state \<Rightarrow> cloud_state" where
  "relay_response c w model hash rid d r s =
     (case relay_reads (px_client w) (rs_reads r) of (out, finished) \<Rightarrow>
        (let s1 = emit (RelayedHead (rs_status r) # map Relayed out) s in
         if finished then body_done c w model hash rid d r s1 else s1))"

definition onCloudUnreachable :: "proxy_cfg \<Rightarrow> req_data \<Rightarrow> cloud_state \<Rightarrow> cloud_state" where
  "onCloudUnreachable c d = emit
     ((if pc_ledger c then [LedgerUnreachable (rd_attempts d)] else [])
        @ (if pc_on_unreachable c then [CloudUnreachable] else []))"

definition onNonRetryableTransport :: "proxy_cfg \<Rightarrow> req_data \<Rightarrow> cloud_state \<Rightarrow> cloud_state" where
  "onNonRetryableTransport c d = emit
     (if pc_on_nonretryable c
      then [NonRetryableFailure (if rd_reason d = '''' then ''transport_error'' else rd_reason d)] else [])"

text \<open>Every attempt sends the same headers and the same buffered body.\<close>

fun sent_step :: "headers \<Rightarrow> string \<Rightarrow> trip_event \<Rightarrow> cloud_effect list" where
  "sent_step h body (Attempted n st x) = [SentUpstream h body, Traced (Attempted n st x)]"
| "sent_step h body (Slept d) = [Traced (Slept d)]"

text \<open>The reverse proxy: the transport, then the response or the error handler.\<close>

definition forward_request :: "proxy_cfg \<Rightarrow> proxy_world \<Rightarrow> headers \<Rightarrow> string \<Rightarrow> string \<Rightarrow> string \<Rightarrow> reservation_id
    \<Rightarrow> cloud_state \<Rightarrow> cloud_state" where
  "forward_request c w h body model hash rid s =
     (case RoundTrip (px_wire w) (px_transport w) of (t, d, evs) \<Rightarrow>
        (let s1 = on_gov (fst (px_meanwhile w))
           (emit (concat (map (sent_step h body) evs)) s) in
         case t of
           TripResponse r \<Rightarrow> relay_response c w model hash rid d r s1
         | TripExhausted \<Rightarrow> emit [Replied 503 ''api_error'' MsgCloudUnreachableMarker] (onCloudUnreachable c d s1)
         | TripNonRetryable \<Rightarrow> emit [Replied 502 ''api_error'' MsgUpstreamFailed] (onNonRetryableTransport c d s1)))"

text \<open>The part of \<open>ServeHTTP\<close> after the reservation, up to the deferred release.\<close>

definition serve_reserved :: "proxy_cfg \<Rightarrow> proxy_world \<Rightarrow> headers \<Rightarrow> string \<Rightarrow> string \<Rightarrow> string \<Rightarrow> reservation_id
    \<Rightarrow> cloud_state \<Rightarrow> cloud_state" where
  "serve_reserved c w h body model hash rid s =
     (if pc_mode c = ''keychain'' then
        (case UpstreamAuth c w of (cred, warn) \<Rightarrow>
          (case cred of
             None \<Rightarrow> emit [Replied 503 ''api_error'' MsgKeychainUnavailable] (onKeychainUnavailable c (emit warn s))
           | Some kv \<Rightarrow> forward_request c w (director_headers c (Some kv) h) body model hash rid (emit warn s)))
      else forward_request c w (director_headers c None h) body model hash rid s)"

definition serve_body :: "proxy_cfg \<Rightarrow> proxy_world \<Rightarrow> headers \<Rightarrow> string \<Rightarrow> cloud_state \<Rightarrow> cloud_state" where
  "serve_body c w h raw s =
     (case shapeFable5Body (px_wire w) raw of (body, shaped) \<Rightarrow>
      (case probeRequest (px_wire w) body of (model, hash) \<Rightarrow>
        (let s1 = (if shaped \<and> pc_ledger c then emit [LedgerShaped] s else s) in
         case CheckBeforeForward (px_wire w) (px_check_at w) (pc_task c) model body (cs_gov s1) of
           (Blocked m, g) \<Rightarrow> emit [Replied 503 ''api_error'' (MsgBudget m)] (onBudgetBlocked c m (s1\<lparr>cs_gov := g\<rparr>))
         | (Admitted rid, g) \<Rightarrow>
             on_gov (ReleaseReservation rid)
               (on_gov (snd (px_meanwhile w)) (serve_reserved c w h body model hash rid (s1\<lparr>cs_gov := g\<rparr>))))))"

definition serve_gated :: "proxy_cfg \<Rightarrow> proxy_world \<Rightarrow> cloud_request \<Rightarrow> cloud_state \<Rightarrow> cloud_state" where
  "serve_gated c w rq s = (case readAndRestoreBody rq of
     None \<Rightarrow> emit [Replied 400 ''invalid_request_error'' MsgUnreadableBody] s
   | Some raw \<Rightarrow> serve_body c w (cq_headers rq) raw s)"

definition cloud_ServeHTTP :: "proxy_cfg \<Rightarrow> proxy_world \<Rightarrow> cloud_request \<Rightarrow> cloud_state \<Rightarrow> cloud_state" where
  "cloud_ServeHTTP c w rq s0 =
     (let s = s0\<lparr>cs_count := cs_count s0 + 1\<rparr> in
      if \<not> checkLocalAuth c (cq_headers rq) then
        emit ((if pc_ledger c then [LedgerAuthReject] else []) @ [Replied 401 ''authentication_error'' MsgBadToken]) s
      else case pc_gate c of
        None \<Rightarrow> serve_gated c w rq s
      | Some gate \<Rightarrow> (case run_state (gate (cq_length rq)) (cs_store s) of (verdict, db') \<Rightarrow>
          (let s1 = s\<lparr>cs_store := db'\<rparr> in
           case verdict of
             Some e \<Rightarrow> emit [Replied 403 ''permission_error'' (MsgGate e)] s1
           | None \<Rightarrow> serve_gated c w rq s1)))"

end
