(* ===== verification/Cloud_Governor_Laws.thy ===== *)
theory Cloud_Governor_Laws
  imports Cloud_Governor
begin

text \<open>
  Runs of the governor and what holds along them: the reserved tokens of a task are the sum of its
  live reservations, a task whose calls stay within their estimates never passes its ceiling, each
  alarm fires once a day, and the totals are those a restart rebuilds from the recorded calls.
\<close>

section \<open>Runs\<close>

datatype gov_op =
    OpCheck int string string string
  | OpRelease reservation_id
  | OpRecord int reservation_id call_record string

text \<open>What a step did: the estimate and the answer of a check, and for a recorded call its time, the
  reservation it gave back, and the events.\<close>

datatype gov_label =
    Checked int64 check_result
  | Released
  | Recorded int "reservation option" call_record "gov_event list"

fun gov_apply :: "wire_env \<Rightarrow> gov_op \<Rightarrow> governor \<Rightarrow> gov_label \<times> governor" where
  "gov_apply v (OpCheck t task model body) g =
     (Checked (fst (estimateRequest v (gv_limits g) t model body)) (fst (CheckBeforeForward v t task model body g)),
      snd (CheckBeforeForward v t task model body g))"
| "gov_apply v (OpRelease rid) g = (Released, ReleaseReservation rid g)"
| "gov_apply v (OpRecord t rid r h) g =
     (Recorded t (if rid = 0 then None else gv_live g rid) r (fst (RecordUsage t rid r h g)),
      snd (RecordUsage t rid r h g))"

fun gov_exec :: "wire_env \<Rightarrow> gov_op list \<Rightarrow> governor \<Rightarrow> gov_label list \<times> governor" where
  "gov_exec v [] g = ([], g)"
| "gov_exec v (x # xs) g =
     (fst (gov_apply v x g) # fst (gov_exec v xs (snd (gov_apply v x g))),
      snd (gov_exec v xs (snd (gov_apply v x g))))"

text \<open>
  One induction for all invariants of runs: \<open>P\<close> is an invariant of the steps, given the bound on the
  counter of reservations.
\<close>

lemma release_frame:
  "gv_next (releaseLocked rid g) = gv_next g" "gv_limits (releaseLocked rid g) = gv_limits g"
  "gv_tokens (releaseLocked rid g) = gv_tokens g" "gv_daily (releaseLocked rid g) = gv_daily g"
  "gv_monthly (releaseLocked rid g) = gv_monthly g"
  by (simp_all add: releaseLocked_def split: option.splits)

lemma record_frame:
  "gv_next (snd (RecordUsage t rid r h g)) = gv_next g"
  "gv_limits (snd (RecordUsage t rid r h g)) = gv_limits g"
  "gv_live (snd (RecordUsage t rid r h g)) = gv_live (releaseLocked rid g)"
  "gv_task_reserved (snd (RecordUsage t rid r h g)) = gv_task_reserved (releaseLocked rid g)"
  "gv_tokens (snd (RecordUsage t rid r h g)) = gv_tokens (recordLocked t r g)"
  "gv_monthly (snd (RecordUsage t rid r h g)) = gv_monthly (recordLocked t r g)"
  by (simp_all add: RecordUsage_def Let_def recordLocked_def release_frame split: prod.splits)

lemma reserve_parts:
  assumes "reserveLocked task tokens usd day month g = (rid, g')"
  shows "rid = gv_next g + 1" and "gv_next g' = gv_next g + 1"
    and "gv_live g' = (gv_live g)(rid \<mapsto> \<lparr>rv_task = task, rv_tokens = tokens, rv_usd = usd, rv_day = day, rv_month = month\<rparr>)"
    and "gv_task_reserved g' = (gv_task_reserved g)(task := gv_task_reserved g task + tokens)"
    and "gv_tokens g' = gv_tokens g" and "gv_limits g' = gv_limits g"
    and "gv_daily g' = gv_daily g" and "gv_monthly g' = gv_monthly g"
  using assms by (auto simp: reserveLocked_def)

text \<open>A check refuses and changes nothing, or reserves its estimate.\<close>

lemma check_cases:
  obtains (blocked) m where "CheckBeforeForward v t task model body g = (Blocked m, g)"
  | (admitted) rid g' where "CheckBeforeForward v t task model body g = (Admitted rid, g')"
      and "reserveLocked task (fst (estimateRequest v (gv_limits g) t model body))
            (snd (estimateRequest v (gv_limits g) t model body)) (utc_day t) (utc_month t) g = (rid, g')"
      and "0 < sint (li_ceiling (gv_limits g)) \<Longrightarrow>
        sint (gv_tokens g task + gv_task_reserved g task + fst (estimateRequest v (gv_limits g) t model body))
          \<le> sint (li_ceiling (gv_limits g))"
proof -
  let ?res = "reserveLocked task (fst (estimateRequest v (gv_limits g) t model body))
            (snd (estimateRequest v (gv_limits g) t model body)) (utc_day t) (utc_month t) g"
  have "(\<exists>m. CheckBeforeForward v t task model body g = (Blocked m, g))
    \<or> CheckBeforeForward v t task model body g = (Admitted (fst ?res), snd ?res)
      \<and> (0 < sint (li_ceiling (gv_limits g)) \<longrightarrow>
        sint (gv_tokens g task + gv_task_reserved g task + fst (estimateRequest v (gv_limits g) t model body))
          \<le> sint (li_ceiling (gv_limits g)))"
    by (auto simp: CheckBeforeForward_def Let_def split_beta not_less)
  then show thesis using blocked admitted [of "fst ?res" "snd ?res"] by auto
qed

lemma check_frame:
  "gv_next (snd (CheckBeforeForward v t task model body g)) \<in> {gv_next g, gv_next g + 1}"
  "gv_limits (snd (CheckBeforeForward v t task model body g)) = gv_limits g"
  "gv_tokens (snd (CheckBeforeForward v t task model body g)) = gv_tokens g"
  "gv_daily (snd (CheckBeforeForward v t task model body g)) = gv_daily g"
  "gv_monthly (snd (CheckBeforeForward v t task model body g)) = gv_monthly g"
  by (rule check_cases [of v t task model body g]; simp add: reserve_parts)+

lemma gov_apply_limits: "gv_limits (snd (gov_apply v x g)) = gv_limits g"
  by (cases x) (simp_all add: ReleaseReservation_def release_frame record_frame check_frame)

lemma gov_exec_limits: "gv_limits (snd (gov_exec v xs g)) = gv_limits g"
  by (induction xs arbitrary: g) (simp_all add: gov_apply_limits)

lemma gov_apply_next: "unat (gv_next (snd (gov_apply v x g))) \<le> unat (gv_next g) + 1"
proof -
  have "unat (gv_next g + 1) \<le> unat (gv_next g) + 1"
    by (simp add: unat_word_ariths(1))
  moreover have "gv_next (snd (gov_apply v x g)) \<in> {gv_next g, gv_next g + 1}"
    using check_frame(1) by (cases x) (simp_all add: ReleaseReservation_def release_frame record_frame)
  ultimately show ?thesis by auto
qed

lemma gov_exec_invariant:
  assumes step: "\<And>x g. P g \<Longrightarrow> Q (fst (gov_apply v x g)) \<Longrightarrow> unat (gv_next g) + 1 < 2 ^ 64
    \<Longrightarrow> P (snd (gov_apply v x g))"
  shows "P g \<Longrightarrow> unat (gv_next g) + length xs < 2 ^ 64 \<Longrightarrow> list_all Q (fst (gov_exec v xs g))
    \<Longrightarrow> P (snd (gov_exec v xs g))"
proof (induction xs arbitrary: g)
  case Nil
  then show ?case by simp
next
  case (Cons x xs)
  then have "P (snd (gov_apply v x g))" by (intro step) simp_all
  moreover have "unat (gv_next (snd (gov_apply v x g))) + length xs < 2 ^ 64"
    using gov_apply_next [of v x g] Cons.prems(2) by simp
  ultimately show ?case using Cons by simp
qed

section \<open>Reservations and pools\<close>

definition claim_of :: "string \<Rightarrow> reservation \<Rightarrow> int64" where
  "claim_of task r = (if rv_task r = task then rv_tokens r else 0)"

definition live_sum :: "(reservation \<Rightarrow> 'n :: comm_monoid_add) \<Rightarrow> governor \<Rightarrow> 'n" where
  "live_sum f g = (\<Sum>i \<in> dom (gv_live g). f (the (gv_live g i)))"

definition ids_ok :: "governor \<Rightarrow> bool" where
  "ids_ok g \<longleftrightarrow> finite (dom (gv_live g)) \<and> (\<forall>i \<in> dom (gv_live g). i \<noteq> 0 \<and> i \<le> gv_next g)"

definition pools_ok :: "governor \<Rightarrow> bool" where
  "pools_ok g \<longleftrightarrow> ids_ok g \<and> (\<forall>task. gv_task_reserved g task = live_sum (claim_of task) g)"

lemma sum_map_upd:
  fixes f :: "'r \<Rightarrow> 'n :: comm_monoid_add"
  assumes "finite (dom m)" and "k \<notin> dom m"
  shows "(\<Sum>i \<in> dom (m(k \<mapsto> x)). f (the ((m(k \<mapsto> x)) i))) = f x + (\<Sum>i \<in> dom m. f (the (m i)))"
proof -
  have "(\<Sum>i \<in> dom m. f (the ((m(k \<mapsto> x)) i))) = (\<Sum>i \<in> dom m. f (the (m i)))"
    using assms(2) by (intro sum.cong) auto
  with assms show ?thesis by (simp add: sum.insert)
qed

lemma sum_map_del:
  fixes f :: "'r \<Rightarrow> 'n :: comm_monoid_add"
  assumes "finite (dom m)" and "m k = Some x"
  shows "(\<Sum>i \<in> dom m. f (the (m i))) = f x + (\<Sum>i \<in> dom (m(k := None)). f (the ((m(k := None)) i)))"
proof -
  have k: "k \<in> dom m" using assms(2) by auto
  have "(\<Sum>i \<in> dom m - {k}. f (the ((m(k := None)) i))) = (\<Sum>i \<in> dom m - {k}. f (the (m i)))"
    by (intro sum.cong) auto
  moreover have "dom (m(k := None)) = dom m - {k}" by auto
  ultimately show ?thesis using sum.remove [OF assms(1) k, of "\<lambda>i. f (the (m i))"] assms(2) by simp
qed

lemma next_is_fresh:
  assumes "ids_ok g" and "unat (gv_next g) + 1 < 2 ^ 64"
  shows "gv_next g + 1 \<notin> dom (gv_live g)" and "gv_next g + 1 \<noteq> 0" and "gv_next g \<le> gv_next g + 1"
proof -
  have "unat (gv_next g + 1) = unat (gv_next g) + 1"
    using assms(2) by (simp add: unat_word_ariths(1))
  then have lt: "gv_next g < gv_next g + 1" by (simp add: word_less_nat_alt)
  then have "\<not> gv_next g + 1 \<le> gv_next g" by simp
  with assms(1) show "gv_next g + 1 \<notin> dom (gv_live g)" unfolding ids_ok_def by blast
  from lt show "gv_next g + 1 \<noteq> 0" "gv_next g \<le> gv_next g + 1" by auto
qed

definition held :: "reservation_id \<Rightarrow> governor \<Rightarrow> reservation option" where
  "held rid g = (if rid = 0 then None else gv_live g rid)"

lemma release_none: "held rid g = None \<Longrightarrow> releaseLocked rid g = g"
  by (auto simp: held_def releaseLocked_def split: if_splits)

lemma release_some:
  assumes "held rid g = Some r"
  shows "gv_live (releaseLocked rid g) = (gv_live g)(rid := None)"
    and "gv_task_reserved (releaseLocked rid g) task = gv_task_reserved g task - claim_of task r"
    and "finite (dom (gv_live g)) \<Longrightarrow> live_sum f g = f r + live_sum f (releaseLocked rid g)"
proof -
  from assms have r: "rid \<noteq> 0" "gv_live g rid = Some r" by (auto simp: held_def split: if_splits)
  then show live: "gv_live (releaseLocked rid g) = (gv_live g)(rid := None)"
    by (simp add: releaseLocked_def)
  from r show "gv_task_reserved (releaseLocked rid g) task = gv_task_reserved g task - claim_of task r"
    by (simp add: releaseLocked_def claim_of_def)
  show "finite (dom (gv_live g)) \<Longrightarrow> live_sum f g = f r + live_sum f (releaseLocked rid g)"
    unfolding live_sum_def live by (rule sum_map_del) (use r in simp_all)
qed

lemma reserve_sum:
  assumes "reserveLocked task tokens usd day month g = (rid, g')"
    and "ids_ok g" and "unat (gv_next g) + 1 < 2 ^ 64"
  shows "live_sum f g' = f \<lparr>rv_task = task, rv_tokens = tokens, rv_usd = usd, rv_day = day, rv_month = month\<rparr>
    + live_sum f g"
  using assms(2) next_is_fresh [OF assms(2, 3)]
  unfolding live_sum_def reserve_parts [OF assms(1)] by (intro sum_map_upd) (auto simp: ids_ok_def)

lemma release_ids: "ids_ok g \<Longrightarrow> ids_ok (releaseLocked rid g)"
  by (cases "held rid g") (auto simp: release_none release_some(1) ids_ok_def release_frame)

lemma reserve_ids:
  assumes "reserveLocked task tokens usd day month g = (rid, g')"
    and "ids_ok g" and "unat (gv_next g) + 1 < 2 ^ 64"
  shows "ids_ok g'"
  using assms(2) next_is_fresh [OF assms(2, 3)] reserve_parts [OF assms(1)]
  by (auto simp: ids_ok_def intro: order_trans)

lemma release_pools: "pools_ok g \<Longrightarrow> pools_ok (releaseLocked rid g)"
proof (cases "held rid g")
  case (Some r)
  assume ok: "pools_ok g"
  then have "live_sum (claim_of task) g = claim_of task r + live_sum (claim_of task) (releaseLocked rid g)" for task
    by (intro release_some(3) [OF Some]) (simp add: pools_ok_def ids_ok_def)
  with ok show ?thesis
    by (simp add: pools_ok_def release_ids release_some(2) [OF Some])
qed (simp add: release_none)

lemma reserve_pools:
  assumes "reserveLocked task tokens usd day month g = (rid, g')"
    and "pools_ok g" and "unat (gv_next g) + 1 < 2 ^ 64"
  shows "pools_ok g'"
proof -
  have ids: "ids_ok g" using assms(2) by (simp add: pools_ok_def)
  have "live_sum (claim_of t') g' = (if task = t' then tokens else 0) + live_sum (claim_of t') g" for t'
    using reserve_sum [OF assms(1) ids assms(3), of "claim_of t'"] by (simp add: claim_of_def)
  with assms(2) reserve_ids [OF assms(1) ids assms(3)] show ?thesis
    by (simp add: pools_ok_def reserve_parts(4) [OF assms(1)])
qed

lemma gov_apply_pools:
  assumes "pools_ok g" and "unat (gv_next g) + 1 < 2 ^ 64"
  shows "pools_ok (snd (gov_apply v x g))"
proof (cases x)
  case (OpCheck t task model body)
  show ?thesis
    by (rule check_cases [of v t task model body g]) (use OpCheck assms reserve_pools in auto)
next
  case (OpRelease rid)
  with assms release_pools show ?thesis by (simp add: ReleaseReservation_def)
next
  case (OpRecord t rid r h)
  have "pools_ok (snd (RecordUsage t rid r h g)) \<longleftrightarrow> pools_ok (releaseLocked rid g)"
    by (simp add: pools_ok_def ids_ok_def live_sum_def record_frame release_frame)
  with OpRecord assms release_pools show ?thesis by simp
qed

lemma boot_fresh:
  "gv_live (Boot evs li) = Map.empty" "gv_next (Boot evs li) = 0"
  "gv_task_reserved (Boot evs li) = (\<lambda>_. 0)" "gv_limits (Boot evs li) = li"
proof -
  have "gv_live (fold (\<lambda>(ts, r). recordLocked ts r) evs g) = gv_live g
      \<and> gv_next (fold (\<lambda>(ts, r). recordLocked ts r) evs g) = gv_next g
      \<and> gv_task_reserved (fold (\<lambda>(ts, r). recordLocked ts r) evs g) = gv_task_reserved g
      \<and> gv_limits (fold (\<lambda>(ts, r). recordLocked ts r) evs g) = gv_limits g" for g
    by (induction evs arbitrary: g) (auto simp: recordLocked_def)
  then show "gv_live (Boot evs li) = Map.empty" "gv_next (Boot evs li) = 0"
    "gv_task_reserved (Boot evs li) = (\<lambda>_. 0)" "gv_limits (Boot evs li) = li"
    by (simp_all add: Boot_def NewGovernor_def)
qed

lemma boot_pools: "pools_ok (Boot evs li)"
  by (simp add: pools_ok_def ids_ok_def live_sum_def boot_fresh)

section \<open>The ceiling of a task\<close>

definition claim_int :: "string \<Rightarrow> reservation \<Rightarrow> int" where
  "claim_int task r = (if rv_task r = task then sint (rv_tokens r) else 0)"

text \<open>A call is honest when it spends no more than was reserved for it; a check when its estimate is in range.\<close>

fun honest :: "gov_label \<Rightarrow> bool" where
  "honest (Checked est r) \<longleftrightarrow> 0 \<le> sint est \<and> sint est < 2 ^ 62"
| "honest Released \<longleftrightarrow> True"
| "honest (Recorded t None r evs) \<longleftrightarrow> False"
| "honest (Recorded t (Some rv) r evs) \<longleftrightarrow> rv_task rv = cr_task r
     \<and> 0 \<le> sint (BillableCeilingTokens (cr_usage r)) \<and> sint (BillableCeilingTokens (cr_usage r)) \<le> sint (rv_tokens rv)"

definition cap_ok :: "int \<Rightarrow> governor \<Rightarrow> bool" where
  "cap_ok c g \<longleftrightarrow> ids_ok g \<and> (\<forall>i \<in> dom (gv_live g). 0 \<le> sint (rv_tokens (the (gv_live g i))))
     \<and> (\<forall>task. 0 \<le> sint (gv_tokens g task)
          \<and> sint (gv_task_reserved g task) = live_sum (claim_int task) g
          \<and> sint (gv_tokens g task) + live_sum (claim_int task) g \<le> c)"

lemma cap_okD:
  assumes "cap_ok c g"
  shows "ids_ok g" and "finite (dom (gv_live g))" and "0 \<le> sint (gv_tokens g task)"
    and "sint (gv_task_reserved g task) = live_sum (claim_int task) g"
    and "sint (gv_tokens g task) + live_sum (claim_int task) g \<le> c"
    and "gv_live g i = Some r \<Longrightarrow> 0 \<le> sint (rv_tokens r)"
    and "0 \<le> live_sum (claim_int task) g"
proof -
  show "ids_ok g" "finite (dom (gv_live g))" "0 \<le> sint (gv_tokens g task)"
    "sint (gv_task_reserved g task) = live_sum (claim_int task) g"
    "sint (gv_tokens g task) + live_sum (claim_int task) g \<le> c"
    using assms by (simp_all add: cap_ok_def ids_ok_def)
  show live: "0 \<le> sint (rv_tokens r)" if "gv_live g i = Some r" for i r
    using assms that unfolding cap_ok_def by (metis domI option.sel)
  show "0 \<le> live_sum (claim_int task) g"
    unfolding live_sum_def by (rule sum_nonneg) (auto simp: claim_int_def live)
qed

lemma release_cap:
  assumes ok: "cap_ok c g" and c: "c < 2 ^ 62"
  shows "cap_ok c (releaseLocked rid g)"
proof (cases "held rid g")
  case None
  with ok show ?thesis by (simp add: release_none)
next
  case (Some r)
  then have r: "gv_live g rid = Some r" by (simp add: held_def split: if_splits)
  let ?g = "releaseLocked rid g"
  have sums: "live_sum (claim_int task) g = claim_int task r + live_sum (claim_int task) ?g" for task
    by (rule release_some(3) [OF Some cap_okD(2) [OF ok]])
  have pos: "0 \<le> claim_int task r" for task
    using cap_okD(6) [OF ok r] by (simp add: claim_int_def)
  have live: "0 \<le> sint (rv_tokens (the (gv_live ?g i)))" if "i \<in> dom (gv_live ?g)" for i
    using that cap_okD(6) [OF ok] by (auto simp: release_some(1) [OF Some] split: if_splits)
  have nonneg: "0 \<le> live_sum (claim_int task) ?g" for task
    unfolding live_sum_def by (rule sum_nonneg) (simp add: claim_int_def live)
  have "sint (gv_task_reserved ?g task) = live_sum (claim_int task) ?g" for task
  proof (cases "rv_task r = task")
    case True
    have bound: "live_sum (claim_int task) g < 2 ^ 62"
      using cap_okD(3,5) [OF ok, of task] c by linarith
    have "sint (gv_task_reserved g task - rv_tokens r) = sint (gv_task_reserved g task) - sint (rv_tokens r)"
      using cap_okD(4) [OF ok, of task] sums [of task] nonneg [of task] pos [of task] bound True
      by (intro sint_sub_exact) (auto simp: claim_int_def)
    with True show ?thesis
      using release_some(2) [OF Some, of task] cap_okD(4) [OF ok, of task] sums [of task]
      by (simp add: claim_of_def claim_int_def)
  next
    case False
    then show ?thesis
      using release_some(2) [OF Some, of task] cap_okD(4) [OF ok, of task] sums [of task]
      by (simp add: claim_of_def claim_int_def)
  qed
  moreover have "sint (gv_tokens ?g task) + live_sum (claim_int task) ?g \<le> c" for task
    using cap_okD(5) [OF ok, of task] sums [of task] pos [of task] by (simp add: release_frame)
  ultimately show ?thesis
    using ok live release_ids [of g rid] by (simp add: cap_ok_def release_frame)
qed

lemma admit_cap:
  assumes ok: "cap_ok c g" and c: "c < 2 ^ 62" and n: "unat (gv_next g) + 1 < 2 ^ 64"
    and res: "reserveLocked task est usd day month g = (rid, g')"
    and est: "0 \<le> sint est" "sint est < 2 ^ 62"
    and fits: "sint (gv_tokens g task + gv_task_reserved g task + est) \<le> c"
  shows "cap_ok c g'"
proof -
  note parts = reserve_parts [OF res]
  have sums: "live_sum (claim_int t') g' = (if task = t' then sint est else 0) + live_sum (claim_int t') g" for t'
    using reserve_sum [OF res cap_okD(1) [OF ok] n, of "claim_int t'"] by (simp add: claim_int_def)
  have bound: "sint (gv_tokens g task) + sint (gv_task_reserved g task) \<le> c"
    "0 \<le> sint (gv_tokens g task)" "0 \<le> sint (gv_task_reserved g task)"
    using cap_okD(3-5,7) [OF ok, of task] by simp_all
  have word: "sint (gv_tokens g task + gv_task_reserved g task) = sint (gv_tokens g task) + sint (gv_task_reserved g task)"
    using bound c by (intro sint_add_exact) auto
  have total: "sint (gv_tokens g task + gv_task_reserved g task + est)
      = sint (gv_tokens g task) + sint (gv_task_reserved g task) + sint est"
    using bound c est word by (subst sint_add_exact) auto
  have "sint (gv_task_reserved g task + est) = sint (gv_task_reserved g task) + sint est"
    using bound c est by (intro sint_add_exact) auto
  then have reserved: "sint (gv_task_reserved g' t') = live_sum (claim_int t') g'" for t'
    using cap_okD(4) [OF ok, of t'] by (auto simp: parts(4) sums)
  have "sint (gv_tokens g' t') + live_sum (claim_int t') g' \<le> c" for t'
    using cap_okD(4,5) [OF ok, of t'] fits total by (auto simp: parts(5) sums)
  moreover have "0 \<le> sint (rv_tokens (the (gv_live g' i)))" if "i \<in> dom (gv_live g')" for i
    using that cap_okD(6) [OF ok] est by (auto simp: parts(3) split: if_splits)
  ultimately show ?thesis
    using reserved reserve_ids [OF res cap_okD(1) [OF ok] n] cap_okD(3) [OF ok]
    by (simp add: cap_ok_def parts(5))
qed

lemma record_cap:
  assumes ok: "cap_ok c g" and c: "c < 2 ^ 62" and held: "held rid g = Some rv"
    and task: "rv_task rv = cr_task r"
    and spent: "0 \<le> sint (BillableCeilingTokens (cr_usage r))"
      "sint (BillableCeilingTokens (cr_usage r)) \<le> sint (rv_tokens rv)"
  shows "cap_ok c (snd (RecordUsage t rid r h g))"
proof -
  let ?g = "releaseLocked rid g" and ?n = "BillableCeilingTokens (cr_usage r)"
  have ok1: "cap_ok c ?g" by (rule release_cap [OF ok c])
  have room: "sint (gv_tokens g (cr_task r)) + sint ?n + live_sum (claim_int (cr_task r)) ?g \<le> c"
    using release_some(3) [OF held cap_okD(2) [OF ok], of "claim_int (cr_task r)"]
      cap_okD(5) [OF ok, of "cr_task r"] spent(2) task by (simp add: claim_int_def)
  have exact: "sint (gv_tokens g (cr_task r) + ?n) = sint (gv_tokens g (cr_task r)) + sint ?n"
    using room cap_okD(3) [OF ok, of "cr_task r"] cap_okD(7) [OF ok1, of "cr_task r"] spent(1) c
    by (intro sint_add_exact) auto
  show ?thesis
    using ok1 room exact cap_okD(3) [OF ok, of "cr_task r"] spent(1)
    unfolding cap_ok_def ids_ok_def live_sum_def record_frame release_frame
    by (auto simp: recordLocked_def)
qed

lemma gov_apply_cap:
  assumes ok: "cap_ok (sint (li_ceiling (gv_limits g))) g" and n: "unat (gv_next g) + 1 < 2 ^ 64"
    and c: "0 < sint (li_ceiling (gv_limits g))" "sint (li_ceiling (gv_limits g)) < 2 ^ 62"
    and fair: "honest (fst (gov_apply v x g))"
  shows "cap_ok (sint (li_ceiling (gv_limits g))) (snd (gov_apply v x g))"
proof (cases x)
  case (OpCheck t task model body)
  show ?thesis
  proof (rule check_cases [of v t task model body g])
    fix m assume "CheckBeforeForward v t task model body g = (Blocked m, g)"
    with OpCheck ok show ?thesis by simp
  next
    fix rid g'
    assume "CheckBeforeForward v t task model body g = (Admitted rid, g')"
      "reserveLocked task (fst (estimateRequest v (gv_limits g) t model body))
         (snd (estimateRequest v (gv_limits g) t model body)) (utc_day t) (utc_month t) g = (rid, g')"
      "0 < sint (li_ceiling (gv_limits g)) \<Longrightarrow>
        sint (gv_tokens g task + gv_task_reserved g task + fst (estimateRequest v (gv_limits g) t model body))
          \<le> sint (li_ceiling (gv_limits g))"
    with OpCheck ok n c fair admit_cap [OF ok c(2) n] show ?thesis by simp
  qed
next
  case (OpRelease rid)
  with ok c(2) show ?thesis by (simp add: ReleaseReservation_def release_cap)
next
  case (OpRecord t rid r h)
  with fair obtain rv where "held rid g = Some rv" "rv_task rv = cr_task r"
    "0 \<le> sint (BillableCeilingTokens (cr_usage r))" "sint (BillableCeilingTokens (cr_usage r)) \<le> sint (rv_tokens rv)"
    by (cases "held rid g") (auto simp: held_def split: if_splits)
  with OpRecord record_cap [OF ok c(2)] show ?thesis by simp
qed

section \<open>Alarms\<close>

datatype alarm = AlarmDowngrade | Alarm80 | Alarm100 | AlarmCache

fun alarm_of :: "gov_event \<Rightarrow> alarm option" where
  "alarm_of (BudgetDowngradeOn d) = Some AlarmDowngrade"
| "alarm_of (SpendAlarm80 x y) = Some Alarm80"
| "alarm_of (SpendAlarm100 x y) = Some Alarm100"
| "alarm_of CacheHitAlarm = Some AlarmCache"
| "alarm_of _ = None"

fun fired :: "alarm \<Rightarrow> daily_agg \<Rightarrow> bool" where
  "fired AlarmDowngrade = da_down"
| "fired Alarm80 = da_80"
| "fired Alarm100 = da_100"
| "fired AlarmCache = da_cache"

fun due :: "limits \<Rightarrow> alarm \<Rightarrow> daily_agg \<Rightarrow> bool" where
  "due li AlarmDowngrade = crosses li (li_ratio li)"
| "due li Alarm80 = crosses li spendAlarmRatio80"
| "due li Alarm100 = crosses li spendAlarmRatio100"
| "due li AlarmCache = low_hit_ratio li"

definition alarm_count :: "alarm \<Rightarrow> gov_event list \<Rightarrow> nat" where
  "alarm_count a evs = length (filter (\<lambda>e. alarm_of e = Some a) evs)"

fun label_alarms :: "string \<Rightarrow> alarm \<Rightarrow> gov_label \<Rightarrow> nat" where
  "label_alarms d a (Recorded t rv r evs) = (if utc_day t = d then alarm_count a evs else 0)"
| "label_alarms d a _ = 0"

definition alarms_on :: "string \<Rightarrow> alarm \<Rightarrow> gov_label list \<Rightarrow> nat" where
  "alarms_on d a ls = sum_list (map (label_alarms d a) ls)"

fun recorded_on :: "string \<Rightarrow> gov_label \<Rightarrow> bool" where
  "recorded_on d (Recorded t rv r evs) \<longleftrightarrow> utc_day t = d"
| "recorded_on d _ \<longleftrightarrow> False"

abbreviation fired_count :: "alarm \<Rightarrow> daily_agg \<Rightarrow> nat" where
  "fired_count a x \<equiv> if fired a x then 1 else 0"

lemma alarm_count_simps [simp]:
  "alarm_count a [] = 0"
  "alarm_count a (e # evs) = (if alarm_of e = Some a then 1 else 0) + alarm_count a evs"
  "alarm_count a (es @ evs) = alarm_count a es + alarm_count a evs"
  by (simp_all add: alarm_count_def)

lemma agg_hash_frame:
  "fired a (snd (agg_hash h x)) = fired a x" "due li a (snd (agg_hash h x)) = due li a x"
  by (cases a; simp add: agg_hash_def crosses_def low_hit_ratio_def)+

lemma agg_call_fired: "fired a (agg_call r x) = fired a x"
  by (cases a) (simp_all add: agg_call_def)

lemma agg_alarms_counts:
  "alarm_count a (fst (agg_alarms li day x)) + fired_count a x = fired_count a (snd (agg_alarms li day x))"
  "due li a (snd (agg_alarms li day x)) \<Longrightarrow> fired a (snd (agg_alarms li day x))"
  by (cases a; simp add: agg_alarms_def Let_def crosses_def low_hit_ratio_def)+

lemma record_agg:
  "alarm_count a (fst (RecordUsage t rid r h g)) + fired_count a (dayAgg (utc_day t) g)
     = fired_count a (dayAgg (utc_day t) (snd (RecordUsage t rid r h g)))"
  "due (gv_limits g) a (dayAgg (utc_day t) (snd (RecordUsage t rid r h g)))
     \<Longrightarrow> fired a (dayAgg (utc_day t) (snd (RecordUsage t rid r h g)))"
proof -
  let ?x = "agg_hash h (agg_call r (dayAgg (utc_day t) g))"
  let ?y = "agg_alarms (gv_limits g) (utc_day t) (snd ?x)"
  have day: "dayAgg (utc_day t) (recordLocked t r (releaseLocked rid g)) = agg_call r (dayAgg (utc_day t) g)"
    by (simp add: dayAgg_def recordLocked_def release_frame)
  have li: "gv_limits (recordLocked t r (releaseLocked rid g)) = gv_limits g"
    by (simp add: recordLocked_def release_frame)
  have evs: "alarm_count a (fst (RecordUsage t rid r h g)) = alarm_count a (fst ?y)"
    by (simp add: RecordUsage_def Let_def day li split_beta)
  have agg: "dayAgg (utc_day t) (snd (RecordUsage t rid r h g)) = snd ?y"
    by (simp add: RecordUsage_def Let_def day li split_beta) (simp add: dayAgg_def)
  show "alarm_count a (fst (RecordUsage t rid r h g)) + fired_count a (dayAgg (utc_day t) g)
     = fired_count a (dayAgg (utc_day t) (snd (RecordUsage t rid r h g)))"
    using agg_alarms_counts(1) [of a "gv_limits g" "utc_day t" "snd ?x"]
    by (simp add: evs agg agg_hash_frame agg_call_fired)
  show "due (gv_limits g) a (dayAgg (utc_day t) (snd (RecordUsage t rid r h g)))
     \<Longrightarrow> fired a (dayAgg (utc_day t) (snd (RecordUsage t rid r h g)))"
    unfolding agg by (rule agg_alarms_counts(2))
qed

lemma record_agg_other:
  "d \<noteq> utc_day t \<Longrightarrow> dayAgg d (snd (RecordUsage t rid r h g)) = dayAgg d g"
  by (simp add: RecordUsage_def Let_def split_beta) (simp add: dayAgg_def recordLocked_def release_frame)

lemma dayAgg_frame:
  "dayAgg d (releaseLocked rid g) = dayAgg d g"
  "dayAgg d (snd (CheckBeforeForward v t task model body g)) = dayAgg d g"
  by (simp_all add: dayAgg_def release_frame check_frame)

lemma gov_apply_alarms:
  "label_alarms d a (fst (gov_apply v x g)) + fired_count a (dayAgg d g)
     = fired_count a (dayAgg d (snd (gov_apply v x g)))"
proof (cases x)
  case (OpRecord t rid r h)
  show ?thesis
  proof (cases "utc_day t = d")
    case True
    with record_agg(1) [of a t rid r h g] OpRecord show ?thesis by simp
  next
    case False
    with record_agg_other [of d t rid r h g] OpRecord show ?thesis by simp
  qed
qed (simp_all add: ReleaseReservation_def dayAgg_frame release_frame check_frame)

lemma gov_exec_alarms:
  "alarms_on d a (fst (gov_exec v xs g)) + fired_count a (dayAgg d g)
     = fired_count a (dayAgg d (snd (gov_exec v xs g)))"
proof (induction xs arbitrary: g)
  case Nil
  then show ?case by (simp add: alarms_on_def)
next
  case (Cons x xs)
  have "alarms_on d a (fst (gov_exec v (x # xs) g))
      = label_alarms d a (fst (gov_apply v x g)) + alarms_on d a (fst (gov_exec v xs (snd (gov_apply v x g))))"
    by (simp add: alarms_on_def)
  then show ?case
    using Cons.IH [of "snd (gov_apply v x g)"] gov_apply_alarms [of d a v x g] by simp
qed

definition no_alarm_missed :: "string \<Rightarrow> governor \<Rightarrow> bool" where
  "no_alarm_missed d g \<longleftrightarrow> (\<forall>a. due (gv_limits g) a (dayAgg d g) \<longrightarrow> fired a (dayAgg d g))"

lemma gov_apply_missed:
  "no_alarm_missed d g \<or> recorded_on d (fst (gov_apply v x g)) \<Longrightarrow> no_alarm_missed d (snd (gov_apply v x g))"
proof (cases x)
  case (OpRecord t rid r h)
  assume prem: "no_alarm_missed d g \<or> recorded_on d (fst (gov_apply v x g))"
  show ?thesis
  proof (cases "utc_day t = d")
    case True
    with record_agg(2) [of g _ t rid r h] OpRecord show ?thesis
      by (simp add: no_alarm_missed_def record_frame)
  next
    case False
    with record_agg_other [of d t rid r h g] OpRecord prem show ?thesis
      by (simp add: no_alarm_missed_def record_frame)
  qed
qed (simp_all add: no_alarm_missed_def ReleaseReservation_def dayAgg_frame release_frame check_frame)

lemma gov_exec_missed:
  "no_alarm_missed d g \<or> list_ex (recorded_on d) (fst (gov_exec v xs g))
   \<Longrightarrow> no_alarm_missed d (snd (gov_exec v xs g))"
proof (induction xs arbitrary: g)
  case (Cons x xs)
  then show ?case using gov_apply_missed [of d g v x] by auto
qed simp

lemma dayAgg_record:
  "dayAgg d (recordLocked t r g) = (if d = utc_day t then agg_call r (dayAgg d g) else dayAgg d g)"
  by (simp add: recordLocked_def dayAgg_def)

lemma boot_unfired: "\<not> fired a (dayAgg d (Boot evs li))"
proof -
  have "fired a (dayAgg d (fold (\<lambda>(ts, r). recordLocked ts r) evs g)) = fired a (dayAgg d g)" for g
    by (induction evs arbitrary: g) (simp_all add: dayAgg_record agg_call_fired split_beta)
  then show ?thesis by (cases a) (simp_all add: Boot_def NewGovernor_def dayAgg_def new_agg_def)
qed

section \<open>Restarting\<close>

definition agg_sums :: "daily_agg \<Rightarrow> f64 \<times> int64 \<times> int64 \<times> int64" where
  "agg_sums a = (da_usd a, da_calls a, da_input a, da_read a)"

definition totals :: "governor \<Rightarrow> (string \<Rightarrow> int64) \<times> (string \<Rightarrow> f64) \<times> (string \<Rightarrow> (f64 \<times> int64 \<times> int64 \<times> int64) option)" where
  "totals g = (gv_tokens g, gv_monthly g, map_option agg_sums \<circ> gv_daily g)"

text \<open>The calls the ledger holds: one row for each \<open>ModelCall\<close> event.\<close>

fun ledgered_call :: "int \<Rightarrow> gov_event \<Rightarrow> (int \<times> call_record) list" where
  "ledgered_call t (ModelCall r) = [(t, r)]"
| "ledgered_call t _ = []"

fun label_record :: "gov_label \<Rightarrow> (int \<times> call_record) list" where
  "label_record (Recorded t rv r evs) = concat (map (ledgered_call t) evs)"
| "label_record _ = []"

definition ledgered_calls :: "gov_label list \<Rightarrow> (int \<times> call_record) list" where
  "ledgered_calls ls = concat (map label_record ls)"

lemma ledgered_usage: "concat (map (ledgered_call t') (fst (RecordUsage t rid r h g))) = [(t', r)]"
  by (simp add: RecordUsage_def agg_alarms_def Let_def split: prod.splits)

lemma agg_sums_call: "agg_sums x = agg_sums y \<Longrightarrow> agg_sums (agg_call r x) = agg_sums (agg_call r y)"
  by (simp add: agg_sums_def agg_call_def)

lemma totals_record:
  assumes eq: "totals g = totals b"
  shows "totals (recordLocked t r g) = totals (recordLocked t r b)"
proof -
  have d: "map_option agg_sums (gv_daily g d) = map_option agg_sums (gv_daily b d)" for d
    using eq by (simp add: totals_def fun_eq_iff)
  have "agg_sums (dayAgg (utc_day t) g) = agg_sums (dayAgg (utc_day t) b)"
    using d [of "utc_day t"]
    by (cases "gv_daily g (utc_day t)"; cases "gv_daily b (utc_day t)") (simp_all add: dayAgg_def)
  from agg_sums_call [OF this, of r]
  have "map_option agg_sums (gv_daily (recordLocked t r g) e)
      = map_option agg_sums (gv_daily (recordLocked t r b) e)" for e
    using d [of e] by (cases "e = utc_day t") (simp_all add: recordLocked_def)
  moreover have "gv_tokens (recordLocked t r g) = gv_tokens (recordLocked t r b)"
    "gv_monthly (recordLocked t r g) = gv_monthly (recordLocked t r b)"
    using eq by (simp_all add: totals_def recordLocked_def)
  ultimately show ?thesis by (simp add: totals_def fun_eq_iff)
qed

lemma agg_sums_alarms: "agg_sums (snd (agg_alarms li day (snd (agg_hash h x)))) = agg_sums x"
  by (simp add: agg_alarms_def agg_hash_def agg_sums_def Let_def)

lemma totals_usage: "totals (snd (RecordUsage t rid r h g)) = totals (recordLocked t r g)"
proof -
  have "map_option agg_sums (gv_daily (snd (RecordUsage t rid r h g)) d)
      = map_option agg_sums (gv_daily (recordLocked t r g) d)" for d
  proof (cases "d = utc_day t")
    case True
    then show ?thesis
      by (simp add: RecordUsage_def Let_def split_beta agg_sums_alarms)
        (simp add: recordLocked_def release_frame dayAgg_def)
  next
    case False
    then show ?thesis
      by (simp add: RecordUsage_def Let_def split_beta) (simp add: recordLocked_def release_frame)
  qed
  then show ?thesis by (simp add: totals_def record_frame fun_eq_iff)
qed

lemma gov_exec_totals:
  "totals g = totals b \<Longrightarrow> totals (snd (gov_exec v xs g))
     = totals (fold (\<lambda>(ts, r). recordLocked ts r) (ledgered_calls (fst (gov_exec v xs g))) b)"
proof (induction xs arbitrary: g b)
  case Nil
  then show ?case by (simp add: ledgered_calls_def)
next
  case (Cons x xs)
  have "totals (snd (gov_apply v x g))
      = totals (fold (\<lambda>(ts, r). recordLocked ts r) (label_record (fst (gov_apply v x g))) b)"
  proof (cases x)
    case (OpRecord t rid r h)
    then show ?thesis
      using totals_record [OF Cons.prems, of t r] by (simp add: totals_usage ledgered_usage)
  qed (use Cons.prems in \<open>simp_all add: ReleaseReservation_def totals_def release_frame check_frame\<close>)
  from Cons.IH [OF this] show ?case by (simp add: ledgered_calls_def)
qed

end
