(* ===== verification/Cloud_Proxy_Laws.thy ===== *)
theory Cloud_Proxy_Laws
  imports Cloud_Proxy Cloud_Governor_Laws
begin

text \<open>
  Facts about the forward proxy: how the retry loop ends, that usage does not depend on how a body
  was cut into reads, what reaches the upstream and under which licence, and that a request is a run
  of the governor which holds no reservation when it is over.
\<close>

section \<open>The retry loop\<close>

definition retryable_attempt :: "transport \<Rightarrow> nat \<Rightarrow> bool" where
  "retryable_attempt tr n \<longleftrightarrow> settle_attempt n (tr_upstream tr n) = None"

fun attempt_number :: "trip_event \<Rightarrow> nat list" where
  "attempt_number (Attempted n st x) = [n]"
| "attempt_number (Slept d) = []"

definition attempt_numbers :: "trip_event list \<Rightarrow> nat list" where
  "attempt_numbers evs = concat (map attempt_number evs)"

lemma attempt_numbers_simps [simp]:
  "attempt_numbers [] = []"
  "attempt_numbers (e # evs) = attempt_number e @ attempt_numbers evs"
  "attempt_numbers (es @ evs) = attempt_numbers es @ attempt_numbers evs"
  by (simp_all add: attempt_numbers_def)

lemma attempt_number_attempted [simp]: "attempt_number (attempted n a) = [n]"
  by (simp add: attempted_def)

lemma attempt_number_sleep [simp]: "attempt_number (sleepBeforeRetry v tr n r) = []"
  by (simp add: sleepBeforeRetry_def Let_def)

lemma retry_loop_cases:
  "(\<forall>i < k. retryable_attempt tr (n + i)) \<and>
     (\<exists>evs. retry_loop v tr k n = (TripExhausted, \<lparr>rd_attempts = n + k - 1, rd_reason = '''', rd_exhausted = True\<rparr>, evs)
        \<and> attempt_numbers evs = [n..<n + k])
   \<or> (\<exists>j t d evs. j < k \<and> (\<forall>i < j. retryable_attempt tr (n + i))
        \<and> settle_attempt (n + j) (tr_upstream tr (n + j)) = Some (t, d)
        \<and> retry_loop v tr k n = (t, d, evs) \<and> attempt_numbers evs = [n..<Suc (n + j)])"
proof (induction k arbitrary: n)
  case 0
  then show ?case by simp
next
  case (Suc k)
  show ?case
  proof (cases "settle_attempt n (tr_upstream tr n)")
    case (Some td)
    then show ?thesis by (intro disjI2 exI [of _ 0]) (auto split: prod.splits)
  next
    case None
    then have now: "retryable_attempt tr n" by (simp add: retryable_attempt_def)
    from Suc.IH [of "Suc n"] show ?thesis
    proof (elim disjE conjE exE)
      fix evs
      assume all: "\<forall>i < k. retryable_attempt tr (Suc n + i)"
        and eq: "retry_loop v tr k (Suc n)
          = (TripExhausted, \<lparr>rd_attempts = Suc n + k - 1, rd_reason = '''', rd_exhausted = True\<rparr>, evs)"
        and nums: "attempt_numbers evs = [Suc n..<Suc n + k]"
      have "\<forall>i < Suc k. retryable_attempt tr (n + i)"
      proof (intro allI impI)
        fix i assume "i < Suc k"
        with now all show "retryable_attempt tr (n + i)" by (cases i) auto
      qed
      with None eq nums show ?thesis
        by (intro disjI1) (auto simp: Let_def upt_conv_Cons)
    next
      fix j t d evs
      assume j: "j < k" and all: "\<forall>i < j. retryable_attempt tr (Suc n + i)"
        and settled: "settle_attempt (Suc n + j) (tr_upstream tr (Suc n + j)) = Some (t, d)"
        and eq: "retry_loop v tr k (Suc n) = (t, d, evs)"
        and nums: "attempt_numbers evs = [Suc n..<Suc (Suc n + j)]"
      have "\<forall>i < Suc j. retryable_attempt tr (n + i)"
      proof (intro allI impI)
        fix i assume "i < Suc j"
        with now all show "retryable_attempt tr (n + i)" by (cases i) auto
      qed
      with None j settled eq nums show ?thesis
        by (intro disjI2 exI [of _ "Suc j"]) (auto simp: Let_def upt_conv_Cons)
    qed
  qed
qed

lemma max_inline_pos: "0 < max_inline n"
  by (simp add: max_inline_def defaultMaxInlineRetries_def)

text \<open>The two ways a round trip ends: every allowed attempt was retryable, or one settled it.\<close>

lemma RoundTrip_cases:
  obtains (exhausted) evs where
    "RoundTrip v tr = (TripExhausted, \<lparr>rd_attempts = max_inline (tr_max tr), rd_reason = '''', rd_exhausted = True\<rparr>, evs)"
    "\<And>i. 1 \<le> i \<Longrightarrow> i \<le> max_inline (tr_max tr) \<Longrightarrow> retryable_attempt tr i"
    "attempt_numbers evs = [1..<Suc (max_inline (tr_max tr))]"
  | (settled) n t d evs where
    "1 \<le> n" "n \<le> max_inline (tr_max tr)" "\<And>i. 1 \<le> i \<Longrightarrow> i < n \<Longrightarrow> retryable_attempt tr i"
    "settle_attempt n (tr_upstream tr n) = Some (t, d)" "RoundTrip v tr = (t, d, evs)"
    "attempt_numbers evs = [1..<Suc n]"
proof -
  have shift: "retryable_attempt tr i" if "\<forall>i < k. retryable_attempt tr (1 + i)" "1 \<le> i" "i < Suc k" for i k
    using that(1) [rule_format, of "i - 1"] that(2,3) by simp
  from retry_loop_cases [of "max_inline (tr_max tr)" tr 1 v] show thesis
  proof (elim disjE conjE exE)
    fix evs
    assume "\<forall>i < max_inline (tr_max tr). retryable_attempt tr (1 + i)"
      "retry_loop v tr (max_inline (tr_max tr)) 1
         = (TripExhausted, \<lparr>rd_attempts = 1 + max_inline (tr_max tr) - 1, rd_reason = '''', rd_exhausted = True\<rparr>, evs)"
      "attempt_numbers evs = [1..<1 + max_inline (tr_max tr)]"
    with shift show thesis by (intro exhausted [of evs]) (auto simp: RoundTrip_def)
  next
    fix j t d evs
    assume "j < max_inline (tr_max tr)" "\<forall>i < j. retryable_attempt tr (1 + i)"
      "settle_attempt (1 + j) (tr_upstream tr (1 + j)) = Some (t, d)"
      "retry_loop v tr (max_inline (tr_max tr)) 1 = (t, d, evs)"
      "attempt_numbers evs = [1..<Suc (1 + j)]"
    with shift show thesis by (intro settled [of "1 + j" t d evs]) (auto simp: RoundTrip_def)
  qed
qed

lemma settle_cases:
  assumes "settle_attempt n a = Some (t, d)"
  shows "rd_attempts d = n" and "\<not> rd_exhausted d"
    and "(\<exists>r. a = Answered r \<and> t = TripResponse r \<and> (rs_status r < 400 \<and> rd_reason d = ''''
            \<or> 400 \<le> rs_status r \<and> rs_status r \<notin> set retryableStatuses \<and> rd_reason d = ReasonForStatus (rs_status r)))
         \<or> (\<exists>e. a = Unanswered e \<and> t = TripNonRetryable \<and> classifyTransportErr (Some e) = NonRetryable
              \<and> rd_reason d = ''transport_error'')"
  using assms by (auto simp: settle_attempt_def Classify_def not_less split: attempt.splits if_splits)

lemma ReasonForStatus_nonempty: "ReasonForStatus st \<noteq> ''''"
  by (simp add: ReasonForStatus_def)

section \<open>Usage and the cutting of a body\<close>

lemma split_on_some: "split_on d s \<noteq> []"
  by (cases s) (simp_all split: list.splits)

lemma split_on_concat:
  "split_on d (xs @ ys) = butlast (split_on d xs) @ split_on d (last (split_on d xs) @ ys)"
proof (induction xs)
  case Nil
  then show ?case by simp
next
  case (Cons c cs)
  obtain w ws where cs: "split_on d cs = w # ws"
    using split_on_some [of d cs] by (cases "split_on d cs") auto
  show ?case
  proof (cases "c = d")
    case True
    with Cons cs show ?thesis by (cases ws) (auto simp: split_on_some)
  next
    case False
    with Cons cs show ?thesis
      by (cases ws) (auto split: list.splits simp: split_on_some)
  qed
qed

lemma split_on_last_idem: "split_on d (last (split_on d s)) = [last (split_on d s)]"
proof (induction s)
  case Nil
  then show ?case by simp
next
  case (Cons c cs)
  then show ?case
    by (cases "split_on d cs") (auto simp: split_on_some split: list.splits)
qed

lemma feedSSE_append:
  "feedSSE v ys (feedSSE v xs st) = feedSSE v (xs @ ys) st"
proof -
  let ?ls = "split_on (CHR 0x0A) (snd st @ xs)"
  let ?ms = "split_on (CHR 0x0A) (last ?ls @ ys)"
  have "split_on (CHR 0x0A) (snd st @ xs @ ys) = butlast ?ls @ ?ms"
    using split_on_concat [of "CHR 0x0A" "snd st @ xs" ys] by simp
  then show ?thesis
    by (simp add: feedSSE_def Let_def butlast_append split_on_some)
qed

lemma feedSSE_empty: "split_on (CHR 0x0A) (snd st) = [snd st] \<Longrightarrow> feedSSE v '''' st = st"
  by (simp add: feedSSE_def Let_def)

lemma feedSSE_partial: "split_on (CHR 0x0A) (snd (feedSSE v xs st)) = [snd (feedSSE v xs st)]"
  by (simp add: feedSSE_def Let_def split_on_last_idem)

lemma fold_feedSSE: "cs \<noteq> [] \<Longrightarrow> fold (feedSSE v) cs st = feedSSE v (concat cs) st"
proof (induction cs arbitrary: st)
  case (Cons c cs)
  show ?case
  proof (cases "cs = []")
    case False
    then have "fold (feedSSE v) cs (feedSSE v c st) = feedSSE v (concat cs) (feedSSE v c st)"
      by (rule Cons.IH)
    then show ?thesis by (simp add: feedSSE_append)
  qed simp
qed simp

section \<open>Effects\<close>

fun is_sent :: "cloud_effect \<Rightarrow> bool" where
  "is_sent (SentUpstream h b) = True"
| "is_sent _ = False"

text \<open>The calls a request makes of the daemon about its own fate.\<close>

fun is_fate :: "cloud_effect \<Rightarrow> bool" where
  "is_fate CloudUnreachable = True"
| "is_fate (NonRetryableFailure r) = True"
| "is_fate _ = False"

fun is_reply :: "cloud_effect \<Rightarrow> bool" where
  "is_reply (Replied st ty m) = True"
| "is_reply (RelayedHead st) = True"
| "is_reply _ = False"

fun is_recorded :: "cloud_effect \<Rightarrow> bool" where
  "is_recorded (Governed (Ledgered (ModelCall r))) = True"
| "is_recorded _ = False"

lemma emit_out [simp]: "cs_out (emit es s) = cs_out s @ es"
  "cs_gov (emit es s) = cs_gov s" "cs_store (emit es s) = cs_store s"
  by (simp_all add: emit_def)

lemma on_gov_out [simp]: "cs_out (on_gov f s) = cs_out s" "cs_gov (on_gov f s) = f (cs_gov s)"
  by (simp_all add: on_gov_def)

definition sent_steps :: "headers \<Rightarrow> string \<Rightarrow> trip_event list \<Rightarrow> cloud_effect list" where
  "sent_steps h body evs = concat (map (sent_step h body) evs)"

lemma sent_step_effects:
  "e \<in> set (sent_step h body x) \<Longrightarrow> e = SentUpstream h body \<or> e = Traced x"
  by (cases x) auto

lemma sent_steps_effects:
  "e \<in> set (sent_steps h body evs) \<Longrightarrow> e = SentUpstream h body \<or> (\<exists>x. e = Traced x)"
  by (induction evs) (auto simp: sent_steps_def dest: sent_step_effects)

lemma sent_steps_filters [simp]:
  "filter is_fate (sent_steps h body evs) = []" "filter is_reply (sent_steps h body evs) = []"
  "filter is_recorded (sent_steps h body evs) = []"
  by (auto simp: filter_empty_conv dest!: sent_steps_effects)

lemma relayed_filters [simp]:
  "filter is_fate (map Relayed xs) = []" "filter is_reply (map Relayed xs) = []"
  "filter is_recorded (map Relayed xs) = []"
  by (auto simp: filter_empty_conv)

text \<open>What the relaying of a response adds.\<close>

definition done_effects :: "proxy_cfg \<Rightarrow> proxy_world \<Rightarrow> string \<Rightarrow> string \<Rightarrow> reservation_id \<Rightarrow> req_data \<Rightarrow> response
    \<Rightarrow> governor \<Rightarrow> cloud_effect list" where
  "done_effects c w model hash rid d r g =
     map Governed (concat (map (deliver (pc_notifier c) (pc_ledger c))
       (fst (RecordUsage (px_done_at w) rid (completed_call c w model r) hash g))))
     @ (if rd_reason d \<noteq> '''' \<and> pc_on_nonretryable c then [NonRetryableFailure (rd_reason d)] else [])"

lemma body_done_parts:
  "cs_out (body_done c w model hash rid d r s) = cs_out s @ done_effects c w model hash rid d r (cs_gov s)"
  "cs_gov (body_done c w model hash rid d r s)
     = snd (RecordUsage (px_done_at w) rid (completed_call c w model r) hash (cs_gov s))"
  by (simp_all add: body_done_def done_effects_def split: prod.splits)

lemma relay_response_parts:
  "cs_out (relay_response c w model hash rid d r s) = cs_out s
     @ RelayedHead (rs_status r) # map Relayed (fst (relay_reads (px_client w) (rs_reads r)))
     @ (if snd (relay_reads (px_client w) (rs_reads r)) then done_effects c w model hash rid d r (cs_gov s) else [])"
  "cs_gov (relay_response c w model hash rid d r s)
     = (if snd (relay_reads (px_client w) (rs_reads r))
        then snd (RecordUsage (px_done_at w) rid (completed_call c w model r) hash (cs_gov s)) else cs_gov s)"
  by (simp_all add: relay_response_def body_done_parts Let_def split: prod.splits)

lemma RecordUsage_events:
  obtains evs where "fst (RecordUsage t rid r h g) = ModelCall r # evs" "\<forall>e \<in> set evs. \<forall>x. e \<noteq> ModelCall x"
proof -
  have "\<exists>evs. fst (RecordUsage t rid r h g) = ModelCall r # evs \<and> (\<forall>e \<in> set evs. \<forall>x. e \<noteq> ModelCall x)"
    by (auto simp: RecordUsage_def agg_alarms_def Let_def split: prod.splits if_splits)
  with that show thesis by blast
qed

lemma done_effects_filters:
  "filter is_sent (done_effects c w model hash rid d r g) = []"
  "filter is_reply (done_effects c w model hash rid d r g) = []"
  "filter is_fate (done_effects c w model hash rid d r g)
     = (if rd_reason d \<noteq> '''' \<and> pc_on_nonretryable c then [NonRetryableFailure (rd_reason d)] else [])"
  "filter is_recorded (done_effects c w model hash rid d r g)
     = (if pc_ledger c then [Governed (Ledgered (ModelCall (completed_call c w model r)))] else [])"
proof -
  obtain evs where evs: "fst (RecordUsage (px_done_at w) rid (completed_call c w model r) hash g)
      = ModelCall (completed_call c w model r) # evs" "\<forall>e \<in> set evs. \<forall>x. e \<noteq> ModelCall x"
    by (rule RecordUsage_events)
  have no: "filter is_recorded (map Governed (concat (map (deliver (pc_notifier c) (pc_ledger c)) evs))) = []"
    using evs(2) by (auto simp: filter_empty_conv deliver_def split: if_splits elim!: is_recorded.elims)
  show "filter is_sent (done_effects c w model hash rid d r g) = []"
    "filter is_reply (done_effects c w model hash rid d r g) = []"
    by (auto simp: done_effects_def filter_empty_conv)
  show "filter is_fate (done_effects c w model hash rid d r g)
     = (if rd_reason d \<noteq> '''' \<and> pc_on_nonretryable c then [NonRetryableFailure (rd_reason d)] else [])"
    by (auto simp: done_effects_def filter_empty_conv)
  show "filter is_recorded (done_effects c w model hash rid d r g)
     = (if pc_ledger c then [Governed (Ledgered (ModelCall (completed_call c w model r)))] else [])"
    using no by (simp add: done_effects_def evs(1) deliver_def)
qed

section \<open>The life of a request\<close>

text \<open>What the end of a round trip adds to the effects, and makes of the governor.\<close>

definition trip_effects :: "proxy_cfg \<Rightarrow> proxy_world \<Rightarrow> string \<Rightarrow> string \<Rightarrow> reservation_id \<Rightarrow> trip \<Rightarrow> req_data
    \<Rightarrow> governor \<Rightarrow> cloud_effect list" where
  "trip_effects c w model hash rid t d g = (case t of
     TripResponse r \<Rightarrow> RelayedHead (rs_status r) # map Relayed (fst (relay_reads (px_client w) (rs_reads r)))
       @ (if snd (relay_reads (px_client w) (rs_reads r)) then done_effects c w model hash rid d r g else [])
   | TripExhausted \<Rightarrow> (if pc_ledger c then [LedgerUnreachable (rd_attempts d)] else [])
       @ (if pc_on_unreachable c then [CloudUnreachable] else [])
       @ [Replied 503 ''api_error'' MsgCloudUnreachableMarker]
   | TripNonRetryable \<Rightarrow>
       (if pc_on_nonretryable c
        then [NonRetryableFailure (if rd_reason d = '''' then ''transport_error'' else rd_reason d)] else [])
       @ [Replied 502 ''api_error'' MsgUpstreamFailed])"

definition trip_governor :: "proxy_cfg \<Rightarrow> proxy_world \<Rightarrow> string \<Rightarrow> string \<Rightarrow> reservation_id \<Rightarrow> trip
    \<Rightarrow> governor \<Rightarrow> governor" where
  "trip_governor c w model hash rid t g = (case t of
     TripResponse r \<Rightarrow> if snd (relay_reads (px_client w) (rs_reads r))
       then snd (RecordUsage (px_done_at w) rid (completed_call c w model r) hash g) else g
   | _ \<Rightarrow> g)"

lemma forward_request_parts:
  assumes "RoundTrip (px_wire w) (px_transport w) = (t, d, evs)"
  shows "cs_out (forward_request c w h body model hash rid s)
      = cs_out s @ sent_steps h body evs @ trip_effects c w model hash rid t d (fst (px_meanwhile w) (cs_gov s))"
    and "cs_gov (forward_request c w h body model hash rid s)
      = trip_governor c w model hash rid t (fst (px_meanwhile w) (cs_gov s))"
  by (cases t; simp add: forward_request_def assms trip_effects_def trip_governor_def sent_steps_def
      relay_response_parts onCloudUnreachable_def onNonRetryableTransport_def)+

lemma forward_request_out:
  "cs_out (forward_request c w h body model hash rid s)
     = cs_out s @ sent_steps h body (snd (snd (RoundTrip (px_wire w) (px_transport w))))
       @ trip_effects c w model hash rid (fst (RoundTrip (px_wire w) (px_transport w)))
           (fst (snd (RoundTrip (px_wire w) (px_transport w)))) (fst (px_meanwhile w) (cs_gov s))"
  by (rule forward_request_parts(1)) simp

definition unremarkable :: "cloud_effect \<Rightarrow> bool" where
  "unremarkable e \<longleftrightarrow> \<not> is_sent e \<and> \<not> is_fate e \<and> \<not> is_recorded e"

abbreviation quiet_answer :: "cloud_effect list \<Rightarrow> bool" where
  "quiet_answer es \<equiv> list_all unremarkable es \<and> length (filter is_reply es) = 1"

text \<open>A request that reaches the upstream, with everything it passed on the way.\<close>

definition forwarded :: "proxy_cfg \<Rightarrow> proxy_world \<Rightarrow> cloud_request \<Rightarrow> cloud_state \<Rightarrow> headers \<Rightarrow> string \<Rightarrow> string
    \<Rightarrow> string \<Rightarrow> reservation_id \<Rightarrow> governor \<Rightarrow> bool" where
  "forwarded c w rq s h body model hash rid g \<longleftrightarrow>
     checkLocalAuth c (cq_headers rq)
     \<and> (\<forall>gate. pc_gate c = Some gate \<longrightarrow> fst (run_state (gate (cq_length rq)) (cs_store s)) = None)
     \<and> (\<exists>raw. readAndRestoreBody rq = Some raw \<and> fst (shapeFable5Body (px_wire w) raw) = body)
     \<and> probeRequest (px_wire w) body = (model, hash)
     \<and> CheckBeforeForward (px_wire w) (px_check_at w) (pc_task c) model body (cs_gov s) = (Admitted rid, g)
     \<and> (if pc_mode c = ''keychain''
        then \<exists>kv. fst (UpstreamAuth c w) = Some kv \<and> h = director_headers c (Some kv) (cq_headers rq)
        else h = director_headers c None (cq_headers rq))"

lemma UpstreamAuth_effects: "list_all (\<lambda>e. e = OverrideIgnored) (snd (UpstreamAuth c w))"
  by (simp add: UpstreamAuth_def)

lemma serve_reserved_cases:
  assumes rt: "RoundTrip (px_wire w) (px_transport w) = (t, d, evs)"
  obtains (keyless) es where "pc_mode c = ''keychain''" "fst (UpstreamAuth c w) = None"
      "cs_out (serve_reserved c w h body model hash rid s) = cs_out s @ es" "quiet_answer es"
      "cs_gov (serve_reserved c w h body model hash rid s) = cs_gov s"
  | (keyed) h' es where
      "if pc_mode c = ''keychain'' then \<exists>kv. fst (UpstreamAuth c w) = Some kv \<and> h' = director_headers c (Some kv) h
       else h' = director_headers c None h"
      "cs_out (serve_reserved c w h body model hash rid s) = cs_out s @ es @ sent_steps h' body evs
         @ trip_effects c w model hash rid t d (fst (px_meanwhile w) (cs_gov s))"
      "list_all unremarkable es" "filter is_reply es = []"
      "cs_gov (serve_reserved c w h body model hash rid s)
         = trip_governor c w model hash rid t (fst (px_meanwhile w) (cs_gov s))"
proof (cases "pc_mode c = ''keychain''")
  case False
  show thesis
    by (rule keyed [of "director_headers c None h" "[]"])
      (simp_all add: serve_reserved_def False forward_request_parts [OF rt])
next
  case True
  obtain cred warn where auth: "UpstreamAuth c w = (cred, warn)" by fastforce
  have warn: "list_all unremarkable warn" "filter is_reply warn = []"
    using UpstreamAuth_effects [of c w] auth by (auto simp: list_all_iff unremarkable_def filter_empty_conv)
  show thesis
  proof (cases cred)
    case None
    let ?n = "if cs_warned s then [] else if pc_notifier c then [NotifyKeychain] else if pc_ledger c then [LedgerKeychain] else []"
    show thesis
      by (rule keyless [of "warn @ ?n @ [Replied 503 ''api_error'' MsgKeychainUnavailable]"])
        (use True auth None warn in \<open>auto simp: serve_reserved_def onKeychainUnavailable_def unremarkable_def emit_def\<close>)
  next
    case (Some kv)
    show thesis
      by (rule keyed [of "director_headers c (Some kv) h" warn])
        (use True auth Some warn in \<open>simp_all add: serve_reserved_def forward_request_parts [OF rt]\<close>)
  qed
qed

text \<open>The answers of a request that is not forwarded: nothing is sent, nothing is recorded.\<close>

lemma serve_body_cases:
  assumes rt: "RoundTrip (px_wire w) (px_transport w) = (t, d, evs)"
    and shape: "shapeFable5Body (px_wire w) raw = (body, shaped)"
    and probe: "probeRequest (px_wire w) body = (model, hash)"
  obtains (blocked) es where "cs_out (serve_body c w h raw s) = cs_out s @ es" "quiet_answer es"
      "cs_gov (serve_body c w h raw s) = cs_gov s"
  | (keyless) rid g es where
      "CheckBeforeForward (px_wire w) (px_check_at w) (pc_task c) model body (cs_gov s) = (Admitted rid, g)"
      "cs_out (serve_body c w h raw s) = cs_out s @ es" "quiet_answer es"
      "cs_gov (serve_body c w h raw s) = ReleaseReservation rid (snd (px_meanwhile w) g)"
  | (sent) rid g h' es where
      "CheckBeforeForward (px_wire w) (px_check_at w) (pc_task c) model body (cs_gov s) = (Admitted rid, g)"
      "if pc_mode c = ''keychain'' then \<exists>kv. fst (UpstreamAuth c w) = Some kv \<and> h' = director_headers c (Some kv) h
       else h' = director_headers c None h"
      "cs_out (serve_body c w h raw s) = cs_out s @ es @ sent_steps h' body evs
         @ trip_effects c w model hash rid t d (fst (px_meanwhile w) g)"
      "list_all unremarkable es" "filter is_reply es = []"
      "cs_gov (serve_body c w h raw s)
         = ReleaseReservation rid (snd (px_meanwhile w) (trip_governor c w model hash rid t (fst (px_meanwhile w) g)))"
proof -
  let ?pre = "if shaped \<and> pc_ledger c then [LedgerShaped] else []"
  let ?s1 = "if shaped \<and> pc_ledger c then emit [LedgerShaped] s else s"
  have s1: "cs_out ?s1 = cs_out s @ ?pre" "cs_gov ?s1 = cs_gov s" by simp_all
  have pre: "list_all unremarkable ?pre" "filter is_reply ?pre = []" by (simp_all add: unremarkable_def)
  show thesis
  proof (rule check_cases [of "px_wire w" "px_check_at w" "pc_task c" model body "cs_gov s"])
    fix m assume "CheckBeforeForward (px_wire w) (px_check_at w) (pc_task c) model body (cs_gov s) = (Blocked m, cs_gov s)"
    then have eq: "serve_body c w h raw s = emit [Replied 503 ''api_error'' (MsgBudget m)] (onBudgetBlocked c m (?s1\<lparr>cs_gov := cs_gov s\<rparr>))"
      by (simp add: serve_body_def shape probe Let_def)
    show thesis
      by (rule blocked [of "?pre @ (if pc_pause c then [PauseTask] else []) @ (if pc_ledger c then [LedgerPaused m] else [])
          @ (if pc_notifier c then [AlarmPaused m] else []) @ [Replied 503 ''api_error'' (MsgBudget m)]"])
        (simp_all add: eq onBudgetBlocked_def unremarkable_def)
  next
    fix rid g
    assume check: "CheckBeforeForward (px_wire w) (px_check_at w) (pc_task c) model body (cs_gov s) = (Admitted rid, g)"
    let ?s2 = "?s1\<lparr>cs_gov := g\<rparr>"
    have eq: "serve_body c w h raw s
        = on_gov (ReleaseReservation rid) (on_gov (snd (px_meanwhile w)) (serve_reserved c w h body model hash rid ?s2))"
      using check by (simp add: serve_body_def shape probe Let_def)
    have s2: "cs_out ?s2 = cs_out s @ ?pre" "cs_gov ?s2 = g" by simp_all
    show thesis
    proof (rule serve_reserved_cases [OF rt, of c h body model hash rid ?s2])
      fix es assume "cs_out (serve_reserved c w h body model hash rid ?s2) = cs_out ?s2 @ es" "quiet_answer es"
        "cs_gov (serve_reserved c w h body model hash rid ?s2) = cs_gov ?s2"
      with check pre show thesis
        by (intro keyless [of rid g "?pre @ es"]) (simp_all add: eq s2 del: if_split)
    next
      fix h' es
      assume "if pc_mode c = ''keychain'' then \<exists>kv. fst (UpstreamAuth c w) = Some kv \<and> h' = director_headers c (Some kv) h
         else h' = director_headers c None h"
        "cs_out (serve_reserved c w h body model hash rid ?s2) = cs_out ?s2 @ es @ sent_steps h' body evs
         @ trip_effects c w model hash rid t d (fst (px_meanwhile w) (cs_gov ?s2))"
        "list_all unremarkable es" "filter is_reply es = []"
        "cs_gov (serve_reserved c w h body model hash rid ?s2)
         = trip_governor c w model hash rid t (fst (px_meanwhile w) (cs_gov ?s2))"
      with check pre show thesis
        by (intro sent [of rid g h' "?pre @ es"]) (simp_all add: eq s2 del: if_split)
    qed
  qed
qed

text \<open>A request is refused on the way, or goes upstream; either way its reservation is released.\<close>

lemma cloud_ServeHTTP_cases:
  assumes rt: "RoundTrip (px_wire w) (px_transport w) = (t, d, evs)"
  obtains (refused) es where "cs_out (cloud_ServeHTTP c w rq s) = cs_out s @ es" "quiet_answer es"
      "cs_gov (cloud_ServeHTTP c w rq s) = cs_gov s
       \<or> (\<exists>model body rid g. CheckBeforeForward (px_wire w) (px_check_at w) (pc_task c) model body (cs_gov s) = (Admitted rid, g)
            \<and> cs_gov (cloud_ServeHTTP c w rq s) = ReleaseReservation rid (snd (px_meanwhile w) g))"
  | (sent) h body model hash rid g es where "forwarded c w rq s h body model hash rid g"
      "cs_out (cloud_ServeHTTP c w rq s) = cs_out s @ es @ sent_steps h body evs
         @ trip_effects c w model hash rid t d (fst (px_meanwhile w) g)"
      "list_all unremarkable es" "filter is_reply es = []"
      "cs_gov (cloud_ServeHTTP c w rq s)
         = ReleaseReservation rid (snd (px_meanwhile w) (trip_governor c w model hash rid t (fst (px_meanwhile w) g)))"
proof (cases "checkLocalAuth c (cq_headers rq)")
  case False
  show thesis
    by (rule refused [of "(if pc_ledger c then [LedgerAuthReject] else []) @ [Replied 401 ''authentication_error'' MsgBadToken]"])
      (simp_all add: cloud_ServeHTTP_def False Let_def unremarkable_def)
next
  case auth: True
  show thesis
  proof (cases "\<exists>gate e. pc_gate c = Some gate \<and> fst (run_state (gate (cq_length rq)) (cs_store s)) = Some e")
    case True
    then obtain gate e where "pc_gate c = Some gate" "fst (run_state (gate (cq_length rq)) (cs_store s)) = Some e"
      by blast
    with auth show thesis
      by (intro refused [of "[Replied 403 ''permission_error'' (MsgGate e)]"])
        (simp_all add: cloud_ServeHTTP_def Let_def unremarkable_def split_beta)
  next
    case False
    then have gate: "\<forall>gate. pc_gate c = Some gate \<longrightarrow> fst (run_state (gate (cq_length rq)) (cs_store s)) = None" by auto
    obtain s1 where s1: "cloud_ServeHTTP c w rq s = serve_gated c w rq s1" "cs_out s1 = cs_out s" "cs_gov s1 = cs_gov s"
    proof (cases "pc_gate c")
      case None
      then show thesis by (intro that [of "s\<lparr>cs_count := cs_count s + 1\<rparr>"]) (simp_all add: cloud_ServeHTTP_def auth Let_def)
    next
      case (Some gt)
      with gate show thesis
        by (intro that [of "s\<lparr>cs_count := cs_count s + 1, cs_store := snd (run_state (gt (cq_length rq)) (cs_store s))\<rparr>"])
          (simp_all add: cloud_ServeHTTP_def auth Let_def split_beta)
    qed
    show thesis
    proof (cases "readAndRestoreBody rq")
      case None
      then show thesis
        by (intro refused [of "[Replied 400 ''invalid_request_error'' MsgUnreadableBody]"])
          (simp_all add: s1 serve_gated_def unremarkable_def)
    next
      case (Some raw)
      obtain body shaped where shape: "shapeFable5Body (px_wire w) raw = (body, shaped)" by fastforce
      obtain model hash where probe: "probeRequest (px_wire w) body = (model, hash)" by fastforce
      have eq: "cloud_ServeHTTP c w rq s = serve_body c w (cq_headers rq) raw s1" by (simp add: s1 serve_gated_def Some)
      show thesis
      proof (rule serve_body_cases [OF rt shape probe, of c "cq_headers rq" s1])
        fix es assume "cs_out (serve_body c w (cq_headers rq) raw s1) = cs_out s1 @ es" "quiet_answer es"
          "cs_gov (serve_body c w (cq_headers rq) raw s1) = cs_gov s1"
        then show thesis by (intro refused [of es]) (simp_all add: eq s1)
      next
        fix rid g es
        assume "CheckBeforeForward (px_wire w) (px_check_at w) (pc_task c) model body (cs_gov s1) = (Admitted rid, g)"
          "cs_out (serve_body c w (cq_headers rq) raw s1) = cs_out s1 @ es" "quiet_answer es"
          "cs_gov (serve_body c w (cq_headers rq) raw s1) = ReleaseReservation rid (snd (px_meanwhile w) g)"
        then show thesis by (intro refused [of es]) (auto simp: eq s1)
      next
        fix rid g h' es
        assume "CheckBeforeForward (px_wire w) (px_check_at w) (pc_task c) model body (cs_gov s1) = (Admitted rid, g)"
          and "if pc_mode c = ''keychain'' then \<exists>kv. fst (UpstreamAuth c w) = Some kv \<and> h' = director_headers c (Some kv) (cq_headers rq)
             else h' = director_headers c None (cq_headers rq)"
          and "cs_out (serve_body c w (cq_headers rq) raw s1) = cs_out s1 @ es @ sent_steps h' body evs
             @ trip_effects c w model hash rid t d (fst (px_meanwhile w) g)"
          and "list_all unremarkable es" "filter is_reply es = []"
          and "cs_gov (serve_body c w (cq_headers rq) raw s1)
             = ReleaseReservation rid (snd (px_meanwhile w) (trip_governor c w model hash rid t (fst (px_meanwhile w) g)))"
        with auth gate Some shape probe show thesis
          by (intro sent [of h' body model hash rid g es]) (simp_all add: forwarded_def eq s1)
      qed
    qed
  qed
qed

section \<open>A request as a run of the governor\<close>

lemma gov_exec_append:
  "snd (gov_exec v (xs @ ys) g) = snd (gov_exec v ys (snd (gov_exec v xs g)))"
  by (induction xs arbitrary: g) simp_all

lemma gov_exec_next: "unat (gv_next (snd (gov_exec v xs g))) \<le> unat (gv_next g) + length xs"
proof (induction xs arbitrary: g)
  case (Cons x xs)
  have "unat (gv_next (snd (gov_exec v (x # xs) g))) \<le> unat (gv_next (snd (gov_apply v x g))) + length xs"
    using Cons.IH [of "snd (gov_apply v x g)"] by simp
  with gov_apply_next [of v x g] show ?case by simp
qed simp

lemma gov_exec_pools:
  "pools_ok g \<Longrightarrow> unat (gv_next g) + length xs < 2 ^ 64 \<Longrightarrow> pools_ok (snd (gov_exec v xs g))"
  by (rule gov_exec_invariant [where Q = "\<lambda>_. True"]) (use gov_apply_pools in \<open>auto simp: list_all_iff\<close>)

lemma release_not_held: "held rid (releaseLocked rid g) = None"
  by (auto simp: held_def releaseLocked_def split: option.splits)

text \<open>The other requests of the daemon, as the runs they are.\<close>

definition others_run :: "proxy_world \<Rightarrow> gov_op list \<Rightarrow> gov_op list \<Rightarrow> bool" where
  "others_run w xs ys \<longleftrightarrow> px_meanwhile w
     = (\<lambda>g. snd (gov_exec (px_wire w) xs g), \<lambda>g. snd (gov_exec (px_wire w) ys g))"

lemma trip_governor_run:
  "\<exists>rec. length rec \<le> 1 \<and> (\<forall>x \<in> set rec. \<exists>r h. x = OpRecord (px_done_at w) rid r h \<and> cr_task r = pc_task c)
     \<and> trip_governor c w model hash rid t g = snd (gov_exec v rec g)"
proof (cases "\<exists>r. t = TripResponse r \<and> snd (relay_reads (px_client w) (rs_reads r))")
  case True
  then obtain r where "t = TripResponse r" "snd (relay_reads (px_client w) (rs_reads r))" by blast
  then show ?thesis
    by (intro exI [of _ "[OpRecord (px_done_at w) rid (completed_call c w model r) hash]"])
      (simp add: trip_governor_def completed_call_def Let_def)
next
  case False
  then have "trip_governor c w model hash rid t g = g"
    by (cases t) (auto simp: trip_governor_def)
  then show ?thesis by (intro exI [of _ "[]"]) simp
qed

lemma cloud_ServeHTTP_run:
  assumes "others_run w xs ys"
  shows "cs_gov (cloud_ServeHTTP c w rq s) = cs_gov s
    \<or> (\<exists>model body rid mid. fst (CheckBeforeForward (px_wire w) (px_check_at w) (pc_task c) model body (cs_gov s)) = Admitted rid
        \<and> length (filter (\<lambda>x. x \<notin> set xs \<union> set ys) mid) \<le> 1 \<and> length mid \<le> length xs + length ys + 1
        \<and> (\<forall>x \<in> set mid. x \<in> set xs \<union> set ys \<or> (\<exists>r h. x = OpRecord (px_done_at w) rid r h \<and> cr_task r = pc_task c))
        \<and> cs_gov (cloud_ServeHTTP c w rq s)
          = snd (gov_exec (px_wire w) (OpCheck (px_check_at w) (pc_task c) model body # mid @ [OpRelease rid]) (cs_gov s)))"
proof -
  obtain t d evs where rt: "RoundTrip (px_wire w) (px_transport w) = (t, d, evs)" by (cases "RoundTrip (px_wire w) (px_transport w)")
  have none: "filter (\<lambda>x. x \<notin> set xs \<union> set ys) ys = []" "filter (\<lambda>x. x \<notin> set xs \<union> set ys) xs = []"
    by (auto simp: filter_empty_conv)
  show ?thesis
  proof (rule cloud_ServeHTTP_cases [OF rt, of c rq s])
    fix es
    assume "cs_gov (cloud_ServeHTTP c w rq s) = cs_gov s
       \<or> (\<exists>model body rid g. CheckBeforeForward (px_wire w) (px_check_at w) (pc_task c) model body (cs_gov s) = (Admitted rid, g)
            \<and> cs_gov (cloud_ServeHTTP c w rq s) = ReleaseReservation rid (snd (px_meanwhile w) g))"
    then show ?thesis
    proof (elim disjE exE conjE)
      fix model body rid g
      assume "CheckBeforeForward (px_wire w) (px_check_at w) (pc_task c) model body (cs_gov s) = (Admitted rid, g)"
        "cs_gov (cloud_ServeHTTP c w rq s) = ReleaseReservation rid (snd (px_meanwhile w) g)"
      with assms none show ?thesis
        by (intro disjI2 exI [of _ model] exI [of _ body] exI [of _ rid] exI [of _ ys])
          (simp add: others_run_def gov_exec_append)
    qed simp
  next
    fix h body model hash rid g es
    assume fwd: "forwarded c w rq s h body model hash rid g"
      and gov: "cs_gov (cloud_ServeHTTP c w rq s)
         = ReleaseReservation rid (snd (px_meanwhile w) (trip_governor c w model hash rid t (fst (px_meanwhile w) g)))"
    obtain rec where rec: "length rec \<le> 1"
      "\<forall>x \<in> set rec. \<exists>r h. x = OpRecord (px_done_at w) rid r h \<and> cr_task r = pc_task c"
      "trip_governor c w model hash rid t (fst (px_meanwhile w) g) = snd (gov_exec (px_wire w) rec (fst (px_meanwhile w) g))"
      using trip_governor_run [of w rid c model hash t "fst (px_meanwhile w) g" "px_wire w"] by blast
    have "length (filter (\<lambda>x. x \<notin> set xs \<union> set ys) rec) \<le> 1"
      using rec(1) length_filter_le [of "\<lambda>x. x \<notin> set xs \<union> set ys" rec] by linarith
    with fwd gov rec none assms show ?thesis
      by (intro disjI2 exI [of _ model] exI [of _ body] exI [of _ rid] exI [of _ "xs @ rec @ ys"])
        (auto simp: forwarded_def others_run_def gov_exec_append)
  qed
qed

end
