(* ===== verification/Cloud_Props.thy ===== *)
theory Cloud_Props
  imports Cloud_Proxy_Laws
begin

text \<open>
  The properties of the cloud proxy and its governor, each with a witness, and two observations:
  a request whose estimate wraps around passes a ceiling that is already reached, and a call whose
  client goes away before the end of the body is never recorded.
\<close>

section \<open>Concrete inputs for the witnesses\<close>

definition plain_wire :: wire_env where
  "plain_wire = \<lparr>we_usage = (\<lambda>_. Some \<lparr>us_input = 10, us_output = 20, us_cache_creation = 0, us_cache_read = 0\<rparr>),
     we_type = (\<lambda>_. None), we_start = (\<lambda>_. None), we_delta = (\<lambda>_. None),
     we_max_tokens = (\<lambda>b. Some (if b = ''huge'' then 0x7FFFFFFFFFFFFFFF else 100)),
     we_probe = (\<lambda>_. Some (''m'', '''')), we_blocks = (\<lambda>_. None), we_object = (\<lambda>_. None),
     we_string = (\<lambda>_. None), we_strings = (\<lambda>_. None), we_emit_strings = (\<lambda>_. ''''),
     we_emit_object = (\<lambda>_. None), we_time = (\<lambda>_. None)\<rparr>"

definition plain_limits :: limits where
  "plain_limits = \<lparr>li_daily = 10, li_monthly = 150, li_ceiling = 500, li_ratio = round64 (4 / 5),
     li_cache = round64 (1 / 2), li_est = 50000\<rparr>"

definition plain_call :: call_record where
  "plain_call = \<lparr>cr_task = ''t'', cr_model = ''m'',
     cr_usage = \<lparr>us_input = 10, us_output = 20, us_cache_creation = 0, us_cache_read = 0\<rparr>,
     cr_usd = 9, cr_status = ''ok'', cr_duration = 5\<rparr>"

definition plain_ops :: "gov_op list" where
  "plain_ops = [OpCheck 0 ''t'' ''m'' ''body'', OpRecord 0 1 plain_call '''', OpRelease 1]"

section \<open>The governor\<close>


lemma plain_estimate: "estimateRequest plain_wire li t ''m'' ''body'' = (101, 0)"
proof -
  have "PriceFor ''m'' t = None"
    by (rule unknown_model_has_no_price) (simp add: pricingTable_def priceRow_def)
  then show ?thesis
    by (simp add: estimateRequest_def parseEstimateProbe_def plain_wire_def input_estimate_def
        estRequestBytesPerToken_def output_estimate_def)
qed

lemmas gov_eval = plain_ops_def CheckBeforeForward_def plain_estimate record_frame Let_def reserveLocked_def
  NewGovernor_def plain_limits_def fadd_def dayAgg_def new_agg_def ReleaseReservation_def release_frame
  recordLocked_def plain_call_def BillableCeilingTokens_def


text \<open>
  The estimate is added in 64 bits.  A request that asks for the largest number of output tokens, for
  a model without a price, is admitted for a task that has used up its ceiling.
\<close>

lemma huge_request_passes_the_ceiling:
  assumes "li = plain_limits\<lparr>li_daily := 0, li_monthly := 0\<rparr>"
    and "g = (NewGovernor li)\<lparr>gv_tokens := (\<lambda>_. 500)\<rparr>"
  shows "fst (CheckBeforeForward plain_wire t task ''m'' ''huge'' g) = Admitted 1"
    and "sint (gv_task_reserved (snd (CheckBeforeForward plain_wire t task ''m'' ''huge'' g)) task) < 0"
proof -
  have "PriceFor ''m'' t = None"
    by (rule unknown_model_has_no_price) (simp add: pricingTable_def priceRow_def)
  then have "estimateRequest plain_wire li t ''m'' ''huge'' = (0x8000000000000000, 0)"
    by (simp add: estimateRequest_def parseEstimateProbe_def plain_wire_def input_estimate_def
        estRequestBytesPerToken_def output_estimate_def)
  then show "fst (CheckBeforeForward plain_wire t task ''m'' ''huge'' g) = Admitted 1"
    "sint (gv_task_reserved (snd (CheckBeforeForward plain_wire t task ''m'' ''huge'' g)) task) < 0"
    by (simp_all add: assms CheckBeforeForward_def reserveLocked_def NewGovernor_def plain_limits_def Let_def)
qed

text \<open>
  C13. Whatever happens after a start of the daemon, each alarm of a day fires at most once, and it
  has fired by the last recorded call of the day if its condition then holds.
\<close>

theorem each_alarm_fires_once_a_day:
  "let run = gov_exec v ops (Boot evs li) in
     alarms_on d a (fst run) \<le> 1
     \<and> (list_ex (recorded_on d) (fst run) \<and> due li a (dayAgg d (snd run)) \<longrightarrow> alarms_on d a (fst run) = 1)"
proof -
  define run where "run = gov_exec v ops (Boot evs li)"
  have count: "alarms_on d a (fst run) = fired_count a (dayAgg d (snd run))"
    using gov_exec_alarms [of d a v ops "Boot evs li"] by (simp add: run_def boot_unfired)
  moreover have "fired a (dayAgg d (snd run))"
    if "list_ex (recorded_on d) (fst run)" "due li a (dayAgg d (snd run))"
    using that gov_exec_missed [of d "Boot evs li" v ops]
    by (simp add: run_def no_alarm_missed_def gov_exec_limits boot_fresh)
  ultimately show ?thesis by (simp add: run_def Let_def)
qed

lemma each_alarm_fires_once_a_day_witness:
  "alarms_on (utc_day 0) Alarm80 (fst (gov_exec plain_wire plain_ops (Boot [] plain_limits))) = 1"
proof -
  have a: "spendAlarmRatio80 = 3602879701896397 / 4503599627370496" "round64 9 = 9"
    "fmul 10 (3602879701896397 / 4503599627370496) = 8" by code_simp+
  have "list_ex (recorded_on (utc_day 0)) (fst (gov_exec plain_wire plain_ops (Boot [] plain_limits)))"
    by (simp add: plain_ops_def)
  moreover have "due plain_limits Alarm80 (dayAgg (utc_day 0) (snd (gov_exec plain_wire plain_ops (Boot [] plain_limits))))"
    by (simp add: gov_eval RecordUsage_def agg_hash_def agg_alarms_def agg_call_def crosses_def Boot_def a)
  ultimately show ?thesis
    using each_alarm_fires_once_a_day [of plain_wire plain_ops "[]" plain_limits "utc_day 0" Alarm80]
    by (simp add: Let_def)
qed


text \<open>
  C27. The tokens reserved for a task are those of its requests in flight.  Once none is in flight, a
  request that fits beside the tokens already spent is not refused for the ceiling.
\<close>

theorem reservations_never_linger:
  assumes "length ops < 2 ^ 64" and "g = snd (gov_exec v ops (Boot evs li))"
  shows "gv_task_reserved g task = live_sum (claim_of task) g
    \<and> (gv_live g = Map.empty
       \<and> sint (gv_tokens g task + fst (estimateRequest v li t model body)) \<le> sint (li_ceiling li)
       \<longrightarrow> fst (CheckBeforeForward v t task model body g) \<noteq> Blocked MsgTaskCeiling)"
proof -
  have "pools_ok g"
    unfolding assms(2) by (rule gov_exec_pools) (use assms(1) in \<open>simp_all add: boot_pools boot_fresh\<close>)
  then have reserved: "gv_task_reserved g task = live_sum (claim_of task) g" by (simp add: pools_ok_def)
  have "gv_limits g = li" by (simp add: assms(2) gov_exec_limits boot_fresh)
  with reserved show ?thesis
    by (auto simp: CheckBeforeForward_def Let_def live_sum_def split_beta)
qed

lemma reservations_never_linger_witness:
  "fst (CheckBeforeForward plain_wire 5 ''t'' ''m'' ''body'' (snd (gov_exec plain_wire plain_ops (Boot [] plain_limits))))
     \<noteq> Blocked MsgTaskCeiling"
  using reservations_never_linger [OF _ refl, of plain_ops plain_wire "[]" plain_limits "''t''" 5 "''m''" "''body''"]
  by (simp add: gov_eval Boot_def releaseLocked_def)

section \<open>The proxy\<close>

text \<open>
  C29. A call is tried at most as often as configured and not once more after its first verdict:
  every attempt before the last got a retryable answer, and the last settled the call unless all
  attempts are used up.
\<close>

theorem retries_stop_at_the_first_verdict:
  assumes "RoundTrip v tr = (t, d, evs)"
  shows "1 \<le> rd_attempts d \<and> rd_attempts d \<le> max_inline (tr_max tr)
    \<and> attempt_numbers evs = [1..<Suc (rd_attempts d)]
    \<and> (\<forall>i. 1 \<le> i \<and> i < rd_attempts d \<longrightarrow> retryable_attempt tr i)
    \<and> (if t = TripExhausted
       then rd_attempts d = max_inline (tr_max tr) \<and> retryable_attempt tr (rd_attempts d)
       else \<not> retryable_attempt tr (rd_attempts d))"
proof (rule RoundTrip_cases [of v tr])
  fix evs'
  assume "RoundTrip v tr = (TripExhausted, \<lparr>rd_attempts = max_inline (tr_max tr), rd_reason = '''', rd_exhausted = True\<rparr>, evs')"
    "\<And>i. 1 \<le> i \<Longrightarrow> i \<le> max_inline (tr_max tr) \<Longrightarrow> retryable_attempt tr i"
    "attempt_numbers evs' = [1..<Suc (max_inline (tr_max tr))]"
  with assms max_inline_pos [of "tr_max tr"] show ?thesis by auto
next
  fix n t' d' evs'
  assume n: "1 \<le> n" "n \<le> max_inline (tr_max tr)" "\<And>i. 1 \<le> i \<Longrightarrow> i < n \<Longrightarrow> retryable_attempt tr i"
    and settled: "settle_attempt n (tr_upstream tr n) = Some (t', d')"
    and run: "RoundTrip v tr = (t', d', evs')" "attempt_numbers evs' = [1..<Suc n]"
  have "t' \<noteq> TripExhausted" "rd_attempts d' = n" using settle_cases [OF settled] by auto
  with assms n settled run show ?thesis by (simp add: retryable_attempt_def)
qed

definition flaky_upstream :: "nat \<Rightarrow> attempt" where
  "flaky_upstream n = Answered \<lparr>rs_status = (if n < 3 then 529 else 200), rs_retry_after = ''2'',
     rs_content_type = '''', rs_reads = [''a'', ''b''], rs_last = ''c'', rs_eof = True\<rparr>"

definition flaky_transport :: transport where
  "flaky_transport = \<lparr>tr_max = 3, tr_base = 0, tr_factor = 2, tr_jitter = 0, tr_rand = (\<lambda>_. 0), tr_now = (\<lambda>_. 0),
     tr_upstream = flaky_upstream\<rparr>"

lemma flaky_trip:
  "RoundTrip plain_wire flaky_transport
     = (TripResponse \<lparr>rs_status = 200, rs_retry_after = ''2'', rs_content_type = '''', rs_reads = [''a'', ''b''],
          rs_last = ''c'', rs_eof = True\<rparr>, \<lparr>rd_attempts = 3, rd_reason = '''', rd_exhausted = False\<rparr>,
        [Attempted 1 529 '''', Slept 2000000000, Attempted 2 529 '''', Slept 2000000000, Attempted 3 200 ''''])"
  by code_simp

lemma retries_stop_at_the_first_verdict_witness:
  "retryable_attempt flaky_transport 2 \<and> \<not> retryable_attempt flaky_transport 3"
  using retries_stop_at_the_first_verdict [OF flaky_trip] by simp


lemma header_get_upd [simp]:
  "header_get (h(k := None)) k = ''''" "k \<noteq> k' \<Longrightarrow> header_get (h(k := x)) k' = header_get h k'"
  by (simp_all add: header_get_def)





definition plain_world :: proxy_world where
  "plain_world = \<lparr>px_wire = plain_wire, px_transport = flaky_transport, px_client = None, px_check_at = 0,
     px_done_at = 1, px_duration = 1, px_override = '''', px_keychain = Some ''key'', px_meanwhile = (\<lambda>g. g, \<lambda>g. g)\<rparr>"

definition plain_cfg :: proxy_cfg where
  "plain_cfg = \<lparr>pc_task = ''t'', pc_trace = ''tr'', pc_token = ''tok'', pc_upstream = ''u'', pc_mode = ''keychain'',
     pc_env = ''prod'', pc_credential = True, pc_governor = True, pc_notifier = True, pc_ledger = True,
     pc_pause = True, pc_on_unreachable = True, pc_on_nonretryable = True, pc_gate = None\<rparr>"

definition plain_request :: cloud_request where
  "plain_request = \<lparr>cq_headers = [''X-Api-Key'' \<mapsto> [''tok'']], cq_length = 4, cq_body = Some ''body''\<rparr>"

definition plain_state :: cloud_state where
  "plain_state = \<lparr>cs_gov = NewGovernor plain_limits, cs_store = empty_store, cs_warned = False, cs_count = 0, cs_out = []\<rparr>"

lemma plain_forwarded:
  "cs_out (cloud_ServeHTTP plain_cfg (plain_world\<lparr>px_client := cl\<rparr>) plain_request plain_state)
     = sent_steps [''X-Api-Key'' \<mapsto> [''key'']] ''body'' (snd (snd (RoundTrip plain_wire flaky_transport)))
       @ trip_effects plain_cfg (plain_world\<lparr>px_client := cl\<rparr>) ''m'' '''' 1 (fst (RoundTrip plain_wire flaky_transport))
           (fst (snd (RoundTrip plain_wire flaky_transport)))
           (snd (CheckBeforeForward plain_wire 0 ''t'' ''m'' ''body'' (NewGovernor plain_limits)))"
proof -
  have "readAndRestoreBody plain_request = Some ''body''" "checkLocalAuth plain_cfg (cq_headers plain_request)"
    by (simp_all add: readAndRestoreBody_def plain_request_def proxyRequestMaxBytes_def checkLocalAuth_def
        header_get_def plain_cfg_def)
  moreover obtain g where "CheckBeforeForward plain_wire 0 ''t'' ''m'' ''body'' (NewGovernor plain_limits) = (Admitted 1, g)"
    by (simp add: gov_eval)
  moreover have "shapeFable5Body plain_wire ''body'' = (''body'', False)" "probeRequest plain_wire ''body'' = (''m'', '''')"
    by (simp_all add: shapeFable5Body_def probeRequest_def plain_wire_def)
  moreover have "director_headers plain_cfg (Some (''X-Api-Key'', ''key'')) (cq_headers plain_request) = [''X-Api-Key'' \<mapsto> [''key'']]"
    by (simp add: director_headers_def plain_cfg_def plain_request_def fun_eq_iff Let_def)
  ultimately show ?thesis
    by (simp add: cloud_ServeHTTP_def serve_gated_def serve_body_def serve_reserved_def UpstreamAuth_def Let_def
        plain_world_def plain_cfg_def plain_state_def forward_request_out del: fun_upd_apply)
qed




text \<open>
  C25. Every request is answered exactly once, and the daemon hears of its fate at most once: a call is
  recorded, or reported unreachable, or reported failed, never unreachable and recorded.
\<close>

theorem one_fate_per_request:
  assumes "cs_out s = []" and "es = cs_out (cloud_ServeHTTP c w rq s)"
  shows "length (filter is_reply es) = 1
    \<and> length (filter is_recorded es) \<le> 1 \<and> length (filter is_fate es) \<le> 1
    \<and> (CloudUnreachable \<in> set es \<longrightarrow> filter is_recorded es = []
         \<and> fst (RoundTrip (px_wire w) (px_transport w)) = TripExhausted)"
proof -
  obtain t d evs where rt: "RoundTrip (px_wire w) (px_transport w) = (t, d, evs)"
    by (cases "RoundTrip (px_wire w) (px_transport w)")
  have quiet: "filter is_recorded xs = []" "filter is_fate xs = []" "CloudUnreachable \<notin> set xs"
    if "list_all unremarkable xs" for xs
    using that by (auto simp: list_all_iff unremarkable_def filter_empty_conv)
  show ?thesis
  proof (rule cloud_ServeHTTP_cases [OF rt, of c rq s])
    fix xs assume "cs_out (cloud_ServeHTTP c w rq s) = cs_out s @ xs" "quiet_answer xs"
    with assms quiet [of xs] show ?thesis by simp
  next
    fix h body model hash rid g xs
    assume out: "cs_out (cloud_ServeHTTP c w rq s) = cs_out s @ xs @ sent_steps h body evs
         @ trip_effects c w model hash rid t d (fst (px_meanwhile w) g)"
      "list_all unremarkable xs" "filter is_reply xs = []"
    let ?tail = "trip_effects c w model hash rid t d (fst (px_meanwhile w) g)"
    have es: "es = xs @ sent_steps h body evs @ ?tail" using assms out(1) by simp
    have sent: "CloudUnreachable \<notin> set (sent_steps h body evs)" by (auto dest: sent_steps_effects)
    have no: "CloudUnreachable \<notin> set (done_effects c w model hash rid d r g')" for r g'
      by (auto simp: done_effects_def)
    have "length (filter is_reply ?tail) = 1 \<and> length (filter is_recorded ?tail) \<le> 1
      \<and> length (filter is_fate ?tail) \<le> 1
      \<and> (CloudUnreachable \<in> set ?tail \<longrightarrow> filter is_recorded ?tail = [] \<and> t = TripExhausted)"
      by (cases t) (simp_all add: trip_effects_def done_effects_filters no image_iff)
    then show ?thesis
      using quiet [OF out(2)] out(3) sent rt by (simp add: es)
  qed
qed

lemma one_fate_per_request_witness:
  "length (filter is_recorded (cs_out (cloud_ServeHTTP plain_cfg plain_world plain_request plain_state))) \<le> 1"
  using one_fate_per_request [OF _ refl, of plain_state plain_cfg plain_world plain_request]
  by (simp add: plain_state_def)

section \<open>Metering\<close>

text \<open>The usage of a call does not depend on how its body was cut into reads.\<close>

lemma usage_independent_of_cutting:
  assumes "rs_content_type r = rs_content_type r'"
    and "concat (rs_reads r) @ rs_last r = concat (rs_reads r') @ rs_last r'"
  shows "observed_usage v r = observed_usage v r'"
proof -
  have "fold (feedSSE v) (rs_reads x @ [rs_last x]) (no_usage, '''')
      = feedSSE v (concat (rs_reads x) @ rs_last x) (no_usage, '''')" for x :: response
    using fold_feedSSE [of "rs_reads x @ [rs_last x]" v "(no_usage, '''')"] by simp
  with assms show ?thesis by (simp add: observed_usage_def)
qed

text \<open>
  A call of which the client takes the whole body is recorded.  If the client goes away before the end,
  the copying stops without another read, the call is not recorded, and the provider's refusal of it
  does not reach the task, although the provider has been called.
\<close>

lemma relay_reads_all: "snd (relay_reads None cs)"
  by (induction cs) (simp_all add: split_beta)

lemma attentive_client_is_recorded:
  "pc_ledger c \<Longrightarrow> px_client w = None \<Longrightarrow>
     filter is_recorded (trip_effects c w model hash rid (TripResponse r) d g)
       = [Governed (Ledgered (ModelCall (completed_call c w model r)))]"
  by (simp add: trip_effects_def relay_reads_all done_effects_filters)

lemma departed_client_is_not_recorded:
  "filter is_recorded (cs_out (cloud_ServeHTTP plain_cfg (plain_world\<lparr>px_client := Some 1\<rparr>) plain_request plain_state)) = []"
  "SentUpstream [''X-Api-Key'' \<mapsto> [''key'']] ''body''
     \<in> set (cs_out (cloud_ServeHTTP plain_cfg (plain_world\<lparr>px_client := Some 1\<rparr>) plain_request plain_state))"
  unfolding plain_forwarded flaky_trip
  by (simp_all add: trip_effects_def plain_world_def) (simp add: sent_steps_def)

end
