(* ===== verification/Fs_Tree.thy ===== *)
theory Fs_Tree
  imports Go_Path
begin

text \<open>
  A Unix file system as the file tools see it: inodes, directories as lists of names with their inode
  numbers, symbolic links as text.  \<open>walk\<close> is the resolution of a path, by the kernel from the root
  (\<open>confined = False\<close>) or by Go's \<open>os.Root\<close> from an open directory, which refuses every step that
  would leave it (\<open>confined = True\<close>).  Processes hold on to inodes, not to names: an open directory
  stays the same directory when its name comes to mean something else.
\<close>

datatype inode = Dir "(string \<times> nat) list" | File nat string | Link string

record tree =
  nodes :: "nat \<rightharpoonup> inode"
  fresh :: nat

definition root_ino :: nat where "root_ino = 0"

datatype fs_errno = ENOENT | EEXIST | ENOTDIR | EISDIR | ELOOP | ENOTEMPTY | EPERM | EINVAL
  | EscapesRoot | OtherErrno nat

definition listing :: "tree \<Rightarrow> nat \<Rightarrow> (string \<times> nat) list option" where
  "listing t d = (case nodes t d of Some (Dir es) \<Rightarrow> Some es | _ \<Rightarrow> None)"

definition children :: "tree \<Rightarrow> nat \<Rightarrow> (string \<rightharpoonup> nat) option" where
  "children t d = map_option map_of (listing t d)"

definition child :: "tree \<Rightarrow> nat \<Rightarrow> string \<Rightarrow> nat option" where
  "child t d c = (case children t d of Some es \<Rightarrow> es c | None \<Rightarrow> None)"

section \<open>Path resolution\<close>

text \<open>
  The inode a path leads to, with the names and inodes of the directories on the way, innermost
  first and the starting point last; or the directory a missing last component would be in.
\<close>

type_synonym trail = "(string \<times> nat) list"

datatype found = Found trail | Missing trail string

definition at_end :: "trail \<Rightarrow> nat" where "at_end stk = snd (hd stk)"

function walk :: "bool \<Rightarrow> bool \<Rightarrow> tree \<Rightarrow> nat \<Rightarrow> trail \<Rightarrow> string list \<Rightarrow> fs_errno + found" where
  "walk confined follow t k stk [] = Inr (Found stk)"
| "walk confined follow t k stk (c # cs) =
     (case children t (at_end stk) of
        None \<Rightarrow> Inl ENOTDIR
      | Some es \<Rightarrow>
          if c = '''' \<or> c = ''.'' then walk confined follow t k stk cs
          else if c = ''..'' then
            (if tl stk \<noteq> [] then walk confined follow t k (tl stk) cs
             else if confined then Inl EscapesRoot
             else walk confined follow t k stk cs)
          else case es c of
            None \<Rightarrow> if cs = [] then Inr (Missing stk c) else Inl ENOENT
          | Some i \<Rightarrow>
              (case nodes t i of
                 Some (Link target) \<Rightarrow>
                   if cs = [] \<and> \<not> follow then Inr (Found ((c, i) # stk))
                   else if k = 0 then Inl ELOOP
                   else if is_rooted target then
                     (if confined then Inl EscapesRoot
                      else walk confined follow t (k - 1) [last stk] (path_elements target @ cs))
                   else walk confined follow t (k - 1) stk (path_elements target @ cs)
               | _ \<Rightarrow> walk confined follow t k ((c, i) # stk) cs))"
  by pat_completeness auto
termination
  by (relation "measures [\<lambda>(_, _, _, k, _, _). k, \<lambda>(_, _, _, _, _, cs). length cs]") auto

declare walk.simps(2) [simp del]

text \<open>Descending by directory entries alone, without following any link.\<close>

primrec plain :: "tree \<Rightarrow> nat \<Rightarrow> string list \<Rightarrow> nat option" where
  "plain t d [] = Some d"
| "plain t d (c # cs) = (case child t d c of Some i \<Rightarrow> plain t i cs | None \<Rightarrow> None)"

definition is_link :: "tree \<Rightarrow> nat \<Rightarrow> bool" where
  "is_link t i \<longleftrightarrow> (case nodes t i of Some (Link _) \<Rightarrow> True | _ \<Rightarrow> False)"

definition is_dir :: "tree \<Rightarrow> nat \<Rightarrow> bool" where
  "is_dir t i \<longleftrightarrow> (case nodes t i of Some (Dir _) \<Rightarrow> True | _ \<Rightarrow> False)"

fun trail_ok :: "tree \<Rightarrow> trail \<Rightarrow> bool" where
  "trail_ok t [] = False"
| "trail_ok t [(c, d)] = True"
| "trail_ok t ((c, i) # (c', d) # stk) = (child t d c = Some i \<and> plain_element c \<and> trail_ok t ((c', d) # stk))"

definition trail_names :: "trail \<Rightarrow> string list" where
  "trail_names stk = rev (map fst (butlast stk))"

definition kernel_start :: trail where "kernel_start = [('''', root_ino)]"

section \<open>Operations\<close>

definition as_found :: "fs_errno + found \<Rightarrow> fs_errno + trail" where
  "as_found r = (case r of Inl e \<Rightarrow> Inl e | Inr (Found stk) \<Rightarrow> Inr stk | Inr (Missing stk c) \<Rightarrow> Inl ENOENT)"

text \<open>\<open>os.Lstat\<close> and \<open>filepath.EvalSymlinks\<close> of an absolute path, given by its elements.\<close>

definition lstat :: "nat \<Rightarrow> tree \<Rightarrow> string list \<Rightarrow> fs_errno + inode" where
  "lstat k t es = (case as_found (walk False False t k kernel_start es) of
     Inl e \<Rightarrow> Inl e
   | Inr stk \<Rightarrow> (case nodes t (at_end stk) of Some n \<Rightarrow> Inr n | None \<Rightarrow> Inl ENOENT))"

definition eval_symlinks :: "tree \<Rightarrow> string list \<Rightarrow> fs_errno + string list" where
  "eval_symlinks t es = (case as_found (walk False True t 255 kernel_start es) of
     Inl e \<Rightarrow> Inl e | Inr stk \<Rightarrow> Inr (trail_names stk))"

definition set_node :: "nat \<Rightarrow> inode \<Rightarrow> tree \<Rightarrow> tree" where
  "set_node i n t = t\<lparr>nodes := (nodes t)(i \<mapsto> n)\<rparr>"

definition put_entry :: "string \<Rightarrow> nat option \<Rightarrow> (string \<times> nat) list \<Rightarrow> (string \<times> nat) list" where
  "put_entry c i es = (case i of None \<Rightarrow> [] | Some j \<Rightarrow> [(c, j)]) @ filter (\<lambda>e. fst e \<noteq> c) es"

definition set_entry :: "nat \<Rightarrow> string \<Rightarrow> nat option \<Rightarrow> tree \<Rightarrow> tree" where
  "set_entry d c i t = (case listing t d of None \<Rightarrow> t | Some es \<Rightarrow> set_node d (Dir (put_entry c i es)) t)"

text \<open>A new inode under a name of an open directory.\<close>

definition add_node :: "nat \<Rightarrow> string \<Rightarrow> inode \<Rightarrow> tree \<Rightarrow> tree" where
  "add_node d c n t = (set_entry d c (Some (fresh t)) (set_node (fresh t) n t))\<lparr>fresh := Suc (fresh t)\<rparr>"

text \<open>
  The methods of \<open>os.Root\<close> for one name: only a plain element names an entry, and nothing can be
  found or made in a directory removed since it was opened.
\<close>

definition at_entry :: "tree \<Rightarrow> nat \<Rightarrow> string \<Rightarrow> fs_errno + nat" where
  "at_entry t d c =
     (if \<not> plain_element c then Inl EINVAL
      else case children t d of
        None \<Rightarrow> Inl (if nodes t d = None then ENOENT else ENOTDIR)
      | Some es \<Rightarrow> (case es c of None \<Rightarrow> Inl ENOENT | Some i \<Rightarrow> Inr i))"

definition root_Lstat :: "nat \<Rightarrow> string \<Rightarrow> tree \<Rightarrow> fs_errno + inode" where
  "root_Lstat d c t = (case at_entry t d c of
     Inl e \<Rightarrow> Inl e
   | Inr i \<Rightarrow> (case nodes t i of Some n \<Rightarrow> Inr n | None \<Rightarrow> Inl ENOENT))"

definition root_Mkdir :: "nat \<Rightarrow> string \<Rightarrow> tree \<Rightarrow> (fs_errno + unit) \<times> tree" where
  "root_Mkdir d c t = (case at_entry t d c of
     Inr i \<Rightarrow> (Inl EEXIST, t)
   | Inl e \<Rightarrow> if e = ENOENT \<and> nodes t d \<noteq> None then (Inr (), add_node d c (Dir []) t) else (Inl e, t))"

text \<open>
  \<open>Root.OpenRoot\<close>, \<open>Root.Open\<close> and \<open>Root.ReadFile\<close> follow links inside the root, eight at most.
\<close>

definition root_walk :: "nat \<Rightarrow> string \<Rightarrow> tree \<Rightarrow> fs_errno + nat" where
  "root_walk d c t =
     (if \<not> plain_element c then Inl EINVAL
      else map_sum id at_end (as_found (walk True True t 8 [('''', d)] [c])))"

definition root_OpenRoot :: "nat \<Rightarrow> string \<Rightarrow> tree \<Rightarrow> fs_errno + nat" where
  "root_OpenRoot d c t = (case root_walk d c t of
     Inl e \<Rightarrow> Inl e | Inr i \<Rightarrow> if is_dir t i then Inr i else Inl ENOTDIR)"

definition file_bytes :: "tree \<Rightarrow> nat \<Rightarrow> fs_errno + string" where
  "file_bytes t i = (case nodes t i of
     Some (File p b) \<Rightarrow> Inr b | Some (Dir es) \<Rightarrow> Inl EISDIR | _ \<Rightarrow> Inl ENOENT)"

definition root_ReadFile :: "nat \<Rightarrow> string \<Rightarrow> tree \<Rightarrow> fs_errno + string" where
  "root_ReadFile d c t = (case root_walk d c t of Inl e \<Rightarrow> Inl e | Inr i \<Rightarrow> file_bytes t i)"

text \<open>\<open>Root.OpenFile\<close> with \<open>O_CREATE|O_EXCL\<close>: a link counts as existing.\<close>

definition root_Create :: "nat \<Rightarrow> string \<Rightarrow> nat \<Rightarrow> tree \<Rightarrow> (fs_errno + nat) \<times> tree" where
  "root_Create d c perm t = (case at_entry t d c of
     Inr i \<Rightarrow> (Inl EEXIST, t)
   | Inl e \<Rightarrow> if e = ENOENT \<and> nodes t d \<noteq> None then (Inr (fresh t), add_node d c (File perm []) t) else (Inl e, t))"

definition fd_Write :: "nat \<Rightarrow> string \<Rightarrow> tree \<Rightarrow> (fs_errno + unit) \<times> tree" where
  "fd_Write i bytes t = (case nodes t i of
     Some (File perm old) \<Rightarrow> (Inr (), set_node i (File perm (old @ bytes)) t) | _ \<Rightarrow> (Inl EPERM, t))"

definition fd_Chmod :: "nat \<Rightarrow> nat \<Rightarrow> tree \<Rightarrow> (fs_errno + unit) \<times> tree" where
  "fd_Chmod i perm t = (case nodes t i of
     Some (File p b) \<Rightarrow> (Inr (), set_node i (File perm b) t) | _ \<Rightarrow> (Inl EPERM, t))"

definition is_empty_dir :: "tree \<Rightarrow> nat \<Rightarrow> bool" where
  "is_empty_dir t i \<longleftrightarrow> listing t i = Some []"

text \<open>\<open>Root.Remove\<close>: a file, a link or an empty directory; a removed directory is of no more use to anyone.\<close>

definition root_Remove :: "nat \<Rightarrow> string \<Rightarrow> tree \<Rightarrow> (fs_errno + unit) \<times> tree" where
  "root_Remove d c t = (case at_entry t d c of
     Inl e \<Rightarrow> (Inl e, t)
   | Inr i \<Rightarrow> if is_dir t i \<and> \<not> is_empty_dir t i then (Inl ENOTEMPTY, t)
       else if is_dir t i then (Inr (), (set_entry d c None t)\<lparr>nodes := (nodes (set_entry d c None t))(i := None)\<rparr>)
       else (Inr (), set_entry d c None t))"

text \<open>\<open>Root.Rename\<close> within one directory; what it replaces is a file or a link, never a directory.\<close>

definition root_Rename :: "nat \<Rightarrow> string \<Rightarrow> string \<Rightarrow> tree \<Rightarrow> (fs_errno + unit) \<times> tree" where
  "root_Rename d old new t = (case at_entry t d old of
     Inl e \<Rightarrow> (Inl e, t)
   | Inr i \<Rightarrow> (case at_entry t d new of
         Inl ENOENT \<Rightarrow> (Inr (), set_entry d new (Some i) (set_entry d old None t))
       | Inl e \<Rightarrow> (Inl e, t)
       | Inr j \<Rightarrow> if is_dir t j then (Inl EISDIR, t)
           else if i = j then (Inr (), t)
           else if is_dir t i then (Inl ENOTDIR, t)
           else (Inr (), set_entry d new (Some i) (set_entry d old None t))))"

text \<open>\<open>os.OpenRoot\<close>, \<open>os.ReadFile\<close>, \<open>os.WriteFile\<close>, \<open>os.MkdirAll\<close>, \<open>os.Remove\<close> of an absolute path.\<close>

definition OpenRoot :: "nat \<Rightarrow> string list \<Rightarrow> tree \<Rightarrow> fs_errno + nat" where
  "OpenRoot k es t = (case as_found (walk False True t k kernel_start es) of
     Inl e \<Rightarrow> Inl e | Inr stk \<Rightarrow> if is_dir t (at_end stk) then Inr (at_end stk) else Inl ENOTDIR)"

definition ReadFile :: "nat \<Rightarrow> string list \<Rightarrow> tree \<Rightarrow> fs_errno + string" where
  "ReadFile k es t = (case as_found (walk False True t k kernel_start es) of
     Inl e \<Rightarrow> Inl e | Inr stk \<Rightarrow> file_bytes t (at_end stk))"

definition WriteFile :: "nat \<Rightarrow> string list \<Rightarrow> string \<Rightarrow> nat \<Rightarrow> tree \<Rightarrow> (fs_errno + unit) \<times> tree" where
  "WriteFile k es bytes perm t = (case walk False True t k kernel_start es of
     Inl e \<Rightarrow> (Inl e, t)
   | Inr (Missing stk c) \<Rightarrow> (Inr (), add_node (at_end stk) c (File perm bytes) t)
   | Inr (Found stk) \<Rightarrow> (case nodes t (at_end stk) of
         Some (File p b) \<Rightarrow> (Inr (), set_node (at_end stk) (File p bytes) t)
       | Some (Dir ds) \<Rightarrow> (Inl EISDIR, t)
       | _ \<Rightarrow> (Inl ENOENT, t)))"

text \<open>\<open>os.OpenFile\<close> with \<open>O_CREATE|O_EXCL\<close>, which does not follow a link in the last place.\<close>

definition CreateFile :: "nat \<Rightarrow> string list \<Rightarrow> nat \<Rightarrow> tree \<Rightarrow> (fs_errno + nat) \<times> tree" where
  "CreateFile k es perm t = (case walk False False t k kernel_start es of
     Inl e \<Rightarrow> (Inl e, t)
   | Inr (Found stk) \<Rightarrow> (Inl EEXIST, t)
   | Inr (Missing stk c) \<Rightarrow> (Inr (fresh t), add_node (at_end stk) c (File perm []) t))"

text \<open>Every missing directory on the way is made; an existing one may be reached through a link.\<close>

fun mkdirs :: "nat \<Rightarrow> string list \<Rightarrow> string list \<Rightarrow> tree \<Rightarrow> (fs_errno + unit) \<times> tree" where
  "mkdirs k done [] t = (Inr (), t)"
| "mkdirs k done (c # cs) t = (case walk False False t k kernel_start (done @ [c]) of
     Inl e \<Rightarrow> (Inl e, t)
   | Inr (Missing stk x) \<Rightarrow> mkdirs k (done @ [c]) cs (add_node (at_end stk) x (Dir []) t)
   | Inr (Found _) \<Rightarrow> (case as_found (walk False True t k kernel_start (done @ [c])) of
         Inl e \<Rightarrow> (Inl (if e = ENOENT then EEXIST else e), t)
       | Inr stk \<Rightarrow> if is_dir t (at_end stk) then mkdirs k (done @ [c]) cs t else (Inl ENOTDIR, t)))"

definition MkdirAll :: "nat \<Rightarrow> string list \<Rightarrow> tree \<Rightarrow> (fs_errno + unit) \<times> tree" where
  "MkdirAll k es t = mkdirs k [] es t"

definition RemoveFile :: "nat \<Rightarrow> string list \<Rightarrow> tree \<Rightarrow> (fs_errno + unit) \<times> tree" where
  "RemoveFile k es t = (case as_found (walk False False t k kernel_start es) of
     Inl e \<Rightarrow> (Inl e, t)
   | Inr stk \<Rightarrow> (case tl stk of [] \<Rightarrow> (Inl EPERM, t) | (_, d) # _ \<Rightarrow> root_Remove d (fst (hd stk)) t))"

end
