(* ===== verification/Go_Encoding.thy ===== *)
theory Go_Encoding
  imports Canon
begin

text \<open>
  Two encodings of Go's standard library the file tools bind an approval to: \<open>base64.StdEncoding\<close>
  and the string literals of \<open>encoding/json\<close>.  Both are shown to lose nothing: decoding the
  encoded bytes gives them back, and a literal read up to its closing quote gives its text.
\<close>

section \<open>Base 64\<close>

definition b64_char :: "nat \<Rightarrow> char" where
  "b64_char n = (if n < 26 then char_of (65 + n) else if n < 52 then char_of (71 + n)
     else if n < 62 then char_of (n - 4) else if n = 62 then CHR ''+'' else CHR ''/'')"

definition b64_digit :: "char \<Rightarrow> nat option" where
  "b64_digit c = (let n = of_char c :: nat in
     if 65 \<le> n \<and> n \<le> 90 then Some (n - 65)
     else if 97 \<le> n \<and> n \<le> 122 then Some (n - 71)
     else if 48 \<le> n \<and> n \<le> 57 then Some (n + 4)
     else if n = 43 then Some 62 else if n = 47 then Some 63 else None)"

abbreviation pad :: char where "pad \<equiv> CHR ''=''"

fun b64_encode_groups :: "nat list \<Rightarrow> string" where
  "b64_encode_groups [] = []"
| "b64_encode_groups [a] = [b64_char (a div 4), b64_char (a mod 4 * 16), pad, pad]"
| "b64_encode_groups [a, b] =
     [b64_char (a div 4), b64_char (a mod 4 * 16 + b div 16), b64_char (b mod 16 * 4), pad]"
| "b64_encode_groups (a # b # c # rest) =
     b64_char (a div 4) # b64_char (a mod 4 * 16 + b div 16) # b64_char (b mod 16 * 4 + c div 64)
       # b64_char (c mod 64) # b64_encode_groups rest"

definition base64_encode :: "string \<Rightarrow> string" where
  "base64_encode s = b64_encode_groups (map of_char s)"

text \<open>
  The decoder skips carriage returns and newlines anywhere, wants full groups of four, padding in the
  last one only, and does not look at the bits a padded group leaves over.
\<close>

fun b64_decode_groups :: "string \<Rightarrow> string option" where
  "b64_decode_groups [] = Some []"
| "b64_decode_groups (a # b # c # d # rest) =
     (case (b64_digit a, b64_digit b) of
        (Some w, Some x) \<Rightarrow>
          (if c = pad \<and> d = pad \<and> rest = [] then Some [char_of (w * 4 + x div 16)]
           else case b64_digit c of
             None \<Rightarrow> None
           | Some y \<Rightarrow>
               if d = pad \<and> rest = [] then Some [char_of (w * 4 + x div 16), char_of (x mod 16 * 16 + y div 4)]
               else (case (b64_digit d, b64_decode_groups rest) of
                   (Some z, Some bs) \<Rightarrow> Some (char_of (w * 4 + x div 16)
                       # char_of (x mod 16 * 16 + y div 4) # char_of (y mod 4 * 64 + z) # bs)
                 | _ \<Rightarrow> None))
      | _ \<Rightarrow> None)"
| "b64_decode_groups _ = None"

definition base64_decode :: "string \<Rightarrow> string option" where
  "base64_decode s = b64_decode_groups (filter (\<lambda>c. c \<noteq> CHR 0x0D \<and> c \<noteq> CHR 0x0A) s)"

lemma b64_char_code: "n < 64 \<Longrightarrow> of_char (b64_char n) =
   (if n < 26 then 65 + n else if n < 52 then 71 + n else if n < 62 then n - 4 else if n = 62 then 43 else 47)"
  by (auto simp: b64_char_def)

lemma b64_digit_char [simp]: "n < 64 \<Longrightarrow> b64_digit (b64_char n) = Some n"
  by (simp add: b64_digit_def b64_char_code Let_def) linarith

lemma b64_char_plain [simp]: "b64_char n \<noteq> pad" "b64_char n \<noteq> CHR 0x0D" "b64_char n \<noteq> CHR 0x0A"
proof -
  have "of_char (b64_char n) \<notin> {61, 13, 10 :: nat}" by (simp add: b64_char_def) linarith
  then show "b64_char n \<noteq> pad" "b64_char n \<noteq> CHR 0x0D" "b64_char n \<noteq> CHR 0x0A"
    by (auto dest: arg_cong [where f = "of_char :: char \<Rightarrow> nat"])
qed

lemma b64_bytes: "a < 256 \<Longrightarrow> a div 4 < 64" "a mod 4 * 16 < (64 :: nat)" "b < 256 \<Longrightarrow> a mod 4 * 16 + b div 16 < 64"
  "b mod 16 * 4 < (64 :: nat)" "c < 256 \<Longrightarrow> b mod 16 * 4 + c div 64 < 64" "c mod 64 < (64 :: nat)"
  for a b c :: nat
  by simp_all

lemma b64_joins:
  "b < 256 \<Longrightarrow> a div 4 * 4 + (a mod 4 * 16 + b div 16) div 16 = a"
  "c < 256 \<Longrightarrow> (a mod 4 * 16 + b div 16) mod 16 * 16 + (b mod 16 * 4 + c div 64) div 4 = b mod 256"
  "(b mod 16 * 4 + c div 64) mod 4 * 64 + c mod 64 = c mod 256"
  for a b c :: nat
  using mod_mult2_eq [of b 16 16] mod_mult2_eq [of c 64 4]
  by (simp_all add: div_mult2_eq [symmetric])

lemma b64_decode_groups:
  "list_all (\<lambda>b. b < 256) bs \<Longrightarrow> b64_decode_groups (b64_encode_groups bs) = Some (map char_of bs)"
proof (induction bs rule: b64_encode_groups.induct)
  case (2 a)
  then have "a div 4 * 4 + a mod 4 * 16 div 16 = a" by simp
  with 2 show ?case by (simp add: b64_bytes)
next
  case (3 a b)
  then have "b < 256" by simp
  with 3 b64_joins(1) [of b a] b64_joins(2) [of 0 a b] show ?case
    by (simp add: b64_bytes)
next
  case (4 a b c rest)
  then have c: "a < 256" "b < 256" "c < 256" by simp_all
  with 4 c b64_joins(1) [of b a] b64_joins(2) [of c a b] b64_joins(3) [of b c] show ?case
    by (simp add: b64_bytes)
qed simp

lemma b64_encode_plain:
  "c \<in> set (b64_encode_groups bs) \<Longrightarrow> c \<noteq> CHR 0x0D \<and> c \<noteq> CHR 0x0A"
  by (induction bs rule: b64_encode_groups.induct) auto

theorem base64_roundtrip [simp]: "base64_decode (base64_encode s) = Some s"
proof -
  have b: "list_all (\<lambda>b. b < 256) (map of_char s :: nat list)" by (simp add: list_all_iff)
  have "filter (\<lambda>c. c \<noteq> CHR 0x0D \<and> c \<noteq> CHR 0x0A) (base64_encode s) = base64_encode s"
    using b64_encode_plain by (intro filter_True) (auto simp: base64_encode_def)
  with b64_decode_groups [OF b] show ?thesis by (simp add: base64_decode_def base64_encode_def comp_def)
qed

section \<open>JSON string literals\<close>

definition hex_digit4 :: "nat \<Rightarrow> string" where
  "hex_digit4 n = [hex_char (n div 4096 mod 16), hex_char (n div 256 mod 16), hex_char (n div 16 mod 16),
     hex_char (n mod 16)]"

text \<open>
  How one rune is written, with HTML escaping on as \<open>json.Marshal\<close> has it: the quote, the backslash,
  control characters, the three characters of markup and the two line separators are escaped.
\<close>

definition json_rune :: "rune \<Rightarrow> string" where
  "json_rune r =
     (if r = 34 \<or> r = 92 then [CHR 0x5C, char_of r]
      else if r = 8 then CHR 0x5C # ''b''
      else if r = 9 then CHR 0x5C # ''t''
      else if r = 10 then CHR 0x5C # ''n''
      else if r = 12 then CHR 0x5C # ''f''
      else if r = 13 then CHR 0x5C # ''r''
      else if r < 32 \<or> r = 38 \<or> r = 60 \<or> r = 62 \<or> r = 0x2028 \<or> r = 0x2029
      then CHR 0x5C # CHR ''u'' # hex_digit4 r
      else utf8_encode [r])"

function json_escape_bytes :: "nat list \<Rightarrow> string" where
  "json_escape_bytes bs =
     (if bs = [] then []
      else case decode_rune bs of (r, n) \<Rightarrow>
        (if r = rune_error \<and> n = 1 then CHR 0x5C # ''ufffd'' else json_rune r)
          @ json_escape_bytes (drop (max 1 n) bs))"
  by pat_completeness auto
termination
  by (relation "measure length") auto

declare json_escape_bytes.simps [simp del]

definition json_escape :: "string \<Rightarrow> string" where
  "json_escape s = json_escape_bytes (map of_char s)"

definition quote :: char where "quote = CHR 0x22"

definition json_string :: "string \<Rightarrow> string" where
  "json_string s = quote # json_escape s @ [quote]"

text \<open>Valid UTF-8: the encoding of a list of runes.\<close>

definition utf8_text :: "string \<Rightarrow> bool" where
  "utf8_text s \<longleftrightarrow> (\<exists>rs. list_all valid_rune rs \<and> s = utf8_encode rs)"

lemma json_escape_runes:
  "list_all valid_rune rs \<Longrightarrow> json_escape (utf8_encode rs) = concat (map json_rune rs)"
proof (induction rs)
  case Nil
  then show ?case by (simp add: json_escape_def utf8_encode_def json_escape_bytes.simps)
next
  case (Cons r rs)
  have bytes: "map of_char (utf8_encode rs) = concat (map encode_rune rs)" for rs
    unfolding utf8_encode_def map_map by (rule map_idI) (auto dest: encode_rune_bytes)
  have d: "decode_rune (encode_rune r @ concat (map encode_rune rs)) = (r, length (encode_rune r))"
    and n: "encode_rune r \<noteq> []"
    using decode_encode_rune [of r] Cons.prems by simp_all
  have "r = rune_error \<Longrightarrow> length (encode_rune r) = 3"
    by (simp add: encode_rune_def rune_error_def valid_rune_def Let_def)
  moreover have "max 1 (length (encode_rune r)) = length (encode_rune r)" using n by (cases "encode_rune r") auto
  ultimately have "json_escape_bytes (map of_char (utf8_encode (r # rs)))
      = json_rune r @ json_escape_bytes (map of_char (utf8_encode rs))"
    using n by (subst json_escape_bytes.simps) (auto simp: bytes d)
  with Cons show ?case by (simp add: json_escape_def)
qed

text \<open>
  Reading a literal back, up to the closing quote: the text and what follows.  This reader is for the
  proofs; it understands what \<open>json_rune\<close> writes.
\<close>

definition prepend :: "string \<Rightarrow> (string \<times> string) option \<Rightarrow> (string \<times> string) option" where
  "prepend a = map_option (\<lambda>(x, y). (a @ x, y))"

function json_read :: "string \<Rightarrow> (string \<times> string) option" where
  "json_read [] = None"
| "json_read (c # cs) =
     (if c = quote then Some ([], cs)
      else if c \<noteq> CHR 0x5C then prepend [c] (json_read cs)
      else case cs of [] \<Rightarrow> None
      | e # es \<Rightarrow>
          if e = CHR ''u'' then
            (case map hex_value (take 4 es) of
               [Some i, Some j, Some k, Some l] \<Rightarrow>
                 prepend (utf8_encode [i * 4096 + j * 256 + k * 16 + l]) (json_read (drop 4 es))
             | _ \<Rightarrow> None)
          else prepend [if e = CHR ''b'' then CHR 8 else if e = CHR ''t'' then CHR 9 else if e = CHR ''n'' then CHR 10
                else if e = CHR ''f'' then CHR 12 else if e = CHR ''r'' then CHR 13 else e] (json_read es))"
  by pat_completeness auto
termination
  by (relation "measure length") auto

declare json_read.simps(2) [simp del]

lemma hex_digit4_read: "n < 65536 \<Longrightarrow>
  (\<exists>i j k l. map hex_value (hex_digit4 n) = [Some i, Some j, Some k, Some l] \<and> i * 4096 + j * 256 + k * 16 + l = n)"
  using mod_mult2_eq [of n 16 4096] mod_mult2_eq [of "n div 16" 16 256] mod_mult2_eq [of "n div 256" 16 16]
  by (simp add: hex_digit4_def hex_value_hex_char div_mult2_eq [symmetric])

lemma prepend_twice: "prepend a (prepend b x) = prepend (a @ b) x"
  by (cases x) (auto simp: prepend_def)

lemma prepend_nil: "prepend [] x = x"
  by (cases x) (auto simp: prepend_def)

lemma json_read_raw:
  "\<forall>c \<in> set cs. c \<noteq> quote \<and> c \<noteq> CHR 0x5C \<Longrightarrow> json_read (cs @ rest) = prepend cs (json_read rest)"
  by (induction cs) (simp_all add: json_read.simps(2) prepend_twice prepend_nil)

lemma high_bytes:
  assumes "0x80 \<le> r" and "b \<in> set (encode_rune r)"
  shows "0x80 \<le> b"
  using assms by (auto simp: encode_rune_def Let_def rune_error_def split: if_splits)

lemma utf8_raw:
  assumes "r \<noteq> 34" and "r \<noteq> 92" and "c \<in> set (utf8_encode [r])"
  shows "c \<noteq> quote \<and> c \<noteq> CHR 0x5C"
proof -
  obtain b where b: "b \<in> set (encode_rune r)" "c = char_of b" using assms(3) by (auto simp: utf8_encode_def)
  then have code: "of_char c = b" using encode_rune_bytes [OF b(1)] by simp
  have "b \<noteq> 34 \<and> b \<noteq> 92"
  proof (cases "r < 0x80")
    case True
    with b(1) assms show ?thesis by (simp add: encode_rune_def valid_rune_def)
  next
    case False
    with high_bytes [OF _ b(1)] show ?thesis by simp
  qed
  with code show ?thesis by (auto simp: quote_def)
qed

lemma ascii_rune: "r < 0x80 \<Longrightarrow> utf8_encode [r] = [char_of r]"
  by (simp add: utf8_encode_def encode_rune_def valid_rune_def)

lemma escaped_chars: "char_of (34 :: nat) = CHR 0x22" "char_of (92 :: nat) = CHR 0x5C"
  "char_of (8 :: nat) = CHR 0x08" "char_of (9 :: nat) = CHR 0x09" "char_of (10 :: nat) = CHR 0x0A"
  "char_of (12 :: nat) = CHR 0x0C" "char_of (13 :: nat) = CHR 0x0D"
  using char_of_char [of "CHR 0x22", where 'a = nat] char_of_char [of "CHR 0x5C", where 'a = nat]
    char_of_char [of "CHR 0x08", where 'a = nat] char_of_char [of "CHR 0x09", where 'a = nat]
    char_of_char [of "CHR 0x0A", where 'a = nat] char_of_char [of "CHR 0x0C", where 'a = nat]
    char_of_char [of "CHR 0x0D", where 'a = nat]
  by simp_all

lemma json_read_rune: "json_read (json_rune r @ rest) = prepend (utf8_encode [r]) (json_read rest)"
proof -
  consider "r = 34" | "r = 92" | "r = 8" | "r = 9" | "r = 10" | "r = 12" | "r = 13"
    | "r \<notin> {34, 92, 8, 9, 10, 12, 13}" "r < 32 \<or> r = 38 \<or> r = 60 \<or> r = 62 \<or> r = 0x2028 \<or> r = 0x2029"
    | "r \<notin> {34, 92, 8, 9, 10, 12, 13}" "\<not> (r < 32 \<or> r = 38 \<or> r = 60 \<or> r = 62 \<or> r = 0x2028 \<or> r = 0x2029)"
    by auto
  then show ?thesis
  proof cases
    case 8
    then have "r < 65536" by auto
    from hex_digit4_read [OF this] obtain i j k l where
      h: "map hex_value (hex_digit4 r) = [Some i, Some j, Some k, Some l]" "i * 4096 + j * 256 + k * 16 + l = r"
      by (elim exE conjE) (rule that)
    have t: "take 4 (hex_digit4 r @ rest) = hex_digit4 r" "drop 4 (hex_digit4 r @ rest) = rest"
      by (simp_all add: hex_digit4_def)
    have "json_rune r = CHR 0x5C # CHR ''u'' # hex_digit4 r" using 8 by (auto simp: json_rune_def)
    with h t show ?thesis by (simp add: json_read.simps(2) quote_def)
  next
    case 9
    then have "json_rune r = utf8_encode [r]" by (simp add: json_rune_def)
    with json_read_raw [of "utf8_encode [r]"] utf8_raw [of r] 9 show ?thesis by simp
  qed (simp_all add: json_rune_def json_read.simps(2) quote_def ascii_rune escaped_chars)
qed

theorem json_read_string:
  assumes "utf8_text s"
  shows "json_read (json_escape s @ quote # rest) = Some (s, rest)"
proof -
  obtain rs where rs: "list_all valid_rune rs" "s = utf8_encode rs" using assms by (auto simp: utf8_text_def)
  have "json_read (concat (map json_rune rs) @ quote # rest) = Some (utf8_encode rs, rest)"
  proof (induction rs)
    case Nil
    then show ?case by (simp add: json_read.simps(2) utf8_encode_def)
  next
    case (Cons r rs)
    then show ?case
      using utf8_encode_append [of "[r]" rs] by (simp add: json_read_rune prepend_def)
  qed
  with rs json_escape_runes [OF rs(1)] show ?thesis by simp
qed

end
