(* ===== verification/Fs_Tool.thy ===== *)
theory Fs_Tool
  imports Fs_Tree Go_Encoding Egress Policy_Engine
begin

text \<open>
  \<open>mcp/fs\<close>: the file tools \<open>fs_read\<close>, \<open>fs_write\<close> and \<open>fs_delete\<close> with their undo recipes
  (\<open>paths.go\<close>, \<open>server.go\<close>, \<open>undo.go\<close>), wired to the policy engine and the egress gate as
  \<open>internal/server/fs.go\<close> wires them.

  The handlers run on a \<open>tool_state\<close>: the file system, the daemon's database, the registry of undo
  records and the object databases of git.  \<open>fw_turns\<close> says, system call by system call, what other
  processes do to the file system just before the call and whether the call fails; a used-up list
  means that nobody interferes any more.  \<open>fw_touched\<close> lists the changes the tools themselves asked
  for, call by call.

  Parameters are the glob matcher and the Unicode functions, git's \<open>rev-parse\<close> and hash, the limit
  the kernel puts on links, the umask, the working directory, and the content classifier.  Permission
  bits of directories are not modelled; the JSONL lines are not.
\<close>

section \<open>State\<close>

record undo_record =
  ur_tool :: string
  ur_match :: string
  ur_op :: string
  ur_ancestor :: string
  ur_rel :: string
  ur_task :: string
  ur_trace :: string
  ur_had_prev :: bool
  ur_pre_hash :: string
  ur_git_root :: string
  ur_git_blob :: string
  ur_copy_path :: string
  ur_trash_path :: string

datatype touch = Entry nat string | Content nat | AtPath string

record tool_state =
  fw_tree :: tree
  fw_turns :: "((tree \<Rightarrow> tree) \<times> fs_errno option) list"
  fw_db :: store
  fw_undo :: "string \<rightharpoonup> undo_record"
  fw_blobs :: "string \<times> string \<rightharpoonup> string"
  fw_touched :: "touch list"

record fs_env =
  fe_home :: string
  fe_cwd :: string
  fe_deny_globs :: "string list"
  fe_secret_globs :: "string list"
  fe_trash :: string
  fe_undo_dir :: string
  fe_engine :: engine
  fe_deny_all :: bool
  fe_ledger :: bool
  fe_marker :: bool
  fe_classifier :: "(string \<Rightarrow> bool) option"
  fe_unicode :: unicode_env
  fe_glob :: "string \<Rightarrow> string \<Rightarrow> bool option"
  fe_lower :: "string \<Rightarrow> string"
  fe_links :: nat
  fe_umask :: "nat \<Rightarrow> nat"
  fe_git_root :: "tree \<Rightarrow> string \<Rightarrow> string option"
  fe_git_clean :: "string \<Rightarrow> string \<Rightarrow> string"
  fe_git_sha :: "string \<Rightarrow> string"

datatype fs_refusal = ReasonDenyAll | ReasonOf reason

datatype fs_error =
    FsErrno fs_errno
  | ErrEmptyPath
  | ForbiddenRune rune
  | BadGlob string
  | DenyGlobHit string
  | InvalidBase64
  | PolicyFailed go_error
  | PolicyRefused fs_refusal
  | FullDiskAccessError string
  | PlantedLink string
  | NotDirectory string
  | TempExhausted
  | ErrNoUndoRecord
  | PreImageMismatch
  | NeverReturns

type_synonym 'a fs = "(tool_state, fs_error + 'a) state"

definition fs_try :: "(tool_state, 'e + 'a) state \<Rightarrow> ('e \<Rightarrow> 'f) \<Rightarrow> ('a \<Rightarrow> (tool_state, 'f + 'b) state)
    \<Rightarrow> (tool_state, 'f + 'b) state" where
  "fs_try m h k = do { r \<leftarrow> m; case r of Inl e \<Rightarrow> ret (Inl (h e)) | Inr x \<Rightarrow> k x }"

text \<open>A system call, and one that only looks; a computation on the database.\<close>

definition sys_act :: "(tree \<Rightarrow> (fs_errno + 'a) \<times> tree) \<Rightarrow> tool_state \<Rightarrow> (fs_errno + 'a) \<times> tool_state" where
  "sys_act f s = (case f (fw_tree s) of (r, t) \<Rightarrow> (r, s\<lparr>fw_tree := t\<rparr>))"

definition sys :: "touch option \<Rightarrow> (tree \<Rightarrow> (fs_errno + 'a) \<times> tree) \<Rightarrow> (tool_state, fs_errno + 'a) state" where
  "sys w f = State (\<lambda>s0. let s = s0\<lparr>fw_touched := fw_touched s0 @ (case w of Some x \<Rightarrow> [x] | None \<Rightarrow> [])\<rparr> in
     case fw_turns s of
       [] \<Rightarrow> sys_act f s
     | (others, fault) # ts \<Rightarrow> (let s' = s\<lparr>fw_tree := others (fw_tree s), fw_turns := ts\<rparr> in
         case fault of Some e \<Rightarrow> (Inl e, s') | None \<Rightarrow> sys_act f s'))"

definition look :: "(tree \<Rightarrow> fs_errno + 'a) \<Rightarrow> (tool_state, fs_errno + 'a) state" where
  "look f = sys None (\<lambda>t. (f t, t))"

definition on_db :: "(store, 'a) state \<Rightarrow> (tool_state, 'a) state" where
  "on_db m = State (\<lambda>s. case run_state m (fw_db s) of (a, d) \<Rightarrow> (a, s\<lparr>fw_db := d\<rparr>))"

section \<open>Paths\<close>

record canonical_path =
  cp_op :: string
  cp_match :: string
  cp_ancestor :: string
  cp_rel :: string

definition expandHome :: "string \<Rightarrow> string \<Rightarrow> string" where
  "expandHome path home =
     (if path = ''~'' then home
      else if is_prefix ''~/'' path then path_join [home, drop 2 path] else path)"

definition filepath_Abs :: "fs_env \<Rightarrow> string \<Rightarrow> string" where
  "filepath_Abs v p = (if is_rooted p then path_clean p else path_join [fe_cwd v, p])"

text \<open>
  \<open>split_up\<close> is the loop of \<open>splitExistingAncestor\<close>; the elements of \<open>cur\<close> come last one first, so
  \<open>filepath.Dir\<close> removes the head, and the root is its own parent.
\<close>

definition resolve_up :: "string list \<Rightarrow> string list \<Rightarrow> (tool_state, fs_errno + string list \<times> string list) state" where
  "resolve_up up trailing = fs_try (look (\<lambda>t. eval_symlinks t (rev up))) id (\<lambda>d. ret (Inr (d, trailing)))"

fun split_up :: "fs_env \<Rightarrow> string list \<Rightarrow> string list \<Rightarrow> (tool_state, fs_errno + string list \<times> string list) state" where
  "split_up v [] trailing = do {
     r \<leftarrow> look (\<lambda>t. lstat (fe_links v) t []);
     case r of
       Inr _ \<Rightarrow> resolve_up [] trailing
     | Inl e \<Rightarrow> if e \<noteq> ENOENT then ret (Inl e) else resolve_up [] trailing
   }"
| "split_up v (c # up) trailing = do {
     r \<leftarrow> look (\<lambda>t. lstat (fe_links v) t (rev (c # up)));
     case r of
       Inr _ \<Rightarrow> resolve_up (c # up) trailing
     | Inl e \<Rightarrow> if e \<noteq> ENOENT then ret (Inl e) else split_up v up (c # trailing)
   }"

definition splitExistingAncestor :: "fs_env \<Rightarrow> string \<Rightarrow> (tool_state, fs_errno + string \<times> string) state" where
  "splitExistingAncestor v p = fs_try (split_up v (rev (path_elements p)) []) id
     (\<lambda>(d, trailing). ret (Inr (path_text d, path_join trailing)))"

definition resolveDeepestExisting :: "fs_env \<Rightarrow> string \<Rightarrow> (tool_state, fs_errno + string) state" where
  "resolveDeepestExisting v p = fs_try (splitExistingAncestor v p) id
     (\<lambda>(ancestor, trailing). ret (Inr (if trailing = '''' then ancestor else path_join [ancestor, trailing])))"

definition forbidden_runes :: "rune list" where
  "forbidden_runes = [0x200B, 0x200C, 0x200D, 0x200E, 0x200F, 0x202A, 0x202B, 0x202C, 0x202D, 0x202E,
     0x2060, 0x2066, 0x2067, 0x2068, 0x2069, 0xFEFF]"

definition firstForbiddenRune :: "string \<Rightarrow> rune option" where
  "firstForbiddenRune s = find (\<lambda>r. r \<in> set forbidden_runes) (utf8_decode s)"

definition fs_Canonicalize :: "fs_env \<Rightarrow> string \<Rightarrow> canonical_path fs" where
  "fs_Canonicalize v raw =
     (if trim_space raw = '''' then ret (Inl ErrEmptyPath)
      else let p = path_clean (filepath_Abs v (expandHome raw (fe_home v))) in
        fs_try (resolveDeepestExisting v p) FsErrno (\<lambda>op.
        fs_try (splitExistingAncestor v (path_dir op)) FsErrno (\<lambda>(ancestor, trailing).
          let rel = path_join [trailing, path_base op]; match = nfc (fe_unicode v) op in
          case firstForbiddenRune match of
            Some r \<Rightarrow> ret (Inl (ForbiddenRune r))
          | None \<Rightarrow> ret (Inr \<lparr>cp_op = op, cp_match = match, cp_ancestor = ancestor, cp_rel = rel\<rparr>))))"

fun MatchesAnyGlobCI :: "fs_env \<Rightarrow> string \<Rightarrow> string list \<Rightarrow> fs_error + bool" where
  "MatchesAnyGlobCI v path [] = Inr False"
| "MatchesAnyGlobCI v path (g # gs) =
     (case fe_glob v (fe_lower v g) (fe_lower v path) of
        None \<Rightarrow> Inl (BadGlob g)
      | Some b \<Rightarrow> if b then Inr True else MatchesAnyGlobCI v path gs)"

section \<open>The policy client and the ledger\<close>

record fs_decision =
  pd_result :: decision_result
  pd_reason :: fs_refusal
  pd_class :: action_class
  pd_token :: string

definition client_Check :: "fs_env \<Rightarrow> string \<Rightarrow> string \<Rightarrow> string \<Rightarrow> string \<Rightarrow> fs_decision fs" where
  "client_Check v tool task trace input =
     (if fe_deny_all v then ret (Inr \<lparr>pd_result = ResultDeny, pd_reason = ReasonDenyAll,
                                      pd_class = no_class, pd_token = ''''\<rparr>)
      else do {
        r \<leftarrow> on_db (Check (fe_engine v) \<lparr>ci_tool = tool, ci_scope = ''global'', ci_task = task, ci_trace = trace,
               ci_session = '''', ci_tool_input = input\<rparr>);
        case r of
          (d, Some e) \<Rightarrow> ret (Inl (PolicyFailed e))
        | (d, None) \<Rightarrow> ret (Inr \<lparr>pd_result = d_result d, pd_reason = ReasonOf (d_reason d),
                                  pd_class = d_class d, pd_token = d_token d\<rparr>)
      })"

definition client_ConsumeToken :: "fs_env \<Rightarrow> string \<Rightarrow> string \<Rightarrow> action_class \<Rightarrow> string \<Rightarrow> string \<Rightarrow> string
    \<Rightarrow> unit fs" where
  "client_ConsumeToken v token tool class task trace input =
     fs_try (on_db (ConsumeToken (fe_engine v) \<lparr>co_token = token, co_tool = tool, co_class = class,
        co_scope = ''global'', co_task = task, co_trace = trace, co_tool_input = input\<rparr>))
       PolicyFailed (\<lambda>x. ret (Inr x))"

definition fs_logAndLedger :: "fs_env \<Rightarrow> string \<Rightarrow> string \<Rightarrow> payload \<Rightarrow> (tool_state, unit) state" where
  "fs_logAndLedger v trace kind p =
     (if fe_ledger v then do { _ \<leftarrow> on_db (LogEvent trace kind ((''event'', JStr kind) # p)); ret () } else ret ())"

definition buildToolInput :: "string \<Rightarrow> string option \<Rightarrow> string" where
  "buildToolInput path content =
     (let b64 = (case content of None \<Rightarrow> '''' | Some c \<Rightarrow> base64_encode c)
      in CHR ''{'' # json_string ''path'' @ CHR '':'' # json_string path
         @ (if b64 = '''' then '''' else CHR '','' # json_string ''content_base64'' @ CHR '':'' # json_string b64)
         @ ''}'')"

section \<open>Confined descent\<close>

definition open_level :: "nat \<Rightarrow> string \<Rightarrow> nat fs" where
  "open_level d name = fs_try (look (root_OpenRoot d name)) FsErrno (\<lambda>i. ret (Inr i))"

definition descendOneLevel :: "nat \<Rightarrow> string \<Rightarrow> nat fs" where
  "descendOneLevel d name = do {
     m \<leftarrow> sys (Some (Entry d name)) (root_Mkdir d name);
     case m of
       Inr _ \<Rightarrow> open_level d name
     | Inl e \<Rightarrow>
         if e \<noteq> EEXIST \<and> e \<noteq> ENOTEMPTY then ret (Inl (FsErrno e))
         else fs_try (look (root_Lstat d name)) FsErrno (\<lambda>info. case info of
                Link _ \<Rightarrow> ret (Inl (PlantedLink name))
              | File _ _ \<Rightarrow> ret (Inl (NotDirectory name))
              | Dir _ \<Rightarrow> open_level d name)
   }"

definition descendOneLevelReadOnly :: "nat \<Rightarrow> string \<Rightarrow> nat fs" where
  "descendOneLevelReadOnly d name = fs_try (look (root_Lstat d name)) FsErrno (\<lambda>info. case info of
     Link _ \<Rightarrow> ret (Inl (PlantedLink name))
   | _ \<Rightarrow> open_level d name)"

fun walk_steps :: "(nat \<Rightarrow> string \<Rightarrow> nat fs) \<Rightarrow> nat \<Rightarrow> string list \<Rightarrow> nat fs" where
  "walk_steps step d [] = ret (Inr d)"
| "walk_steps step d (c # cs) = fs_try (step d c) id (\<lambda>d'. walk_steps step d' cs)"

definition walkConfined :: "(nat \<Rightarrow> string \<Rightarrow> nat fs) \<Rightarrow> nat \<Rightarrow> string \<Rightarrow> (nat \<times> string) fs" where
  "walkConfined step d rel =
     (let parts = split_on slash (path_clean rel)
      in fs_try (walk_steps step d (butlast parts)) id (\<lambda>d'. ret (Inr (d', last parts))))"

definition descendConfined :: "nat \<Rightarrow> string \<Rightarrow> (nat \<times> string) fs" where
  "descendConfined d rel = walkConfined descendOneLevel d rel"

definition descendConfinedReadOnly :: "nat \<Rightarrow> string \<Rightarrow> (nat \<times> string) fs" where
  "descendConfinedReadOnly d rel = walkConfined descendOneLevelReadOnly d rel"

section \<open>Atomic write\<close>

fun hex_fixed :: "nat \<Rightarrow> nat \<Rightarrow> string" where
  "hex_fixed 0 n = []"
| "hex_fixed (Suc k) n = hex_fixed k (n div 16) @ [hex_char (n mod 16)]"

text \<open>\<open>fmt.Sprintf("%x", time.Now().UnixNano())\<close>, of an \<open>int64\<close>.\<close>

definition nanos_hex :: "int \<Rightarrow> string" where
  "nanos_hex t = (if t = 0 then ''0''
     else (if t < 0 then ''-'' else '''') @ dropWhile (\<lambda>c. c = CHR ''0'') (hex_fixed 16 (nat \<bar>t\<bar>)))"

definition randHex :: "nat \<Rightarrow> (tool_state, string) state" where
  "randHex n = do {
     r \<leftarrow> on_db (rand_read n);
     case r of
       Inr b \<Rightarrow> ret (hex_encode b)
     | Inl _ \<Rightarrow> do { t \<leftarrow> on_db now; ret (nanos_hex t) }
   }"

definition temp_prefix :: string where "temp_prefix = ''.kahya-fswrite-''"

fun rootCreateTemp :: "fs_env \<Rightarrow> nat \<Rightarrow> nat \<Rightarrow> (string \<times> nat) fs" where
  "rootCreateTemp v 0 d = ret (Inl TempExhausted)"
| "rootCreateTemp v (Suc k) d = do {
     h \<leftarrow> randHex 8;
     let name = temp_prefix @ h;
     r \<leftarrow> sys (Some (Entry d name)) (root_Create d name (fe_umask v 384));
     case r of
       Inr i \<Rightarrow> ret (Inr (name, i))
     | Inl e \<Rightarrow> if e \<noteq> EEXIST \<and> e \<noteq> ENOTEMPTY then ret (Inl (FsErrno e)) else rootCreateTemp v k d
   }"

text \<open>After a failed step the temporary file is removed, whatever comes of that.\<close>

definition or_remove :: "nat \<Rightarrow> string \<Rightarrow> (tool_state, fs_errno + unit) state \<Rightarrow> unit fs \<Rightarrow> unit fs" where
  "or_remove d name m k = do {
     r \<leftarrow> m;
     case r of
       Inr _ \<Rightarrow> k
     | Inl e \<Rightarrow> do { _ \<leftarrow> sys (Some (Entry d name)) (root_Remove d name); ret (Inl (FsErrno e)) }
   }"

definition rootedWrite :: "fs_env \<Rightarrow> string \<Rightarrow> string \<Rightarrow> string \<Rightarrow> unit fs" where
  "rootedWrite v ancestor rel content =
     fs_try (look (OpenRoot (fe_links v) (path_elements ancestor))) FsErrno (\<lambda>root.
     fs_try (descendConfined root rel) id (\<lambda>(d, leaf).
     fs_try (rootCreateTemp v 10000 d) id (\<lambda>(tmp, i).
       or_remove d tmp (sys (Some (Content i)) (fd_Write i content))
         (or_remove d tmp (sys (Some (Content i)) (fd_Chmod i 384))
           (or_remove d tmp (sys (Some (Entry d leaf)) (root_Rename d tmp leaf))
             (ret (Inr ())))))))"

definition rootReadFileConfined :: "fs_env \<Rightarrow> string \<Rightarrow> string \<Rightarrow> string fs" where
  "rootReadFileConfined v ancestor rel =
     fs_try (look (OpenRoot (fe_links v) (path_elements ancestor))) FsErrno (\<lambda>root.
     fs_try (descendConfinedReadOnly root rel) id (\<lambda>(d, leaf).
     fs_try (look (root_ReadFile d leaf)) FsErrno (\<lambda>b. ret (Inr b))))"

section \<open>Checkpoint of the pre-image\<close>

definition taskDirName :: "string \<Rightarrow> string" where
  "taskDirName task0 =
     (let task = trim_space task0 in
      if task = '''' \<or> task = ''.'' \<or> task = ''..'' \<or> CHR ''/'' \<in> set task \<or> CHR 0x5C \<in> set task
         \<or> str_index task ''..'' \<noteq> None
      then ''_unscoped'' else task)"

definition copyPreImage :: "fs_env \<Rightarrow> string \<Rightarrow> string \<Rightarrow> string \<Rightarrow> (tool_state, fs_errno + string) state" where
  "copyPreImage v task match data =
     (let dir = path_join [fe_undo_dir v, taskDirName task];
          dest = path_join [dir, sha256_hex match] in
      fs_try (sys (Some (AtPath dir)) (MkdirAll (fe_links v) (path_elements dir))) id (\<lambda>_.
      fs_try (sys (Some (AtPath dest)) (WriteFile (fe_links v) (path_elements dest) data (fe_umask v 384))) id (\<lambda>_.
        ret (Inr dest))))"

definition gitRepoRootFor :: "fs_env \<Rightarrow> string \<Rightarrow> (tool_state, string option) state" where
  "gitRepoRootFor v dir = do {
     r \<leftarrow> look (\<lambda>t. case fe_git_root v t dir of None \<Rightarrow> Inl ENOENT | Some out \<Rightarrow> Inr (trim_space out));
     ret (case r of Inl _ \<Rightarrow> None | Inr root \<Rightarrow> Some root)
   }"

text \<open>
  \<open>git hash-object -w\<close> reads the bytes that are at the path now, passes them through the filters git
  has for the path (\<open>fe_git_clean\<close>: line endings, \<open>.gitattributes\<close>) and stores the result under its hash.
\<close>

definition gitHashObjectW :: "fs_env \<Rightarrow> string \<Rightarrow> string \<Rightarrow> (tool_state, fs_errno + string) state" where
  "gitHashObjectW v repo op =
     fs_try (look (ReadFile (fe_links v) (path_elements op))) id (\<lambda>b. do {
       let blob = fe_git_clean v op b;
       State (\<lambda>s. ((), s\<lparr>fw_blobs := (fw_blobs s)((repo, fe_git_sha v blob) \<mapsto> blob)\<rparr>));
       ret (Inr (fe_git_sha v blob))
     })"

definition gitCatFileBlob :: "string \<Rightarrow> string \<Rightarrow> (tool_state, fs_errno + string) state" where
  "gitCatFileBlob repo sha = do {
     s \<leftarrow> State_Monad.get;
     look (\<lambda>_. case fw_blobs s (repo, sha) of None \<Rightarrow> Inl ENOENT | Some b \<Rightarrow> Inr b)
   }"

definition checkpoint_copy :: "fs_env \<Rightarrow> canonical_path \<Rightarrow> string \<Rightarrow> string \<Rightarrow> undo_record \<Rightarrow> undo_record fs" where
  "checkpoint_copy v cp task data rec =
     fs_try (copyPreImage v task (cp_match cp) data) FsErrno (\<lambda>p. ret (Inr (rec\<lparr>ur_copy_path := p\<rparr>)))"

definition checkpointPreImage :: "fs_env \<Rightarrow> canonical_path \<Rightarrow> string \<Rightarrow> string \<Rightarrow> undo_record fs" where
  "checkpointPreImage v cp task trace = do {
     r \<leftarrow> rootReadFileConfined v (cp_ancestor cp) (cp_rel cp);
     let rec = (\<lambda>had data. \<lparr>ur_tool = ''fs_write'', ur_match = cp_match cp, ur_op = cp_op cp,
            ur_ancestor = cp_ancestor cp, ur_rel = cp_rel cp, ur_task = task, ur_trace = trace,
            ur_had_prev = had, ur_pre_hash = sha256_hex data, ur_git_root = '''', ur_git_blob = '''',
            ur_copy_path = '''', ur_trash_path = ''''\<rparr>);
     case r of
       Inl e \<Rightarrow> ret (if e = FsErrno ENOENT then Inr (rec False '''') else Inl e)
     | Inr data \<Rightarrow> do {
         g \<leftarrow> gitRepoRootFor v (path_dir (cp_op cp));
         case g of
           None \<Rightarrow> checkpoint_copy v cp task data (rec True data)
         | Some repo \<Rightarrow> do {
             h \<leftarrow> gitHashObjectW v repo (cp_op cp);
             case h of
               Inl _ \<Rightarrow> checkpoint_copy v cp task data (rec True data)
             | Inr sha \<Rightarrow> ret (Inr ((rec True data)\<lparr>ur_git_root := repo, ur_git_blob := sha\<rparr>))
           }
       }
   }"

section \<open>The trash\<close>

partial_function (option) free_name :: "nat \<Rightarrow> tree \<Rightarrow> string \<Rightarrow> string \<Rightarrow> nat \<Rightarrow> string option" where
  "free_name k t base ext i =
     (if lstat k t (path_elements (base @ ''-'' @ nat_text i @ ext)) = Inl ENOENT
      then Some (base @ ''-'' @ nat_text i @ ext)
      else free_name k t base ext (Suc i))"

definition collisionSafePath :: "nat \<Rightarrow> string \<Rightarrow> tree \<Rightarrow> string option" where
  "collisionSafePath k dest t =
     (if lstat k t (path_elements dest) = Inl ENOENT then Some dest
      else let ext = path_ext dest in free_name k t (take (length dest - length ext) dest) ext 1)"

definition stat_perm :: "tree \<Rightarrow> nat \<Rightarrow> nat" where
  "stat_perm t i = (case nodes t i of Some (File p b) \<Rightarrow> p | _ \<Rightarrow> 448)"

text \<open>\<open>io.Copy\<close> between two open files: one read, one write.\<close>

definition copy_bytes :: "nat \<Rightarrow> nat \<Rightarrow> (tool_state, fs_errno + unit) state" where
  "copy_bytes src dst =
     fs_try (look (\<lambda>t. file_bytes t src)) id (\<lambda>b. sys (Some (Content dst)) (fd_Write dst b))"

text \<open>\<open>moveToTrashConfined\<close> from the open of the source on.\<close>

definition copy_to_trash :: "fs_env \<Rightarrow> nat \<Rightarrow> string \<Rightarrow> string \<Rightarrow> string fs" where
  "copy_to_trash v d leaf dest =
     fs_try (look (root_walk d leaf)) FsErrno (\<lambda>src.
     fs_try (look (\<lambda>t. Inr (stat_perm t src))) FsErrno (\<lambda>perm.
     fs_try (sys (Some (AtPath dest)) (CreateFile (fe_links v) (path_elements dest) (fe_umask v perm))) FsErrno (\<lambda>out.
     fs_try (copy_bytes src out) FsErrno (\<lambda>_.
     fs_try (sys (Some (Entry d leaf)) (root_Remove d leaf)) FsErrno (\<lambda>_.
       ret (Inr dest))))))"

definition moveToTrashConfined :: "fs_env \<Rightarrow> string \<Rightarrow> string \<Rightarrow> string \<Rightarrow> string fs" where
  "moveToTrashConfined v ancestor rel baseName =
     fs_try (look (OpenRoot (fe_links v) (path_elements ancestor))) FsErrno (\<lambda>root.
     fs_try (descendConfinedReadOnly root rel) id (\<lambda>(d, leaf).
     fs_try (sys (Some (AtPath (fe_trash v))) (MkdirAll (fe_links v) (path_elements (fe_trash v)))) FsErrno (\<lambda>_.
     fs_try (look (\<lambda>t. Inr (collisionSafePath (fe_links v) (path_join [fe_trash v, baseName]) t))) FsErrno (\<lambda>free.
     case free of
       None \<Rightarrow> ret (Inl NeverReturns)
     | Some dest \<Rightarrow> copy_to_trash v d leaf dest))))"

definition restoreFromTrashConfined :: "fs_env \<Rightarrow> string \<Rightarrow> string \<Rightarrow> string \<Rightarrow> unit fs" where
  "restoreFromTrashConfined v trashPath ancestor rel =
     fs_try (look (OpenRoot (fe_links v) (path_elements ancestor))) FsErrno (\<lambda>root.
     fs_try (descendConfined root rel) id (\<lambda>(d, leaf).
     fs_try (look (\<lambda>t. map_sum id at_end (as_found (walk False True t (fe_links v) kernel_start (path_elements trashPath)))))
       FsErrno (\<lambda>src.
     fs_try (look (\<lambda>t. Inr (stat_perm t src))) FsErrno (\<lambda>perm.
     fs_try (sys (Some (Entry d leaf)) (root_Create d leaf (fe_umask v perm))) FsErrno (\<lambda>out.
     fs_try (copy_bytes src out) FsErrno (\<lambda>_.
     fs_try (sys (Some (AtPath trashPath)) (RemoveFile (fe_links v) (path_elements trashPath))) FsErrno (\<lambda>_.
       ret (Inr ()))))))))"

section \<open>Handlers\<close>

record read_output =
  ro_path :: string
  ro_content_base64 :: string
  ro_size :: int
  ro_secret_lane :: bool

record write_output =
  wo_path :: string
  wo_pre_existed :: bool
  wo_git_checkpoint :: bool
  wo_pre_hash :: string
  wo_post_hash :: string

record delete_output =
  do_path :: string
  do_trash_path :: string

definition registry_Put :: "string \<Rightarrow> undo_record \<Rightarrow> (tool_state, unit) state" where
  "registry_Put trace rec = State (\<lambda>s. ((), s\<lparr>fw_undo := (fw_undo s)(trace \<mapsto> rec)\<rparr>))"

definition registry_Get :: "string \<Rightarrow> (tool_state, undo_record option) state" where
  "registry_Get trace = State (\<lambda>s. (fw_undo s trace, s))"

definition registry_Delete :: "string \<Rightarrow> (tool_state, unit) state" where
  "registry_Delete trace = State (\<lambda>s. ((), s\<lparr>fw_undo := (fw_undo s)(trace := None)\<rparr>))"

text \<open>The tail of \<open>HandleRead\<close> that reports a read of secrets and marks the session.\<close>

definition report_secret_read :: "fs_env \<Rightarrow> string \<Rightarrow> string \<Rightarrow> (tool_state, unit) state" where
  "report_secret_read v trace match = do {
     fs_logAndLedger v trace ''secret_lane_read'' [(''canonical_path'', JStr match), (''session_id'', JStr trace)];
     (if fe_marker v \<and> trace \<noteq> '''' then do { _ \<leftarrow> on_db (MarkSensitiveRead trace trace); ret () } else ret ())
   }"

definition is_secret_lane :: "fs_env \<Rightarrow> string \<Rightarrow> string \<Rightarrow> bool" where
  "is_secret_lane v match data =
     (case MatchesAnyGlobCI v match (fe_secret_globs v) of
        Inr True \<Rightarrow> True
      | _ \<Rightarrow> (case fe_classifier v of None \<Rightarrow> False | Some f \<Rightarrow> f data))"

definition HandleRead :: "fs_env \<Rightarrow> string \<Rightarrow> string \<Rightarrow> read_output fs" where
  "HandleRead v trace path =
     fs_try (fs_Canonicalize v path) id (\<lambda>cp.
     fs_try (client_Check v ''fs_read'' '''' trace (buildToolInput (cp_match cp) None)) id (\<lambda>d.
     if pd_result d \<noteq> ResultAllow then ret (Inl (PolicyRefused (pd_reason d)))
     else fs_try (look (ReadFile (fe_links v) (path_elements (cp_op cp))))
       (\<lambda>e. if e = EPERM then FullDiskAccessError (cp_match cp) else FsErrno e) (\<lambda>data. do {
         let secret = is_secret_lane v (cp_match cp) data;
         (if secret then report_secret_read v trace (cp_match cp) else ret ());
         fs_logAndLedger v trace ''fs_read'' [(''canonical_path'', JStr (cp_match cp)),
           (''size'', JInt (int (length data))), (''secret_lane'', JBool secret)];
         ret (Inr \<lparr>ro_path = cp_match cp, ro_content_base64 = base64_encode data,
                   ro_size = int (length data), ro_secret_lane = secret\<rparr>)
       })))"

text \<open>
  The chain both changing tools go through: path, deny globs, bytes, decision, token.  \<open>k\<close> is what the
  tool does then.
\<close>

definition deny_glob_gate :: "fs_env \<Rightarrow> string \<Rightarrow> string \<Rightarrow> string \<Rightarrow> canonical_path \<Rightarrow> 'a fs \<Rightarrow> 'a fs" where
  "deny_glob_gate v tool trace task cp k = (case MatchesAnyGlobCI v (cp_match cp) (fe_deny_globs v) of
     Inl e \<Rightarrow> ret (Inl e)
   | Inr hit \<Rightarrow>
       if hit then do {
         fs_logAndLedger v trace ''fs_deny_glob_hit''
           [(''tool'', JStr tool), (''canonical_path'', JStr (cp_match cp)), (''task_id'', JStr task)];
         ret (Inl (DenyGlobHit tool))
       } else k)"

definition policy_gate :: "fs_env \<Rightarrow> string \<Rightarrow> string \<Rightarrow> string \<Rightarrow> string \<Rightarrow> 'a fs \<Rightarrow> 'a fs" where
  "policy_gate v tool trace task input k =
     fs_try (client_Check v tool task trace input) id (\<lambda>d.
       if pd_result d \<noteq> ResultAllow then ret (Inl (PolicyRefused (pd_reason d)))
       else fs_try (client_ConsumeToken v (pd_token d) tool (pd_class d) task trace input) id (\<lambda>_. k))"

definition HandleWrite :: "fs_env \<Rightarrow> string \<Rightarrow> string \<Rightarrow> string \<Rightarrow> string \<Rightarrow> write_output fs" where
  "HandleWrite v trace task path content_base64 =
     fs_try (fs_Canonicalize v path) id (\<lambda>cp.
     deny_glob_gate v ''fs_write'' trace task cp
       (case base64_decode content_base64 of
          None \<Rightarrow> ret (Inl InvalidBase64)
        | Some content \<Rightarrow>
            policy_gate v ''fs_write'' trace task (buildToolInput (cp_match cp) (Some content))
              (fs_try (checkpointPreImage v cp task trace) id (\<lambda>rec.
               fs_try (rootedWrite v (cp_ancestor cp) (cp_rel cp) content) id (\<lambda>_. do {
                 registry_Put trace rec;
                 fs_logAndLedger v trace ''fs_write''
                   [(''canonical_path'', JStr (cp_match cp)), (''task_id'', JStr task),
                    (''pre_existed'', JBool (ur_had_prev rec)), (''pre_hash'', JStr (ur_pre_hash rec)),
                    (''post_hash'', JStr (sha256_hex content)), (''git_checkpoint'', JBool (ur_git_blob rec \<noteq> '''')),
                    (''git_blob_sha'', JStr (ur_git_blob rec)), (''copy_path'', JStr (ur_copy_path rec))];
                 ret (Inr \<lparr>wo_path = cp_match cp, wo_pre_existed = ur_had_prev rec,
                           wo_git_checkpoint = (ur_git_blob rec \<noteq> ''''), wo_pre_hash = ur_pre_hash rec,
                           wo_post_hash = sha256_hex content\<rparr>)
               })))))"

definition HandleDelete :: "fs_env \<Rightarrow> string \<Rightarrow> string \<Rightarrow> string \<Rightarrow> delete_output fs" where
  "HandleDelete v trace task path =
     fs_try (fs_Canonicalize v path) id (\<lambda>cp.
     deny_glob_gate v ''fs_delete'' trace task cp
       (policy_gate v ''fs_delete'' trace task (buildToolInput (cp_match cp) None)
          (fs_try (moveToTrashConfined v (cp_ancestor cp) (cp_rel cp) (path_base (cp_op cp))) id (\<lambda>trash. do {
             registry_Put trace \<lparr>ur_tool = ''fs_delete'', ur_match = cp_match cp, ur_op = cp_op cp,
               ur_ancestor = cp_ancestor cp, ur_rel = cp_rel cp, ur_task = task, ur_trace = trace,
               ur_had_prev = False, ur_pre_hash = '''', ur_git_root = '''', ur_git_blob = '''',
               ur_copy_path = '''', ur_trash_path = trash\<rparr>;
             fs_logAndLedger v trace ''fs_delete''
               [(''canonical_path'', JStr (cp_match cp)), (''trash_path'', JStr trash), (''task_id'', JStr task)];
             ret (Inr \<lparr>do_path = cp_match cp, do_trash_path = trash\<rparr>)
           }))))"

section \<open>Undo\<close>

definition ledgerUndoExecuted :: "fs_env \<Rightarrow> string \<Rightarrow> string \<Rightarrow> string \<Rightarrow> (tool_state, unit) state" where
  "ledgerUndoExecuted v trace tool match =
     fs_logAndLedger v trace ''undo_executed'' [(''tool'', JStr tool), (''canonical_path'', JStr match)]"

definition undo_finished :: "fs_env \<Rightarrow> string \<Rightarrow> string \<Rightarrow> undo_record \<Rightarrow> unit fs" where
  "undo_finished v trace tool rec = do {
     ledgerUndoExecuted v trace tool (ur_match rec);
     registry_Delete trace;
     ret (Inr ())
   }"

definition recover_pre_image :: "fs_env \<Rightarrow> undo_record \<Rightarrow> (tool_state, fs_errno + string) state" where
  "recover_pre_image v rec =
     (if ur_git_blob rec \<noteq> '''' then gitCatFileBlob (ur_git_root rec) (ur_git_blob rec)
      else look (ReadFile (fe_links v) (path_elements (ur_copy_path rec))))"

definition UndoWrite :: "fs_env \<Rightarrow> string \<Rightarrow> unit fs" where
  "UndoWrite v trace = do {
     g \<leftarrow> registry_Get trace;
     case g of
       None \<Rightarrow> ret (Inl ErrNoUndoRecord)
     | Some rec \<Rightarrow>
         if ur_tool rec \<noteq> ''fs_write'' then ret (Inl ErrNoUndoRecord)
         else if \<not> ur_had_prev rec then
           fs_try (moveToTrashConfined v (ur_ancestor rec) (ur_rel rec) (path_base (ur_op rec))) id
             (\<lambda>_. undo_finished v trace ''fs_write'' rec)
         else fs_try (recover_pre_image v rec) FsErrno (\<lambda>pre.
           if sha256_hex pre \<noteq> ur_pre_hash rec then ret (Inl PreImageMismatch)
           else fs_try (rootedWrite v (ur_ancestor rec) (ur_rel rec) pre) id (\<lambda>_. do {
             (if ur_copy_path rec \<noteq> ''''
              then do { _ \<leftarrow> sys (Some (AtPath (ur_copy_path rec)))
                          (RemoveFile (fe_links v) (path_elements (ur_copy_path rec))); ret () }
              else ret ());
             undo_finished v trace ''fs_write'' rec
           }))
   }"

definition UndoDelete :: "fs_env \<Rightarrow> string \<Rightarrow> unit fs" where
  "UndoDelete v trace = do {
     g \<leftarrow> registry_Get trace;
     case g of
       None \<Rightarrow> ret (Inl ErrNoUndoRecord)
     | Some rec \<Rightarrow>
         if ur_tool rec \<noteq> ''fs_delete'' then ret (Inl ErrNoUndoRecord)
         else fs_try (restoreFromTrashConfined v (ur_trash_path rec) (ur_ancestor rec) (ur_rel rec)) id
           (\<lambda>_. undo_finished v trace ''fs_delete'' rec)
   }"

definition PurgeExpired :: "fs_env \<Rightarrow> string \<Rightarrow> (tool_state, unit) state" where
  "PurgeExpired v trace = do {
     g \<leftarrow> registry_Get trace;
     case g of
       None \<Rightarrow> ret ()
     | Some rec \<Rightarrow> do {
         (if ur_copy_path rec \<noteq> ''''
          then do { _ \<leftarrow> sys (Some (AtPath (ur_copy_path rec)))
                      (RemoveFile (fe_links v) (path_elements (ur_copy_path rec))); ret () }
          else ret ());
         registry_Delete trace
       }
   }"

definition dispatchFSUndo :: "fs_env \<Rightarrow> string \<Rightarrow> string \<Rightarrow> (tool_state, unit) state" where
  "dispatchFSUndo v trace tool =
     (if tool = ''fs_write'' then do { _ \<leftarrow> UndoWrite v trace; ret () }
      else if tool = ''fs_delete'' then do { _ \<leftarrow> UndoDelete v trace; ret () }
      else ret ())"

end
