(* ===== verification/Fs_Tree_Facts.thy ===== *)
theory Fs_Tree_Facts
  imports Fs_Tree
begin

text \<open>
  Facts about the file system: a resolved path is a path of directory entries, the well-formedness
  of a tree (every entry leads to an inode, a directory has one parent and the root none), and that
  the operations keep it.
\<close>

named_theorems tree_rules "operations keep a tree well formed"

section \<open>Paths of directory entries\<close>

lemma plain_append:
  "plain t d (p @ q) = (case plain t d p of Some x \<Rightarrow> plain t x q | None \<Rightarrow> None)"
  by (induction p arbitrary: d) (auto split: option.splits)

lemma map_of_put_entry [simp]: "map_of (put_entry c i es) = (map_of es)(c := i)"
proof
  have "map_of (filter (\<lambda>e. fst e \<noteq> c) es) x = (if x = c then None else map_of es x)" for x
    by (induction es) auto
  then show "map_of (put_entry c i es) x = ((map_of es)(c := i)) x" for x
    by (auto simp: put_entry_def split: option.splits)
qed

lemma child_Some: "child t d c = Some i \<longleftrightarrow> (\<exists>l. nodes t d = Some (Dir l) \<and> map_of l c = Some i)"
  by (auto simp: child_def children_def listing_def split: option.splits inode.splits)

lemma children_dir [simp]: "nodes t d = Some (Dir l) \<Longrightarrow> children t d = Some (map_of l)"
  by (simp add: children_def listing_def)

lemma listing_dir: "is_dir t d \<longleftrightarrow> (\<exists>l. nodes t d = Some (Dir l))" "\<not> is_dir t d \<longleftrightarrow> listing t d = None"
  by (auto simp: is_dir_def listing_def split: option.splits inode.splits)

lemma is_dir_children: "is_dir t d \<longleftrightarrow> (\<exists>es. children t d = Some es)"
  by (auto simp: is_dir_def children_def listing_def split: option.splits inode.splits)

lemma child_nodes: "nodes t d = nodes t' d \<Longrightarrow> child t d c = child t' d c"
  by (simp add: child_def children_def listing_def)

lemma child_of_node: "nodes t d = Some n \<Longrightarrow> child t d c = (case n of Dir l \<Rightarrow> map_of l c | _ \<Rightarrow> None)"
  by (cases n) (simp_all add: child_def children_def listing_def)

lemma child_dir: "child t d c = Some i \<Longrightarrow> is_dir t d"
  by (auto simp: child_Some is_dir_def)

lemma plain_dir: "plain t d (c # cs) = Some i \<Longrightarrow> is_dir t d"
  by (auto dest: child_dir split: option.splits)

lemma dir_not_link: "is_dir t d \<Longrightarrow> \<not> is_link t d"
  by (auto simp: is_dir_def is_link_def split: option.splits inode.splits)

lemma trail_plain:
  "trail_ok t stk \<Longrightarrow> plain t (snd (last stk)) (trail_names stk) = Some (at_end stk)"
proof (induction t stk rule: trail_ok.induct)
  case (3 t c i c' d stk)
  then have "plain t (snd (last ((c', d) # stk))) (trail_names ((c', d) # stk)) = Some d" by (simp add: at_end_def)
  with 3 show ?case by (simp add: trail_names_def plain_append at_end_def)
qed (auto simp: trail_names_def at_end_def)

lemma trail_names_plain: "trail_ok t stk \<Longrightarrow> \<forall>e \<in> set (trail_names stk). plain_element e"
  by (induction t stk rule: trail_ok.induct) (auto simp: trail_names_def)

lemma trail_ok_tl: "trail_ok t stk \<Longrightarrow> tl stk \<noteq> [] \<Longrightarrow> trail_ok t (tl stk) \<and> last (tl stk) = last stk \<and> is_dir t (at_end (tl stk))"
  by (cases "(t, stk)" rule: trail_ok.cases) (auto simp: at_end_def dest: child_dir)

lemma trail_ok_push:
  "trail_ok t stk \<Longrightarrow> child t (at_end stk) c = Some i \<Longrightarrow> plain_element c \<Longrightarrow>
   trail_ok t ((c, i) # stk) \<and> last ((c, i) # stk) = last stk"
  by (cases "(t, stk)" rule: trail_ok.cases) (auto simp: at_end_def)

lemma trail_ok_last: "trail_ok t stk \<Longrightarrow> trail_ok t [last stk]"
  by (cases "last stk") auto

text \<open>What a resolution ends in: a path of entries from the same start, at no link if it follows them.\<close>

lemma walk_trail:
  assumes "trail_ok t stk" and "\<forall>c \<in> set cs. slash \<notin> set c"
    and "walk confined follow t k stk cs = Inr found"
  shows "(\<forall>stk'. found = Found stk' \<longrightarrow> trail_ok t stk' \<and> last stk' = last stk
             \<and> (follow \<and> \<not> is_link t (at_end stk) \<and> \<not> is_link t (snd (last stk)) \<longrightarrow> \<not> is_link t (at_end stk')))
    \<and> (\<forall>stk' c. found = Missing stk' c \<longrightarrow> trail_ok t stk' \<and> last stk' = last stk \<and> plain_element c
             \<and> is_dir t (at_end stk') \<and> child t (at_end stk') c = None)"
  using assms
proof (induction confined follow t k stk cs arbitrary: found rule: walk.induct)
  case (1 confined follow t k stk)
  then show ?case by auto
next
  case (2 confined follow t k stk c cs)
  obtain es where es: "children t (at_end stk) = Some es"
    using "2.prems"(3) by (cases "children t (at_end stk)") (simp_all add: walk.simps(2))
  note step = "2.prems"(3) [unfolded walk.simps(2) es option.case]
  have dir: "is_dir t (at_end stk)" using es by (auto simp: is_dir_children)
  show ?case
  proof (cases "c = '''' \<or> c = ''.''")
    case True
    with "2.IH"(1) [OF es True] "2.prems" step show ?thesis by simp
  next
    case nodot: False
    show ?thesis
    proof (cases "c = ''..''")
      case True
      show ?thesis
      proof (cases "tl stk = []")
        case top: True
        with True nodot step have "\<not> confined" "walk confined follow t k stk cs = Inr found"
          by (auto split: if_splits)
        with "2.IH"(3) [OF es nodot True] top "2.prems" show ?thesis by simp
      next
        case False
        with True nodot step have "walk confined follow t k (tl stk) cs = Inr found" by auto
        with "2.IH"(2) [OF es nodot True] False trail_ok_tl [OF "2.prems"(1) False] "2.prems"
        show ?thesis by (auto dest: dir_not_link)
      qed
    next
      case False
      with nodot "2.prems"(2) have plain: "plain_element c" by (auto simp: plain_element_def)
      show ?thesis
      proof (cases "es c")
        case None
        with nodot False step es "2.prems"(1) dir plain show ?thesis
          by (auto simp: child_def split: if_splits)
      next
        case (Some i)
        have push: "trail_ok t ((c, i) # stk)" "last ((c, i) # stk) = last stk"
          using trail_ok_push [OF "2.prems"(1) _ plain, of i] es Some by (auto simp: child_def)
        show ?thesis
        proof (cases "is_link t i")
          case False': False
          then have "walk confined follow t k ((c, i) # stk) cs = Inr found"
            using nodot False Some step by (auto simp: is_link_def split: option.splits inode.splits)
          note next_level = this
          have sl: "\<forall>c \<in> set cs. slash \<notin> set c" using "2.prems"(2) by simp
          show ?thesis
          proof (cases "nodes t i")
            case None
            with "2.IH"(4) [OF es nodot False Some None push(1) sl next_level] push(2) False'
            show ?thesis by (simp add: at_end_def)
          next
            case node: (Some n)
            show ?thesis
            proof (cases n)
              case (Dir ds)
              with "2.IH"(5) [OF es nodot False Some node Dir push(1) sl next_level] push(2) False'
              show ?thesis by (simp add: at_end_def)
            next
              case (File p b)
              with "2.IH"(6) [OF es nodot False Some node File push(1) sl next_level] push(2) False'
              show ?thesis by (simp add: at_end_def)
            next
              case (Link x)
              with node False' show ?thesis by (simp add: is_link_def)
            qed
          qed
        next
          case True
          then obtain target where target: "nodes t i = Some (Link target)"
            by (auto simp: is_link_def split: option.splits inode.splits)
          have rest: "\<forall>e \<in> set (path_elements target @ cs). slash \<notin> set e"
            using path_elements_ok "2.prems"(2) by auto
          show ?thesis
          proof (cases "cs = [] \<and> \<not> follow")
            case True
            with nodot False Some step target push show ?thesis by auto
          next
            case go: False
            show ?thesis
            proof (cases "is_rooted target")
              case True
              with go nodot False Some step target have pos: "k \<noteq> 0" "\<not> confined"
                and on: "walk confined follow t (k - 1) [last stk] (path_elements target @ cs) = Inr found"
                by (auto split: if_splits)
              from "2.IH"(7) [OF es nodot False Some target refl go pos(1) True pos(2)
                  trail_ok_last [OF "2.prems"(1)] rest on]
              show ?thesis by (simp add: at_end_def)
            next
              case rel: False
              with go nodot False Some step target have pos: "k \<noteq> 0"
                and on: "walk confined follow t (k - 1) stk (path_elements target @ cs) = Inr found"
                by (auto split: if_splits)
              show ?thesis by (rule "2.IH"(8) [OF es nodot False Some target refl go pos rel "2.prems"(1) rest on])
            qed
          qed
        qed
      qed
    qed
  qed
qed

section \<open>Well-formed trees\<close>

definition tree_ok :: "tree \<Rightarrow> bool" where
  "tree_ok t \<longleftrightarrow> is_dir t root_ino \<and> (\<forall>i \<ge> fresh t. nodes t i = None)
     \<and> (\<forall>d c i. child t d c = Some i \<longrightarrow> nodes t i \<noteq> None \<and> i \<noteq> root_ino)
     \<and> (\<forall>d c d' c' i. child t d c = Some i \<and> child t d' c' = Some i \<and> is_dir t i \<longrightarrow> d = d' \<and> c = c')"

lemma tree_okD:
  assumes "tree_ok t"
  shows "is_dir t root_ino" "fresh t \<le> i \<Longrightarrow> nodes t i = None" "child t d c = Some i \<Longrightarrow> nodes t i \<noteq> None"
    "child t d c \<noteq> Some root_ino"
    "child t d c = Some i \<Longrightarrow> child t d' c' = Some i \<Longrightarrow> is_dir t i \<Longrightarrow> d = d' \<and> c = c'"
  using assms unfolding tree_ok_def by blast+

lemma nodes_below: "tree_ok t \<Longrightarrow> nodes t i = Some n \<Longrightarrow> i < fresh t"
  using tree_okD(2) [of t i] by (cases "fresh t \<le> i") auto

lemma dir_below: "tree_ok t \<Longrightarrow> is_dir t d \<Longrightarrow> d < fresh t"
  by (auto simp: is_dir_def dest: nodes_below split: option.splits)

lemma child_below: "tree_ok t \<Longrightarrow> child t d c = Some i \<Longrightarrow> i < fresh t"
  using tree_okD(3) nodes_below by blast

text \<open>A directory is reached from the root in one way.\<close>

lemma plain_unique:
  assumes "tree_ok t"
  shows "plain t root_ino p = Some i \<Longrightarrow> plain t root_ino q = Some i \<Longrightarrow> is_dir t i \<Longrightarrow> p = q"
proof (induction p arbitrary: q i rule: rev_induct)
  case Nil
  then show ?case
    using tree_okD(4) [OF assms] by (cases q rule: rev_cases) (auto simp: plain_append split: option.splits)
next
  case (snoc c p)
  then obtain d where d: "plain t root_ino p = Some d" "child t d c = Some i"
    by (auto simp: plain_append split: option.splits)
  show ?case
  proof (cases q rule: rev_cases)
    case Nil
    with snoc.prems(2) d tree_okD(4) [OF assms] show ?thesis by simp
  next
    case (snoc q' c')
    with snoc.prems(2) obtain d' where d': "plain t root_ino q' = Some d'" "child t d' c' = Some i"
      by (auto simp: plain_append split: option.splits)
    with tree_okD(5) [OF assms d(2) d'(2) snoc.prems(3)] snoc.IH [OF d(1)] d child_dir snoc
    show ?thesis by auto
  qed
qed

text \<open>The entries a path goes through.\<close>

definition path_entries :: "tree \<Rightarrow> nat \<Rightarrow> string list \<Rightarrow> (nat \<times> string) set" where
  "path_entries t d cs = {(x, cs ! k) | x k. k < length cs \<and> plain t d (take k cs) = Some x}"

lemma path_entries_Nil [simp]: "path_entries t d [] = {}"
  by (simp add: path_entries_def)

lemma path_entries_Cons:
  "path_entries t d (c # cs) = insert (d, c) (case child t d c of None \<Rightarrow> {} | Some i \<Rightarrow> path_entries t i cs)"
proof (intro set_eqI iffI)
  fix xc
  assume "xc \<in> path_entries t d (c # cs)"
  then obtain x k where k: "xc = (x, (c # cs) ! k)" "k < Suc (length cs)" "plain t d (take k (c # cs)) = Some x"
    by (auto simp: path_entries_def)
  then show "xc \<in> insert (d, c) (case child t d c of None \<Rightarrow> {} | Some i \<Rightarrow> path_entries t i cs)"
    by (cases k) (auto simp: path_entries_def split: option.splits)
next
  fix xc
  assume xc: "xc \<in> insert (d, c) (case child t d c of None \<Rightarrow> {} | Some i \<Rightarrow> path_entries t i cs)"
  show "xc \<in> path_entries t d (c # cs)"
  proof (cases "xc = (d, c)")
    case True
    then show ?thesis by (auto simp: path_entries_def intro: exI [of _ "0 :: nat"])
  next
    case False
    with xc obtain i x k where "child t d c = Some i" "xc = (x, cs ! k)" "k < length cs" "plain t i (take k cs) = Some x"
      by (auto simp: path_entries_def split: option.splits)
    then show ?thesis by (auto simp: path_entries_def intro!: exI [of _ "Suc k"])
  qed
qed

lemma plain_cong:
  "(\<And>x c. (x, c) \<in> path_entries t d cs \<Longrightarrow> child t' x c = child t x c) \<Longrightarrow>
   plain t' d cs = plain t d cs \<and> path_entries t' d cs = path_entries t d cs"
proof (induction cs arbitrary: d)
  case (Cons c cs)
  then have "child t' d c = child t d c" by (simp add: path_entries_Cons)
  moreover have "plain t' i cs = plain t i cs \<and> path_entries t' i cs = path_entries t i cs" if "child t d c = Some i" for i
    by (rule Cons.IH) (use Cons.prems that in \<open>auto simp: path_entries_Cons\<close>)
  ultimately show ?case by (auto simp: path_entries_Cons split: option.splits)
qed simp

text \<open>A change below a directory does not bend the path that leads to the directory.\<close>

lemma path_to_dir_misses:
  assumes "tree_ok t" and "plain t root_ino p = Some d" and "is_dir t d"
  shows "(d, c) \<notin> path_entries t root_ino p"
proof
  assume "(d, c) \<in> path_entries t root_ino p"
  then obtain k where k: "k < length p" "plain t root_ino (take k p) = Some d" by (auto simp: path_entries_def)
  with plain_unique [OF assms(1) k(2) assms(2,3)] have "length (take k p) = length p" by simp
  with k(1) show False by simp
qed

section \<open>Operations on entries\<close>

lemma nodes_set_entry:
  "nodes (set_entry d c i t) x = (if x = d then (case listing t d of None \<Rightarrow> nodes t d | Some es \<Rightarrow> Some (Dir (put_entry c i es)))
     else nodes t x)"
  by (auto simp: set_entry_def set_node_def split: option.splits)

lemma fresh_set_entry [simp]: "fresh (set_entry d c i t) = fresh t"
  by (simp add: set_entry_def set_node_def split: option.splits)

lemma child_set_entry:
  assumes "is_dir t d"
  shows "child (set_entry d c i t) x e = (if x = d \<and> e = c then i else child t x e)"
proof -
  obtain l where l: "nodes t d = Some (Dir l)" "listing t d = Some l"
    using assms by (auto simp: listing_dir listing_def)
  then have d: "nodes (set_entry d c i t) d = Some (Dir (put_entry c i l))" by (simp add: nodes_set_entry)
  show ?thesis
  proof (cases "x = d")
    case True
    then show ?thesis using l by (simp add: child_of_node [OF d] child_of_node [OF l(1)])
  next
    case False
    then show ?thesis by (simp add: nodes_set_entry child_nodes [of "set_entry d c i t" x t])
  qed
qed

lemma is_dir_set_entry [simp]: "is_dir (set_entry d c i t) x = is_dir t x"
  by (auto simp: is_dir_def nodes_set_entry listing_def split: option.splits inode.splits)

lemma nodes_set_entry_file:
  "\<not> is_dir t x \<Longrightarrow> nodes (set_entry d c i t) x = nodes t x"
  by (auto simp: is_dir_def nodes_set_entry listing_def split: option.splits inode.splits)

lemma child_set_node:
  "child (set_node i n t) x e = (if x = i then (case n of Dir es \<Rightarrow> map_of es e | _ \<Rightarrow> None) else child t x e)"
  by (auto simp: child_def children_def listing_def set_node_def split: inode.splits)

lemma nodes_add_node:
  assumes "tree_ok t" and "is_dir t d"
  shows "nodes (add_node d c n t) x =
    (if x = fresh t then Some n else nodes (set_entry d c (Some (fresh t)) t) x)"
proof -
  have "d \<noteq> fresh t" using dir_below [OF assms] by simp
  then show ?thesis
    by (auto simp: add_node_def nodes_set_entry set_node_def listing_def split: option.splits inode.splits)
qed

lemma fresh_add_node [simp]: "fresh (add_node d c n t) = Suc (fresh t)"
  by (simp add: add_node_def)

lemma child_add_node:
  assumes "tree_ok t" and "is_dir t d"
  shows "child (add_node d c n t) x e = (if x = fresh t then (case n of Dir es \<Rightarrow> map_of es e | _ \<Rightarrow> None)
     else if x = d \<and> e = c then Some (fresh t) else child t x e)"
proof (cases "x = fresh t")
  case True
  then show ?thesis by (simp add: nodes_add_node [OF assms] child_of_node [of _ _ n])
next
  case False
  then have "child (add_node d c n t) x e = child (set_entry d c (Some (fresh t)) t) x e"
    by (simp add: child_def children_def listing_def nodes_add_node [OF assms])
  with False show ?thesis by (simp add: child_set_entry [OF assms(2)])
qed

lemma is_dir_add_node:
  assumes "tree_ok t" and "is_dir t d"
  shows "is_dir (add_node d c n t) x = (if x = fresh t then (\<exists>es. n = Dir es) else is_dir t x)"
proof (cases "x = fresh t")
  case False
  then have "is_dir (add_node d c n t) x = is_dir (set_entry d c (Some (fresh t)) t) x"
    by (simp add: is_dir_def nodes_add_node [OF assms])
  with False show ?thesis by simp
qed (auto simp: is_dir_def nodes_add_node [OF assms] split: inode.splits)

lemma tree_ok_add_node [tree_rules]:
  assumes ok: "tree_ok t" and dir: "is_dir t d" and empty: "\<And>es. n = Dir es \<Longrightarrow> es = []"
  shows "tree_ok (add_node d c n t)"
  unfolding tree_ok_def
proof (intro conjI allI impI)
  have below: "root_ino < fresh t" "d < fresh t"
    using dir_below [OF ok] tree_okD(1) [OF ok] dir by auto
  show "is_dir (add_node d c n t) root_ino" using below tree_okD(1) [OF ok] by (simp add: is_dir_add_node [OF ok dir])
  show "nodes (add_node d c n t) i = None" if "fresh (add_node d c n t) \<le> i" for i
    using that below tree_okD(2) [OF ok, of i] by (simp add: nodes_add_node [OF ok dir] nodes_set_entry)
  fix x e i
  assume ch: "child (add_node d c n t) x e = Some i"
  have no: "(case n of Dir es \<Rightarrow> map_of es e | _ \<Rightarrow> None) = None" using empty by (cases n) auto
  from ch no below show "i \<noteq> root_ino"
    using tree_okD(4) [OF ok, of x e] by (auto simp: child_add_node [OF ok dir] split: if_splits)
  from ch no show "nodes (add_node d c n t) i \<noteq> None"
    using tree_okD(3) [OF ok, of x e i] dir
    by (auto simp: child_add_node [OF ok dir] nodes_add_node [OF ok dir] nodes_set_entry is_dir_children split: if_splits option.splits)
next
  fix x e x' e' i
  assume a: "child (add_node d c n t) x e = Some i \<and> child (add_node d c n t) x' e' = Some i \<and> is_dir (add_node d c n t) i"
  have no: "(case n of Dir es \<Rightarrow> map_of es e | _ \<Rightarrow> None) = None" for e using empty by (cases n) auto
  have old: "child t y f \<noteq> Some (fresh t)" for y f using child_below [OF ok, of y f] by auto
  from a no old [of x e] old [of x' e'] tree_okD(5) [OF ok, of x e i x' e'] show "x = x'" "e = e'"
    by (auto simp: child_add_node [OF ok dir] is_dir_add_node [OF ok dir] split: if_splits)
qed

lemma tree_ok_set_file [tree_rules]:
  assumes ok: "tree_ok t" and isfile: "nodes t i = Some (File p b)"
  shows "tree_ok (set_node i (File p' b') t)"
proof -
  have dir: "is_dir (set_node i (File p' b') t) x = is_dir t x" for x
    using isfile by (simp add: is_dir_def set_node_def)
  have ch: "child (set_node i (File p' b') t) x e = child t x e" for x e
    using isfile by (simp add: child_set_node child_of_node)
  have nodes: "nodes (set_node i (File p' b') t) x = None \<longleftrightarrow> nodes t x = None" for x
    using isfile by (simp add: set_node_def)
  have fresh: "fresh (set_node i (File p' b') t) = fresh t" by (simp add: set_node_def)
  show ?thesis using ok unfolding tree_ok_def dir ch nodes fresh .
qed

lemma tree_ok_unlink [tree_rules]:
  assumes ok: "tree_ok t" and dir: "is_dir t d"
  shows "tree_ok (set_entry d c None t)"
proof -
  have ch: "child (set_entry d c None t) x e = Some i \<Longrightarrow> child t x e = Some i" for x e i
    by (auto simp: child_set_entry [OF dir] split: if_splits)
  have nodes: "nodes (set_entry d c None t) x = None \<longleftrightarrow> nodes t x = None" for x
    using dir by (auto simp: nodes_set_entry is_dir_def split: option.splits)
  show ?thesis
    unfolding tree_ok_def nodes
    using ok ch by (auto simp: tree_ok_def nodes) (metis (no_types) ch nodes)+
qed

text \<open>Forgetting a removed, empty directory.\<close>

lemma tree_ok_forget [tree_rules]:
  assumes ok: "tree_ok t" and dir: "is_dir t d" and e: "child t d c = Some i" and empty: "is_empty_dir t i"
  shows "tree_ok ((set_entry d c None t)\<lparr>nodes := (nodes (set_entry d c None t))(i := None)\<rparr>)"
    (is "tree_ok ?t")
proof -
  have i: "is_dir t i" "i \<noteq> root_ino" "child t i f = None" for f
    using empty tree_okD(4) [OF ok, of d c] e by (auto simp: is_empty_dir_def is_dir_children child_def children_def)
  have old: "child ?t x f = Some j \<Longrightarrow> child t x f = Some j \<and> (x, f) \<noteq> (d, c) \<and> x \<noteq> i" for x f j
    using child_set_entry [OF dir, of c None x f] by (auto simp: child_def children_def listing_def split: if_splits)
  have keep: "child ?t x f = Some j \<Longrightarrow> j \<noteq> i" for x f j
    using old [of x f j] tree_okD(5) [OF ok e _ i(1)] by blast
  have nodes: "nodes ?t x = None \<longleftrightarrow> nodes t x = None \<or> x = i" for x
    using dir by (auto simp: nodes_set_entry is_dir_def split: option.splits)
  have isdir: "is_dir ?t x \<longleftrightarrow> is_dir t x \<and> x \<noteq> i" for x
    using is_dir_set_entry [of d c None t x] by (auto simp: is_dir_def)
  show ?thesis
    unfolding tree_ok_def isdir nodes
  proof (intro conjI allI impI)
    fix x f j assume ch: "child ?t x f = Some j"
    from old [OF ch] keep [OF ch] tree_okD(3) [OF ok, of x f j] show "\<not> (nodes t j = None \<or> j = i)" by auto
    from old [OF ch] tree_okD(4) [OF ok, of x f] show "j \<noteq> root_ino" by auto
  next
    fix x f x' f' j
    assume "child ?t x f = Some j \<and> child ?t x' f' = Some j \<and> is_dir t j \<and> j \<noteq> i"
    with old [of x f j] old [of x' f' j] tree_okD(5) [OF ok, of x f j x' f'] show "x = x'" "f = f'" by auto
  qed (use i tree_okD(1,2) [OF ok] in auto)
qed

text \<open>A new name for a file, or for a directory that has lost its own.\<close>

lemma tree_ok_enter [tree_rules]:
  assumes ok: "tree_ok t" and dir: "is_dir t d" and i: "nodes t i \<noteq> None" "i \<noteq> root_ino"
    and alone: "is_dir t i \<Longrightarrow> \<forall>x f. child t x f \<noteq> Some i"
  shows "tree_ok (set_entry d c (Some i) t)"
proof -
  have nodes: "nodes (set_entry d c (Some i) t) x = None \<longleftrightarrow> nodes t x = None" for x
    using dir by (auto simp: nodes_set_entry is_dir_def split: option.splits)
  show ?thesis
    unfolding tree_ok_def nodes is_dir_set_entry fresh_set_entry
  proof (intro conjI allI impI)
    fix x f j assume "child (set_entry d c (Some i) t) x f = Some j"
    then show "nodes t j \<noteq> None" "j \<noteq> root_ino"
      using i tree_okD(3,4) [OF ok, of x f] by (auto simp: child_set_entry [OF dir] split: if_splits)
  next
    fix x f x' f' j
    assume "child (set_entry d c (Some i) t) x f = Some j \<and> child (set_entry d c (Some i) t) x' f' = Some j \<and> is_dir t j"
    then show "x = x'" "f = f'"
      using alone tree_okD(5) [OF ok, of x f j x' f'] by (auto simp: child_set_entry [OF dir] split: if_splits)
  qed (use tree_okD(1,2) [OF ok] in auto)
qed

lemma tree_ok_add_dir: "tree_ok t \<Longrightarrow> is_dir t d \<Longrightarrow> tree_ok (add_node d c (Dir []) t)"
  and tree_ok_add_file: "tree_ok t \<Longrightarrow> is_dir t d \<Longrightarrow> tree_ok (add_node d c (File p b) t)"
  by (auto intro: tree_ok_add_node)

lemma at_entry_Inr: "at_entry t d c = Inr i \<longleftrightarrow> plain_element c \<and> child t d c = Some i"
  by (auto simp: at_entry_def child_def split: option.splits)

lemma at_entry_missing:
  "at_entry t d c = Inl ENOENT \<and> nodes t d \<noteq> None \<longleftrightarrow> plain_element c \<and> is_dir t d \<and> child t d c = None"
  by (auto simp: at_entry_def child_def is_dir_children children_def listing_def split: option.splits inode.splits)

lemma tree_ok_root_Mkdir [tree_rules]: "tree_ok t \<Longrightarrow> tree_ok (snd (root_Mkdir d c t))"
  using at_entry_missing [of t d c] by (auto simp: root_Mkdir_def tree_ok_add_dir split: sum.splits)

lemma tree_ok_root_Create [tree_rules]: "tree_ok t \<Longrightarrow> tree_ok (snd (root_Create d c p t))"
  using at_entry_missing [of t d c] by (auto simp: root_Create_def tree_ok_add_file split: sum.splits)

lemma tree_ok_fd_Write [tree_rules]: "tree_ok t \<Longrightarrow> tree_ok (snd (fd_Write i b t))"
  by (auto simp: fd_Write_def tree_ok_set_file split: option.splits inode.splits)

lemma tree_ok_fd_Chmod [tree_rules]: "tree_ok t \<Longrightarrow> tree_ok (snd (fd_Chmod i b t))"
  by (auto simp: fd_Chmod_def tree_ok_set_file split: option.splits inode.splits)

lemma tree_ok_root_Remove [tree_rules]: "tree_ok t \<Longrightarrow> tree_ok (snd (root_Remove d c t))"
  by (auto simp: root_Remove_def at_entry_Inr tree_ok_forget tree_ok_unlink child_dir split: sum.splits)

lemma tree_ok_root_Rename [tree_rules]: "tree_ok t \<Longrightarrow> tree_ok (snd (root_Rename d old new t))"
proof -
  assume ok: "tree_ok t"
  have move: "tree_ok (set_entry d new (Some i) (set_entry d old None t))" if "at_entry t d old = Inr i" for i
  proof (rule tree_ok_enter)
    have e: "child t d old = Some i" and dir: "is_dir t d" using that by (auto simp: at_entry_Inr dest: child_dir)
    then show "tree_ok (set_entry d old None t)" "is_dir (set_entry d old None t) d" "i \<noteq> root_ino"
      using tree_okD(4) [OF ok, of d old] by (auto intro: tree_ok_unlink ok)
    show "nodes (set_entry d old None t) i \<noteq> None"
      using tree_okD(3) [OF ok e] by (auto simp: nodes_set_entry split: option.splits)
    show "\<forall>x f. child (set_entry d old None t) x f \<noteq> Some i" if "is_dir (set_entry d old None t) i"
      using that tree_okD(5) [OF ok e] by (auto simp: child_set_entry [OF dir])
  qed
  show ?thesis
  proof (cases "at_entry t d old")
    case (Inr i)
    with ok move show ?thesis by (auto simp: root_Rename_def split: sum.splits fs_errno.splits)
  qed (use ok in \<open>simp add: root_Rename_def\<close>)
qed

section \<open>Operations on absolute paths\<close>

lemma kernel_start_ok [simp]: "trail_ok t kernel_start" "last kernel_start = ('''', root_ino)"
  by (simp_all add: kernel_start_def)

lemma kernel_walk_missing:
  assumes "walk False follow t k kernel_start es = Inr (Missing stk c)" and "\<forall>e \<in> set es. slash \<notin> set e"
  shows "is_dir t (at_end stk) \<and> child t (at_end stk) c = None \<and> plain_element c
    \<and> plain t root_ino (trail_names stk) = Some (at_end stk)"
  using walk_trail [OF kernel_start_ok(1) assms(2,1)] trail_plain [of t stk] by auto

lemma kernel_walk_found:
  assumes "walk False follow t k kernel_start es = Inr (Found stk)" and "\<forall>e \<in> set es. slash \<notin> set e" and "tree_ok t"
  shows "plain t root_ino (trail_names stk) = Some (at_end stk)
    \<and> (\<forall>e \<in> set (trail_names stk). plain_element e) \<and> (follow \<longrightarrow> \<not> is_link t (at_end stk))"
proof -
  have "\<not> is_link t root_ino" using tree_okD(1) [OF assms(3)] by (rule dir_not_link)
  then have "follow \<longrightarrow> \<not> is_link t (at_end stk)" and "trail_ok t stk" "last stk = ('''', root_ino)"
    using walk_trail [OF kernel_start_ok(1) assms(2,1)] by (auto simp: kernel_start_def at_end_def)
  with trail_plain [of t stk] trail_names_plain [of t stk] show ?thesis by simp
qed

lemma elements_no_slash: "\<forall>e \<in> set (path_elements p). slash \<notin> set e"
  using path_elements_ok by blast

lemma tree_ok_WriteFile [tree_rules]:
  "tree_ok t \<Longrightarrow> \<forall>e \<in> set es. slash \<notin> set e \<Longrightarrow> tree_ok (snd (WriteFile k es b p t))"
  by (auto simp: WriteFile_def tree_ok_set_file tree_ok_add_file dest!: kernel_walk_missing
      split: sum.splits found.splits option.splits inode.splits)

lemma tree_ok_CreateFile [tree_rules]:
  "tree_ok t \<Longrightarrow> \<forall>e \<in> set es. slash \<notin> set e \<Longrightarrow> tree_ok (snd (CreateFile k es p t))"
  by (auto simp: CreateFile_def tree_ok_add_file dest!: kernel_walk_missing split: sum.splits found.splits)

lemma tree_ok_mkdirs:
  "tree_ok t \<Longrightarrow> \<forall>e \<in> set (made @ es). slash \<notin> set e \<Longrightarrow> tree_ok (snd (mkdirs k made es t))"
proof (induction k made es t rule: mkdirs.induct)
  case (2 k made c cs t)
  have no_slash: "\<forall>e \<in> set (made @ [c]). slash \<notin> set e" using "2.prems"(2) by auto
  show ?case
  proof (cases "walk False False t k kernel_start (made @ [c])")
    case w: (Inr f)
    show ?thesis
    proof (cases f)
      case (Missing stk x)
      with kernel_walk_missing [OF w [unfolded Missing] no_slash] "2.prems" "2.IH"(2) [OF w Missing] w show ?thesis
        by (simp add: tree_ok_add_dir)
    next
      case (Found stk)
      with "2.prems" "2.IH"(1) [OF w Found] w show ?thesis by (auto split: sum.splits)
    qed
  qed (use "2.prems" in simp)
qed simp

lemma tree_ok_MkdirAll [tree_rules]:
  "tree_ok t \<Longrightarrow> \<forall>e \<in> set es. slash \<notin> set e \<Longrightarrow> tree_ok (snd (MkdirAll k es t))"
  unfolding MkdirAll_def by (rule tree_ok_mkdirs) auto

lemma tree_ok_RemoveFile [tree_rules]: "tree_ok t \<Longrightarrow> tree_ok (snd (RemoveFile k es t))"
  by (auto simp: RemoveFile_def tree_ok_root_Remove split: sum.splits list.splits)

section \<open>Walking where there are no links\<close>

lemma walk_plain:
  "plain t (at_end stk) cs = Some i \<Longrightarrow> \<forall>c \<in> set cs. plain_element c \<Longrightarrow> \<not> is_link t i \<Longrightarrow>
   \<exists>stk'. walk confined follow t k stk cs = Inr (Found stk') \<and> at_end stk' = i"
proof (induction cs arbitrary: stk)
  case (Cons c cs)
  then obtain j where j: "child t (at_end stk) c = Some j" "plain t j cs = Some i" by (auto split: option.splits)
  then obtain es where es: "children t (at_end stk) = Some es" "es c = Some j"
    by (auto simp: child_def split: option.splits)
  have c: "c \<noteq> ''''" "c \<noteq> ''.''" "c \<noteq> ''..''" using Cons.prems(2) by (auto simp: plain_element_def)
  have "\<not> is_link t j"
  proof (cases cs)
    case (Cons e rest)
    with j(2) plain_dir [of t j e rest i] show ?thesis by (simp add: dir_not_link)
  qed (use j(2) Cons.prems(3) in simp)
  then have "walk confined follow t k stk (c # cs) = walk confined follow t k ((c, j) # stk) cs"
    using es c by (auto simp: walk.simps(2) is_link_def split: option.splits inode.splits)
  with Cons.IH [of "(c, j) # stk"] j(2) Cons.prems show ?case by (simp add: at_end_def)
qed simp

lemma root_walk_child:
  "plain_element c \<Longrightarrow> child t d c = Some i \<Longrightarrow> \<not> is_link t i \<Longrightarrow> root_walk d c t = Inr i"
  using walk_plain [of t "[('''', d)]" "[c]" i True True 8]
  by (auto simp: root_walk_def at_end_def as_found_def)

lemma OpenRoot_plain:
  "plain t root_ino es = Some d \<Longrightarrow> \<forall>e \<in> set es. plain_element e \<Longrightarrow> is_dir t d \<Longrightarrow> OpenRoot k es t = Inr d"
  using walk_plain [of t kernel_start es d False True k] dir_not_link [of t d]
  by (auto simp: OpenRoot_def at_end_def kernel_start_def as_found_def)

lemma ReadFile_plain:
  "plain t root_ino es = Some i \<Longrightarrow> \<forall>e \<in> set es. plain_element e \<Longrightarrow> nodes t i = Some (File p b) \<Longrightarrow>
   ReadFile k es t = Inr b"
  using walk_plain [of t kernel_start es i False True k]
  by (auto simp: ReadFile_def at_end_def kernel_start_def as_found_def file_bytes_def is_link_def)

section \<open>What a change leaves alone\<close>

text \<open>
  Between \<open>t\<close> and \<open>t'\<close> only the entries of \<open>E\<close> may have changed: what was a file or a link has kept its
  bytes and bits, what was a directory still is one, with its other entries.
\<close>

definition only_entries :: "(nat \<times> string) set \<Rightarrow> tree \<Rightarrow> tree \<Rightarrow> bool" where
  "only_entries E t t' \<longleftrightarrow> fresh t \<le> fresh t'
     \<and> (\<forall>i n. nodes t i = Some n \<and> \<not> is_dir t i \<longrightarrow> nodes t' i = Some n)
     \<and> (\<forall>d. is_dir t d \<longrightarrow> is_dir t' d)
     \<and> (\<forall>d c. is_dir t d \<and> (d, c) \<notin> E \<longrightarrow> child t' d c = child t d c)"

lemma only_entries_refl [simp]: "only_entries E t t"
  by (simp add: only_entries_def)

lemma only_entries_trans: "only_entries E t u \<Longrightarrow> only_entries F u v \<Longrightarrow> only_entries (E \<union> F) t v"
  unfolding only_entries_def
  by (metis UnCI is_dir_def le_trans option.case_eq_if option.distinct(1))

lemma only_entries_mono: "only_entries E t t' \<Longrightarrow> E \<subseteq> F \<Longrightarrow> only_entries F t t'"
  unfolding only_entries_def by blast

lemma only_entries_add_node:
  assumes "tree_ok t" and "is_dir t d"
  shows "only_entries {(d, c)} t (add_node d c n t)"
  using assms dir_below [OF assms(1)] nodes_below [OF assms(1)]
  by (auto simp: only_entries_def nodes_add_node child_add_node is_dir_add_node nodes_set_entry_file)

lemma only_entries_set_entry:
  "is_dir t d \<Longrightarrow> only_entries {(d, c)} t (set_entry d c i t)"
  by (auto simp: only_entries_def child_set_entry nodes_set_entry_file)

end
