(* ===== verification/Fs_Laws.thy ===== *)
theory Fs_Laws
  imports Fs_Tool Fs_Tree_Facts Egress_Laws Policy_Laws
begin

text \<open>
  What every operation of the file tools keeps.  The locale \<open>fs_preorder\<close> asks of a relation between
  tool states that it tolerates a system call whose effect keeps trees well formed, a move of the
  database along a relation the policy engine and the egress gate keep, and changes of the registry
  and of git's objects.  It is interpreted for the well-formedness of the file system and for the
  marks of sessions.
\<close>

lemma wp_attempt [wp_rules]:
  "wp (fs_try m h k) Q s \<longleftrightarrow> wp m (\<lambda>r s'. case r of Inl e \<Rightarrow> Q (Inl (h e)) s' | Inr x \<Rightarrow> wp (k x) Q s') s"
  unfolding fs_try_def wp_bind
  by (rule arg_cong [where f = "\<lambda>P. wp m P s"]) (auto simp: wp_return fun_eq_iff split: sum.splits)

section \<open>The state after a system call\<close>

definition sys_after :: "touch option \<Rightarrow> (tree \<Rightarrow> tree) \<Rightarrow> tool_state \<Rightarrow> tool_state" where
  "sys_after w g s0 = (let s = s0\<lparr>fw_touched := fw_touched s0 @ (case w of Some x \<Rightarrow> [x] | None \<Rightarrow> [])\<rparr> in
     case fw_turns s of
       [] \<Rightarrow> s\<lparr>fw_tree := g (fw_tree s)\<rparr>
     | (others, fault) # ts \<Rightarrow> s\<lparr>fw_turns := ts,
         fw_tree := (if fault = None then g (others (fw_tree s)) else others (fw_tree s))\<rparr>)"

lemma snd_run_sys: "snd (run_state (sys w f) s) = sys_after w (\<lambda>t. snd (f t)) s"
  by (auto simp: sys_def sys_after_def sys_act_def Let_def split: list.splits option.splits prod.splits)

lemma snd_run_on_db: "snd (run_state (on_db m) s) = s\<lparr>fw_db := snd (run_state m (fw_db s))\<rparr>"
  by (simp add: on_db_def split: prod.splits)

section \<open>Relations the tools keep\<close>

text \<open>Looking at the file system, as the canonicalisation of a path does.\<close>

locale look_preorder = state_preorder R for R :: "tool_state \<Rightarrow> tool_state \<Rightarrow> bool" +
  assumes R_look: "R s (sys_after None id s)"
begin

lemma keeps_look [keeps_rules]: "state_io_rel R (look f)"
  unfolding state_io_rel_def look_def
  using R_look by (metis (no_types, lifting) snd_conv snd_run_sys id_apply eq_id_iff)

lemma keeps_attempt [keeps_rules]:
  "state_io_rel R m \<Longrightarrow> (\<And>x. state_io_rel R (k x)) \<Longrightarrow> state_io_rel R (fs_try m h k)"
  unfolding fs_try_def by (intro keeps_bind keeps_case_sum keeps_return)

lemma keeps_split_up: "state_io_rel R (split_up v up trailing)"
proof -
  have up: "state_io_rel R (resolve_up up trailing)" for up trailing
    unfolding resolve_up_def by (intro keeps_rules)
  show ?thesis
    by (induction up arbitrary: trailing) (unfold split_up.simps, intro keeps_rules up, intro keeps_rules up)
qed

lemma keeps_fs_Canonicalize [keeps_rules]: "state_io_rel R (fs_Canonicalize v raw)"
  unfolding fs_Canonicalize_def resolveDeepestExisting_def splitExistingAncestor_def Let_def
  by (intro keeps_rules keeps_split_up)

end

locale fs_preorder = state_preorder R + eng: engine_preorder Q + egr: egress_preorder Q
  for R :: "tool_state \<Rightarrow> tool_state \<Rightarrow> bool" and Q :: "store \<Rightarrow> store \<Rightarrow> bool" +
  assumes R_sys: "(\<And>t. tree_ok t \<Longrightarrow> tree_ok (g t)) \<Longrightarrow> R s (sys_after w g s)"
    and R_db: "Q (fw_db s) d \<Longrightarrow> R s (s\<lparr>fw_db := d\<rparr>)"
    and R_undo: "R s (s\<lparr>fw_undo := u\<rparr>)"
    and R_blobs: "R s (s\<lparr>fw_blobs := b\<rparr>)"

sublocale fs_preorder \<subseteq> look_preorder R
proof
  show "R s (sys_after None id s)" for s by (rule R_sys) simp
qed

context fs_preorder
begin

lemma keeps_sys: "(\<And>t. tree_ok t \<Longrightarrow> tree_ok (snd (f t))) \<Longrightarrow> state_io_rel R (sys w f)"
  unfolding state_io_rel_def by (metis R_sys snd_conv snd_run_sys)

lemma keeps_on_db: "state_io_rel Q m \<Longrightarrow> state_io_rel R (on_db m)"
  unfolding state_io_rel_def by (metis R_db snd_conv snd_run_on_db)

lemma keeps_calls [keeps_rules]:
  "state_io_rel R (sys w (root_Mkdir d c))" "state_io_rel R (sys w (root_Create d c p))"
  "state_io_rel R (sys w (fd_Write i b))" "state_io_rel R (sys w (fd_Chmod i p))"
  "state_io_rel R (sys w (root_Remove d c))" "state_io_rel R (sys w (root_Rename d c c'))"
  "state_io_rel R (sys w (MkdirAll k (path_elements x)))"
  "state_io_rel R (sys w (WriteFile k (path_elements x) b p))"
  "state_io_rel R (sys w (CreateFile k (path_elements x) p))"
  "state_io_rel R (sys w (RemoveFile k es))"
  by (rule keeps_sys; rule tree_rules; (assumption | rule elements_no_slash))+

lemma keeps_registry [keeps_rules]:
  "state_io_rel R (registry_Put tr rec)" "state_io_rel R (registry_Get tr)" "state_io_rel R (registry_Delete tr)"
  by (simp_all add: registry_Put_def registry_Get_def registry_Delete_def state_io_rel_def R_undo R_refl)

lemma keeps_logAndLedger [keeps_rules]: "state_io_rel R (fs_logAndLedger v tr kind p)"
  unfolding fs_logAndLedger_def by (intro keeps_rules keeps_on_db eng.keeps_LogEvent)

lemma keeps_client [keeps_rules]:
  "state_io_rel R (client_Check v tool task tr input)"
  "state_io_rel R (client_ConsumeToken v tk tool cl task tr input)"
  unfolding client_Check_def client_ConsumeToken_def
  by (intro keeps_rules keeps_on_db eng.keeps_Check eng.keeps_ConsumeToken)+

lemma keeps_randHex [keeps_rules]: "state_io_rel R (randHex n)"
  unfolding randHex_def by (intro keeps_rules keeps_on_db eng.keeps_rand_read eng.keeps_now)

lemma keeps_rootCreateTemp [keeps_rules]: "state_io_rel R (rootCreateTemp v n d)"
  by (induction n) (simp_all add: Let_def, intro keeps_rules, intro keeps_rules)

lemma keeps_case_inode [keeps_rules]:
  "(\<And>es. state_io_rel R (f es)) \<Longrightarrow> (\<And>p b. state_io_rel R (g p b)) \<Longrightarrow> (\<And>x. state_io_rel R (h x)) \<Longrightarrow>
   state_io_rel R (case n of Dir es \<Rightarrow> f es | File p b \<Rightarrow> g p b | Link x \<Rightarrow> h x)"
  by (cases n) simp_all

lemma keeps_descend [keeps_rules]:
  "state_io_rel R (descendOneLevel d c)" "state_io_rel R (descendOneLevelReadOnly d c)"
  unfolding descendOneLevel_def descendOneLevelReadOnly_def open_level_def by (intro keeps_rules)+

lemma keeps_walkConfined: "(\<And>d c. state_io_rel R (step d c)) \<Longrightarrow> state_io_rel R (walkConfined step d rel)"
proof -
  assume s: "\<And>d c. state_io_rel R (step d c)"
  then have "state_io_rel R (walk_steps step d cs)" for cs
    by (induction cs arbitrary: d) (auto intro: keeps_rules)
  then show ?thesis unfolding walkConfined_def Let_def by (intro keeps_rules)
qed

lemma keeps_descendConfined [keeps_rules]:
  "state_io_rel R (descendConfined d rel)" "state_io_rel R (descendConfinedReadOnly d rel)"
  unfolding descendConfined_def descendConfinedReadOnly_def by (intro keeps_walkConfined keeps_descend)+

lemma keeps_or_remove [keeps_rules]:
  "state_io_rel R m \<Longrightarrow> state_io_rel R k \<Longrightarrow> state_io_rel R (or_remove d c m k)"
  unfolding or_remove_def by (intro keeps_rules)

lemma keeps_rootedWrite [keeps_rules]: "state_io_rel R (rootedWrite v a rel b)"
  unfolding rootedWrite_def by (intro keeps_rules)

lemma keeps_git [keeps_rules]:
  "state_io_rel R (gitRepoRootFor v dir)" "state_io_rel R (gitHashObjectW v repo op)" "state_io_rel R (gitCatFileBlob repo sha)"
  unfolding gitRepoRootFor_def gitHashObjectW_def gitCatFileBlob_def Let_def
  by (intro keeps_rules; simp add: state_io_rel_def R_blobs)+

lemma keeps_checkpoint [keeps_rules]: "state_io_rel R (checkpointPreImage v cp task tr)"
  unfolding checkpointPreImage_def rootReadFileConfined_def checkpoint_copy_def copyPreImage_def Let_def
  by (intro keeps_rules)

lemma keeps_trash [keeps_rules]:
  "state_io_rel R (moveToTrashConfined v a rel base)" "state_io_rel R (restoreFromTrashConfined v tp a rel)"
  unfolding moveToTrashConfined_def copy_to_trash_def restoreFromTrashConfined_def copy_bytes_def by (intro keeps_rules)+

lemma keeps_HandleRead: "state_io_rel R (HandleRead v tr path)"
  unfolding HandleRead_def report_secret_read_def Let_def
  by (intro keeps_rules keeps_on_db egr.keeps_MarkSensitiveRead)

lemma keeps_HandleWrite: "state_io_rel R (HandleWrite v tr task path b)"
  unfolding HandleWrite_def deny_glob_gate_def policy_gate_def by (intro keeps_rules)

lemma keeps_HandleDelete: "state_io_rel R (HandleDelete v tr task path)"
  unfolding HandleDelete_def deny_glob_gate_def policy_gate_def by (intro keeps_rules)

lemma keeps_Undo: "state_io_rel R (UndoWrite v tr)" "state_io_rel R (UndoDelete v tr)"
  unfolding UndoWrite_def UndoDelete_def undo_finished_def ledgerUndoExecuted_def recover_pre_image_def
  by (intro keeps_rules)+

lemma keeps_PurgeExpired: "state_io_rel R (PurgeExpired v tr)"
  unfolding PurgeExpired_def by (intro keeps_rules)

lemma keeps_dispatchFSUndo: "state_io_rel R (dispatchFSUndo v tr tool)"
  unfolding dispatchFSUndo_def by (intro keeps_rules keeps_Undo)

end

section \<open>The file system stays well formed\<close>

text \<open>What the others do keeps trees well formed, too.\<close>

definition turns_ok :: "((tree \<Rightarrow> tree) \<times> fs_errno option) list \<Rightarrow> bool" where
  "turns_ok ts \<longleftrightarrow> (\<forall>turn \<in> set ts. \<forall>t. tree_ok t \<longrightarrow> tree_ok (fst turn t))"

definition world_ok :: "tool_state \<Rightarrow> bool" where
  "world_ok s \<longleftrightarrow> tree_ok (fw_tree s) \<and> turns_ok (fw_turns s)"

definition keeps_world :: "tool_state \<Rightarrow> tool_state \<Rightarrow> bool" where
  "keeps_world s s' \<longleftrightarrow> (world_ok s \<longrightarrow> world_ok s')"

interpretation world: fs_preorder keeps_world "\<lambda>_ _. True"
proof unfold_locales
  fix g w s
  assume g: "\<And>t. tree_ok t \<Longrightarrow> tree_ok (g t)"
  show "keeps_world s (sys_after w g s)"
    unfolding keeps_world_def world_ok_def sys_after_def Let_def
    using g by (cases "fw_turns s") (auto simp: turns_ok_def)
qed (auto simp: keeps_world_def world_ok_def state_io_rel_def)

section \<open>Marked sessions stay marked\<close>

interpretation marks_grow: engine_writes marks_grow
  by (unfold_locales; unfold InsertApprovalToken_def ConsumeApprovalToken_def
      RevokeApprovalTokensByTask_def InsertPendingApproval_def ConsumePendingApproval_def
      InsertUndoWindow_def SetUndoWindowState_def InsertAutonomyState_def UpdateAutonomyState_def;
      rule marks_grow.keeps_db; simp add: marks_grow_def Let_def case_prod_beta)

definition fs_marks_grow :: "tool_state \<Rightarrow> tool_state \<Rightarrow> bool" where
  "fs_marks_grow s s' \<longleftrightarrow> marks_grow (fw_db s) (fw_db s')"

interpretation fs_marks: fs_preorder fs_marks_grow marks_grow
  by unfold_locales
    (auto simp: fs_marks_grow_def marks_grow_def sys_after_def Let_def split: list.splits)

section \<open>Sequences of operations\<close>

text \<open>
  The tool calls of workers, the daemon's undo and its purge of expired windows, in any order; between
  two of them the other processes get a new list of turns.
\<close>

datatype fs_op =
    FsRead string string
  | FsWrite string string string string
  | FsDelete string string string
  | FsUndo string string
  | FsPurge string
  | FsTurns "((tree \<Rightarrow> tree) \<times> fs_errno option) list"

fun run_fs :: "fs_env \<Rightarrow> fs_op \<Rightarrow> tool_state \<Rightarrow> tool_state" where
  "run_fs v (FsRead trace path) s = snd (run_state (HandleRead v trace path) s)"
| "run_fs v (FsWrite trace task path b64) s = snd (run_state (HandleWrite v trace task path b64) s)"
| "run_fs v (FsDelete trace task path) s = snd (run_state (HandleDelete v trace task path) s)"
| "run_fs v (FsUndo trace tool) s = snd (run_state (dispatchFSUndo v trace tool) s)"
| "run_fs v (FsPurge trace) s = snd (run_state (PurgeExpired v trace) s)"
| "run_fs v (FsTurns ts) s = s\<lparr>fw_turns := ts\<rparr>"

definition run_fs_ops :: "fs_env \<Rightarrow> fs_op list \<Rightarrow> tool_state \<Rightarrow> tool_state" where
  "run_fs_ops v ops s = fold (run_fs v) ops s"

lemma run_fs_world:
  assumes "\<And>ts. op = FsTurns ts \<Longrightarrow> turns_ok ts"
  shows "keeps_world s (run_fs v op s)"
proof (cases op)
  case (FsTurns ts)
  with assms show ?thesis by (simp add: keeps_world_def world_ok_def)
qed (simp_all add: world.keeps_snd world.keeps_HandleRead world.keeps_HandleWrite world.keeps_HandleDelete
      world.keeps_dispatchFSUndo world.keeps_PurgeExpired)

lemma run_fs_marks: "fs_marks_grow s (run_fs v op s)"
proof (cases op)
  case (FsTurns ts)
  then show ?thesis by (simp add: fs_marks_grow_def marks_grow_def)
qed (simp_all add: fs_marks.keeps_snd fs_marks.keeps_HandleRead fs_marks.keeps_HandleWrite
      fs_marks.keeps_HandleDelete fs_marks.keeps_dispatchFSUndo fs_marks.keeps_PurgeExpired)

end
