(* ===== verification/Fs_Facts.thy ===== *)
theory Fs_Facts
  imports Fs_Laws
begin

text \<open>
  What the operations of the file tools do: the gates a change has passed, where a confined write ends
  when nobody interferes with the write itself, what a canonical path is, and that moving a file to
  the trash never loses it.
\<close>

section \<open>The gates\<close>

definition untouched :: "tool_state \<Rightarrow> tool_state \<Rightarrow> bool" where
  "untouched s s' \<longleftrightarrow> fw_touched s' = fw_touched s \<and> fw_db s' = fw_db s"

interpretation untouched: look_preorder untouched
  by unfold_locales (auto simp: untouched_def sys_after_def split: list.splits)

text \<open>
  The path matches no deny glob, the engine has allowed this tool these bytes, and has accepted the
  token of that decision.
\<close>

definition gates_passed :: "fs_env \<Rightarrow> string \<Rightarrow> string \<Rightarrow> string \<Rightarrow> string \<Rightarrow> string option \<Rightarrow> store \<Rightarrow> bool" where
  "gates_passed v tool trace task match content d0 \<longleftrightarrow>
     MatchesAnyGlobCI v match (fe_deny_globs v) = Inr False \<and> \<not> fe_deny_all v
     \<and> (\<exists>d d1 d2. run_state (Check (fe_engine v) \<lparr>ci_tool = tool, ci_scope = ''global'', ci_task = task,
              ci_trace = trace, ci_session = '''', ci_tool_input = buildToolInput match content\<rparr>) d0 = ((d, None), d1)
          \<and> d_result d = ResultAllow
          \<and> run_state (ConsumeToken (fe_engine v) \<lparr>co_token = d_token d, co_tool = tool, co_class = d_class d,
              co_scope = ''global'', co_task = task, co_trace = trace, co_tool_input = buildToolInput match content\<rparr>) d1
              = (Inr (), d2))"

lemma wp_on_db [wp_rules]: "wp (on_db m) Q s \<longleftrightarrow> wp m (\<lambda>a d. Q a (s\<lparr>fw_db := d\<rparr>)) (fw_db s)"
  by (auto simp: on_db_def wp_def split: prod.splits)

lemma wp_fs_logAndLedger: "(\<And>d. Q () (s\<lparr>fw_db := d\<rparr>)) \<Longrightarrow> wp (fs_logAndLedger v tr kind p) Q s"
proof -
  assume Q: "\<And>d. Q () (s\<lparr>fw_db := d\<rparr>)"
  have "Q () s" using Q [of "fw_db s"] by simp
  with Q show ?thesis by (simp add: fs_logAndLedger_def wp_rules wp_any)
qed

lemma policy_gate_wp:
  assumes "\<And>r s'. (\<And>x. r \<noteq> Inr x) \<Longrightarrow> fw_touched s' = fw_touched s \<Longrightarrow> Q r s'"
    and "\<And>d. gates_passed v tool trace task match content (fw_db s) \<Longrightarrow> wp k Q (s\<lparr>fw_db := d\<rparr>)"
    and "MatchesAnyGlobCI v match (fe_deny_globs v) = Inr False"
  shows "wp (policy_gate v tool trace task (buildToolInput match content) k) Q s"
proof (cases "fe_deny_all v")
  case True
  then show ?thesis by (simp add: policy_gate_def client_Check_def wp_rules assms(1))
next
  case False
  let ?check = "Check (fe_engine v) \<lparr>ci_tool = tool, ci_scope = ''global'', ci_task = task, ci_trace = trace,
      ci_session = '''', ci_tool_input = buildToolInput match content\<rparr>"
  obtain d err d1 where check: "run_state ?check (fw_db s) = ((d, err), d1)" by (metis prod.collapse)
  let ?consume = "ConsumeToken (fe_engine v) \<lparr>co_token = d_token d, co_tool = tool, co_class = d_class d,
      co_scope = ''global'', co_task = task, co_trace = trace, co_tool_input = buildToolInput match content\<rparr>"
  obtain r d2 where consume: "run_state ?consume d1 = (r, d2)" by (cases "run_state ?consume d1")
  have passed: "wp k Q (s\<lparr>fw_db := d2\<rparr>)" if "err = None" "d_result d = ResultAllow" "r = Inr ()"
    using assms(2,3) False check consume that unfolding gates_passed_def by blast
  have "wp ?check P (fw_db s) \<longleftrightarrow> P (d, err) d1" for P by (simp add: wp_def check)
  moreover have "wp ?consume P d1 \<longleftrightarrow> P r d2" for P by (simp add: wp_def consume)
  ultimately show ?thesis
    unfolding policy_gate_def client_Check_def client_ConsumeToken_def if_not_P [OF False]
    using passed by (cases err; cases r) (auto simp: wp_rules assms(1))
qed

text \<open>A change by one of the changing tools comes after the gates.\<close>

lemma canonical_first:
  assumes "\<And>cp s0. run_state (fs_Canonicalize v path) s = (Inr cp, s0) \<Longrightarrow> fw_db s0 = fw_db s \<Longrightarrow>
      fw_touched s0 = fw_touched s \<Longrightarrow> wp (k cp) Q s0"
    and "\<And>e s0. fw_touched s0 = fw_touched s \<Longrightarrow> Q (Inl e) s0"
  shows "wp (fs_try (fs_Canonicalize v path) id k) Q s"
proof -
  obtain r s0 where run: "run_state (fs_Canonicalize v path) s = (r, s0)" by (cases "run_state (fs_Canonicalize v path) s")
  have "untouched s s0" by (rule untouched.keeps_run [OF untouched.keeps_fs_Canonicalize run])
  moreover have "wp (fs_Canonicalize v path) P s \<longleftrightarrow> P r s0" for P by (simp add: wp_def run)
  ultimately show ?thesis using assms run by (cases r) (simp_all add: wp_attempt untouched_def)
qed

lemma deny_glob_gate_wp:
  assumes "\<And>r s'. (\<And>x. r \<noteq> Inr x) \<Longrightarrow> fw_touched s' = fw_touched s \<Longrightarrow> Q r s'"
    and "MatchesAnyGlobCI v (cp_match cp) (fe_deny_globs v) = Inr False \<Longrightarrow> wp k Q s"
  shows "wp (deny_glob_gate v tool trace task cp k) Q s"
proof (cases "MatchesAnyGlobCI v (cp_match cp) (fe_deny_globs v)")
  case (Inr hit)
  then show ?thesis
    using assms by (cases hit) (auto simp: deny_glob_gate_def wp_bind wp_return intro: wp_fs_logAndLedger)
qed (simp add: deny_glob_gate_def wp_return assms(1))

definition change_licensed :: "fs_env \<Rightarrow> string \<Rightarrow> string \<Rightarrow> string \<Rightarrow> string \<Rightarrow> string option \<Rightarrow> tool_state \<Rightarrow> bool" where
  "change_licensed v tool trace task path content s \<longleftrightarrow>
     (\<exists>cp s0. run_state (fs_Canonicalize v path) s = (Inr cp, s0)
        \<and> gates_passed v tool trace task (cp_match cp) content (fw_db s))"

lemma HandleWrite_gates:
  "wp (HandleWrite v trace task path b64) (\<lambda>r s'. fw_touched s' \<noteq> fw_touched s \<or> (\<exists>x. r = Inr x) \<longrightarrow>
     (\<exists>content. base64_decode b64 = Some content
        \<and> change_licensed v ''fs_write'' trace task path (Some content) s)) s"
  (is "wp _ ?Q s")
  unfolding HandleWrite_def
proof (rule canonical_first)
  fix cp s0 k
  assume cp: "run_state (fs_Canonicalize v path) s = (Inr cp, s0)" "fw_db s0 = fw_db s" "fw_touched s0 = fw_touched s"
  show "wp (deny_glob_gate v ''fs_write'' trace task cp
       (case base64_decode b64 of None \<Rightarrow> ret (Inl InvalidBase64) | Some content \<Rightarrow> policy_gate v ''fs_write'' trace task
          (buildToolInput (cp_match cp) (Some content)) (k cp content))) ?Q s0"
  proof (rule deny_glob_gate_wp)
    assume no: "MatchesAnyGlobCI v (cp_match cp) (fe_deny_globs v) = Inr False"
    show "wp (case base64_decode b64 of None \<Rightarrow> ret (Inl InvalidBase64) | Some content \<Rightarrow> policy_gate v ''fs_write'' trace task
          (buildToolInput (cp_match cp) (Some content)) (k cp content)) ?Q s0"
    proof (cases "base64_decode b64")
      case (Some content)
      have "change_licensed v ''fs_write'' trace task path (Some content) s"
        if "gates_passed v ''fs_write'' trace task (cp_match cp) (Some content) (fw_db s0)"
        using that cp unfolding change_licensed_def by auto
      with Some cp(3) show ?thesis by (simp, intro policy_gate_wp [OF _ _ no]) (auto intro!: wp_any)
    qed (simp add: wp_return cp(3))
  qed (use cp(3) in auto)
qed auto

lemma HandleDelete_gates:
  "wp (HandleDelete v trace task path) (\<lambda>r s'. fw_touched s' \<noteq> fw_touched s \<or> (\<exists>x. r = Inr x) \<longrightarrow>
     change_licensed v ''fs_delete'' trace task path None s) s"
  (is "wp _ ?Q s")
  unfolding HandleDelete_def
proof (rule canonical_first)
  fix cp s0 k
  assume cp: "run_state (fs_Canonicalize v path) s = (Inr cp, s0)" "fw_db s0 = fw_db s" "fw_touched s0 = fw_touched s"
  show "wp (deny_glob_gate v ''fs_delete'' trace task cp
       (policy_gate v ''fs_delete'' trace task (buildToolInput (cp_match cp) None) (k cp))) ?Q s0"
  proof (rule deny_glob_gate_wp)
    assume no: "MatchesAnyGlobCI v (cp_match cp) (fe_deny_globs v) = Inr False"
    have "change_licensed v ''fs_delete'' trace task path None s"
      if "gates_passed v ''fs_delete'' trace task (cp_match cp) None (fw_db s0)"
      using that cp unfolding change_licensed_def by auto
    with cp(3) show "wp (policy_gate v ''fs_delete'' trace task (buildToolInput (cp_match cp) None) (k cp)) ?Q s0"
      by (intro policy_gate_wp [OF _ _ no]) (auto intro!: wp_any)
  qed (use cp(3) in auto)
qed auto

text \<open>Reading changes nothing: a relation that does not see the database at all is kept by a read.\<close>

locale read_preorder = look_preorder R for R :: "tool_state \<Rightarrow> tool_state \<Rightarrow> bool" +
  assumes R_any_db: "R s (s\<lparr>fw_db := d\<rparr>)"
begin

lemma keeps_any_db [keeps_rules]: "state_io_rel R (on_db m)"
  unfolding state_io_rel_def by (metis R_any_db snd_conv snd_run_on_db)

lemma keeps_HandleRead: "state_io_rel R (HandleRead v trace path)"
  unfolding HandleRead_def report_secret_read_def fs_logAndLedger_def client_Check_def Let_def
  by (intro keeps_rules)

end

definition same_touches :: "tool_state \<Rightarrow> tool_state \<Rightarrow> bool" where
  "same_touches s s' \<longleftrightarrow> fw_touched s' = fw_touched s"

interpretation same_touches: read_preorder same_touches
  by unfold_locales (auto simp: same_touches_def sys_after_def split: list.splits)

section \<open>System calls nobody interferes with\<close>

lemma wp_sys_quiet:
  "fw_turns s = [] \<Longrightarrow> wp (sys w f) Q s \<longleftrightarrow> Q (fst (f (fw_tree s)))
     (s\<lparr>fw_touched := fw_touched s @ (case w of Some x \<Rightarrow> [x] | None \<Rightarrow> []), fw_tree := snd (f (fw_tree s))\<rparr>)"
  by (simp add: sys_def sys_act_def wp_def Let_def split_beta)

lemma wp_look_quiet: "fw_turns s = [] \<Longrightarrow> wp (look f) Q s \<longleftrightarrow> Q (f (fw_tree s)) s"
  by (simp add: look_def wp_sys_quiet)

text \<open>Directories may have been added, and only added.\<close>

definition grows :: "tree \<Rightarrow> tree \<Rightarrow> bool" where
  "grows t t' \<longleftrightarrow> (\<forall>x c y. child t x c = Some y \<longrightarrow> child t' x c = Some y) \<and> (\<forall>x. is_dir t x \<longrightarrow> is_dir t' x)"

lemma grows_refl [simp]: "grows t t"
  by (simp add: grows_def)

lemma grows_trans: "grows t u \<Longrightarrow> grows u v \<Longrightarrow> grows t v"
  by (simp add: grows_def)

lemma grows_plain: "grows t t' \<Longrightarrow> plain t d cs = Some i \<Longrightarrow> plain t' d cs = Some i"
  by (induction cs arbitrary: d) (auto simp: grows_def split: option.splits)

lemma grows_add_node:
  assumes "tree_ok t" and "is_dir t d" and "child t d c = None"
  shows "grows t (add_node d c n t)"
proof -
  have no: "\<not> is_dir t (fresh t)" using dir_below [OF assms(1), of "fresh t"] by auto
  then have "child t (fresh t) e = None" for e
    using child_dir [of t "fresh t" e] by (cases "child t (fresh t) e") auto
  with no show ?thesis using assms(3) by (auto simp: grows_def child_add_node [OF assms(1,2)] is_dir_add_node [OF assms(1,2)])
qed

definition level_step :: "nat \<Rightarrow> string \<Rightarrow> nat \<Rightarrow> tree \<Rightarrow> tree \<Rightarrow> bool" where
  "level_step d c d' t t' \<longleftrightarrow> child t' d c = Some d' \<and> is_dir t' d' \<and> grows t t' \<and> only_entries {(d, c)} t t' \<and> tree_ok t'"

lemma open_level_quiet:
  assumes "fw_turns s = []" and "plain_element c" and "child (fw_tree s) d c = Some i" and "is_dir (fw_tree s) i"
  shows "wp (open_level d c) Q s \<longleftrightarrow> Q (Inr i) s"
  using root_walk_child [OF assms(2,3) dir_not_link [OF assms(4)]] assms(1,4)
  by (simp add: open_level_def wp_attempt wp_look_quiet root_OpenRoot_def wp_return)

lemma descendOneLevel_quiet:
  assumes "fw_turns s = []" and "tree_ok (fw_tree s)"
  shows "wp (descendOneLevel d c) (\<lambda>r s'. \<forall>d'. r = Inr d' \<longrightarrow>
     level_step d c d' (fw_tree s) (fw_tree s') \<and> fw_turns s' = []) s"
proof -
  let ?s = "s\<lparr>fw_touched := fw_touched s @ [Entry d c]\<rparr>"
  note quiet = wp_bind wp_sys_quiet wp_attempt wp_look_quiet wp_return assms
  show ?thesis
  proof (cases "at_entry (fw_tree s) d c")
    case (Inr i)
    then have c: "plain_element c" "child (fw_tree s) d c = Some i" by (auto simp: at_entry_Inr)
    obtain n where n: "nodes (fw_tree s) i = Some n" using tree_okD(3) [OF assms(2) c(2)] by auto
    have mk: "root_Mkdir d c (fw_tree s) = (Inl EEXIST, fw_tree s)" by (simp add: root_Mkdir_def Inr)
    have stat: "root_Lstat d c (fw_tree s) = Inr n" by (simp add: root_Lstat_def Inr n)
    show ?thesis
    proof (cases n)
      case (Dir es)
      then have "is_dir (fw_tree s) i" using n by (simp add: is_dir_def)
      moreover from this have "wp (open_level d c) Q ?s \<longleftrightarrow> Q (Inr i) ?s" for Q
        using c assms(1) by (intro open_level_quiet) simp_all
      ultimately show ?thesis
        using Dir c by (simp add: descendOneLevel_def quiet mk stat level_step_def)
    qed (simp_all add: descendOneLevel_def quiet mk stat)
  next
    case (Inl e)
    show ?thesis
    proof (cases "e = ENOENT \<and> nodes (fw_tree s) d \<noteq> None")
      case True
      then have c: "plain_element c" "is_dir (fw_tree s) d" "child (fw_tree s) d c = None"
        using at_entry_missing [of "fw_tree s" d c] Inl by auto
      let ?t = "add_node d c (Dir []) (fw_tree s)"
      have step: "level_step d c (fresh (fw_tree s)) (fw_tree s) ?t"
        using c assms(2) dir_below [OF assms(2) c(2)]
        by (simp add: level_step_def child_add_node is_dir_add_node grows_add_node only_entries_add_node tree_ok_add_dir)
      then have "wp (open_level d c) Q (?s\<lparr>fw_tree := ?t\<rparr>) \<longleftrightarrow> Q (Inr (fresh (fw_tree s))) (?s\<lparr>fw_tree := ?t\<rparr>)" for Q
        using assms(1) c(1) by (intro open_level_quiet) (auto simp: level_step_def)
      moreover have "root_Mkdir d c (fw_tree s) = (Inr (), ?t)" using True by (simp add: root_Mkdir_def Inl)
      ultimately show ?thesis
        using step by (simp add: descendOneLevel_def quiet)
    next
      case False
      then have mk: "root_Mkdir d c (fw_tree s) = (Inl e, fw_tree s)" by (auto simp: root_Mkdir_def Inl)
      have "e \<noteq> EEXIST" "e \<noteq> ENOTEMPTY" using Inl by (auto simp: at_entry_def split: if_splits option.splits)
      then show ?thesis by (simp add: descendOneLevel_def quiet mk)
    qed
  qed
qed

definition descended :: "nat \<Rightarrow> string list \<Rightarrow> nat \<Rightarrow> tool_state \<Rightarrow> tool_state \<Rightarrow> bool" where
  "descended d cs d' s s' \<longleftrightarrow> fw_turns s' = [] \<and> tree_ok (fw_tree s') \<and> grows (fw_tree s) (fw_tree s')
     \<and> plain (fw_tree s') d cs = Some d' \<and> is_dir (fw_tree s') d'
     \<and> only_entries (path_entries (fw_tree s') d cs) (fw_tree s) (fw_tree s')"

lemma descended_Cons:
  assumes "level_step d c d1 (fw_tree s) (fw_tree s1)" and "descended d1 cs d' s1 s'"
  shows "descended d (c # cs) d' s s'"
proof -
  have "child (fw_tree s') d c = Some d1" using assms by (auto simp: level_step_def descended_def grows_def)
  with assms only_entries_trans [of "{(d, c)}" "fw_tree s" "fw_tree s1" "path_entries (fw_tree s') d1 cs" "fw_tree s'"]
  show ?thesis by (auto simp: level_step_def descended_def path_entries_Cons intro: grows_trans)
qed

lemma walk_steps_quiet:
  "fw_turns s = [] \<Longrightarrow> tree_ok (fw_tree s) \<Longrightarrow> is_dir (fw_tree s) d \<Longrightarrow>
   wp (walk_steps descendOneLevel d cs) (\<lambda>r s'. \<forall>d'. r = Inr d' \<longrightarrow> descended d cs d' s s') s"
proof (induction cs arbitrary: d s)
  case (Cons c cs)
  show ?case
    unfolding walk_steps.simps wp_attempt
  proof (rule wp_mono [OF descendOneLevel_quiet [OF Cons.prems(1,2)]])
    fix r :: "fs_error + nat" and s1 :: tool_state
    assume step: "\<forall>d'. r = Inr d' \<longrightarrow> level_step d c d' (fw_tree s) (fw_tree s1) \<and> fw_turns s1 = []"
    show "case r of Inl e \<Rightarrow> \<forall>d'. Inl (id e) = Inr d' \<longrightarrow> descended d (c # cs) d' s s1
      | Inr d1 \<Rightarrow> wp (walk_steps descendOneLevel d1 cs) (\<lambda>r s'. \<forall>d'. r = Inr d' \<longrightarrow> descended d (c # cs) d' s s') s1"
    proof (cases r)
      case (Inr d1)
      with step have l: "level_step d c d1 (fw_tree s) (fw_tree s1)" "fw_turns s1 = []" by simp_all
      then have "wp (walk_steps descendOneLevel d1 cs) (\<lambda>r s'. \<forall>d'. r = Inr d' \<longrightarrow> descended d1 cs d' s1 s') s1"
        by (intro Cons.IH) (auto simp: level_step_def)
      with Inr descended_Cons [OF l(1)] show ?thesis by (auto elim!: wp_mono)
    qed simp
  qed
qed (simp add: wp_return descended_def)

end
