(* ===== verification/Fs_Write.thy ===== *)
theory Fs_Write
  imports Fs_Facts
begin

text \<open>
  Where the bytes go.  A confined write that nobody interferes with while it runs ends at the path
  that was asked for, below the directory it was confined to, whatever the rest of the tree has come
  to look like; a canonical path goes through no link; a file is in the trash before it is removed.
\<close>

section \<open>The temporary file\<close>

lemma randHex_db: "wp (randHex n) (\<lambda>_ s'. \<exists>d. s' = s\<lparr>fw_db := d\<rparr>) s"
proof -
  have "wp (rand_read n) (\<lambda>r d. case r of Inl e \<Rightarrow> \<exists>d'. s\<lparr>fw_db := d\<rparr> = s\<lparr>fw_db := d'\<rparr>
      | Inr b \<Rightarrow> \<exists>d'. s\<lparr>fw_db := d\<rparr> = s\<lparr>fw_db := d'\<rparr>) (fw_db s)"
    by (rule wp_any) (auto split: sum.splits)
  then show ?thesis
    unfolding randHex_def wp_bind wp_on_db
    by (rule wp_mono) (auto simp: wp_rules split: sum.splits)
qed

definition temp_made :: "tree \<Rightarrow> nat \<Rightarrow> string \<Rightarrow> nat \<Rightarrow> tool_state \<Rightarrow> bool" where
  "temp_made t d tmp i s' \<longleftrightarrow> plain_element tmp \<and> is_dir t d \<and> child t d tmp = None \<and> i = fresh t
     \<and> (\<exists>p. fw_tree s' = add_node d tmp (File p []) t) \<and> fw_turns s' = []"

lemma rootCreateTemp_quiet:
  "fw_turns s = [] \<Longrightarrow> wp (rootCreateTemp v n d) (\<lambda>r s'. \<forall>tmp i. r = Inr (tmp, i) \<longrightarrow> temp_made (fw_tree s) d tmp i s') s"
proof (induction n arbitrary: s)
  case (Suc n)
  show ?case
    unfolding rootCreateTemp.simps wp_bind
  proof (rule wp_mono [OF randHex_db])
    fix h s1
    assume "\<exists>x. s1 = s\<lparr>fw_db := x\<rparr>"
    then have s1: "fw_tree s1 = fw_tree s" "fw_turns s1 = []" using Suc.prems by auto
    let ?name = "temp_prefix @ h"
    let ?s2 = "s1\<lparr>fw_touched := fw_touched s1 @ [Entry d ?name], fw_tree := fw_tree s\<rparr>"
    have again: "wp (rootCreateTemp v n d) (\<lambda>r s'. \<forall>tmp i. r = Inr (tmp, i) \<longrightarrow> temp_made (fw_tree s) d tmp i s') ?s2"
      using Suc.IH [of ?s2] s1 by simp
    show "wp (let name = ?name in sys (Some (Entry d name)) (root_Create d name (fe_umask v 384)) \<bind>
        (\<lambda>r. case r of Inl e \<Rightarrow> if e \<noteq> EEXIST \<and> e \<noteq> ENOTEMPTY then ret (Inl (FsErrno e)) else rootCreateTemp v n d
           | Inr i \<Rightarrow> ret (Inr (name, i))))
      (\<lambda>r s'. \<forall>tmp i. r = Inr (tmp, i) \<longrightarrow> temp_made (fw_tree s) d tmp i s') s1"
    proof (cases "at_entry (fw_tree s) d ?name = Inl ENOENT \<and> nodes (fw_tree s) d \<noteq> None")
      case True
      then have "plain_element ?name" "is_dir (fw_tree s) d" "child (fw_tree s) d ?name = None"
        using at_entry_missing [of "fw_tree s" d ?name] by auto
      with True s1 show ?thesis
        by (auto simp: Let_def wp_bind wp_sys_quiet root_Create_def wp_return temp_made_def)
    next
      case False
      then have "snd (root_Create d ?name p (fw_tree s)) = fw_tree s" "\<exists>e. fst (root_Create d ?name p (fw_tree s)) = Inl e" for p
        by (auto simp: root_Create_def split: sum.splits)
      then obtain e where "root_Create d ?name (fe_umask v 384) (fw_tree s) = (Inl e, fw_tree s)" by (metis prod.collapse)
      with s1 again show ?thesis by (simp add: Let_def wp_bind wp_sys_quiet wp_return)
    qed
  qed
qed (simp add: wp_return)

section \<open>The tree after a write\<close>

text \<open>\<open>leaf\<close> of \<open>d\<close> is the new file, everything else is as it was.\<close>

definition written :: "nat \<Rightarrow> string \<Rightarrow> nat \<Rightarrow> string \<Rightarrow> tree \<Rightarrow> tree \<Rightarrow> bool" where
  "written d leaf i content t t' \<longleftrightarrow> child t' d leaf = Some i \<and> nodes t' i = Some (File 384 content)
     \<and> nodes t i = None \<and> plain_element leaf \<and> only_entries {(d, leaf)} t t'
     \<and> (\<forall>x c. x \<noteq> d \<and> is_dir t x \<longrightarrow> child t' x c = child t x c)"

lemma file_stages:
  assumes "tree_ok t" and "is_dir t d" and "child t d tmp = None"
    and t4_def: "t4 = set_node (fresh t) (File q content) (add_node d tmp (File p []) t)"
  shows "nodes t4 (fresh t) = Some (File q content)" "is_dir t4 x = is_dir t x"
    "child t4 x c = (if x = d \<and> c = tmp then Some (fresh t) else child t x c)"
    "\<not> is_dir t y \<Longrightarrow> nodes t y = Some n \<Longrightarrow> nodes t4 y = Some n" "fresh t4 = Suc (fresh t)"
proof -
  have no: "\<not> is_dir t (fresh t)" using dir_below [OF assms(1), of "fresh t"] by auto
  then have none: "child t (fresh t) e = None" for e
    using child_dir [of t "fresh t" e] by (cases "child t (fresh t) e") auto
  show "nodes t4 (fresh t) = Some (File q content)" "fresh t4 = Suc (fresh t)" by (simp_all add: t4_def set_node_def)
  have "is_dir t4 x = is_dir (add_node d tmp (File p []) t) x" for x
    by (simp add: t4_def set_node_def is_dir_def nodes_add_node [OF assms(1,2)])
  with no show "is_dir t4 x = is_dir t x" by (simp add: is_dir_add_node [OF assms(1,2)])
  show "child t4 x c = (if x = d \<and> c = tmp then Some (fresh t) else child t x c)"
    using none no assms(2) by (auto simp: t4_def child_set_node child_add_node [OF assms(1,2)])
  show "\<not> is_dir t y \<Longrightarrow> nodes t y = Some n \<Longrightarrow> nodes t4 y = Some n"
    using nodes_below [OF assms(1)] by (auto simp: t4_def set_node_def nodes_add_node [OF assms(1,2)] nodes_set_entry_file)
qed

lemma rename_written:
  assumes ok: "tree_ok t" and d: "is_dir t d" and tmp: "child t d tmp = None" "plain_element tmp"
    and ren: "root_Rename d tmp leaf (set_node (fresh t) (File 384 content) (add_node d tmp (File p []) t)) = (Inr (), t')"
  shows "written d leaf (fresh t) content t t'"
proof -
  let ?t4 = "set_node (fresh t) (File 384 content) (add_node d tmp (File p []) t)"
  note st = file_stages [OF ok d tmp(1) refl [of ?t4]]
  have i: "at_entry ?t4 d tmp = Inr (fresh t)" using tmp(2) by (simp add: at_entry_Inr st(3))
  have leaf: "plain_element leaf"
  proof (rule ccontr)
    assume "\<not> plain_element leaf"
    then have "at_entry ?t4 d leaf = Inl EINVAL" by (simp add: at_entry_def)
    with ren show False by (simp add: root_Rename_def i)
  qed
  have fr: "nodes t (fresh t) = None" by (rule tree_okD(2) [OF ok]) simp
  have d4: "is_dir ?t4 d" using d by (simp add: st(2))
  show ?thesis
  proof (cases "leaf = tmp")
    case True
    then have "t' = ?t4" using ren by (simp add: root_Rename_def i is_dir_def st(1))
    with True leaf fr show ?thesis
      by (auto simp: written_def st only_entries_def)
  next
    case False
    have "t' = set_entry d leaf (Some (fresh t)) (set_entry d tmp None ?t4)"
    proof (cases "at_entry ?t4 d leaf")
      case (Inr j)
      with ren False tmp show ?thesis
        using child_below [OF ok, of d leaf]
        by (auto simp: root_Rename_def i at_entry_Inr st(3) split: if_splits)
    next
      case (Inl e)
      with ren show ?thesis by (cases e) (simp_all add: root_Rename_def i)
    qed
    note t' = this
    have ch: "child t' x c = (if x = d \<and> c = leaf then Some (fresh t) else child t x c)" for x c
      using d4 tmp(1) False by (auto simp: t' child_set_entry st(3))
    have dirs: "is_dir t' x = is_dir t x" for x by (simp add: t' st(2))
    have nodes: "\<not> is_dir t y \<Longrightarrow> nodes t' y = nodes ?t4 y" for y
      by (simp add: t' nodes_set_entry_file st(2))
    have "\<not> is_dir t (fresh t)" using fr by (simp add: is_dir_def)
    with nodes [of "fresh t"] st(1) have "nodes t' (fresh t) = Some (File 384 content)" by simp
    moreover have "only_entries {(d, leaf)} t t'"
      using nodes st(4) by (auto simp: only_entries_def ch dirs) (simp add: t' st(5))
    ultimately show ?thesis using leaf fr by (simp add: written_def ch)
  qed
qed

section \<open>A write nobody interferes with\<close>

lemma path_entries_append:
  "path_entries t d (p @ q) = path_entries t d p \<union> (case plain t d p of Some x \<Rightarrow> path_entries t x q | None \<Rightarrow> {})"
  by (induction p arbitrary: d) (auto simp: path_entries_Cons split: option.splits)

lemma path_entries_dir:
  "plain t d cs = Some i \<Longrightarrow> (x, c) \<in> path_entries t d cs \<Longrightarrow> is_dir t x"
  by (induction cs arbitrary: d) (auto simp: path_entries_Cons dest: child_dir split: option.splits)

lemma fresh_stays_fresh:
  assumes "only_entries E t t'" and "nodes t' i = None"
  shows "nodes t i = None"
proof (rule ccontr)
  assume "nodes t i \<noteq> None"
  then obtain n where n: "nodes t i = Some n" by auto
  have "\<not> is_dir t' i" using assms(2) by (simp add: is_dir_def)
  with assms n show False by (cases "is_dir t i") (auto simp: only_entries_def)
qed

text \<open>The file is at the path, and only entries of the path have changed.\<close>

definition landed :: "string list \<Rightarrow> string \<Rightarrow> tree \<Rightarrow> tree \<Rightarrow> bool" where
  "landed es content t t' \<longleftrightarrow> (\<exists>i. plain t' root_ino es = Some i \<and> nodes t' i = Some (File 384 content) \<and> nodes t i = None)
     \<and> only_entries (path_entries t' root_ino es) t t'"

lemma landing:
  assumes ok: "plain (fw_tree s) root_ino A = Some a"
    and down: "descended a ds d s s1" and w: "written d leaf i content (fw_tree s1) t'"
  shows "landed (A @ ds @ [leaf]) content (fw_tree s) t'"
proof -
  let ?t = "fw_tree s" and ?t1 = "fw_tree s1"
  have t1: "tree_ok ?t1" "is_dir ?t1 d" "plain ?t1 root_ino A = Some a" "plain ?t1 root_ino (A @ ds) = Some d"
    using down ok by (auto simp: descended_def plain_append dest: grows_plain)
  have same: "child t' x c = child ?t1 x c" if "(x, c) \<in> path_entries ?t1 root_ino (A @ ds)" for x c
  proof -
    have "x \<noteq> d" using that path_to_dir_misses [OF t1(1,4,2)] by auto
    with w path_entries_dir [OF t1(4) that] show ?thesis by (simp add: written_def)
  qed
  have path: "plain t' root_ino (A @ ds) = Some d" "path_entries t' root_ino (A @ ds) = path_entries ?t1 root_ino (A @ ds)"
    using plain_cong [of ?t1 root_ino "A @ ds" t', OF same] t1(4) by auto
  have i: "child t' d leaf = Some i" "nodes t' i = Some (File 384 content)" "nodes ?t1 i = None"
    using w by (auto simp: written_def)
  have E: "path_entries t' root_ino (A @ ds @ [leaf]) = path_entries ?t1 root_ino (A @ ds) \<union> {(d, leaf)}"
    using path path_entries_append [of t' root_ino "A @ ds" "[leaf]"] i by (simp add: path_entries_Cons)
  have first: "only_entries (path_entries ?t1 a ds) ?t ?t1" using down by (simp add: descended_def)
  have "path_entries ?t1 a ds \<subseteq> path_entries ?t1 root_ino (A @ ds)"
    using t1(3) by (auto simp: path_entries_append)
  with only_entries_trans [OF first, of "{(d, leaf)}" t'] w
  have "only_entries (path_entries t' root_ino (A @ ds @ [leaf])) ?t t'"
    unfolding E written_def by (auto intro: only_entries_mono)
  moreover have "plain t' root_ino (A @ ds @ [leaf]) = Some i"
    using path(1) i(1) plain_append [of t' root_ino "A @ ds" "[leaf]"] by simp
  ultimately show ?thesis using i fresh_stays_fresh [OF first i(3)] by (auto simp: landed_def)
qed

lemma wp_or_remove:
  assumes "\<And>e s'. Q (Inl e) s'" and "wp m (\<lambda>r s'. \<forall>x. r = Inr x \<longrightarrow> wp k Q s') s"
  shows "wp (or_remove d c m k) Q s"
  unfolding or_remove_def wp_bind
  by (rule wp_mono [OF assms(2)]) (auto simp: wp_bind wp_return assms(1) wp_any split: sum.splits)

lemma write_stages:
  assumes q: "fw_turns s1 = []" and made: "temp_made t d tmp i s1" and ok: "tree_ok t"
  shows "wp (or_remove d tmp (sys (Some (Content i)) (fd_Write i content))
      (or_remove d tmp (sys (Some (Content i)) (fd_Chmod i 384))
        (or_remove d tmp (sys (Some (Entry d leaf)) (root_Rename d tmp leaf)) (ret (Inr ())))))
    (\<lambda>r s'. r = Inr () \<longrightarrow> fw_turns s' = [] \<and> written d leaf i content t (fw_tree s')) s1"
proof -
  obtain p where m: "plain_element tmp" "is_dir t d" "child t d tmp = None" "i = fresh t"
    "fw_tree s1 = add_node d tmp (File p []) t"
    using made by (auto simp: temp_made_def)
  have n: "nodes (fw_tree s1) i = Some (File p [])" by (simp add: m nodes_add_node [OF ok m(2)])
  have wr: "fd_Write i content (fw_tree s1) = (Inr (), set_node i (File p content) (fw_tree s1))"
    by (simp add: fd_Write_def n)
  have ch: "fd_Chmod i 384 (set_node i (File p content) (fw_tree s1)) = (Inr (), set_node i (File 384 content) (fw_tree s1))"
    by (simp add: fd_Chmod_def set_node_def)
  have "written d leaf i content t (snd (root_Rename d tmp leaf (set_node i (File 384 content) (fw_tree s1))))"
    if "fst (root_Rename d tmp leaf (set_node i (File 384 content) (fw_tree s1))) = Inr ()"
    unfolding m(4) using that by (intro rename_written [OF ok m(2,3,1)]) (simp add: prod_eq_iff m(4,5))
  then show ?thesis
    by (auto simp: wp_sys_quiet q wr ch wp_return intro!: wp_or_remove)
qed

lemma wp_attempt_mono:
  assumes "wp m P s" and "\<And>e s'. P (Inl e) s' \<Longrightarrow> Q (Inl (h e)) s'" and "\<And>x s'. P (Inr x) s' \<Longrightarrow> wp (k x) Q s'"
  shows "wp (fs_try m h k) Q s"
  unfolding wp_attempt by (rule wp_mono [OF assms(1)]) (auto simp: assms(2,3) split: sum.splits)

lemma look_OpenRoot:
  assumes "plain (fw_tree s) root_ino (path_elements ancestor) = Some a" and "is_dir (fw_tree s) a"
    and "\<forall>e \<in> set (path_elements ancestor). plain_element e" and "fw_turns s = []"
  shows "wp (look (OpenRoot k (path_elements ancestor))) Q s \<longleftrightarrow> Q (Inr a) s"
  using OpenRoot_plain [OF assms(1,3,2)] by (simp add: wp_look_quiet assms(4))

lemma rootedWrite_lands:
  assumes quiet: "fw_turns s = []" and ok: "tree_ok (fw_tree s)"
    and anc: "plain (fw_tree s) root_ino (path_elements ancestor) = Some a" "is_dir (fw_tree s) a"
      "\<forall>e \<in> set (path_elements ancestor). plain_element e"
    and rel: "rel = join_elements ps" "ps \<noteq> []" "\<forall>e \<in> set ps. plain_element e"
  shows "wp (rootedWrite v ancestor rel content) (\<lambda>r s'. r = Inr () \<longrightarrow>
     fw_turns s' = [] \<and> landed (path_elements ancestor @ ps) content (fw_tree s) (fw_tree s')) s"
proof -
  let ?Q = "\<lambda>r s'. r = Inr () \<longrightarrow> fw_turns s' = [] \<and> landed (path_elements ancestor @ ps) content (fw_tree s) (fw_tree s')"
  have parts: "split_on slash (path_clean rel) = ps" using rel split_on_relative by simp
  have ps: "butlast ps @ [last ps] = ps" using rel(2) by simp
  have down: "wp (descendConfined a rel) (\<lambda>r s1. \<forall>d leaf. r = Inr (d, leaf) \<longrightarrow>
      leaf = last ps \<and> descended a (butlast ps) d s s1) s"
    unfolding descendConfined_def walkConfined_def parts Let_def
    by (rule wp_attempt_mono [OF walk_steps_quiet [OF quiet ok anc(2)]]) (auto simp: wp_return)
  show ?thesis
    unfolding rootedWrite_def wp_attempt [of "look f" for f] look_OpenRoot [OF anc quiet] sum.case
  proof (rule wp_attempt_mono [OF down], simp, clarify)
    fix d leaf and s1 :: tool_state
    assume "\<forall>d' leaf'. Inr (d, leaf) = (Inr (d', leaf') :: fs_error + nat \<times> string) \<longrightarrow>
        leaf' = last ps \<and> descended a (butlast ps) d' s s1"
    then have leaf: "leaf = last ps" and d: "descended a (butlast ps) d s s1" by simp_all
    have s1: "fw_turns s1 = []" "tree_ok (fw_tree s1)" using d by (auto simp: descended_def)
    show "wp (fs_try (rootCreateTemp v 10000 d) id (\<lambda>(tmp, i).
        or_remove d tmp (sys (Some (Content i)) (fd_Write i content))
          (or_remove d tmp (sys (Some (Content i)) (fd_Chmod i 384))
            (or_remove d tmp (sys (Some (Entry d leaf)) (root_Rename d tmp leaf)) (ret (Inr ())))))) ?Q s1"
    proof (rule wp_attempt_mono [OF rootCreateTemp_quiet [OF s1(1)]], simp, clarify)
      fix tmp i and s2 :: tool_state
      assume "\<forall>tmp' i'. Inr (tmp, i) = (Inr (tmp', i') :: fs_error + string \<times> nat) \<longrightarrow> temp_made (fw_tree s1) d tmp' i' s2"
      then have made: "temp_made (fw_tree s1) d tmp i s2" by simp
      then have q: "fw_turns s2 = []" by (simp add: temp_made_def)
      show "wp (or_remove d tmp (sys (Some (Content i)) (fd_Write i content))
          (or_remove d tmp (sys (Some (Content i)) (fd_Chmod i 384))
            (or_remove d tmp (sys (Some (Entry d leaf)) (root_Rename d tmp leaf)) (ret (Inr ()))))) ?Q s2"
        by (rule wp_mono [OF write_stages [OF q made s1(2)]])
          (use landing [OF anc(1) d, of "last ps" i content] ps leaf in auto)
    qed
  qed
qed

end
