(* ===== verification/Fs_Canonical.thy ===== *)
theory Fs_Canonical
  imports Fs_Write
begin

text \<open>
  What \<open>Canonicalize\<close> returns in a file system that holds still: a path whose existing part goes
  through directories only, split where the confinement of a later write begins.
\<close>

section \<open>Limits and prefixes of a walk\<close>

lemma walk_limit:
  "k \<le> k' \<Longrightarrow> walk confined follow t k stk cs = walk confined follow t k' stk cs
     \<or> walk confined follow t k stk cs = Inl ELOOP"
proof (induction confined follow t k stk cs arbitrary: k' rule: walk.induct)
  case (2 confined follow t k stk c cs)
  have smaller: "k - 1 \<le> k' - 1" "k \<noteq> 0 \<Longrightarrow> k' \<noteq> 0" using "2.prems" by simp_all
  show ?case
  proof (cases "children t (at_end stk)")
    case es: (Some es)
    show ?thesis
    proof (cases "c = '''' \<or> c = ''.'' \<or> c = ''..''")
      case True
      then show ?thesis
        using "2.IH"(1) [OF es] "2.IH"(2) [OF es] "2.IH"(3) [OF es] "2.prems"
        by (auto simp: walk.simps(2) es)
    next
      case False
      show ?thesis
      proof (cases "es c")
        case (Some i)
        show ?thesis
        proof (cases "\<exists>target. nodes t i = Some (Link target)")
          case True
          then obtain target where "nodes t i = Some (Link target)" ..
          with False Some "2.IH"(7) [OF es _ _ Some _ refl _ _ _ _ smaller(1)] "2.IH"(8) [OF es _ _ Some _ refl _ _ _ smaller(1)]
          show ?thesis using smaller by (auto simp: walk.simps(2) es)
        next
          case no: False
          with False Some "2.IH"(4,5,6) [OF es] "2.prems" show ?thesis
            by (cases "nodes t i") (auto simp: walk.simps(2) es split: inode.splits)
        qed
      qed (use False in \<open>simp add: walk.simps(2) es\<close>)
    qed
  qed (simp add: walk.simps(2))
qed simp

lemma walk_append:
  "q \<noteq> [] \<Longrightarrow> (\<exists>k'. walk confined follow t k stk (p @ q) =
     (case walk confined True t k stk p of
        Inl e \<Rightarrow> Inl e
      | Inr (Found stk') \<Rightarrow> walk confined follow t k' stk' q
      | Inr (Missing stk' c) \<Rightarrow> Inl ENOENT))"
proof (induction confined "True" t k stk p rule: walk.induct)
  case (2 confined t k stk c cs)
  show ?case
  proof (cases "children t (at_end stk)")
    case es: (Some es)
    show ?thesis
    proof (cases "c = '''' \<or> c = ''.'' \<or> c = ''..''")
      case True
      then show ?thesis
        using "2.hyps"(1) [OF es] "2.hyps"(2) [OF es] "2.hyps"(3) [OF es] "2.prems"
        by (auto simp: walk.simps(2) es)
    next
      case False
      show ?thesis
      proof (cases "es c")
        case (Some i)
        show ?thesis
        proof (cases "\<exists>target. nodes t i = Some (Link target)")
          case True
          then obtain target where "nodes t i = Some (Link target)" ..
          with False Some "2.hyps"(7) [OF es _ _ Some _ refl] "2.hyps"(8) [OF es _ _ Some _ refl] "2.prems"
          show ?thesis by (auto simp: walk.simps(2) es)
        next
          case no: False
          with False Some "2.hyps"(4,5,6) [OF es] "2.prems" show ?thesis
            by (cases "nodes t i") (auto simp: walk.simps(2) es split: inode.splits)
        qed
      qed (use False "2.prems" in \<open>simp add: walk.simps(2) es\<close>)
    qed
  qed (simp add: walk.simps(2))
qed auto

section \<open>Splitting at the deepest existing ancestor\<close>

lemma walk_plain_names:
  "plain t (at_end stk) cs = Some i \<Longrightarrow> \<forall>c \<in> set cs. plain_element c \<Longrightarrow> \<not> is_link t i \<Longrightarrow> stk \<noteq> [] \<Longrightarrow>
   \<exists>stk'. walk confined follow t k stk cs = Inr (Found stk') \<and> at_end stk' = i \<and> trail_names stk' = trail_names stk @ cs"
proof (induction cs arbitrary: stk)
  case (Cons c cs)
  then obtain j where j: "child t (at_end stk) c = Some j" "plain t j cs = Some i" by (auto split: option.splits)
  obtain es where es: "children t (at_end stk) = Some es" "es c = Some j"
    using j(1) by (auto simp: child_def split: option.splits)
  have c: "c \<noteq> ''''" "c \<noteq> ''.''" "c \<noteq> ''..''" using Cons.prems(2) by (auto simp: plain_element_def)
  have "\<not> is_link t j"
  proof (cases cs)
    case (Cons e rest)
    with j(2) plain_dir [of t j e rest i] show ?thesis by (simp add: dir_not_link)
  qed (use j(2) Cons.prems(3) in simp)
  then have "walk confined follow t k stk (c # cs) = walk confined follow t k ((c, j) # stk) cs"
    using es c by (auto simp: walk.simps(2) is_link_def split: option.splits inode.splits)
  with Cons.IH [of "(c, j) # stk"] j(2) Cons.prems show ?case by (simp add: at_end_def trail_names_def)
qed simp

lemma eval_plain:
  assumes "plain t root_ino es = Some i" and "\<forall>e \<in> set es. plain_element e" and "\<not> is_link t i"
  shows "eval_symlinks t es = Inr es"
  using walk_plain_names [of t kernel_start es i False True 255] assms
  by (auto simp: eval_symlinks_def kernel_start_def at_end_def as_found_def trail_names_def)

lemma lstat_plain:
  assumes "tree_ok t" and "plain t root_ino es = Some i" and "\<forall>e \<in> set es. plain_element e" and "\<not> is_link t i"
  shows "\<exists>n. lstat k t es = Inr n"
proof -
  have "nodes t i \<noteq> None"
  proof (cases es rule: rev_cases)
    case (snoc fs c)
    with assms(2) obtain d where "child t d c = Some i" by (auto simp: plain_append split: option.splits)
    then show ?thesis by (rule tree_okD(3) [OF assms(1)])
  qed (use assms(2) tree_okD(1) [OF assms(1)] in \<open>auto simp: is_dir_def split: option.splits\<close>)
  then show ?thesis
    using walk_plain [of t kernel_start es i False False k] assms(2-4)
    by (auto simp: lstat_def kernel_start_def at_end_def as_found_def)
qed

text \<open>Where the links of a path lead, and what it means that nothing is there.\<close>

lemma eval_symlinks_trail:
  assumes "tree_ok t" and "eval_symlinks t es = Inr d" and "\<forall>e \<in> set es. slash \<notin> set e"
  shows "\<exists>i. plain t root_ino d = Some i \<and> \<not> is_link t i \<and> (\<forall>e \<in> set d. plain_element e)
    \<and> (\<forall>k c. plain_element c \<and> lstat k t (es @ [c]) = Inl ENOENT \<longrightarrow> is_dir t i \<and> child t i c = None)"
proof -
  obtain stk where w: "walk False True t 255 kernel_start es = Inr (Found stk)" and d: "d = trail_names stk"
    using assms(2) by (auto simp: eval_symlinks_def as_found_def split: sum.splits found.splits)
  note found = kernel_walk_found [OF w assms(3,1)]
  have "is_dir t (at_end stk) \<and> child t (at_end stk) c = None"
    if c: "plain_element c" and missing: "lstat k t (es @ [c]) = Inl ENOENT" for k c
  proof -
    obtain k' where app: "walk False False t k kernel_start (es @ [c]) =
        (case walk False True t k kernel_start es of Inl e \<Rightarrow> Inl e
          | Inr (Found stk') \<Rightarrow> walk False False t k' stk' [c] | Inr (Missing stk' c) \<Rightarrow> Inl ENOENT)"
      using walk_append [of "[c]" False False t k kernel_start es] by auto
    have "walk False True t k kernel_start es = Inr (Found stk) \<or> walk False True t k kernel_start es = Inl ELOOP"
      using walk_limit [of k 255 False True t kernel_start es] walk_limit [of 255 k False True t kernel_start es] w
      by (cases "k \<le> 255") auto
    with app missing have last: "as_found (walk False False t k' stk [c]) = Inl ENOENT
        \<or> (\<exists>stk'. walk False False t k' stk [c] = Inr (Found stk') \<and> nodes t (at_end stk') = None)"
      by (auto simp: lstat_def as_found_def split: sum.splits found.splits option.splits)
    obtain es' where es': "children t (at_end stk) = Some es'"
      using last by (cases "children t (at_end stk)") (auto simp: walk.simps(2) as_found_def)
    have "es' c = None"
    proof (rule ccontr)
      assume "es' c \<noteq> None"
      then obtain j where j: "es' c = Some j" by auto
      have "nodes t j \<noteq> None" using tree_okD(3) [OF assms(1), of "at_end stk" c j] es' j by (simp add: child_def)
      moreover have "walk False False t k' stk [c] = Inr (Found ((c, j) # stk))"
        using c es' j by (auto simp: walk.simps(2) plain_element_def split: option.splits inode.splits)
      ultimately show False using last by (simp add: as_found_def at_end_def)
    qed
    with es' show ?thesis by (auto simp: is_dir_children child_def)
  qed
  with found d show ?thesis by blast
qed

definition splits :: "nat \<Rightarrow> tree \<Rightarrow> string list \<Rightarrow> string list \<Rightarrow> string list \<Rightarrow> bool" where
  "splits k t es d rest \<longleftrightarrow> (\<exists>pre. es = pre @ rest \<and> eval_symlinks t pre = Inr d
     \<and> (rest = [] \<or> lstat k t (pre @ [hd rest]) = Inl ENOENT))"

lemma split_up_quiet:
  "fw_turns s = [] \<Longrightarrow> trailing = [] \<or> lstat (fe_links v) (fw_tree s) (rev up @ [hd trailing]) = Inl ENOENT \<Longrightarrow>
   wp (split_up v up trailing) (\<lambda>r s'. s' = s \<and> (\<forall>d rest. r = Inr (d, rest) \<longrightarrow>
     splits (fe_links v) (fw_tree s) (rev up @ trailing) d rest)) s"
proof (induction up arbitrary: trailing)
  case Nil
  then have "wp (resolve_up [] trailing) (\<lambda>r s'. s' = s \<and> (\<forall>d rest. r = Inr (d, rest) \<longrightarrow>
     splits (fe_links v) (fw_tree s) trailing d rest)) s"
    by (auto simp: resolve_up_def wp_attempt wp_look_quiet wp_return splits_def split: sum.splits)
  with Nil show ?case by (auto simp: wp_bind wp_look_quiet wp_return split: sum.splits)
next
  case (Cons c up)
  then have "wp (resolve_up (c # up) trailing) (\<lambda>r s'. s' = s \<and> (\<forall>d rest. r = Inr (d, rest) \<longrightarrow>
     splits (fe_links v) (fw_tree s) (rev (c # up) @ trailing) d rest)) s"
    by (auto simp: resolve_up_def wp_attempt wp_look_quiet wp_return splits_def split: sum.splits)
  moreover have "lstat (fe_links v) (fw_tree s) (rev up @ [c]) = Inl ENOENT \<Longrightarrow>
      wp (split_up v up (c # trailing)) (\<lambda>r s'. s' = s \<and> (\<forall>d rest. r = Inr (d, rest) \<longrightarrow>
     splits (fe_links v) (fw_tree s) (rev up @ c # trailing) d rest)) s"
    using Cons by (intro Cons.IH) simp_all
  ultimately show ?case
    using Cons.prems(1) by (auto simp: wp_bind wp_look_quiet wp_return split: sum.splits)
qed

lemma plain_take:
  assumes "plain t d es = Some i" and "n \<le> length es"
  shows "\<exists>y. plain t d (take n es) = Some y \<and> (n < length es \<longrightarrow> is_dir t y)"
proof -
  have split: "plain t d (take n es @ drop n es) = Some i" using assms(1) by simp
  then obtain y where y: "plain t d (take n es) = Some y" "plain t y (drop n es) = Some i"
    unfolding plain_append by (auto split: option.splits)
  have "is_dir t y" if "n < length es"
    using y(2) that plain_dir [of t y "es ! n" "drop (Suc n) es" i] by (simp add: Cons_nth_drop_Suc)
  with y(1) show ?thesis by blast
qed

text \<open>A path whose existing part goes through directories only and ends at no link.\<close>

definition link_free :: "tree \<Rightarrow> string list \<Rightarrow> bool" where
  "link_free t es \<longleftrightarrow> (\<forall>n i. plain t root_ino (take n es) = Some i \<longrightarrow> \<not> is_link t i)"

lemma plain_link_free:
  assumes "plain t root_ino es = Some i" and "\<not> is_link t i"
  shows "link_free t es"
  unfolding link_free_def
proof (intro allI impI)
  fix n j assume j: "plain t root_ino (take n es) = Some j"
  show "\<not> is_link t j"
  proof (cases "n < length es")
    case True
    with plain_take [OF assms(1), of n] j show ?thesis by (auto dest: dir_not_link)
  qed (use assms j in simp)
qed

lemma first_split:
  assumes ok: "tree_ok t" and es: "\<forall>e \<in> set es. plain_element e" and sp: "splits k t es d rest"
  shows "\<exists>i. plain t root_ino d = Some i \<and> \<not> is_link t i \<and> (\<forall>e \<in> set (d @ rest). plain_element e)
    \<and> link_free t (d @ rest) \<and> (rest \<noteq> [] \<longrightarrow> is_dir t i \<and> child t i (hd rest) = None)"
proof -
  obtain pre where pre: "es = pre @ rest" "eval_symlinks t pre = Inr d"
    "rest = [] \<or> lstat k t (pre @ [hd rest]) = Inl ENOENT" using sp by (auto simp: splits_def)
  have "\<forall>e \<in> set pre. slash \<notin> set e" using es pre(1) by (auto simp: plain_element_def)
  from eval_symlinks_trail [OF ok pre(2) this] obtain i where i: "plain t root_ino d = Some i" "\<not> is_link t i"
    "\<forall>e \<in> set d. plain_element e" "\<forall>k c. plain_element c \<and> lstat k t (pre @ [c]) = Inl ENOENT \<longrightarrow> is_dir t i \<and> child t i c = None"
    by blast
  have hd: "is_dir t i \<and> child t i (hd rest) = None" if "rest \<noteq> []"
  proof -
    have "plain_element (hd rest)" using es pre(1) that by simp
    with i(4) pre(3) that show ?thesis by blast
  qed
  have "link_free t (d @ rest)"
  proof (cases rest)
    case Nil
    with plain_link_free [OF i(1,2)] show ?thesis by simp
  next
    case (Cons c cs)
    show ?thesis
      unfolding link_free_def
    proof (intro allI impI)
      fix n j assume j: "plain t root_ino (take n (d @ rest)) = Some j"
      show "\<not> is_link t j"
      proof (cases "n \<le> length d")
        case True
        with j plain_link_free [OF i(1,2)] show ?thesis by (auto simp: link_free_def)
      next
        case False
        then obtain m where "n - length d = Suc m" by (metis Suc_diff_Suc diff_Suc_Suc not_le)
        with j i(1) hd Cons have False by (auto simp: plain_append)
        then show ?thesis ..
      qed
    qed
  qed
  with i hd es pre(1) show ?thesis by auto
qed

lemma split_at_base:
  assumes ok: "tree_ok t" and x: "plain t root_ino base = Some x" "is_dir t x" "\<forall>e \<in> set base. plain_element e"
    and missing: "mores = [] \<or> child t x (hd mores) = None \<and> plain_element (hd mores)" and sp: "splits k t (base @ mores) a rest"
  shows "a = base \<and> rest = mores"
proof -
  obtain pre where pre: "base @ mores = pre @ rest" "eval_symlinks t pre = Inr a"
    "rest = [] \<or> lstat k t (pre @ [hd rest]) = Inl ENOENT" using sp by (auto simp: splits_def)
  note eval = eval_plain [OF x(1,3) dir_not_link [OF x(2)]]
  consider us where "base = pre @ us" "rest = us @ mores" | us where "pre = base @ us" "mores = us @ rest"
    using pre(1) by (auto simp: append_eq_append_conv2)
  then show ?thesis
  proof cases
    case (1 us)
    have "us = []"
    proof (rule ccontr)
      assume us: "us \<noteq> []"
      have t: "take (Suc (length pre)) base = pre @ [hd us]" using 1(1) us by (cases us) auto
      have "Suc (length pre) \<le> length base" using 1(1) us by (cases us) auto
      from plain_take [OF x(1) this] obtain y where y: "plain t root_ino (pre @ [hd us]) = Some y"
        "Suc (length pre) < length base \<longrightarrow> is_dir t y" unfolding t by blast
      have "is_dir t y"
      proof (cases "Suc (length pre) < length base")
        case False
        then have "pre @ [hd us] = base" using 1(1) us by (cases us) auto
        with y x show ?thesis by simp
      qed (use y in simp)
      moreover have "\<forall>e \<in> set (pre @ [hd us]). plain_element e" using x(3) 1(1) us by auto
      ultimately obtain n where "lstat k t (pre @ [hd us]) = Inr n"
        using lstat_plain [OF ok y(1), of k] dir_not_link by blast
      with pre(3) 1(2) us show False by simp
    qed
    with 1 pre(2) eval show ?thesis by simp
  next
    case both: (2 us)
    show ?thesis
    proof (cases "us = []")
      case True
      with both pre(2) eval show ?thesis by simp
    next
    case False
    note 2 = both False
    obtain stk where stk: "walk False True t 255 kernel_start base = Inr (Found stk)" "at_end stk = x"
      using walk_plain [of t kernel_start base x False True 255] x dir_not_link
      by (auto simp: kernel_start_def at_end_def)
    obtain k' where k': "walk False True t 255 kernel_start (base @ us) = walk False True t k' stk us"
      using walk_append [OF 2(3), of False True t 255 kernel_start base] stk(1) by auto
    obtain es where es: "children t x = Some es" using x(2) by (auto simp: is_dir_children)
    have hd: "child t x (hd us) = None" "plain_element (hd us)" using missing 2(2,3) by auto
    then have "es (hd us) = None" using es by (simp add: child_def)
    with hd(2) have "as_found (walk False True t k' stk (hd us # tl us)) = Inl ENOENT"
      by (auto simp: walk.simps(2) stk(2) es plain_element_def as_found_def)
    with k' 2(1,3) pre(2) have False by (simp add: eval_symlinks_def)
    then show ?thesis ..
    qed
  qed
qed

lemma second_split:
  assumes ok: "tree_ok t" and d: "plain t root_ino d = Some i" "\<not> is_link t i" "\<forall>e \<in> set (d @ rest). plain_element e"
    and missing: "rest \<noteq> [] \<longrightarrow> is_dir t i \<and> child t i (hd rest) = None"
    and ne: "d @ rest \<noteq> []" and sp: "splits k t (butlast (d @ rest)) a rest'"
  shows "\<exists>x. plain t root_ino a = Some x \<and> is_dir t x \<and> d @ rest = a @ rest' @ [last (d @ rest)]"
proof (cases "rest = []")
  case True
  with ne have "d \<noteq> []" by simp
  with plain_take [OF d(1), of "length d - 1"] obtain x where
    x: "plain t root_ino (butlast d) = Some x" "is_dir t x" by (auto simp: butlast_conv_take)
  have "\<forall>e \<in> set (butlast d). plain_element e" using d(3) by (auto dest: in_set_butlastD)
  from split_at_base [OF ok x this, of "[]" k a rest'] sp True x \<open>d \<noteq> []\<close> show ?thesis by simp
next
  case False
  have hd: "butlast rest = [] \<or> child t i (hd (butlast rest)) = None \<and> plain_element (hd (butlast rest))"
    using False missing d(3) by (cases rest) auto
  have sp': "splits k t (d @ butlast rest) a rest'" using sp False by (simp add: butlast_append)
  have "\<forall>e \<in> set d. plain_element e" using d(3) by simp
  from split_at_base [OF ok d(1) _ this hd sp'] missing False d(1) show ?thesis by simp
qed

section \<open>The canonical path\<close>

definition canonical :: "fs_env \<Rightarrow> tree \<Rightarrow> canonical_path \<Rightarrow> bool" where
  "canonical v t cp \<longleftrightarrow> (\<exists>as ps a. cp_op cp = path_text (as @ ps) \<and> cp_ancestor cp = path_text as
       \<and> (\<forall>e \<in> set (as @ ps). plain_element e) \<and> plain t root_ino as = Some a \<and> is_dir t a
       \<and> (if as @ ps = [] then cp_rel cp = ''/'' else ps \<noteq> [] \<and> cp_rel cp = join_elements ps)
       \<and> link_free t (as @ ps))
     \<and> cp_match cp = nfc (fe_unicode v) (cp_op cp) \<and> firstForbiddenRune (cp_match cp) = None"

text \<open>The path is what the kernel makes of the part of \<open>raw\<close> that exists, and the rest as it was given.\<close>

definition resolves :: "fs_env \<Rightarrow> tree \<Rightarrow> string \<Rightarrow> canonical_path \<Rightarrow> bool" where
  "resolves v t raw cp \<longleftrightarrow> (\<exists>d rest.
     splits (fe_links v) t (path_elements (path_clean (filepath_Abs v (expandHome raw (fe_home v))))) d rest
     \<and> cp_op cp = path_text (d @ rest))"

lemma canonicalI:
  assumes "plain t root_ino as = Some a" "is_dir t a" "\<forall>e \<in> set (as @ ps). plain_element e"
    and "link_free t (as @ ps)" "op = path_text (as @ ps)" "ps \<noteq> []"
    and "firstForbiddenRune (nfc (fe_unicode v) op) = None"
  shows "canonical v t \<lparr>cp_op = op, cp_match = nfc (fe_unicode v) op, cp_ancestor = path_text as,
      cp_rel = join_elements ps\<rparr>"
  using assms unfolding canonical_def
  by (intro conjI, intro exI [of _ as] exI [of _ ps] exI [of _ a]) simp_all

lemma join_elements_empty: "\<forall>e \<in> set es. plain_element e \<Longrightarrow> join_elements es = '''' \<longleftrightarrow> es = []"
  by (cases es rule: join_elements.cases) (auto simp: plain_element_def)

lemma path_join_snoc:
  assumes "\<forall>e \<in> set (es @ [e]). plain_element e"
  shows "path_join [join_elements es, e] = join_elements (es @ [e])"
proof (cases "es = []")
  case True
  with assms path_clean_relative [of "[e]"] show ?thesis by (simp add: path_join_def plain_element_def)
next
  case False
  then have "join_elements es \<noteq> ''''" using assms join_elements_empty [of es] by simp
  with assms False path_clean_relative [of "es @ [e]"] show ?thesis
    by (simp add: path_join_def join_elements_snoc plain_element_def)
qed

lemma splitExistingAncestor_quiet:
  assumes "fw_turns s = []" and "\<forall>e \<in> set (path_elements p). plain_element e"
  shows "wp (splitExistingAncestor v p) (\<lambda>r s'. s' = s \<and> (\<forall>anc tr. r = Inr (anc, tr) \<longrightarrow>
     (\<exists>d rest. splits (fe_links v) (fw_tree s) (path_elements p) d rest \<and> anc = path_text d \<and> tr = join_elements rest))) s"
  unfolding splitExistingAncestor_def
proof (rule wp_attempt_mono [OF split_up_quiet [OF assms(1)]], simp, simp, clarify)
  fix d rest
  assume "\<forall>d' rest'. Inr (d, rest) = (Inr (d', rest') :: fs_errno + string list \<times> string list) \<longrightarrow>
      splits (fe_links v) (fw_tree s) (rev (rev (path_elements p)) @ []) d' rest'"
  then have sp: "splits (fe_links v) (fw_tree s) (path_elements p) d rest" by simp
  then have "\<forall>e \<in> set rest. plain_element e" using assms(2) by (auto simp: splits_def)
  then have "path_join rest = join_elements rest" by (rule path_join_relative)
  with sp show "wp (ret (Inr (path_text d, path_join rest))) (\<lambda>r s'. s' = s \<and> (\<forall>anc tr. r = Inr (anc, tr) \<longrightarrow>
     (\<exists>d rest. splits (fe_links v) (fw_tree s) (path_elements p) d rest \<and> anc = path_text d \<and> tr = join_elements rest))) s"
    by (auto simp: wp_return)
qed

lemma clean_absolute:
  assumes "is_rooted (fe_cwd v)"
  shows "\<forall>e \<in> set (path_elements (path_clean (filepath_Abs v p))). plain_element e"
proof -
  have rooted_clean: "is_rooted (path_clean q)" if "is_rooted q" for q
    using that by (simp add: path_clean_def Let_def is_rooted_def)
  have "fe_cwd v \<noteq> ''''" using assms by (auto simp: is_rooted_def)
  then obtain q where "path_join [fe_cwd v, p] = path_clean q" "is_rooted q"
    using assms by (cases "p = ''''") (auto simp: path_join_def is_rooted_def split: list.splits)
  then have "is_rooted (filepath_Abs v p)" by (simp add: filepath_Abs_def rooted_clean)
  then show ?thesis by (rule path_clean_rooted) simp
qed

lemma fs_Canonicalize_quiet:
  assumes quiet: "fw_turns s = []" and ok: "tree_ok (fw_tree s)" and cwd: "is_rooted (fe_cwd v)"
  shows "wp (fs_Canonicalize v raw) (\<lambda>r s'. s' = s \<and> (\<forall>cp. r = Inr cp \<longrightarrow> canonical v (fw_tree s) cp
     \<and> resolves v (fw_tree s) raw cp)) s"
proof (cases "trim_space raw = ''''")
  case False
  let ?t = "fw_tree s" and ?k = "fe_links v"
  let ?p = "path_clean (filepath_Abs v (expandHome raw (fe_home v)))"
  let ?Q = "\<lambda>r s'. s' = s \<and> (\<forall>cp. r = Inr cp \<longrightarrow> canonical v ?t cp \<and> resolves v ?t raw cp)"
  note plain = clean_absolute [OF cwd, of "expandHome raw (fe_home v)"]
  have deep: "wp (resolveDeepestExisting v ?p) (\<lambda>r s'. s' = s \<and> (\<forall>op. r = Inr op \<longrightarrow>
      (\<exists>d rest. splits ?k ?t (path_elements ?p) d rest \<and> op = path_text (d @ rest)))) s"
    unfolding resolveDeepestExisting_def
  proof (rule wp_attempt_mono [OF splitExistingAncestor_quiet [OF quiet plain]], simp, clarify)
    fix anc tr
    assume "\<forall>anc' tr'. Inr (anc, tr) = (Inr (anc', tr') :: fs_errno + string \<times> string) \<longrightarrow>
      (\<exists>d rest. splits ?k ?t (path_elements ?p) d rest \<and> anc' = path_text d \<and> tr' = join_elements rest)"
    then obtain d rest where sp: "splits ?k ?t (path_elements ?p) d rest" and eq: "anc = path_text d" "tr = join_elements rest"
      by auto
    from first_split [OF ok plain sp] have "\<forall>e \<in> set (d @ rest). plain_element e" by blast
    then have "(if tr = '''' then anc else path_join [anc, tr]) = path_text (d @ rest)"
      using path_join_text [of d rest] join_elements_empty [of rest] by (simp add: eq)
    with sp show "wp (ret (Inr (if tr = '''' then anc else path_join [anc, tr]))) (\<lambda>r s'. s' = s \<and> (\<forall>op. r = Inr op \<longrightarrow>
      (\<exists>d rest. splits ?k ?t (path_elements ?p) d rest \<and> op = path_text (d @ rest)))) s"
      by (auto simp: wp_return)
  qed
  show ?thesis
    unfolding fs_Canonicalize_def if_not_P [OF False] Let_def
  proof (rule wp_attempt_mono [OF deep], simp, clarify)
    fix op
    assume "\<forall>op'. Inr op = (Inr op' :: fs_errno + string) \<longrightarrow>
      (\<exists>d rest. splits ?k ?t (path_elements ?p) d rest \<and> op' = path_text (d @ rest))"
    then obtain d rest where sp: "splits ?k ?t (path_elements ?p) d rest" and op: "op = path_text (d @ rest)" by auto
    from first_split [OF ok plain sp] obtain i where i: "plain ?t root_ino d = Some i" "\<not> is_link ?t i"
      "\<forall>e \<in> set (d @ rest). plain_element e" "link_free ?t (d @ rest)"
      "rest \<noteq> [] \<longrightarrow> is_dir ?t i \<and> child ?t i (hd rest) = None" by blast
    have bl: "\<forall>e \<in> set (butlast (d @ rest)). plain_element e" using i(3) by (blast dest: in_set_butlastD)
    have dir: "path_elements (path_dir op) = butlast (d @ rest)"
      unfolding op path_dir_text [OF i(3)] using bl by (rule path_elements_text)
    show "wp (fs_try (splitExistingAncestor v (path_dir op)) FsErrno (\<lambda>(ancestor, trailing).
        case firstForbiddenRune (nfc (fe_unicode v) op) of Some r \<Rightarrow> ret (Inl (ForbiddenRune r))
        | None \<Rightarrow> ret (Inr \<lparr>cp_op = op, cp_match = nfc (fe_unicode v) op, cp_ancestor = ancestor,
            cp_rel = path_join [trailing, path_base op]\<rparr>))) ?Q s"
    proof (rule wp_attempt_mono [OF splitExistingAncestor_quiet [OF quiet]])
      show "\<forall>e \<in> set (path_elements (path_dir op)). plain_element e" unfolding dir by (rule bl)
    next
      fix x :: "string \<times> string" and s'
      assume "s' = s \<and> (\<forall>anc tr. Inr x = (Inr (anc, tr) :: fs_errno + string \<times> string) \<longrightarrow>
        (\<exists>d rest. splits ?k ?t (path_elements (path_dir op)) d rest \<and> anc = path_text d \<and> tr = join_elements rest))"
      then obtain a rest' where s': "s' = s" and sp': "splits ?k ?t (butlast (d @ rest)) a rest'"
        and x: "x = (path_text a, join_elements rest')"
        by (cases x) (auto simp: dir)
      have "canonical v ?t \<lparr>cp_op = op, cp_match = nfc (fe_unicode v) op, cp_ancestor = path_text a,
            cp_rel = path_join [join_elements rest', path_base op]\<rparr>" if none: "firstForbiddenRune (nfc (fe_unicode v) op) = None"
      proof (cases "d @ rest = []")
        case True
        with sp' tree_okD(1) [OF ok] split_at_base [OF ok, of "[]" root_ino "[]" ?k a rest'] have "a = []" "rest' = []"
          by auto
        with True none tree_okD(1) [OF ok] i(4) show ?thesis
          by (auto simp: canonical_def op path_text_def path_base_def path_join_def path_clean_def is_rooted_def
              path_elements_def slash_def intro!: exI [of _ "[] :: string list"])
      next
        case ne: False
        from second_split [OF ok i(1,2,3,5) ne sp'] obtain b where
          b: "plain ?t root_ino a = Some b" "is_dir ?t b" "d @ rest = a @ rest' @ [last (d @ rest)]" by blast
        have "path_base op = last (d @ rest)" unfolding op by (rule path_base_text [OF i(3) ne])
        then have rel: "path_join [join_elements rest', path_base op] = join_elements (rest' @ [last (d @ rest)])"
          using path_join_snoc [of rest' "last (d @ rest)"] i(3) b(3) by (metis Un_iff set_append)
        obtain ps where ps: "ps = rest' @ [last (d @ rest)]" "ps \<noteq> []" by blast
        then have eq: "d @ rest = a @ ps" using b(3) by simp
        have rel': "path_join [join_elements rest', path_base op] = join_elements ps"
          unfolding ps(1) by (rule rel)
        have facts: "plain ?t root_ino a = Some b" "is_dir ?t b" "\<forall>e \<in> set (a @ ps). plain_element e"
            "link_free ?t (a @ ps)" "op = path_text (a @ ps)"
          using b(1,2) i(3,4) eq op by simp_all
        show ?thesis unfolding rel' by (rule canonicalI [OF facts ps(2) none])
      qed
      moreover have "resolves v ?t raw \<lparr>cp_op = op, cp_match = m, cp_ancestor = an, cp_rel = re\<rparr>" for m an re
        using sp op unfolding resolves_def by auto
      ultimately show "wp (case x of (ancestor, trailing) \<Rightarrow>
        (case firstForbiddenRune (nfc (fe_unicode v) op) of Some r \<Rightarrow> ret (Inl (ForbiddenRune r))
        | None \<Rightarrow> ret (Inr \<lparr>cp_op = op, cp_match = nfc (fe_unicode v) op, cp_ancestor = ancestor,
            cp_rel = path_join [trailing, path_base op]\<rparr>))) ?Q s'"
        by (auto simp: s' x wp_return split: option.splits)
    qed simp
  qed
qed (simp add: fs_Canonicalize_def wp_return)

end
