(* ===== verification/Fs_Trash.thy ===== *)
theory Fs_Trash
  imports Fs_Canonical
begin

text \<open>
  Moving a file to the trash never loses it.  Nobody else changes the file system here, but any
  system call may fail: \<open>idle\<close> says that the others are idle.  \<open>in_place\<close> says that a file is at a path.
\<close>

section \<open>Failing system calls\<close>

definition idle :: "tool_state \<Rightarrow> bool" where
  "idle s \<longleftrightarrow> (\<forall>turn \<in> set (fw_turns s). fst turn = id)"

lemma wp_sys_idle:
  assumes "idle s" and "\<And>e s'. fw_tree s' = fw_tree s \<Longrightarrow> idle s' \<Longrightarrow> Q (Inl e) s'"
    and "\<And>s'. fw_tree s' = snd (f (fw_tree s)) \<Longrightarrow> idle s' \<Longrightarrow> Q (fst (f (fw_tree s))) s'"
  shows "wp (sys w f) Q s"
proof (cases "fw_turns s")
  case Nil
  with assms(1) show ?thesis
    by (subst wp_sys_quiet) (auto simp: idle_def intro!: assms(3))
next
  case (Cons turn ts)
  obtain g fault where turn: "turn = (g, fault)" by (cases turn)
  with assms(1) Cons have "g = id" "\<forall>turn \<in> set ts. fst turn = id" by (auto simp: idle_def)
  then show ?thesis
    using assms(2,3) Cons turn
    by (cases fault) (simp_all add: sys_def sys_act_def wp_def Let_def idle_def split_beta)
qed

lemma wp_look_idle:
  assumes "idle s" and "\<And>e s'. fw_tree s' = fw_tree s \<Longrightarrow> idle s' \<Longrightarrow> Q (Inl e) s'"
    and "\<And>s'. fw_tree s' = fw_tree s \<Longrightarrow> idle s' \<Longrightarrow> Q (f (fw_tree s)) s'"
  shows "wp (look f) Q s"
  unfolding look_def by (rule wp_sys_idle) (use assms in simp_all)

section \<open>Descending without making anything\<close>

lemma descendOneLevelReadOnly_idle:
  assumes "idle s" and "tree_ok (fw_tree s)"
  shows "wp (descendOneLevelReadOnly d c) (\<lambda>r s'. fw_tree s' = fw_tree s \<and> idle s'
     \<and> (\<forall>d'. r = Inr d' \<longrightarrow> child (fw_tree s) d c = Some d' \<and> is_dir (fw_tree s) d')) s"
proof -
  let ?Q = "\<lambda>r s'. fw_tree s' = fw_tree s \<and> idle s'
     \<and> (\<forall>d'. r = Inr d' \<longrightarrow> child (fw_tree s) d c = Some d' \<and> is_dir (fw_tree s) d')"
  have stat: "wp (case info of Link x \<Rightarrow> ret (Inl (PlantedLink c)) | _ \<Rightarrow> open_level d c) ?Q s1"
    if s1: "fw_tree s1 = fw_tree s" "idle s1" and info: "root_Lstat d c (fw_tree s) = Inr info" for info s1
  proof (cases "\<exists>x. info = Link x")
    case False
    from info obtain i where i: "plain_element c" "child (fw_tree s) d c = Some i" "nodes (fw_tree s) i = Some info"
      by (auto simp: root_Lstat_def at_entry_Inr split: sum.splits option.splits)
    with False have "root_walk d c (fw_tree s) = Inr i" by (intro root_walk_child) (auto simp: is_link_def split: inode.splits)
    then have "wp (open_level d c) ?Q s1"
      unfolding open_level_def wp_attempt
      by (intro wp_look_idle) (auto simp: s1 i wp_return root_OpenRoot_def split: sum.splits)
    with False show ?thesis by (cases info) simp_all
  qed (auto simp: wp_return s1)
  show ?thesis
    unfolding descendOneLevelReadOnly_def wp_attempt
    by (rule wp_look_idle [OF assms(1)]) (auto simp: stat split: sum.splits)
qed

lemma walk_steps_idle:
  "idle s \<Longrightarrow> tree_ok (fw_tree s) \<Longrightarrow> is_dir (fw_tree s) d \<Longrightarrow>
   wp (walk_steps descendOneLevelReadOnly d cs) (\<lambda>r s'. fw_tree s' = fw_tree s \<and> idle s'
     \<and> (\<forall>d'. r = Inr d' \<longrightarrow> plain (fw_tree s) d cs = Some d' \<and> is_dir (fw_tree s) d')) s"
proof (induction cs arbitrary: d s)
  case (Cons c cs)
  show ?case
    unfolding walk_steps.simps
  proof (rule wp_attempt_mono [OF descendOneLevelReadOnly_idle [OF Cons.prems(1,2)]], simp)
    fix d1 s1
    assume s1: "fw_tree s1 = fw_tree s \<and> idle s1
      \<and> (\<forall>d'. Inr d1 = (Inr d' :: fs_error + nat) \<longrightarrow> child (fw_tree s) d c = Some d' \<and> is_dir (fw_tree s) d')"
    then have "wp (walk_steps descendOneLevelReadOnly d1 cs) (\<lambda>r s'. fw_tree s' = fw_tree s1 \<and> idle s'
       \<and> (\<forall>d'. r = Inr d' \<longrightarrow> plain (fw_tree s1) d1 cs = Some d' \<and> is_dir (fw_tree s1) d')) s1"
      using Cons.prems by (intro Cons.IH) simp_all
    then show "wp (walk_steps descendOneLevelReadOnly d1 cs) (\<lambda>r s'. fw_tree s' = fw_tree s \<and> idle s'
       \<and> (\<forall>d'. r = Inr d' \<longrightarrow> plain (fw_tree s) d (c # cs) = Some d' \<and> is_dir (fw_tree s) d')) s1"
      using s1 by (auto elim!: wp_mono)
  qed
qed (simp add: wp_return)

section \<open>Files stay where they are\<close>

definition in_place :: "string list \<Rightarrow> nat \<Rightarrow> inode \<Rightarrow> tree \<Rightarrow> bool" where
  "in_place es i n t \<longleftrightarrow> tree_ok t \<and> plain t root_ino es = Some i \<and> nodes t i = Some n"

text \<open>Something was added: what was there still is.\<close>

definition adds :: "tree \<Rightarrow> tree \<Rightarrow> bool" where
  "adds t t' \<longleftrightarrow> grows t t' \<and> (\<forall>i n. nodes t i = Some n \<and> \<not> is_dir t i \<longrightarrow> nodes t' i = Some n)"

lemma adds_refl [simp]: "adds t t"
  by (simp add: adds_def)

lemma adds_trans: "adds t u \<Longrightarrow> adds u v \<Longrightarrow> adds t v"
proof -
  assume a: "adds t u" "adds u v"
  have "nodes v i = Some n" if n: "nodes t i = Some n" "\<not> is_dir t i" for i n
  proof -
    have "nodes u i = Some n" using a(1) n by (simp add: adds_def)
    moreover from this n have "\<not> is_dir u i" by (simp add: is_dir_def split: inode.splits)
    ultimately show ?thesis using a(2) by (simp add: adds_def)
  qed
  with a show ?thesis by (auto simp: adds_def intro: grows_trans)
qed

lemma adds_in_place:
  assumes "adds t t'" and "tree_ok t'" and "in_place es i n t" and "\<And>ds. n \<noteq> Dir ds"
  shows "in_place es i n t'"
proof -
  have "\<not> is_dir t i" using assms(3,4) by (cases n) (auto simp: in_place_def is_dir_def)
  with assms(1-3) show ?thesis by (auto simp: in_place_def adds_def dest: grows_plain)
qed

lemma adds_add_node:
  assumes "tree_ok t" and "is_dir t d" and "child t d c = None"
  shows "adds t (add_node d c n t)"
  unfolding adds_def
  by (auto simp: grows_add_node [OF assms] nodes_add_node [OF assms(1,2)] nodes_set_entry_file dest: nodes_below [OF assms(1)])

lemma adds_MkdirAll:
  "tree_ok t \<Longrightarrow> \<forall>e \<in> set (made @ es). slash \<notin> set e \<Longrightarrow> adds t (snd (mkdirs k made es t))"
proof (induction k made es t rule: mkdirs.induct)
  case (2 k made c cs t)
  have no_slash: "\<forall>e \<in> set (made @ [c]). slash \<notin> set e" using "2.prems"(2) by auto
  show ?case
  proof (cases "walk False False t k kernel_start (made @ [c])")
    case w: (Inr f)
    show ?thesis
    proof (cases f)
      case (Missing stk x)
      note there = kernel_walk_missing [OF w [unfolded Missing] no_slash]
      with "2.prems"(1) have "tree_ok (add_node (at_end stk) x (Dir []) t)" "adds t (add_node (at_end stk) x (Dir []) t)"
        by (simp_all add: tree_ok_add_dir adds_add_node)
      with "2.IH"(2) [OF w Missing] "2.prems" w Missing show ?thesis by (auto intro: adds_trans)
    next
      case (Found stk)
      with "2.prems" "2.IH"(1) [OF w Found] w show ?thesis by (auto split: sum.splits)
    qed
  qed simp
qed simp

section \<open>The way to the new file\<close>

text \<open>
  \<open>c\<close> was missing at \<open>e\<close> and is there now; what the walk went through before is still there, save
  perhaps a file.
\<close>

definition walkable :: "tree \<Rightarrow> tree \<Rightarrow> bool" where
  "walkable t t' \<longleftrightarrow> (\<forall>x. is_dir t x \<longrightarrow> is_dir t' x)
     \<and> (\<forall>x n y. child t x n = Some y \<and> (is_dir t y \<or> is_link t y) \<longrightarrow> child t' x n = Some y)
     \<and> (\<forall>y l. nodes t y = Some (Link l) \<longrightarrow> nodes t' y = Some (Link l))"

lemma walk_to_new_file:
  assumes new: "child t' e c = Some j" "nodes t' j = Some (File p b)"
  shows "walkable t t' \<Longrightarrow> walk confined follow t k stk es = Inr (Missing stk' c) \<Longrightarrow> at_end stk' = e \<Longrightarrow>
    walk confined True t' k stk es = Inr (Found ((c, j) # stk'))"
proof (induction confined follow t k stk es rule: walk.induct)
  case (2 confined follow t k stk n cs)
  have dirs: "\<And>x. is_dir t x \<Longrightarrow> is_dir t' x"
    and entries: "\<And>x n y. child t x n = Some y \<Longrightarrow> is_dir t y \<or> is_link t y \<Longrightarrow> child t' x n = Some y"
    and links: "\<And>y l. nodes t y = Some (Link l) \<Longrightarrow> nodes t' y = Some (Link l)"
    using "2.prems"(1) unfolding walkable_def by blast+
  from "2.prems"(2) obtain es where es: "children t (at_end stk) = Some es"
    by (cases "children t (at_end stk)") (auto simp: walk.simps(2))
  then have "is_dir t' (at_end stk)" using dirs [of "at_end stk"] es unfolding is_dir_children by blast
  then obtain es' where es': "children t' (at_end stk) = Some es'" by (auto simp: is_dir_children)
  note here = walk.simps(2) es es'
  have kept: "es' n = Some i" if "es n = Some i" "is_dir t i \<or> is_link t i" for i
    using entries [of "at_end stk" n i] that es es' by (simp add: child_def)
  consider "n = '''' \<or> n = ''.''" | "n = ''..''" | "n \<notin> {'''', ''.'', ''..''}" "es n = None"
    | i where "n \<notin> {'''', ''.'', ''..''}" "es n = Some i"
    by (cases "es n") auto
  then show ?case
  proof cases
    case 1
    with "2.IH"(1) [OF es] "2.prems" show ?thesis by (simp add: here)
  next
    case 2
    with "2.IH"(2,3) [OF es] "2.prems" show ?thesis by (auto simp: here split: if_splits)
  next
    case 3
    then have "cs = []" "stk' = stk" "n = c" using "2.prems"(2) by (auto simp: here split: if_splits)
    moreover have "es' c = Some j" using new(1) "2.prems"(3) es' calculation by (simp add: child_def)
    ultimately show ?thesis using 3 new(2) by (simp add: here)
  next
    case (4 i)
    show ?thesis
    proof (cases "\<exists>l. nodes t i = Some (Link l)")
      case True
      then obtain l where l: "nodes t i = Some (Link l)" by auto
      then have "is_link t i" by (simp add: is_link_def)
      with kept 4 have "es' n = Some i" by simp
      moreover have "nodes t' i = Some (Link l)" using links l by simp
      ultimately show ?thesis
        using 4 l "2.IH"(7,8) [OF es] "2.prems" by (auto simp: here split: if_splits)
    next
      case False
      then have w: "walk confined follow t k ((n, i) # stk) cs = Inr (Missing stk' c)"
        using 4 "2.prems"(2) by (auto simp: here split: option.splits inode.splits)
      then obtain m ms where cs: "cs = m # ms" by (cases cs) auto
      with w have d: "is_dir t i"
        by (cases "children t i") (auto simp: walk.simps(2) at_end_def is_dir_children)
      with kept 4 have "es' n = Some i" by simp
      moreover have "is_dir t' i" using d dirs by simp
      moreover from False have "nodes t i \<noteq> Some (Link l)" for l by simp
      ultimately show ?thesis
        using 4 w "2.IH"(4-6) [OF es] "2.prems" by (auto simp: here is_dir_def split: option.splits inode.splits)
    qed
  qed
qed simp

section \<open>Moving to the trash\<close>

lemma copied_and_removed:
  assumes ok: "tree_ok t" and es: "\<forall>e \<in> set es. slash \<notin> set e"
    and new: "walk False False t k kernel_start es = Inr (Missing stk c)"
    and old: "child t d leaf = Some i" "nodes t i = Some (File p b)"
    and t3: "t3 = set_node (fresh t) (File q content) (add_node (at_end stk) c (File q []) t)"
  shows "ReadFile k es (set_entry d leaf None t3) = Inr content"
proof -
  let ?t4 = "set_entry d leaf None t3"
  have e: "is_dir t (at_end stk)" "child t (at_end stk) c = None" using kernel_walk_missing [OF new es] by auto
  note st = file_stages [OF ok e t3]
  have d: "is_dir t3 d" using child_dir [OF old(1)] by (simp add: st(2))
  have ne: "(at_end stk, c) \<noteq> (d, leaf)" using e old by auto
  have "\<not> is_dir t3 (fresh t)" by (simp add: is_dir_def st(1))
  then have newfile: "nodes ?t4 (fresh t) = Some (File q content)" by (simp add: nodes_set_entry_file st(1))
  have entries: "child ?t4 x n = Some y" if "child t x n = Some y" "is_dir t y \<or> is_link t y" for x n y
  proof -
    have "(x, n) \<noteq> (d, leaf)" using that old by (auto simp: is_dir_def is_link_def)
    with that(1) e(2) show ?thesis by (auto simp: child_set_entry [OF d] st(3))
  qed
  have links: "nodes ?t4 y = Some (Link l)" if "nodes t y = Some (Link l)" for y l
  proof -
    have "\<not> is_dir t y" using that by (simp add: is_dir_def)
    with st(4) [OF this that] show ?thesis by (simp add: nodes_set_entry_file st(2))
  qed
  have "walk False True ?t4 k kernel_start es = Inr (Found ((c, fresh t) # stk))"
    using ne entries links
    by (intro walk_to_new_file [OF _ newfile _ new refl]) (auto simp: walkable_def child_set_entry [OF d] st(2,3))
  with newfile show ?thesis by (simp add: ReadFile_def as_found_def at_end_def file_bytes_def)
qed

lemma wp_idle_quits:
  assumes "\<And>e s'. fw_tree s' = fw_tree s \<Longrightarrow> idle s' \<Longrightarrow> Q (Inl (h e)) s'"
    and "idle s"
    and "\<And>x s'. f (fw_tree s) = Inr x \<Longrightarrow> fw_tree s' = fw_tree s \<Longrightarrow> idle s' \<Longrightarrow> wp (k x) Q s'"
  shows "wp (fs_try (look f) h k) Q s"
  unfolding wp_attempt by (rule wp_look_idle [OF assms(2)]) (auto simp: assms(1,3) split: sum.splits)

lemma wp_idle_acts:
  assumes "\<And>e s'. fw_tree s' = fw_tree s \<Longrightarrow> idle s' \<Longrightarrow> Q (Inl (h e)) s'"
    and "idle s"
    and "\<And>e s'. fst (f (fw_tree s)) = Inl e \<Longrightarrow> fw_tree s' = snd (f (fw_tree s)) \<Longrightarrow> Q (Inl (h e)) s'"
    and "\<And>x s'. fst (f (fw_tree s)) = Inr x \<Longrightarrow> fw_tree s' = snd (f (fw_tree s)) \<Longrightarrow> idle s' \<Longrightarrow> wp (k x) Q s'"
  shows "wp (fs_try (sys w f) h k) Q s"
  unfolding wp_attempt by (rule wp_sys_idle [OF assms(2)]) (auto simp: assms(1,3,4) split: sum.splits)

text \<open>The file is where it was, or it is gone from there and its bytes are at \<open>dest\<close>.\<close>

definition in_trash :: "fs_env \<Rightarrow> string list \<Rightarrow> nat \<Rightarrow> nat \<Rightarrow> string \<Rightarrow> 'e + string \<Rightarrow> tree \<Rightarrow> bool" where
  "in_trash v es i p b r t \<longleftrightarrow> (case r of
     Inl _ \<Rightarrow> in_place es i (File p b) t
   | Inr dest \<Rightarrow> ReadFile (fe_links v) (path_elements dest) t = Inr b \<and> plain t root_ino es = None)"

lemma copy_stages:
  fixes h :: "fs_errno \<Rightarrow> 'e"
  assumes idle: "idle s" and src: "in_place (D @ [leaf]) i (File p b) (fw_tree s)"
    and d: "plain (fw_tree s) root_ino D = Some d" "is_dir (fw_tree s) d" "plain_element leaf"
  shows "wp (fs_try (sys w (CreateFile (fe_links v) (path_elements dest) q)) h (\<lambda>out.
      fs_try (copy_bytes i out) h (\<lambda>_.
      fs_try (sys w' (root_Remove d leaf)) h (\<lambda>_. ret (Inr dest)))))
    (\<lambda>r s'. in_trash v (D @ [leaf]) i p b r (fw_tree s')) s"
proof -
  let ?t = "fw_tree s" and ?k = "fe_links v" and ?Q = "\<lambda>r s'. in_trash v (D @ [leaf]) i p b r (fw_tree s')"
  have t: "tree_ok ?t" "child ?t d leaf = Some i" "nodes ?t i = Some (File p b)"
    using src d by (auto simp: in_place_def plain_append split: option.splits)
  have safe: "in_trash v (D @ [leaf]) i p b (Inl e) t'" if "adds ?t t'" "tree_ok t'" for e :: 'e and t'
    using adds_in_place [OF that src] by (simp add: in_trash_def)
  show ?thesis
  proof (rule wp_idle_acts [OF _ idle])
    fix out s1
    assume "fst (CreateFile ?k (path_elements dest) q ?t) = Inr out"
      and s1: "fw_tree s1 = snd (CreateFile ?k (path_elements dest) q ?t)" and i1: "idle s1"
    then obtain stk c where new: "walk False False ?t ?k kernel_start (path_elements dest) = Inr (Missing stk c)"
      and out: "out = fresh ?t" and t2: "fw_tree s1 = add_node (at_end stk) c (File q []) ?t"
      by (auto simp: CreateFile_def split: sum.splits found.splits)
    let ?t3 = "set_node (fresh ?t) (File q b) (fw_tree s1)"
    have e: "is_dir ?t (at_end stk)" "child ?t (at_end stk) c = None"
      using kernel_walk_missing [OF new elements_no_slash] by auto
    have t3: "?t3 = set_node (fresh ?t) (File q b) (add_node (at_end stk) c (File q []) ?t)" by (simp add: t2)
    note st = file_stages [OF t(1) e t3]
    have a2: "adds ?t (fw_tree s1)" "tree_ok (fw_tree s1)"
      using t(1) e by (simp_all add: t2 adds_add_node tree_ok_add_file)
    have n2: "nodes (fw_tree s1) (fresh ?t) = Some (File q [])"
      using dir_below [OF t(1) e(1)] by (simp add: t2 nodes_add_node [OF t(1) e(1)])
    have a3: "adds ?t ?t3" "tree_ok ?t3"
      using st a2 n2 by (auto simp: adds_def grows_def e(2) intro: tree_ok_set_file)
    have i: "file_bytes (fw_tree s1) i = Inr b" using a2 t(3) by (simp add: adds_def file_bytes_def is_dir_def)
    have wr: "fd_Write out b (fw_tree s1) = (Inr (), ?t3)" by (simp add: fd_Write_def n2 out)
    have rm: "root_Remove d leaf ?t3 = (Inr (), set_entry d leaf None ?t3)"
    proof -
      have "child ?t3 d leaf = Some i" using a3 t(2) by (simp add: adds_def grows_def)
      moreover have "\<not> is_dir ?t3 i" unfolding st(2) using t(3) by (simp add: is_dir_def)
      moreover have "at_entry ?t3 d leaf = Inr i" using calculation d(3) by (simp add: at_entry_Inr)
      ultimately show ?thesis by (simp add: root_Remove_def)
    qed
    have dir3: "plain ?t3 root_ino D = Some d" "is_dir ?t3 d"
      using a3 d by (auto simp: adds_def grows_def intro: grows_plain [of ?t])
    have gone: "plain (set_entry d leaf None ?t3) root_ino (D @ [leaf]) = None"
    proof -
      have "plain (set_entry d leaf None ?t3) root_ino D = Some d"
        using plain_cong [of ?t3 root_ino D "set_entry d leaf None ?t3"] path_to_dir_misses [OF a3(2) dir3] dir3
        by (metis child_set_entry)
      then show ?thesis using dir3 by (simp add: plain_append child_set_entry)
    qed
    have final: "in_trash v (D @ [leaf]) i p b (Inr dest :: 'e + string) (set_entry d leaf None ?t3)"
      using copied_and_removed [OF t(1) elements_no_slash new t(2,3), of ?t3 q b] gone
      by (simp add: in_trash_def t2)
    have remove: "wp (fs_try (sys w' (root_Remove d leaf)) h (\<lambda>_. ret (Inr dest))) ?Q s3"
      if "fw_tree s3 = ?t3" "idle s3" for s3
      by (rule wp_idle_acts [OF _ that(2)]) (simp_all add: that(1) rm wp_return safe a3 final)
    have copy: "wp (copy_bytes i out) (\<lambda>r s3. idle s3
        \<and> fw_tree s3 = (case r of Inl e \<Rightarrow> fw_tree s1 | Inr x \<Rightarrow> ?t3)) s1"
      unfolding copy_bytes_def
      by (rule wp_idle_quits; (rule wp_sys_idle)?) (use i1 i wr in auto)
    show "wp (fs_try (copy_bytes i out) h (\<lambda>_. fs_try (sys w' (root_Remove d leaf)) h (\<lambda>_. ret (Inr dest)))) ?Q s1"
      by (rule wp_attempt_mono [OF copy]) (simp_all add: safe a2 remove)
  qed (use t(1) in \<open>auto simp: CreateFile_def intro: safe split: sum.splits found.splits\<close>)
qed

lemma moveToTrash_keeps_the_file:
  assumes idle: "idle s" and src: "in_place (path_elements ancestor @ ps) i (File p b) (fw_tree s)"
    and anc: "plain (fw_tree s) root_ino (path_elements ancestor) = Some a" "is_dir (fw_tree s) a"
      "\<forall>e \<in> set (path_elements ancestor). plain_element e"
    and rel: "rel = join_elements ps" "ps \<noteq> []" "\<forall>e \<in> set ps. plain_element e"
  shows "wp (moveToTrashConfined v ancestor rel base)
     (\<lambda>r s'. in_trash v (path_elements ancestor @ ps) i p b r (fw_tree s')) s"
proof -
  let ?t = "fw_tree s" and ?A = "path_elements ancestor" and ?leaf = "last ps"
  let ?Q = "\<lambda>r s'. in_trash v (?A @ ps) i p b r (fw_tree s')"
  have parts: "split_on slash (path_clean rel) = ps" using rel split_on_relative by simp
  have ps: "?A @ ps = (?A @ butlast ps) @ [?leaf]" using rel(2) by simp
  have leaf: "plain_element ?leaf" using rel(2,3) by simp
  have safe: "in_trash v (?A @ ps) i p b (Inl e) t'" if "adds ?t t'" "tree_ok t'" for e :: fs_error and t'
    using adds_in_place [OF that src] by (simp add: in_trash_def)
  have ok: "tree_ok ?t" using src by (simp add: in_place_def)
  have same: "?Q (Inl e) s'" if "fw_tree s' = ?t" for e :: fs_error and s'
    using safe [of ?t e] ok that by simp
  have made: "adds ?t (snd (MkdirAll (fe_links v) (path_elements p) ?t))"
      "tree_ok (snd (MkdirAll (fe_links v) (path_elements p) ?t))" for p
    using ok adds_MkdirAll [of ?t "[]" "path_elements p"] tree_ok_MkdirAll [OF ok elements_no_slash]
    by (simp_all add: MkdirAll_def elements_no_slash)
  have opened: "wp (copy_to_trash v d ?leaf dest) ?Q s4"
    if t4: "adds ?t (fw_tree s4) \<and> tree_ok (fw_tree s4)" "idle s4" and d: "plain ?t root_ino (?A @ butlast ps) = Some d" "is_dir ?t d"
    for dest d s4
  proof -
    have at: "in_place ((?A @ butlast ps) @ [?leaf]) i (File p b) (fw_tree s4)"
      "plain (fw_tree s4) root_ino (?A @ butlast ps) = Some d" "is_dir (fw_tree s4) d"
      using adds_in_place [OF _ _ src [unfolded ps]] t4(1) d by (auto simp: adds_def grows_def intro: grows_plain [of ?t])
    then have "child (fw_tree s4) d ?leaf = Some i" "nodes (fw_tree s4) i = Some (File p b)"
      by (auto simp: in_place_def plain_append split: option.splits)
    then have w: "root_walk d ?leaf (fw_tree s4) = Inr i"
      using leaf by (intro root_walk_child) (auto simp: is_link_def)
    show ?thesis
      unfolding copy_to_trash_def ps
    proof (rule wp_idle_quits [OF _ t4(2)], goal_cases)
      case (2 src s5)
      then have src: "src = i" using w by simp
      show ?case
        unfolding src
      proof (rule wp_idle_quits [OF _ 2(3)], goal_cases)
        case (2 perm s6)
        then show ?case using at leaf \<open>fw_tree s5 = fw_tree s4\<close> by (intro copy_stages) simp_all
      qed (use 2 t4 in \<open>simp add: safe rel(2)\<close>)
    qed (use t4 in \<open>simp add: safe rel(2)\<close>)
  qed
  show ?thesis
    unfolding moveToTrashConfined_def
  proof (rule wp_idle_quits [OF _ idle], simp add: same, goal_cases)
    case (1 root s1)
    then have root: "root = a" using OpenRoot_plain [OF anc(1,3,2)] by simp
    let ?P = "\<lambda>r s'. fw_tree s' = ?t \<and> idle s' \<and> (\<forall>d leaf. r = Inr (d, leaf) \<longrightarrow>
        leaf = ?leaf \<and> plain ?t a (butlast ps) = Some d \<and> is_dir ?t d)"
    have down: "wp (descendConfinedReadOnly root rel) ?P s1"
      unfolding descendConfinedReadOnly_def walkConfined_def parts Let_def root
      by (rule wp_attempt_mono [OF walk_steps_idle [OF 1(3)]]) (use 1 ok anc(2) in \<open>auto simp: wp_return\<close>)
    show ?case
    proof (rule wp_attempt_mono [OF down], simp add: same, clarify, goal_cases)
      case (1 d leaf s2)
      then have d: "leaf = ?leaf" "plain ?t root_ino (?A @ butlast ps) = Some d" "is_dir ?t d"
        using anc(1) by (auto simp: plain_append)
      show ?case
      proof (rule wp_idle_acts [OF _ 1(2)], goal_cases)
        case (3 x s3)
        then have a3: "adds ?t (fw_tree s3)" "tree_ok (fw_tree s3)"
          using made 1(1) by simp_all
        show ?case
        proof (rule wp_idle_quits [OF _ 3(3)], simp add: safe a3, goal_cases)
          case (1 free s4)
          then show ?case
            using opened [OF _ 1(3) d(2,3)] a3 d(1) by (cases free) (auto simp: wp_return safe)
        qed
      qed (use made 1 in \<open>simp_all add: safe ok\<close>)
    qed
  qed
qed

end
