(* ===== verification/Fs_Undo.thy ===== *)
theory Fs_Undo
  imports Fs_Trash
begin

text \<open>
  What an undo record remembers and what an undo does with it: the record of a write holds the hash
  of the bytes that were at the path, and the undo writes bytes of that hash or nothing.
\<close>

section \<open>Canonical paths in use\<close>

lemma canonical_parts:
  assumes "canonical v t cp"
  obtains ps a where "path_elements (cp_op cp) = path_elements (cp_ancestor cp) @ ps"
    "\<forall>e \<in> set (path_elements (cp_ancestor cp)). plain_element e" "\<forall>e \<in> set ps. plain_element e"
    "plain t root_ino (path_elements (cp_ancestor cp)) = Some a" "is_dir t a"
    "if path_elements (cp_op cp) = [] then cp_rel cp = ''/'' else ps \<noteq> [] \<and> cp_rel cp = join_elements ps"
    "link_free t (path_elements (cp_op cp))"
proof -
  obtain as ps a where c: "cp_op cp = path_text (as @ ps)" "cp_ancestor cp = path_text as"
    "\<forall>e \<in> set (as @ ps). plain_element e" "plain t root_ino as = Some a" "is_dir t a"
    "if as @ ps = [] then cp_rel cp = ''/'' else ps \<noteq> [] \<and> cp_rel cp = join_elements ps" "link_free t (as @ ps)"
    using assms unfolding canonical_def by blast
  then have "path_elements (cp_op cp) = as @ ps" "path_elements (cp_ancestor cp) = as"
    using path_elements_text [of "as @ ps"] path_elements_text [of as] by auto
  with c show thesis by (intro that [of ps a]) auto
qed

text \<open>The root directory itself can neither be written nor deleted.\<close>

lemma wp_attempt_any:
  "(\<And>e s'. Q (Inl (h e)) s') \<Longrightarrow> (\<And>x s'. wp (k x) Q s') \<Longrightarrow> wp (fs_try m h k) Q s"
  by (rule wp_attempt_mono [OF wp_any [where Q = "\<lambda>_ _. True"]]) simp_all

lemma wp_sys_refused:
  assumes "\<And>t. f t = (Inl e, t)" and "\<And>e s'. Q (Inl e) s'"
  shows "wp (sys w f) Q s"
  by (auto simp: sys_def sys_act_def wp_def Let_def assms split: list.splits option.splits)

lemma descend_empty_element: "wp (descendOneLevel d '''') (\<lambda>r s'. \<exists>e. r = Inl e) s"
proof -
  have mk: "root_Mkdir d '''' t = (Inl EINVAL, t)" and st: "root_Lstat d '''' t = Inl EINVAL" for t
    by (simp_all add: root_Mkdir_def root_Lstat_def at_entry_def plain_element_def)
  show ?thesis
    unfolding descendOneLevel_def wp_bind
    by (rule wp_sys_refused [OF mk]) (auto simp: wp_return wp_attempt look_def st intro!: wp_sys_refused)
qed

lemma rootedWrite_root: "wp (rootedWrite v anc ''/'' content) (\<lambda>r s'. r \<noteq> Inr ()) s"
proof -
  have "split_on slash (path_clean ''/'') = ['''', '''']"
    by (simp add: path_clean_def is_rooted_def slash_def path_elements_def)
  then have parts: "descendConfined d ''/'' = fs_try (walk_steps descendOneLevel d ['''']) id (\<lambda>d'. ret (Inr (d', '''')))" for d
    by (simp add: descendConfined_def walkConfined_def)
  have "wp (walk_steps descendOneLevel d ['''']) (\<lambda>r s'. \<exists>e. r = Inl e) s1" for d s1
    by (simp, rule wp_attempt_mono [OF descend_empty_element]) auto
  then have down: "wp (descendConfined d ''/'') (\<lambda>r s'. \<exists>e. r = Inl e) s1" for d s1
    unfolding parts by (rule wp_attempt_mono) auto
  show ?thesis
    unfolding rootedWrite_def
    by (rule wp_attempt_any, simp, rule wp_attempt_mono [OF down], auto)
qed

section \<open>The record of a write\<close>

definition bytes_at :: "tree \<Rightarrow> string list \<Rightarrow> string \<Rightarrow> bool" where
  "bytes_at t es b \<longleftrightarrow> (\<exists>i p. plain t root_ino es = Some i \<and> nodes t i = Some (File p b))"

lemma rootReadFileConfined_quiet:
  assumes q: "fw_turns s = []" and ok: "tree_ok (fw_tree s)" and c: "canonical v (fw_tree s) cp"
  shows "wp (rootReadFileConfined v (cp_ancestor cp) (cp_rel cp))
     (\<lambda>r s'. \<forall>b. r = Inr b \<longrightarrow> bytes_at (fw_tree s) (path_elements (cp_op cp)) b) s"
proof -
  let ?t = "fw_tree s"
  obtain ps a where es: "path_elements (cp_op cp) = path_elements (cp_ancestor cp) @ ps"
    and p: "\<forall>e \<in> set (path_elements (cp_ancestor cp)). plain_element e" "\<forall>e \<in> set ps. plain_element e"
    and a: "plain ?t root_ino (path_elements (cp_ancestor cp)) = Some a" "is_dir ?t a"
    and rel: "if path_elements (cp_op cp) = [] then cp_rel cp = ''/'' else ps \<noteq> [] \<and> cp_rel cp = join_elements ps"
    and free: "link_free ?t (path_elements (cp_op cp))"
    by (rule canonical_parts [OF c])
  have idle: "idle s" using q by (simp add: idle_def)
  define parts where "parts = split_on slash (path_clean (cp_rel cp))"
  have down: "wp (descendConfinedReadOnly a (cp_rel cp)) (\<lambda>r s'. fw_tree s' = ?t \<and> idle s' \<and> (\<forall>d leaf. r = Inr (d, leaf) \<longrightarrow>
      leaf = last parts \<and> plain ?t a (butlast parts) = Some d \<and> is_dir ?t d)) s1"
    if "fw_tree s1 = ?t" "idle s1" for s1
    unfolding descendConfinedReadOnly_def walkConfined_def Let_def parts_def [symmetric]
    by (rule wp_attempt_mono [OF walk_steps_idle [OF that(2)]]) (use that ok a(2) in \<open>auto simp: wp_return\<close>)
  have read: "bytes_at ?t (path_elements (cp_op cp)) b"
    if d: "plain ?t a (butlast parts) = Some d" "is_dir ?t d" and r: "root_ReadFile d (last parts) ?t = Inr b" for d b
  proof (cases "path_elements (cp_op cp) = []")
    case True
    then have "parts = ['''', '''']" using rel by (simp add: parts_def path_clean_def is_rooted_def slash_def path_elements_def)
    with r show ?thesis by (simp add: root_ReadFile_def root_walk_def plain_element_def)
  next
    case False
    then have ps: "ps \<noteq> []" "parts = ps" using rel p split_on_relative [of ps] by (simp_all add: parts_def)
    then have full: "path_elements (cp_op cp) = (path_elements (cp_ancestor cp) @ butlast ps) @ [last ps]" using es by simp
    have at: "plain ?t root_ino (path_elements (cp_ancestor cp) @ butlast ps) = Some d"
      using a(1) d(1) ps by (simp add: plain_append)
    from r obtain i where w: "root_walk d (last ps) ?t = Inr i" and b: "file_bytes ?t i = Inr b"
      using ps by (auto simp: root_ReadFile_def split: sum.splits)
    have leaf: "plain_element (last ps)" using p(2) ps by simp
    have "child ?t d (last ps) = Some i"
    proof (cases "child ?t d (last ps)")
      case None
      with w leaf d(2) show ?thesis
        by (auto simp: root_walk_def walk.simps(2) at_end_def as_found_def child_def is_dir_children plain_element_def
            split: option.splits if_splits)
    next
      case (Some j)
      have "plain ?t root_ino (path_elements (cp_op cp)) = Some j"
        unfolding full by (subst plain_append) (simp add: at Some)
      then have "plain ?t root_ino (take (length (path_elements (cp_op cp))) (path_elements (cp_op cp))) = Some j" by simp
      then have "\<not> is_link ?t j" using free unfolding link_free_def by blast
      with root_walk_child [OF leaf Some] w Some show ?thesis by simp
    qed
    then have "plain ?t root_ino (path_elements (cp_op cp)) = Some i"
      unfolding full by (subst plain_append) (simp add: at)
    with b show ?thesis
      by (auto simp: bytes_at_def file_bytes_def split: option.splits inode.splits)
  qed
  show ?thesis
    unfolding rootReadFileConfined_def
  proof (rule wp_idle_quits [OF _ idle], simp, goal_cases)
    case (1 root s1)
    then have "root = a" using OpenRoot_plain [OF a(1) p(1) a(2)] by simp
    then show ?case
      using 1 by (auto intro!: wp_attempt_mono [OF down] wp_idle_quits simp: wp_return read)
  qed
qed

text \<open>A confined read only looks, so it leaves the whole state as it was when nobody interferes.\<close>

context look_preorder
begin

lemma keeps_one_level: "state_io_rel R (descendOneLevelReadOnly d c)"
proof -
  have "state_io_rel R (case info of Link x \<Rightarrow> ret (Inl (PlantedLink c)) | _ \<Rightarrow> open_level d c)" for info
    unfolding open_level_def by (cases info) (auto intro: keeps_rules)
  then show ?thesis unfolding descendOneLevelReadOnly_def by (intro keeps_rules)
qed

lemma keeps_rootReadFileConfined: "state_io_rel R (rootReadFileConfined v anc rel)"
proof -
  have "state_io_rel R (walk_steps descendOneLevelReadOnly d cs)" for d cs
    by (induction cs arbitrary: d) (auto intro: keeps_rules keeps_one_level)
  then show ?thesis
    unfolding rootReadFileConfined_def descendConfinedReadOnly_def walkConfined_def Let_def by (intro keeps_rules)
qed

end

definition stays :: "tool_state \<Rightarrow> tool_state \<Rightarrow> bool" where
  "stays s s' \<longleftrightarrow> (fw_turns s = [] \<longrightarrow> s' = s)"

interpretation stays: look_preorder stays
  by unfold_locales (auto simp: stays_def sys_after_def Let_def)

definition records :: "canonical_path \<Rightarrow> tree \<Rightarrow> undo_record \<Rightarrow> bool" where
  "records cp t rec \<longleftrightarrow> ur_tool rec = ''fs_write'' \<and> ur_op rec = cp_op cp \<and> ur_ancestor rec = cp_ancestor cp
     \<and> ur_rel rec = cp_rel cp
     \<and> (ur_had_prev rec \<longrightarrow> (\<exists>b. bytes_at t (path_elements (cp_op cp)) b \<and> ur_pre_hash rec = sha256_hex b))"

lemma checkpointPreImage_quiet:
  assumes q: "fw_turns s = []" and ok: "tree_ok (fw_tree s)" and c: "canonical v (fw_tree s) cp"
  shows "wp (checkpointPreImage v cp task trace) (\<lambda>r s'. \<forall>rec. r = Inr rec \<longrightarrow> records cp (fw_tree s) rec) s"
  unfolding checkpointPreImage_def wp_bind Let_def
  by (rule wp_mono [OF rootReadFileConfined_quiet [OF assms]])
    (auto simp: wp_return records_def checkpoint_copy_def split: sum.splits option.splits
      intro!: wp_bindI wp_attempt_any; blast)

lemma HandleWrite_records:
  assumes q: "fw_turns s = []" and ok: "tree_ok (fw_tree s)" and cwd: "is_rooted (fe_cwd v)"
  shows "wp (HandleWrite v trace task path b64) (\<lambda>r s'. \<forall>out. r = Inr out \<longrightarrow>
     (\<exists>cp rec. canonical v (fw_tree s) cp \<and> fw_undo s' trace = Some rec \<and> records cp (fw_tree s) rec
        \<and> wo_pre_existed out = ur_had_prev rec)) s"
  (is "wp _ ?Q s")
  unfolding HandleWrite_def
proof (rule wp_attempt_mono [OF fs_Canonicalize_quiet [OF assms]], simp, clarify)
  fix cp
  assume "\<forall>cp'. Inr cp = (Inr cp' :: fs_error + canonical_path) \<longrightarrow> canonical v (fw_tree s) cp' \<and> resolves v (fw_tree s) path cp'"
  then have c: "canonical v (fw_tree s) cp" by simp
  let ?tail = "\<lambda>content. fs_try (checkpointPreImage v cp task trace) id (\<lambda>rec.
      fs_try (rootedWrite v (cp_ancestor cp) (cp_rel cp) content) id (\<lambda>_. do {
        registry_Put trace rec;
        fs_logAndLedger v trace ''fs_write''
          [(''canonical_path'', JStr (cp_match cp)), (''task_id'', JStr task),
           (''pre_existed'', JBool (ur_had_prev rec)), (''pre_hash'', JStr (ur_pre_hash rec)),
           (''post_hash'', JStr (sha256_hex content)), (''git_checkpoint'', JBool (ur_git_blob rec \<noteq> '''')),
           (''git_blob_sha'', JStr (ur_git_blob rec)), (''copy_path'', JStr (ur_copy_path rec))];
        ret (Inr \<lparr>wo_path = cp_match cp, wo_pre_existed = ur_had_prev rec,
                  wo_git_checkpoint = (ur_git_blob rec \<noteq> ''''), wo_pre_hash = ur_pre_hash rec,
                  wo_post_hash = sha256_hex content\<rparr>) }))"
  have tail: "wp (?tail content) ?Q (s\<lparr>fw_db := d\<rparr>)" for content d
  proof (rule wp_attempt_mono [OF checkpointPreImage_quiet], goal_cases)
    case (5 rec s1)
    then have "records cp (fw_tree s) rec" by simp
    with c show ?case
      by (intro wp_attempt_any) (auto simp: registry_Put_def wp_bind wp_State wp_return intro!: wp_fs_logAndLedger)
  qed (use q ok c in simp_all)
  show "wp (deny_glob_gate v ''fs_write'' trace task cp (case base64_decode b64 of None \<Rightarrow> ret (Inl InvalidBase64)
      | Some content \<Rightarrow> policy_gate v ''fs_write'' trace task (buildToolInput (cp_match cp) (Some content)) (?tail content))) ?Q s"
  proof (rule deny_glob_gate_wp)
    assume no: "MatchesAnyGlobCI v (cp_match cp) (fe_deny_globs v) = Inr False"
    show "wp (case base64_decode b64 of None \<Rightarrow> ret (Inl InvalidBase64)
      | Some content \<Rightarrow> policy_gate v ''fs_write'' trace task (buildToolInput (cp_match cp) (Some content)) (?tail content)) ?Q s"
    proof (cases "base64_decode b64")
      case (Some content)
      then show ?thesis unfolding Some option.case by (intro policy_gate_wp [OF _ tail no]) simp
    qed (simp add: wp_return)
  qed simp
qed

section \<open>The undo of a write\<close>

text \<open>
  Bytes of the recorded hash have landed at the path; after the write the copy of the bytes is
  removed, if there was one.
\<close>

definition copy_removed :: "fs_env \<Rightarrow> undo_record \<Rightarrow> tree \<Rightarrow> tree \<Rightarrow> bool" where
  "copy_removed v rec t t' \<longleftrightarrow> t' = (if ur_copy_path rec = '''' then t
     else snd (RemoveFile (fe_links v) (path_elements (ur_copy_path rec)) t))"

lemma undo_finished_ok: "wp (undo_finished v trace tool rec) (\<lambda>r s'. r = Inr ()) s"
  by (auto simp: undo_finished_def ledgerUndoExecuted_def registry_Delete_def wp_bind wp_State wp_return
      intro!: wp_fs_logAndLedger)

definition restored :: "fs_env \<Rightarrow> undo_record \<Rightarrow> string list \<Rightarrow> tree \<Rightarrow> tree \<Rightarrow> bool" where
  "restored v rec es t0 t' \<longleftrightarrow> (\<exists>b t. sha256_hex b = ur_pre_hash rec \<and> landed es b t0 t \<and> copy_removed v rec t t')"

lemma UndoWrite_quiet:
  assumes q: "fw_turns s = []" and ok: "tree_ok (fw_tree s)" and rec: "fw_undo s trace = Some rec" "ur_had_prev rec"
    and anc: "plain (fw_tree s) root_ino (path_elements (ur_ancestor rec)) = Some a" "is_dir (fw_tree s) a"
      "\<forall>e \<in> set (path_elements (ur_ancestor rec)). plain_element e"
    and rel: "ur_rel rec = join_elements ps" "ps \<noteq> []" "\<forall>e \<in> set ps. plain_element e"
  shows "wp (UndoWrite v trace) (\<lambda>r s'. r = Inr () \<longrightarrow>
     restored v rec (path_elements (ur_ancestor rec) @ ps) (fw_tree s) (fw_tree s')) s"
  (is "wp _ ?Q s")
proof -
  have copy: "wp (do { (if ur_copy_path rec \<noteq> '''' then do { _ \<leftarrow> sys (Some (AtPath (ur_copy_path rec)))
          (RemoveFile (fe_links v) (path_elements (ur_copy_path rec))); ret () } else ret ());
        undo_finished v trace ''fs_write'' rec }) (\<lambda>r s'. copy_removed v rec (fw_tree s1) (fw_tree s')) s1"
    if "fw_turns s1 = []" for s1
    using that by (auto simp: wp_bind wp_sys_quiet wp_return undo_finished_def ledgerUndoExecuted_def registry_Delete_def
        wp_State copy_removed_def intro!: wp_fs_logAndLedger)
  have rewrite: "wp (fs_try (rootedWrite v (ur_ancestor rec) (ur_rel rec) b) id (\<lambda>_. do {
        (if ur_copy_path rec \<noteq> '''' then do { _ \<leftarrow> sys (Some (AtPath (ur_copy_path rec)))
          (RemoveFile (fe_links v) (path_elements (ur_copy_path rec))); ret () } else ret ());
        undo_finished v trace ''fs_write'' rec })) ?Q s"
    if b: "sha256_hex b = ur_pre_hash rec" for b
    by (rule wp_attempt_mono [OF rootedWrite_lands [OF q ok anc rel]], simp, rule wp_mono [OF copy])
      (use b in \<open>auto simp: restored_def\<close>)
  have pre: "wp (recover_pre_image v rec) (\<lambda>_ s'. s' = s) s"
    using q by (auto simp: recover_pre_image_def gitCatFileBlob_def wp_bind wp_get wp_look_quiet)
  show ?thesis
    unfolding UndoWrite_def registry_Get_def wp_bind wp_State
    using rec rewrite by (auto simp: wp_return intro!: wp_attempt_mono [OF pre])
qed

end
