(* ===== verification/Fs_Eval.thy ===== *)
theory Fs_Eval
  imports Fs_Tool
begin

text \<open>
  Code equations that keep evaluation away from the tables of runes where a text is plain ASCII: the
  general definitions decode to runes and compare those with numbers far beyond.
\<close>

text \<open>A text of ASCII alone has none of the forbidden runes; the equation speeds up evaluation.\<close>

definition ascii_char :: "char \<Rightarrow> bool" where
  "ascii_char c \<longleftrightarrow> \<not> digit7 c"

lemma ascii_code: "ascii_char c \<Longrightarrow> of_char c < (0x80 :: nat)"
  by (cases c) (simp add: ascii_char_def of_char_def)

lemma decode_ascii: "list_all ascii_char s \<Longrightarrow> utf8_decode s = map of_char s"
proof -
  have "list_all (\<lambda>b. b < 0x80) bs \<Longrightarrow> utf8_decode_bytes bs = bs" for bs
    by (induction bs) (simp add: utf8_decode_bytes.simps, subst utf8_decode_bytes.simps, simp add: decode_rune_def)
  then show "list_all ascii_char s \<Longrightarrow> utf8_decode s = map of_char s"
    by (simp add: utf8_decode_def list_all_iff ascii_code)
qed

lemma firstForbiddenRune_code [code]:
  "firstForbiddenRune s = (if list_all ascii_char s then None
     else find (\<lambda>r. r \<in> set forbidden_runes) (utf8_decode s))"
proof -
  have "find (\<lambda>r. r \<in> set forbidden_runes) (map of_char s) = None" if "list_all ascii_char s"
    using that ascii_code by (auto simp: find_None_iff list_all_iff forbidden_runes_def) fastforce+
  then show ?thesis by (simp add: firstForbiddenRune_def decode_ascii)
qed

definition printable_char :: "char \<Rightarrow> bool" where
  "printable_char c \<longleftrightarrow> ascii_char c \<and> (digit5 c \<or> digit6 c)"

lemma printable_code: "printable_char c \<Longrightarrow> 32 \<le> (of_char c :: nat) \<and> (of_char c :: nat) < 0x80"
  by (cases c) (auto simp: printable_char_def ascii_char_def of_char_def)

lemma utf8_encode_codes: "list_all ascii_char s \<Longrightarrow> utf8_encode (map of_char s) = s"
proof (induction s)
  case (Cons c s)
  then have "utf8_encode [of_char c] = [c]" by (simp add: ascii_rune ascii_code)
  with Cons utf8_encode_append [of "[of_char c]" "map of_char s"] show ?case by simp
qed (simp add: utf8_encode_def)

lemma ascii_utf8: "list_all ascii_char s \<Longrightarrow> utf8_text s"
  using utf8_encode_codes [of s] ascii_code unfolding utf8_text_def
  by (intro exI [of _ "map of_char s"]) (fastforce simp: list_all_iff valid_rune_def)

lemma base64_utf8: "utf8_text (base64_encode b)"
proof -
  have c: "of_char (b64_char n) < (0x80 :: nat)" for n by (simp add: b64_char_def) linarith
  have "ascii_char x" if "of_char x < (0x80 :: nat)" for x
    using that by (cases x) (auto simp: ascii_char_def of_char_def)
  with c have "ascii_char (b64_char n)" for n by blast
  then have "list_all ascii_char (b64_encode_groups bs)" for bs
    by (induction bs rule: b64_encode_groups.induct) (simp_all add: ascii_char_def)
  then show ?thesis unfolding base64_encode_def by (rule ascii_utf8)
qed

lemma canonicalize_bytes_code [code]:
  "canonicalize_bytes u s = (let t = nfc u s in
     if list_all printable_char t then t else utf8_encode (filter plain_rune (utf8_decode t)))"
proof -
  have "utf8_encode (filter plain_rune (utf8_decode t)) = t" if t: "list_all printable_char t" for t
  proof -
    have a: "list_all ascii_char t" using t by (simp add: list_all_iff printable_char_def)
    have "filter plain_rune (map of_char t) = map of_char t"
    proof (intro filter_True ballI)
      fix r assume "r \<in> set (map of_char t :: nat list)"
      then have "32 \<le> r" "r < 0x80" using t printable_code by (auto simp: list_all_iff)
      then show "plain_rune r"
        by (auto simp: control_flag_kind_def bidi_control_runes_def zero_width_runes_def is_cf_def cf_ranges_def)
    qed
    with a show ?thesis by (simp add: decode_ascii utf8_encode_codes)
  qed
  then show ?thesis by (simp add: canonicalize_bytes_def canonical_eq Let_def)
qed

definition json_plain_char :: "char \<Rightarrow> bool" where
  "json_plain_char c \<longleftrightarrow> printable_char c \<and> c \<notin> {CHR 0x22, CHR 0x5C, CHR ''&'', CHR ''<'', CHR ''>''}"

lemma markup_chars: "char_of ` {34, 92, 38, 60, 62 :: nat} = {CHR 0x22, CHR 0x5C, CHR ''&'', CHR ''<'', CHR ''>''}"
  by code_simp

lemma json_escape_code [code]:
  "json_escape s = (if list_all json_plain_char s then s else json_escape_bytes (map of_char s))"
proof -
  have r: "json_rune (of_char c) = [c]" if "json_plain_char c" for c
  proof -
    have n: "32 \<le> (of_char c :: nat)" "(of_char c :: nat) < 0x80"
      using that printable_code by (auto simp: json_plain_char_def)
    have "c \<notin> char_of ` {34, 92, 38, 60, 62 :: nat}"
      using that unfolding markup_chars json_plain_char_def by simp
    then have "of_char c \<notin> {34, 92, 38, 60, 62 :: nat}" by (metis char_of_char image_eqI)
    with n show ?thesis by (simp add: json_rune_def ascii_rune)
  qed
  have "json_escape s = s" if s: "list_all json_plain_char s"
  proof -
    have a: "list_all ascii_char s" using s by (simp add: list_all_iff json_plain_char_def printable_char_def)
    have v: "list_all valid_rune (map of_char s)"
      unfolding list_all_iff
    proof
      fix r assume "r \<in> set (map of_char s :: nat list)"
      then have "r < 0x80" using a ascii_code by (auto simp: list_all_iff)
      then show "valid_rune r" by (simp add: valid_rune_def)
    qed
    have "concat (map json_rune (map of_char s)) = s" using s r by (induction s) simp_all
    with json_escape_runes [OF v] utf8_encode_codes [OF a] show ?thesis by simp
  qed
  then show ?thesis by (simp add: json_escape_def)
qed

end
