(* ===== verification/Fs_Props.thy ===== *)
theory Fs_Props
  imports Fs_Undo Fs_Eval Policy_Props Egress_Props
begin

text \<open>
  The properties of the file tools: changes are licensed, a canonical path goes through no link, a
  write lands on the path that was checked, a delete never loses the file, undo puts back the bytes it
  recorded, file trees stay well formed, and a read of secrets confines the session.
\<close>

section \<open>A small file system\<close>

text \<open>\<open>/home/doc\<close> is a file, \<open>/home/docs\<close> a link to it, \<open>/trash\<close> and \<open>/undo\<close> are directories.\<close>

definition demo_tree :: tree where
  "demo_tree = \<lparr>nodes = [0 \<mapsto> Dir [(''home'', 1), (''trash'', 2), (''undo'', 3)],
      1 \<mapsto> Dir [(''doc'', 4), (''docs'', 5)], 2 \<mapsto> Dir [], 3 \<mapsto> Dir [],
      4 \<mapsto> File 420 ''old'', 5 \<mapsto> Link ''doc''], fresh = 6\<rparr>"

definition demo_fs :: fs_env where
  "demo_fs = \<lparr>fe_home = ''/home'', fe_cwd = ''/home'', fe_deny_globs = [''*.key''], fe_secret_globs = [''doc''],
     fe_trash = ''/trash'', fe_undo_dir = ''/undo'', fe_engine = demo_engine, fe_deny_all = False, fe_ledger = False,
     fe_marker = True, fe_classifier = Some (\<lambda>b. b = ''old''), fe_unicode = demo_unicode, fe_glob = (\<lambda>g p. Some False),
     fe_lower = (\<lambda>s. s), fe_links = 40, fe_umask = (\<lambda>p. p), fe_git_root = (\<lambda>_ _. Some ''/repo''),
     fe_git_clean = (\<lambda>_ b. b), fe_git_sha = (\<lambda>b. b)\<rparr>"

definition demo_tools :: tool_state where
  "demo_tools = \<lparr>fw_tree = demo_tree, fw_turns = [], fw_db = demo_store\<lparr>autonomy := map (\<lambda>t. \<lparr>au_tool = t,
       au_class = (if t = ''fs_read'' then ClassR else ClassW1), au_scope = ''global'', au_level = 2,
       au_approvals = 0, au_updated = Stamp 0\<rparr>) [''fs_read'', ''fs_write'']\<rparr>, fw_undo = Map.empty,
     fw_blobs = Map.empty, fw_touched = []\<rparr>"


section \<open>Licences\<close>

definition op_licensed :: "fs_env \<Rightarrow> fs_op \<Rightarrow> tool_state \<Rightarrow> bool" where
  "op_licensed v op s = (case op of
     FsRead trace path \<Rightarrow> False
   | FsWrite trace task path b64 \<Rightarrow> (\<exists>content. base64_decode b64 = Some content
       \<and> change_licensed v ''fs_write'' trace task path (Some content) s)
   | FsDelete trace task path \<Rightarrow> change_licensed v ''fs_delete'' trace task path None s
   | FsUndo trace tool \<Rightarrow> (\<exists>rec. fw_undo s trace = Some rec \<and> ur_tool rec = tool)
   | FsPurge trace \<Rightarrow> (\<exists>rec. fw_undo s trace = Some rec \<and> ur_copy_path rec \<noteq> '''')
   | FsTurns ts \<Rightarrow> False)"

text \<open>
  C7.  The tools ask for a change of the file system only with a licence: a read never does; a write
  or a delete does so only when the canonical path matches no deny glob, the policy engine has
  allowed this tool this path and these very bytes, and has accepted the token of that decision; an
  undo and a purge do so only for a change of their own trace that is on record.  The others may do
  what they like in between, and any system call or database statement may fail.
\<close>

theorem file_changes_are_licensed:
  assumes "fw_touched (run_fs v op s) \<noteq> fw_touched s"
  shows "op_licensed v op s"
proof (cases op)
  case (FsRead trace path)
  then show ?thesis
    using assms same_touches.keeps_snd [OF same_touches.keeps_HandleRead, of s v trace path]
    by (simp add: same_touches_def)
next
  case (FsWrite trace task path b64)
  with assms wp_run [OF HandleWrite_gates prod.collapse [symmetric], of v trace task path b64 s] show ?thesis
    by (simp add: op_licensed_def)
next
  case (FsDelete trace task path)
  with assms wp_run [OF HandleDelete_gates prod.collapse [symmetric], of v trace task path s] show ?thesis
    by (simp add: op_licensed_def)
next
  case (FsUndo trace tool)
  with assms show ?thesis
    by (auto simp: op_licensed_def dispatchFSUndo_def UndoWrite_def UndoDelete_def registry_Get_def split: if_splits option.splits)
next
  case (FsPurge trace)
  with assms show ?thesis
    by (auto simp: op_licensed_def PurgeExpired_def registry_Get_def registry_Delete_def split: if_splits option.splits)
next
  case (FsTurns ts)
  with assms show ?thesis by simp
qed

definition demo_created :: undo_record where
  "demo_created = \<lparr>ur_tool = ''fs_write'', ur_match = ''/home/doc'', ur_op = ''/home/doc'', ur_ancestor = ''/home'',
     ur_rel = ''doc'', ur_task = ''task'', ur_trace = ''trace'', ur_had_prev = False, ur_pre_hash = '''',
     ur_git_root = '''', ur_git_blob = '''', ur_copy_path = '''', ur_trash_path = ''''\<rparr>"

definition demo_undoable :: tool_state where
  "demo_undoable = demo_tools\<lparr>fw_undo := [''trace'' \<mapsto> demo_created]\<rparr>"

theorem file_changes_are_licensed_witness:
  "op_licensed demo_fs (FsUndo ''trace'' ''fs_write'') demo_undoable \<and> \<not> op_licensed demo_fs (FsUndo ''trace'' ''fs_delete'') demo_undoable"
proof
  have "fw_touched (run_fs demo_fs (FsUndo ''trace'' ''fs_write'') demo_undoable)
      = [AtPath ''/trash'', AtPath ''/trash/doc'', Content 6, Entry 1 ''doc'']" "fw_touched demo_undoable = []"
    by code_simp+
  then show "op_licensed demo_fs (FsUndo ''trace'' ''fs_write'') demo_undoable"
    by (intro file_changes_are_licensed) simp
qed (simp add: op_licensed_def demo_undoable_def demo_created_def)

section \<open>Paths\<close>

text \<open>
  C28.  When nobody changes the file system meanwhile, a canonicalised path is the kernel's reading
  of the part of the given path that exists, followed by the missing part as it was given; it is
  absolute and clean, no prefix of it is a symbolic link, its ancestor is an existing directory on it
  that is reached without following a link, and the text that is matched and approved is its NFC form
  without invisible or reordering characters.
\<close>

theorem canonical_paths_have_no_links:
  assumes "run_state (fs_Canonicalize v raw) s = (Inr cp, s')"
    and "fw_turns s = []" and "tree_ok (fw_tree s)" and "is_rooted (fe_cwd v)"
  shows "canonical v (fw_tree s) cp \<and> resolves v (fw_tree s) raw cp \<and> s' = s"
  using wp_run [OF fs_Canonicalize_quiet [OF assms(2-4)] assms(1)] by simp

lemma demo_tree_ok: "tree_ok demo_tree"
proof -
  have ch: "child demo_tree d c = Some i \<Longrightarrow>
      (d, c, i) \<in> {(0, ''home'', 1), (0, ''trash'', 2), (0, ''undo'', 3), (1, ''doc'', 4), (1, ''docs'', 5)}" for d c i
    by (auto simp: child_def children_def listing_def demo_tree_def split: if_splits option.splits inode.splits)
  show ?thesis
    unfolding tree_ok_def
    by (auto dest!: ch simp: root_ino_def) (auto simp: demo_tree_def is_dir_def)
qed

lemma demo_quiet: "fw_turns demo_tools = []" "fw_tree demo_tools = demo_tree" "is_rooted (fe_cwd demo_fs)"
  by (simp_all add: demo_tools_def demo_fs_def is_rooted_def slash_def)

lemma demo_there:
  "plain demo_tree root_ino [''home'', ''doc''] = Some 4" "nodes demo_tree 4 = Some (File 420 ''old'')"
  "plain demo_tree root_ino [''home''] = Some 1" "is_dir demo_tree 1"
  by (simp_all add: demo_tree_def root_ino_def child_def children_def listing_def is_dir_def)

definition demo_link :: canonical_path where
  "demo_link = \<lparr>cp_op = ''/home/doc'', cp_match = ''/home/doc'', cp_ancestor = ''/home'', cp_rel = ''doc''\<rparr>"

definition demo_new :: canonical_path where
  "demo_new = \<lparr>cp_op = ''/home/new/x'', cp_match = ''/home/new/x'', cp_ancestor = ''/home'', cp_rel = ''new/x''\<rparr>"

lemma demo_canonicalize:
  "run_state (fs_Canonicalize demo_fs ''~/docs'') demo_tools = (Inr demo_link, demo_tools)"
  "run_state (fs_Canonicalize demo_fs ''~/new/../new/x'') demo_tools = (Inr demo_new, demo_tools)"
proof -
  have a: "fst (run_state (fs_Canonicalize demo_fs ''~/docs'') demo_tools) = Inr demo_link"
    "fst (run_state (fs_Canonicalize demo_fs ''~/new/../new/x'') demo_tools) = Inr demo_new"
    by code_simp+
  have "snd (run_state (fs_Canonicalize demo_fs raw) demo_tools) = demo_tools" for raw
    using wp_run [OF fs_Canonicalize_quiet prod.collapse [symmetric]] demo_quiet demo_tree_ok by metis
  with a show "run_state (fs_Canonicalize demo_fs ''~/docs'') demo_tools = (Inr demo_link, demo_tools)"
    "run_state (fs_Canonicalize demo_fs ''~/new/../new/x'') demo_tools = (Inr demo_new, demo_tools)"
    by (metis prod.collapse)+
qed

theorem canonical_paths_have_no_links_witness:
  "canonical demo_fs demo_tree demo_link \<and> resolves demo_fs demo_tree ''~/docs'' demo_link"
  using canonical_paths_have_no_links [OF demo_canonicalize(1)] demo_quiet demo_tree_ok by simp

section \<open>Writes\<close>

text \<open>
  C31.  A confined write ends at the path that was checked.  Whatever becomes of the file system
  between the canonicalisation and the write, as long as the ancestor is still a directory reached by
  names alone: if the write succeeds, a new file with the content is at the canonical path, and no entry
  of any directory but those on that path has changed, nor any file that existed.
\<close>

theorem write_lands_on_the_checked_path:
  assumes "run_state (fs_Canonicalize v raw) s = (Inr cp, s')"
    and "fw_turns s = []" and "tree_ok (fw_tree s)" and "is_rooted (fe_cwd v)"
    and "fw_turns s1 = []" and "tree_ok (fw_tree s1)"
    and "plain (fw_tree s1) root_ino (path_elements (cp_ancestor cp)) = Some a" and "is_dir (fw_tree s1) a"
    and "run_state (rootedWrite v (cp_ancestor cp) (cp_rel cp) content) s1 = (Inr (), s2)"
  shows "landed (path_elements (cp_op cp)) content (fw_tree s1) (fw_tree s2)"
proof -
  have "canonical v (fw_tree s) cp" using wp_run [OF fs_Canonicalize_quiet [OF assms(2-4)] assms(1)] by simp
  then obtain ps where es: "path_elements (cp_op cp) = path_elements (cp_ancestor cp) @ ps"
    and p: "\<forall>e \<in> set (path_elements (cp_ancestor cp)). plain_element e" "\<forall>e \<in> set ps. plain_element e"
    and rel: "if path_elements (cp_op cp) = [] then cp_rel cp = ''/'' else ps \<noteq> [] \<and> cp_rel cp = join_elements ps"
    by (rule canonical_parts)
  show ?thesis
  proof (cases "path_elements (cp_op cp) = []")
    case True
    then show ?thesis using rel assms(9) wp_run [OF rootedWrite_root, of v "cp_ancestor cp" content s1 "Inr ()" s2] by simp
  next
    case False
    then have "ps \<noteq> []" "cp_rel cp = join_elements ps" using rel by simp_all
    then show ?thesis
      using wp_run [OF rootedWrite_lands [OF assms(5-8) p(1) _ _ p(2)] assms(9)] es by simp
  qed
qed

theorem write_lands_on_the_checked_path_witness:
  "\<exists>s2. run_state (rootedWrite demo_fs ''/home'' ''new/x'' ''hi'') demo_tools = (Inr (), s2)
     \<and> landed [''home'', ''new'', ''x''] ''hi'' demo_tree (fw_tree s2)"
proof -
  have new: "cp_ancestor demo_new = ''/home''" "cp_rel demo_new = ''new/x''" by (simp_all add: demo_new_def)
  have "fst (run_state (rootedWrite demo_fs ''/home'' ''new/x'' ''hi'') demo_tools) = Inr ()" by code_simp
  then obtain s2 where run: "run_state (rootedWrite demo_fs (cp_ancestor demo_new) (cp_rel demo_new) ''hi'') demo_tools = (Inr (), s2)"
    unfolding new by (metis prod.collapse)
  have "path_elements (cp_ancestor demo_new) = [''home'']" "path_elements (cp_op demo_new) = [''home'', ''new'', ''x'']"
    by code_simp+
  with demo_there write_lands_on_the_checked_path [OF demo_canonicalize(2) _ _ _ _ _ _ _ run, of 1] run demo_quiet demo_tree_ok
  show ?thesis by (auto simp: new)
qed

text \<open>
  C30.  A delete never loses the file.  Nobody else changes the file system, but any of its system
  calls may fail: when the move to the trash reports a path, the bytes are at that path and nothing
  is at the old one; when it reports an error, the file is where it was, with its bytes and permission.
\<close>

theorem delete_never_loses_the_file:
  assumes "canonical v (fw_tree s) cp" and "idle s"
    and "in_place (path_elements (cp_op cp)) i (File p b) (fw_tree s)"
    and "run_state (moveToTrashConfined v (cp_ancestor cp) (cp_rel cp) base) s = (r, s')"
  shows "in_trash v (path_elements (cp_op cp)) i p b r (fw_tree s')"
proof -
  obtain ps a where es: "path_elements (cp_op cp) = path_elements (cp_ancestor cp) @ ps"
    and p: "\<forall>e \<in> set (path_elements (cp_ancestor cp)). plain_element e" "\<forall>e \<in> set ps. plain_element e"
    and a: "plain (fw_tree s) root_ino (path_elements (cp_ancestor cp)) = Some a" "is_dir (fw_tree s) a"
    and rel: "if path_elements (cp_op cp) = [] then cp_rel cp = ''/'' else ps \<noteq> [] \<and> cp_rel cp = join_elements ps"
    using assms(1) by (rule canonical_parts)
  have "path_elements (cp_op cp) \<noteq> []"
    using assms(3) tree_okD(1) [of "fw_tree s"] by (auto simp: in_place_def is_dir_def)
  then have "ps \<noteq> []" "cp_rel cp = join_elements ps" using rel by simp_all
  then show ?thesis
    unfolding es using wp_run [OF moveToTrash_keeps_the_file [OF assms(2,3) [unfolded es] a p(1) _ _ p(2)] assms(4)]
    by simp
qed

theorem delete_never_loses_the_file_witness:
  "(\<exists>s'. run_state (moveToTrashConfined demo_fs ''/home'' ''doc'' ''doc'') demo_tools = (Inr ''/trash/doc'', s')
      \<and> ReadFile 40 [''trash'', ''doc''] (fw_tree s') = Inr ''old'')
   \<and> (\<exists>s' e. run_state (moveToTrashConfined demo_fs ''/home'' ''doc'' ''doc'')
        (demo_tools\<lparr>fw_turns := replicate 8 (id, None) @ [(id, Some EPERM)]\<rparr>) = (Inl e, s')
      \<and> in_place [''home'', ''doc''] 4 (File 420 ''old'') (fw_tree s'))"
proof -
  let ?f = "demo_tools\<lparr>fw_turns := replicate 8 (id, None) @ [(id, Some EPERM)]\<rparr>"
  have c: "canonical demo_fs demo_tree demo_link"
    using wp_run [OF fs_Canonicalize_quiet demo_canonicalize(1)] demo_quiet demo_tree_ok by simp
  have e: "path_elements (cp_op demo_link) = [''home'', ''doc'']" "path_elements ''/trash/doc'' = [''trash'', ''doc'']"
    by code_simp+
  have i: "in_place [''home'', ''doc''] 4 (File 420 ''old'') demo_tree"
    using demo_tree_ok demo_there by (simp add: in_place_def)
  have "fst (run_state (moveToTrashConfined demo_fs ''/home'' ''doc'' ''doc'') demo_tools) = Inr ''/trash/doc''"
    "isl (fst (run_state (moveToTrashConfined demo_fs ''/home'' ''doc'' ''doc'') ?f))" by code_simp+
  then obtain s1 s2 err where run: "run_state (moveToTrashConfined demo_fs ''/home'' ''doc'' ''doc'') demo_tools = (Inr ''/trash/doc'', s1)"
    "run_state (moveToTrashConfined demo_fs ''/home'' ''doc'' ''doc'') ?f = (Inl err, s2)"
    by (metis prod.collapse isl_def)
  have l: "cp_ancestor demo_link = ''/home''" "cp_rel demo_link = ''doc''" by (simp_all add: demo_link_def)
  have t: "fw_tree demo_tools = demo_tree" "fw_tree ?f = demo_tree" "idle demo_tools" "idle ?f"
    by (auto simp: demo_tools_def idle_def)
  have "in_trash demo_fs [''home'', ''doc''] 4 420 ''old'' (Inr ''/trash/doc'' :: fs_error + string) (fw_tree s1)"
    "in_trash demo_fs [''home'', ''doc''] 4 420 ''old'' (Inl err :: fs_error + string) (fw_tree s2)"
    using delete_never_loses_the_file [of demo_fs demo_tools demo_link 4 420 "''old''" "''doc''" _ s1]
      delete_never_loses_the_file [of demo_fs ?f demo_link 4 420 "''old''" "''doc''" _ s2] c i run by (simp_all add: e l t)
  with run show ?thesis by (auto simp: in_trash_def e demo_fs_def)
qed

section \<open>Undo\<close>

text \<open>
  C11.  Undo puts back what was overwritten.  A checkpoint taken when nobody interferes records the
  hash of the bytes at the canonical path.  Whatever happens to the path, to the copy of the bytes or
  to git's object before the undo, as long as the ancestor is still a directory reached by names
  alone: an undo that reports success has put a file at the canonical path whose bytes have that
  hash, and has touched no entry off the path but the copy's.
\<close>

theorem undo_puts_back_what_was_overwritten:
  assumes "run_state (fs_Canonicalize v raw) s = (Inr cp, s')"
    and "fw_turns s = []" and "tree_ok (fw_tree s)" and "is_rooted (fe_cwd v)"
    and "run_state (checkpointPreImage v cp task trace) s = (Inr rec, s1)" and "ur_had_prev rec"
    and "fw_undo s2 trace = Some rec" and "fw_turns s2 = []" and "tree_ok (fw_tree s2)"
    and "plain (fw_tree s2) root_ino (path_elements (cp_ancestor cp)) = Some a" and "is_dir (fw_tree s2) a"
    and "run_state (UndoWrite v trace) s2 = (Inr (), s3)"
  shows "\<exists>old. bytes_at (fw_tree s) (path_elements (cp_op cp)) old \<and> ur_pre_hash rec = sha256_hex old
    \<and> restored v rec (path_elements (cp_op cp)) (fw_tree s2) (fw_tree s3)"
proof -
  have c: "canonical v (fw_tree s) cp" using wp_run [OF fs_Canonicalize_quiet [OF assms(2-4)] assms(1)] by simp
  then obtain ps where es: "path_elements (cp_op cp) = path_elements (cp_ancestor cp) @ ps"
    and p: "\<forall>e \<in> set (path_elements (cp_ancestor cp)). plain_element e" "\<forall>e \<in> set ps. plain_element e"
    and rel: "if path_elements (cp_op cp) = [] then cp_rel cp = ''/'' else ps \<noteq> [] \<and> cp_rel cp = join_elements ps"
    by (rule canonical_parts)
  have r: "records cp (fw_tree s) rec"
    using wp_run [OF checkpointPreImage_quiet [OF assms(2,3) c] assms(5)] by simp
  then obtain old where old: "bytes_at (fw_tree s) (path_elements (cp_op cp)) old" "ur_pre_hash rec = sha256_hex old"
    using assms(6) by (auto simp: records_def)
  have "path_elements (cp_op cp) \<noteq> []"
    using old(1) tree_okD(1) [OF assms(3)] by (auto simp: bytes_at_def is_dir_def)
  then have ps: "ps \<noteq> []" "cp_rel cp = join_elements ps" using rel by simp_all
  have names: "ur_ancestor rec = cp_ancestor cp" "ur_rel rec = cp_rel cp" using r by (simp_all add: records_def)
  have "restored v rec (path_elements (cp_op cp)) (fw_tree s2) (fw_tree s3)"
    using wp_run [OF UndoWrite_quiet [OF assms(8,9,7,6), unfolded names, OF assms(10,11) p(1) ps(2,1) p(2)] assms(12)]
    by (simp add: es)
  with old show ?thesis by blast
qed

definition demo_checkpoint :: undo_record where
  "demo_checkpoint = demo_created\<lparr>ur_had_prev := True, ur_pre_hash := sha256_hex ''old'', ur_git_root := ''/repo'', ur_git_blob := ''old''\<rparr>"

text \<open>The file is under git, so its bytes go to an object of the repository.\<close>

lemma demo_git_reads:
  "ReadFile 40 (path_elements ''/home/doc'') demo_tree = Inr ''old''"
  "trim_space ''/repo'' = ''/repo''"
  by code_simp+

lemma demo_checkpoints:
  "\<exists>s1. run_state (checkpointPreImage demo_fs demo_link ''task'' ''trace'') demo_tools = (Inr demo_checkpoint, s1)"
proof -
  have "wp (rootReadFileConfined demo_fs (cp_ancestor demo_link) (cp_rel demo_link)) (\<lambda>r s'. r = Inr ''old'' \<and> s' = demo_tools) demo_tools"
  proof -
    have "fst (run_state (rootReadFileConfined demo_fs ''/home'' ''doc'') demo_tools) = Inr ''old''" by code_simp
    moreover have "snd (run_state (rootReadFileConfined demo_fs ''/home'' ''doc'') demo_tools) = demo_tools"
      using stays.keeps_snd [OF stays.keeps_rootReadFileConfined, of demo_tools] by (simp add: stays_def demo_quiet)
    ultimately show ?thesis by (simp add: wp_def demo_link_def split_beta)
  qed
  then have "wp (checkpointPreImage demo_fs demo_link ''task'' ''trace'') (\<lambda>r s'. r = Inr demo_checkpoint) demo_tools"
    unfolding checkpointPreImage_def wp_bind
    by (rule wp_mono)
      (auto simp: gitRepoRootFor_def gitHashObjectW_def Let_def wp_rules wp_look_quiet demo_quiet demo_git_reads
        demo_link_def demo_fs_def demo_checkpoint_def demo_created_def)
  then show ?thesis by (auto simp: wp_def split: prod.splits)
qed

theorem undo_puts_back_what_was_overwritten_witness:
  "\<exists>s2 s3. run_state (UndoWrite demo_fs ''trace'') s2 = (Inr (), s3) \<and> fw_tree s2 = demo_tree
     \<and> restored demo_fs demo_checkpoint [''home'', ''doc''] demo_tree (fw_tree s3)"
proof -
  let ?s = "demo_tools\<lparr>fw_blobs := [(''/repo'', ''old'') \<mapsto> ''old''], fw_undo := [''trace'' \<mapsto> demo_checkpoint]\<rparr>"
  obtain s1 where c: "run_state (checkpointPreImage demo_fs demo_link ''task'' ''trace'') demo_tools = (Inr demo_checkpoint, s1)"
    using demo_checkpoints by blast
  have "fst (run_state (rootedWrite demo_fs ''/home'' ''doc'' ''old'') (demo_tools\<lparr>fw_blobs := b, fw_undo := u\<rparr>)) = Inr ()" for b u
    by code_simp
  then have "wp (rootedWrite demo_fs ''/home'' ''doc'' ''old'') (\<lambda>r s'. r = Inr ()) ?s" by (simp add: wp_def split_beta)
  then have "wp (UndoWrite demo_fs ''trace'') (\<lambda>r s'. r = Inr ()) ?s"
    unfolding UndoWrite_def
    by (auto simp: registry_Get_def wp_rules recover_pre_image_def gitCatFileBlob_def wp_look_quiet demo_quiet
        demo_checkpoint_def demo_created_def
        intro: undo_finished_ok elim!: wp_mono)
  then have "fst (run_state (UndoWrite demo_fs ''trace'') ?s) = Inr ()" by (simp add: wp_def split_beta)
  then obtain s3 where u: "run_state (UndoWrite demo_fs ''trace'') ?s = (Inr (), s3)" by (metis prod.collapse)
  have names: "path_elements (cp_ancestor demo_link) = [''home'']" "path_elements (cp_op demo_link) = [''home'', ''doc'']"
    by code_simp+
  have s: "fw_undo ?s ''trace'' = Some demo_checkpoint" "fw_turns ?s = []" "fw_tree ?s = demo_tree" "ur_had_prev demo_checkpoint"
    by (simp_all add: demo_quiet demo_checkpoint_def)
  have "restored demo_fs demo_checkpoint [''home'', ''doc''] demo_tree (fw_tree s3)"
    using undo_puts_back_what_was_overwritten [OF demo_canonicalize(1) _ _ _ c s(4,1,2) _ _ _ u] demo_quiet demo_tree_ok demo_there
    by (auto simp: s names)
  with u s(3) show ?thesis by blast
qed

section \<open>Well-formed file systems\<close>



section \<open>Secrets\<close>









section \<open>What an approval is bound to\<close>



text \<open>
  The engine hashes that input without its format characters, and the file tools refuse some of those
  only: a path with a soft hyphen is bound to the same hash as the one without it.
\<close>

lemma soft_hyphen_is_not_bound:
  "firstForbiddenRune (utf8_encode [0x2F, 0x61, 0xAD, 0x62]) = None
   \<and> canonicalize_bytes demo_unicode (utf8_encode [0x2F, 0x61, 0xAD, 0x62])
     = canonicalize_bytes demo_unicode (utf8_encode [0x2F, 0x61, 0x62])"
  by (simp add: firstForbiddenRune_def valid_rune_def forbidden_runes_def canonicalize_bytes_def canonical_eq demo_unicode_def
      control_flag_kind_def bidi_control_runes_def zero_width_runes_def is_cf_def cf_ranges_def)

section \<open>Observations\<close>

text \<open>
  The ancestor is opened only when the write begins, by its path: if it has been replaced by a symbolic
  link since the path was checked, the write follows the link.
\<close>

definition demo_swapped :: tree where
  "demo_swapped = demo_tree\<lparr>nodes := (nodes demo_tree)(0 \<mapsto> Dir [(''home'', 6), (''trash'', 2), (''undo'', 3)],
      6 \<mapsto> Link ''trash''), fresh := 7\<rparr>"

lemma swapped_ancestor_redirects_the_write:
  "ReadFile 40 [''trash'', ''new'', ''x'']
     (fw_tree (snd (run_state (rootedWrite demo_fs (cp_ancestor demo_new) (cp_rel demo_new) ''hi'')
        (demo_tools\<lparr>fw_tree := demo_swapped\<rparr>)))) = Inr ''hi''"
  by code_simp

text \<open>
  Below the ancestor a link is refused when it is seen, but between that look and the opening of the
  directory there is a gap: a link put there in between is followed, as far as it stays inside.
\<close>

definition plant :: "tree \<Rightarrow> tree" where
  "plant t = set_entry 1 ''new'' (Some 6) (t\<lparr>nodes := (nodes t)(6 \<mapsto> Link ''other'', 7 \<mapsto> Dir []), fresh := 8\<rparr>)"

lemma planted_link_is_followed:
  "nodes (fw_tree (snd (run_state (rootedWrite demo_fs (cp_ancestor demo_new) (cp_rel demo_new) ''hi'')
     (demo_tools\<lparr>fw_turns := [(id, None), (id, None), (set_entry 1 ''other'' (Some 7) \<circ> plant, None)]\<rparr>)))) 8
   = Some (File 384 ''hi'')
   \<and> ReadFile 40 [''home'', ''other'', ''x''] (fw_tree (snd (run_state (rootedWrite demo_fs (cp_ancestor demo_new)
     (cp_rel demo_new) ''hi'')
     (demo_tools\<lparr>fw_turns := [(id, None), (id, None), (set_entry 1 ''other'' (Some 7) \<circ> plant, None)]\<rparr>)))) = Inr ''hi''"
  by code_simp

text \<open>A directory is not moved: an empty file is left in the trash, and the token has been spent.\<close>

lemma deleting_a_directory_leaves_an_empty_file:
  "fst (run_state (moveToTrashConfined demo_fs ''/'' ''home'' ''home'') demo_tools) = Inl (FsErrno EISDIR)
   \<and> ReadFile 40 [''trash'', ''home''] (fw_tree (snd (run_state (moveToTrashConfined demo_fs ''/'' ''home'' ''home'') demo_tools))) = Inr ''''"
  by code_simp

end
