(* ===== verification/Text_Fold.thy ===== *)
theory Text_Fold
  imports Canon Egress
begin

text \<open>
  \<open>kahyad/internal/textnorm\<close>: the form of a text in which the four letters i of Turkish are one, used
  to match words of the secret lane's lexicon and by the trigram index.  NFC and Unicode lower-casing
  are the parameters of \<open>unicode_env\<close> and \<open>host_env\<close>.
\<close>

definition dotless_i :: string where "dotless_i = [CHR 0xC4, CHR 0xB1]"

text \<open>\<open>strings.ReplaceAll\<close> for a pattern that is not empty.\<close>

function replace_all :: "string \<Rightarrow> string \<Rightarrow> string \<Rightarrow> string" where
  "replace_all old_text new_text s =
     (case s of
        [] \<Rightarrow> []
      | c # cs \<Rightarrow>
          if old_text \<noteq> [] \<and> is_prefix old_text s
          then new_text @ replace_all old_text new_text (drop (length old_text) s)
          else c # replace_all old_text new_text cs)"
  by pat_completeness auto
termination
  by (relation "measure (\<lambda>(a, b, s). length s)") auto

declare replace_all.simps [simp del]

definition turkish_i :: "rune \<Rightarrow> rune" where
  "turkish_i r = (if r = 0x130 then 0x69 else if r = 0x49 then 0x131 else r)"

definition Fold :: "unicode_env \<Rightarrow> host_env \<Rightarrow> string \<Rightarrow> string" where
  "Fold u v s = replace_all dotless_i ''i'' (ToLower v (utf8_encode (map turkish_i (utf8_decode (nfc u s)))))"

text \<open>Folded text has no dotless i.\<close>

lemma replace_all_Nil [simp]: "replace_all a b [] = []"
  by (simp add: replace_all.simps)

lemma replace_all_Cons:
  "replace_all a b (c # cs) = (if a \<noteq> [] \<and> is_prefix a (c # cs) then b @ replace_all a b (drop (length a) (c # cs))
     else c # replace_all a b cs)"
  by (subst replace_all.simps) simp

end
