(* ===== verification/Go_Regexp.thy ===== *)
theory Go_Regexp
  imports Kahya_Prelude
begin

text \<open>
  What the code uses of Go's package \<open>regexp\<close>: expressions over classes of ASCII characters with the
  leftmost-first semantics of a backtracking matcher.  \<open>runs\<close> lists the ways to match at a place in
  the order of preference, \<open>find_all\<close> is \<open>FindAllString\<close> and \<open>match_string\<close> is \<open>MatchString\<close>; no
  expression here matches the empty text, and \<open>find_all\<close> goes past an empty match without reporting
  it.  \<open>accepts\<close> is the meaning of an expression without an order, and the specification of \<open>runs\<close>.

  All classes are ASCII, so matching bytes and matching runes is the same, and a byte of a longer
  rune is no word character.
\<close>

datatype regexp =
    OneOf "char list"
  | WordBoundary
  | Empty
  | Then regexp regexp
  | Prefer regexp regexp
  | Many "char list"

text \<open>The character before the place, if any, and the text after it.\<close>

type_synonym cursor = "char option \<times> string"

definition is_word_char :: "char \<Rightarrow> bool" where
  "is_word_char c \<longleftrightarrow> (let n = of_char c :: nat in
     48 \<le> n \<and> n \<le> 57 \<or> 65 \<le> n \<and> n \<le> 90 \<or> n = 95 \<or> 97 \<le> n \<and> n \<le> 122)"

definition word_before :: "char option \<Rightarrow> bool" where
  "word_before p \<longleftrightarrow> (case p of None \<Rightarrow> False | Some c \<Rightarrow> is_word_char c)"

definition word_after :: "string \<Rightarrow> bool" where
  "word_after s \<longleftrightarrow> (case s of [] \<Rightarrow> False | c # _ \<Rightarrow> is_word_char c)"

fun greedy :: "char list \<Rightarrow> char option \<Rightarrow> string \<Rightarrow> cursor list" where
  "greedy cs p [] = [(p, [])]"
| "greedy cs p (c # s) = (if c \<in> set cs then greedy cs (Some c) s else []) @ [(p, c # s)]"

fun runs :: "regexp \<Rightarrow> cursor \<Rightarrow> cursor list" where
  "runs (OneOf cs) (p, s) = (case s of [] \<Rightarrow> [] | c # t \<Rightarrow> if c \<in> set cs then [(Some c, t)] else [])"
| "runs WordBoundary (p, s) = (if word_before p \<noteq> word_after s then [(p, s)] else [])"
| "runs Empty cu = [cu]"
| "runs (Then a b) cu = concat (map (runs b) (runs a cu))"
| "runs (Prefer a b) cu = runs a cu @ runs b cu"
| "runs (Many cs) (p, s) = greedy cs p s"

text \<open>\<open>x{n,m}\<close> is \<open>n\<close> times \<open>x\<close> and then \<open>(x(x ...)?)?\<close>, as in the library.\<close>

fun times_re :: "regexp \<Rightarrow> nat \<Rightarrow> regexp" where
  "times_re r 0 = Empty"
| "times_re r (Suc n) = Then r (times_re r n)"

fun upto_re :: "regexp \<Rightarrow> nat \<Rightarrow> regexp" where
  "upto_re r 0 = Empty"
| "upto_re r (Suc n) = Prefer (Then r (upto_re r n)) Empty"

definition repeat_re :: "regexp \<Rightarrow> nat \<Rightarrow> nat \<Rightarrow> regexp" where
  "repeat_re r n m = Then (times_re r n) (upto_re r (m - n))"

definition maybe_re :: "regexp \<Rightarrow> regexp" where "maybe_re r = Prefer r Empty"

fun seq_re :: "regexp list \<Rightarrow> regexp" where
  "seq_re [] = Empty"
| "seq_re (r # rs) = Then r (seq_re rs)"

definition digit_chars :: "char list" where "digit_chars = ''0123456789''"

definition space_chars :: "char list" where
  "space_chars = [CHR 0x09, CHR 0x0A, CHR 0x0C, CHR 0x0D, CHR '' '']"

function find_all :: "regexp \<Rightarrow> char option \<Rightarrow> string \<Rightarrow> string list" where
  "find_all r p s =
     (case runs r (p, s) of
        (q, t) # _ \<Rightarrow>
          if length t < length s then take (length s - length t) s # find_all r q t
          else (case s of [] \<Rightarrow> [] | c # s' \<Rightarrow> find_all r (Some c) s')
      | [] \<Rightarrow> (case s of [] \<Rightarrow> [] | c # s' \<Rightarrow> find_all r (Some c) s'))"
  by pat_completeness auto
termination
  by (relation "measure (\<lambda>(r, p, s). length s)") auto

declare find_all.simps [simp del]

definition FindAllString :: "regexp \<Rightarrow> string \<Rightarrow> string list" where
  "FindAllString r s = find_all r None s"

fun match_from :: "regexp \<Rightarrow> char option \<Rightarrow> string \<Rightarrow> bool" where
  "match_from r p s \<longleftrightarrow> runs r (p, s) \<noteq> [] \<or> (case s of [] \<Rightarrow> False | c # s' \<Rightarrow> match_from r (Some c) s')"

declare match_from.simps [simp del]

definition MatchString :: "regexp \<Rightarrow> string \<Rightarrow> bool" where
  "MatchString r s \<longleftrightarrow> match_from r None s"

section \<open>The meaning of an expression\<close>

definition last_of :: "char option \<Rightarrow> string \<Rightarrow> char option" where
  "last_of p w = (if w = [] then p else Some (last w))"

lemma last_of_simps [simp]:
  "last_of p [] = p" "last_of p (c # w) = last_of (Some c) w" "last_of (last_of p u) w = last_of p (u @ w)"
  by (auto simp: last_of_def)

text \<open>\<open>accepts r p w t\<close>: between the character \<open>p\<close> and the text \<open>t\<close>, the text \<open>w\<close> matches \<open>r\<close>.\<close>

fun accepts :: "regexp \<Rightarrow> char option \<Rightarrow> string \<Rightarrow> string \<Rightarrow> bool" where
  "accepts (OneOf cs) p w t \<longleftrightarrow> (\<exists>c \<in> set cs. w = [c])"
| "accepts WordBoundary p w t \<longleftrightarrow> w = [] \<and> word_before p \<noteq> word_after t"
| "accepts Empty p w t \<longleftrightarrow> w = []"
| "accepts (Then a b) p w t \<longleftrightarrow> (\<exists>u v. w = u @ v \<and> accepts a p u (v @ t) \<and> accepts b (last_of p u) v t)"
| "accepts (Prefer a b) p w t \<longleftrightarrow> accepts a p w t \<or> accepts b p w t"
| "accepts (Many cs) p w t \<longleftrightarrow> set w \<subseteq> set cs"

lemma greedy_iff:
  "(q, t) \<in> set (greedy cs p s) \<longleftrightarrow> (\<exists>w. s = w @ t \<and> q = last_of p w \<and> set w \<subseteq> set cs)"
proof (induction cs p s rule: greedy.induct)
  case (2 cs p c s)
  have "(\<exists>w. c # s = w @ t \<and> q = last_of p w \<and> set w \<subseteq> set cs)
      \<longleftrightarrow> t = c # s \<and> q = p \<or> c \<in> set cs \<and> (\<exists>w. s = w @ t \<and> q = last_of (Some c) w \<and> set w \<subseteq> set cs)"
    by (auto simp: Cons_eq_append_conv)
  with 2 show ?case by auto
qed auto

theorem runs_iff:
  "(q, t) \<in> set (runs r (p, s)) \<longleftrightarrow> (\<exists>w. s = w @ t \<and> q = last_of p w \<and> accepts r p w t)"
proof (induction r arbitrary: p s q t)
  case (Then a b)
  have "(q, t) \<in> set (runs (Then a b) (p, s))
      \<longleftrightarrow> (\<exists>q' t'. (q', t') \<in> set (runs a (p, s)) \<and> (q, t) \<in> set (runs b (q', t')))"
    by auto
  also have "\<dots> \<longleftrightarrow> (\<exists>u v. s = (u @ v) @ t \<and> q = last_of p (u @ v) \<and> accepts a p u (v @ t)
      \<and> accepts b (last_of p u) v t)"
    (is "?L \<longleftrightarrow> ?R")
  proof
    assume ?L
    then show ?R unfolding Then.IH by (metis append.assoc last_of_simps(3))
  next
    assume ?R
    then obtain u v where "s = u @ v @ t" "q = last_of (last_of p u) v" "accepts a p u (v @ t)"
      "accepts b (last_of p u) v t" by auto
    then show ?L unfolding Then.IH by (intro exI [of _ "last_of p u"] exI [of _ "v @ t"]) blast
  qed
  finally show ?case unfolding accepts.simps by blast
qed (auto simp: greedy_iff split: list.splits)

lemma match_from_iff:
  "match_from r p s \<longleftrightarrow> (\<exists>u w t. s = u @ w @ t \<and> accepts r (last_of p u) w t)"
proof (induction r p s rule: match_from.induct)
  case (1 r p s)
  have here: "runs r (p, s) \<noteq> [] \<longleftrightarrow> (\<exists>w t. s = w @ t \<and> accepts r p w t)"
    using runs_iff [of _ _ r p s] by (metis ex_in_conv set_empty surj_pair)
  show ?case
  proof (cases s)
    case Nil
    then show ?thesis using here by (simp add: match_from.simps [of r p "[]"])
  next
    case (Cons c s')
    have "(\<exists>u w t. c # s' = u @ w @ t \<and> accepts r (last_of p u) w t)
        \<longleftrightarrow> (\<exists>w t. c # s' = w @ t \<and> accepts r p w t)
          \<or> (\<exists>u w t. s' = u @ w @ t \<and> accepts r (last_of (Some c) u) w t)"
    proof
      assume "\<exists>u w t. c # s' = u @ w @ t \<and> accepts r (last_of p u) w t"
      then obtain u w t where "c # s' = u @ w @ t" "accepts r (last_of p u) w t" by blast
      then show "(\<exists>w t. c # s' = w @ t \<and> accepts r p w t)
          \<or> (\<exists>u w t. s' = u @ w @ t \<and> accepts r (last_of (Some c) u) w t)"
        by (cases u) auto
    qed (metis append_Cons append_Nil last_of_simps(1,2))
    then show ?thesis using 1 here Cons by (simp add: match_from.simps [of r p "c # s'"])
  qed
qed

theorem MatchString_iff:
  "MatchString r s \<longleftrightarrow> (\<exists>u w t. s = u @ w @ t \<and> accepts r (last_of None u) w t)"
  by (simp add: MatchString_def match_from_iff)

section \<open>What \<open>find_all\<close> reports\<close>

lemma split_overlap:
  assumes "u @ x = u' @ w' @ t'" and "length u' < length u" and "length u < length u' + length w'"
  obtains us vs where "u = u' @ us" "w' = us @ vs" "us \<noteq> []"
proof -
  obtain us where us: "u = u' @ us" "us @ x = w' @ t'"
    using assms(1,2) by (auto simp: append_eq_append_conv2 [of u])
  moreover have "length us < length w'" using assms(3) us by simp
  then obtain vs where "w' = us @ vs"
    using us(2) by (auto simp: append_eq_append_conv2 [of us])
  ultimately show thesis using that assms(2) by auto
qed

lemma find_all_sound:
  "m \<in> set (find_all r p s) \<Longrightarrow> \<exists>u t. s = u @ m @ t \<and> accepts r (last_of p u) m t \<and> m \<noteq> []"
proof (induction r p s rule: find_all.induct)
  case (1 r p s)
  have skip: ?case if "s = c # s'" "m \<in> set (find_all r (Some c) s')"
      "\<And>x. x \<in> set (find_all r (Some c) s') \<Longrightarrow> x = m \<Longrightarrow>
         \<exists>u t. s' = u @ m @ t \<and> accepts r (last_of (Some c) u) m t \<and> m \<noteq> []" for c s'
    using that by (metis append_Cons last_of_simps(2))
  show ?case
  proof (cases "runs r (p, s)")
    case Nil
    with 1 skip show ?thesis by (auto simp: find_all.simps [of r p s] split: list.splits)
  next
    case (Cons cu more)
    obtain q t where cu: "cu = (q, t)" by (cases cu)
    have "(q, t) \<in> set (runs r (p, s))" using Cons cu by simp
    then obtain w where w: "s = w @ t" "q = last_of p w" "accepts r p w t" unfolding runs_iff by blast
    show ?thesis
    proof (cases "length t < length s")
      case True
      have "set (find_all r p s) = insert (take (length s - length t) s) (set (find_all r q t))"
        using Cons cu True by (simp add: find_all.simps [of r p s])
      with 1(4) w consider "m = w" | "m \<in> set (find_all r q t)" by auto
      then show ?thesis
      proof cases
        case 1
        with w True show ?thesis by (intro exI [of _ "[]"] exI [of _ t]) auto
      next
        case 2
        then obtain u t' where "t = u @ m @ t'" "accepts r (last_of q u) m t'" "m \<noteq> []"
          using "1.IH"(2) Cons cu True by blast
        with w show ?thesis by (intro exI [of _ "w @ u"] exI [of _ t']) auto
      qed
    next
      case False
      with 1 Cons cu skip show ?thesis by (auto simp: find_all.simps [of r p s] split: list.splits)
    qed
  qed
qed

text \<open>
  A match is reported when no match from an earlier place runs into it, and it is the only one at its
  place.
\<close>

lemma find_all_complete:
  assumes "s = u @ w @ t" and "accepts r (last_of p u) w t" and "w \<noteq> []"
    and earlier: "\<And>u' w' t'. s = u' @ w' @ t' \<Longrightarrow> accepts r (last_of p u') w' t' \<Longrightarrow>
      length u' < length u \<Longrightarrow> length u' + length w' \<le> length u"
    and only: "\<And>w' t'. w @ t = w' @ t' \<Longrightarrow> accepts r (last_of p u) w' t' \<Longrightarrow> w' = w"
  shows "w \<in> set (find_all r p s)"
  using assms
proof (induction r p s arbitrary: u rule: find_all.induct)
  case (1 r p s)
  have skip: "w \<in> set (find_all r (Some c) s')"
    if eq: "s = c # s'" and ne: "u \<noteq> []"
      and IH: "\<And>u. s' = u @ w @ t \<Longrightarrow> accepts r (last_of (Some c) u) w t \<Longrightarrow> w \<noteq> [] \<Longrightarrow>
        (\<And>u' w' t'. s' = u' @ w' @ t' \<Longrightarrow> accepts r (last_of (Some c) u') w' t' \<Longrightarrow>
           length u' < length u \<Longrightarrow> length u' + length w' \<le> length u) \<Longrightarrow>
        (\<And>w' t'. w @ t = w' @ t' \<Longrightarrow> accepts r (last_of (Some c) u) w' t' \<Longrightarrow> w' = w) \<Longrightarrow>
        w \<in> set (find_all r (Some c) s')" for c s'
  proof -
    obtain u2 where u: "u = c # u2" using 1(4) eq ne by (cases u) auto
    show ?thesis
    proof (rule IH [of u2])
      fix u' w' t'
      assume "s' = u' @ w' @ t'" "accepts r (last_of (Some c) u') w' t'" "length u' < length u2"
      then show "length u' + length w' \<le> length u2" using 1(7) [of "c # u'" w' t'] eq u by simp
    qed (use 1(4-8) eq u in auto)
  qed
  show ?case
  proof (cases "runs r (p, s)")
    case Nil
    then have "\<not> accepts r p w' t'" if "s = w' @ t'" for w' t'
      using runs_iff [of _ t' r p s] that by fastforce
    with 1(4,5) have u: "u \<noteq> []" by (metis append_Nil last_of_simps(1))
    then obtain c s' where s: "s = c # s'" using 1(4) by (metis append_is_Nil_conv list.exhaust)
    show ?thesis
      using skip [OF s u] 1(1) [OF Nil s]
      by (simp add: find_all.simps [of r p "c # s'"] Nil [unfolded s] s)
  next
    case (Cons cu more)
    obtain q t1 where cu: "cu = (q, t1)" by (cases cu)
    have "(q, t1) \<in> set (runs r (p, s))" using Cons cu by simp
    then obtain w1 where w1: "s = w1 @ t1" "q = last_of p w1" "accepts r p w1 t1" unfolding runs_iff by blast
    show ?thesis
    proof (cases "length t1 < length s")
      case True
      have "set (find_all r p s) = insert (take (length s - length t1) s) (set (find_all r q t1))"
        using Cons cu True by (simp add: find_all.simps [of r p s])
      with w1 have out: "set (find_all r p s) = insert w1 (set (find_all r q t1))" by simp
      show ?thesis
      proof (cases "u = []")
        case u: True
        with 1(4,8) w1 have "w1 = w" by (metis append_Nil last_of_simps(1))
        with out show ?thesis by simp
      next
        case False
        have le: "length w1 \<le> length u" using 1(7) [of "[]" w1 t1] w1 False by simp
        then obtain u2 where u: "u = w1 @ u2"
          using 1(4) w1 by (metis append_eq_append_conv_if append_take_drop_id)
        have t1: "t1 = u2 @ w @ t" using 1(4) w1 u by simp
        have "w \<in> set (find_all r q t1)"
        proof (rule 1(2) [OF Cons cu [symmetric] True t1])
          fix u' w' t'
          assume "t1 = u' @ w' @ t'" "accepts r (last_of q u') w' t'" "length u' < length u2"
          then show "length u' + length w' \<le> length u2"
            using 1(7) [of "w1 @ u'" w' t'] w1 u by simp
        qed (use 1(4-8) w1 u in auto)
        with out show ?thesis by simp
      qed
    next
      case False
      then have "w1 = []" using w1 by simp
      then have u: "u \<noteq> []" using 1(4,6,8) w1 by (metis append_Nil last_of_simps(1))
      then obtain c s' where s: "s = c # s'" using 1(4) by (metis append_is_Nil_conv list.exhaust)
      show ?thesis
        using skip [OF s u] 1(3) [OF Cons cu [symmetric] False s] False [unfolded s]
        by (simp add: find_all.simps [of r p "c # s'"] Cons [unfolded s cu] s)
    qed
  qed
qed

end
