(* ===== verification/Secret_Lane.thy ===== *)
theory Secret_Lane
  imports Text_Fold Go_Regexp Egress Task_Store
begin

text \<open>
  \<open>kahyad/internal/secretlane\<close>: the classifier of text that must not reach a cloud model
  (\<open>classifier.go\<close>) and the lane of a task that follows from it (\<open>router.go\<close>, on the database through
  \<open>server/secretlane_adapter.go\<close>), with the hook that keeps a task of the secret lane from the
  provider and its composition with the egress gate's hook in \<open>main.go\<close>.

  The local model is a parameter: a function from text to a verdict or an error, and behind it the
  chat completion and the decoder of its JSON.
\<close>

section \<open>Numbers\<close>

definition ibanCandidateRe :: regexp where
  "ibanCandidateRe = seq_re [WordBoundary, OneOf ''Tt'', OneOf ''Rr'', repeat_re (OneOf (digit_chars @ '' -'')) 24 40]"

definition tcknCandidateRe :: regexp where
  "tcknCandidateRe = seq_re [WordBoundary, times_re (OneOf digit_chars) 11, WordBoundary]"

definition cardCandidateRe :: regexp where
  "cardCandidateRe = seq_re [WordBoundary,
     repeat_re (seq_re [OneOf digit_chars, maybe_re (OneOf '' -'')]) 12 18, OneOf digit_chars, WordBoundary]"

definition cvvRe :: regexp where
  "cvvRe = seq_re [WordBoundary, OneOf ''Cc'', OneOf ''Vv'', OneOf ''Vv'', maybe_re (OneOf ''2''), WordBoundary,
     Many space_chars, maybe_re (OneOf '':-=''), Many space_chars, repeat_re (OneOf digit_chars) 3 4, WordBoundary]"

definition upper_char :: "char \<Rightarrow> char" where
  "upper_char c = (let n = of_char c :: nat in if 97 \<le> n \<and> n \<le> 122 then char_of (n - 32) else c)"

definition stripSeparators :: "string \<Rightarrow> string" where
  "stripSeparators s = filter (\<lambda>c. c \<notin> {CHR '' '', CHR ''-''}) s"

text \<open>Applied to a match of \<open>ibanCandidateRe\<close>, which is ASCII.\<close>

definition isValidIBANStructure :: "string \<Rightarrow> bool" where
  "isValidIBANStructure s = (let stripped = stripSeparators (map upper_char s) in
     is_prefix ''TR'' stripped \<and> length (drop 2 stripped) = 24 \<and> list_all (\<lambda>c. c \<in> set digit_chars) (drop 2 stripped))"

definition digit_of :: "char \<Rightarrow> int" where
  "digit_of c = of_char c - 48"

definition isValidTCKN :: "string \<Rightarrow> bool" where
  "isValidTCKN s = (if length s \<noteq> 11 then False
     else if \<not> list_all (\<lambda>c. c \<in> set digit_chars) s then False
     else let d = map digit_of s in
       if d ! 0 = 0 then False
       else let odd_sum = d ! 0 + d ! 2 + d ! 4 + d ! 6 + d ! 8;
                even_sum = d ! 1 + d ! 3 + d ! 5 + d ! 7
            in ((odd_sum * 7 - even_sum) mod 10 + 10) mod 10 = d ! 9
               \<and> sum_list (take 10 d) mod 10 = d ! 10)"

text \<open>The loop runs from the last digit on; \<open>alt\<close> says whether the digit is doubled.\<close>

fun luhn_sum :: "bool \<Rightarrow> int list \<Rightarrow> int" where
  "luhn_sum alt [] = 0"
| "luhn_sum alt (n # ns) =
     (if alt then if 9 < n * 2 then n * 2 - 9 else n * 2 else n) + luhn_sum (\<not> alt) ns"

definition luhnValid :: "string \<Rightarrow> bool" where
  "luhnValid digits \<longleftrightarrow> list_all (\<lambda>c. c \<in> set digit_chars) digits
     \<and> digits \<noteq> [] \<and> luhn_sum False (map digit_of (rev digits)) mod 10 = 0"

definition stripNonDigits :: "string \<Rightarrow> string" where
  "stripNonDigits s = filter (\<lambda>c. c \<in> set digit_chars) s"

section \<open>Words\<close>

definition s_cedilla :: string where "s_cedilla = [CHR 0xC5, CHR 0x9F]"
definition g_breve :: string where "g_breve = [CHR 0xC4, CHR 0x9F]"
definition c_cedilla :: string where "c_cedilla = [CHR 0xC3, CHR 0xA7]"
definition u_diaeresis :: string where "u_diaeresis = [CHR 0xC3, CHR 0xBC]"

definition foldAll :: "unicode_env \<Rightarrow> host_env \<Rightarrow> string list \<Rightarrow> string list" where
  "foldAll u v ws = map (Fold u v) ws"

definition saglikKeywords :: "unicode_env \<Rightarrow> host_env \<Rightarrow> string list" where
  "saglikKeywords u v = foldAll u v
     [''tahlil sonu'' @ c_cedilla @ ''lar'' @ dotless_i, ''tahlil sonuclari'', ''tahlil sonucu'',
      ''tahlil'', ''sa'' @ g_breve @ ''l'' @ dotless_i @ ''k'', ''saglik'',
      ''sa'' @ g_breve @ ''l'' @ dotless_i @ g_breve, ''saglig'', ''hastane'',
      ''re'' @ c_cedilla @ ''ete'', ''recete'', ''te'' @ s_cedilla @ ''his'', ''teshis'', ''diagnoz'',
      ''ila'' @ c_cedilla, ''ilac'', ''ameliyat'', ''psikiyatr'', ''psikolog'', ''doktor raporu'',
      ''epikriz'', ''biyopsi'', ''tetkik sonucu'', ''kan tahlili'', ''hasta dosyas'' @ dotless_i,
      ''hasta dosyasi'']"

definition finansKeywords :: "unicode_env \<Rightarrow> host_env \<Rightarrow> string list" where
  "finansKeywords u v = foldAll u v
     [''kredi kart'' @ dotless_i @ '' ekstresi'', ''kredi karti ekstresi'',
      ''kredi kart'' @ dotless_i @ '' numaras'' @ dotless_i, ''kredi karti numarasi'', ''banka hesap'',
      ''hesap numaras'' @ dotless_i, ''hesap numarasi'', ''maa'' @ s_cedilla @ '' bordrosu'',
      ''maas bordrosu'', ''vergi levhas'' @ dotless_i, ''vergi levhasi'', ''kredi notu'',
      ''banka ekstresi'', ''havale'', ''eft'', s_cedilla @ ''ifre'', ''sifre'',
      ''g'' @ u_diaeresis @ ''venlik kodu'', ''guvenlik kodu'']"

definition kimlikKeywords :: "unicode_env \<Rightarrow> host_env \<Rightarrow> string list" where
  "kimlikKeywords u v = foldAll u v
     [''tc kimlik'', ''t.c. kimlik'', ''tckn'', ''kimlik numaras'' @ dotless_i, ''kimlik numarasi'',
      ''pasaport numaras'' @ dotless_i, ''pasaport numarasi'', ''ehliyet numaras'' @ dotless_i,
      ''ehliyet numarasi'', ''do'' @ g_breve @ ''um tarihi'', ''dogum tarihi'',
      ''anne k'' @ dotless_i @ ''zl'' @ dotless_i @ ''k soyad'' @ dotless_i, ''anne kizlik soyadi'',
      ''n'' @ u_diaeresis @ ''fus c'' @ u_diaeresis @ ''zdan'' @ dotless_i, ''nufus cuzdani'']"

section \<open>Verdicts\<close>

record verdict =
  vd_secret :: bool
  vd_category :: string
  vd_intent :: string
  vd_reason :: string

definition CategoryFinans :: string where "CategoryFinans = ''finans''"
definition CategorySaglik :: string where "CategorySaglik = ''saglik''"
definition CategoryKimlik :: string where "CategoryKimlik = ''kimlik''"
definition CategoryNone :: string where "CategoryNone = ''none''"
definition CategoryUnknown :: string where "CategoryUnknown = ''unknown''"

definition secret_verdict :: "string \<Rightarrow> string \<Rightarrow> verdict" where
  "secret_verdict category reason = \<lparr>vd_secret = True, vd_category = category, vd_intent = '''', vd_reason = reason\<rparr>"

definition card_digits :: "string \<Rightarrow> bool" where
  "card_digits m = (let ds = stripNonDigits m in 13 \<le> length ds \<and> length ds \<le> 19 \<and> luhnValid ds)"

definition keyword_hit :: "string \<Rightarrow> string list \<Rightarrow> string option" where
  "keyword_hit folded kws = find (\<lambda>kw. contains_text folded kw) kws"

definition classify_numbers :: "string \<Rightarrow> verdict option" where
  "classify_numbers text =
     (if list_ex isValidIBANStructure (FindAllString ibanCandidateRe text) then Some (secret_verdict CategoryFinans ''iban'')
      else if list_ex isValidTCKN (FindAllString tcknCandidateRe text) then Some (secret_verdict CategoryKimlik ''tckn'')
      else if list_ex card_digits (FindAllString cardCandidateRe text) then Some (secret_verdict CategoryFinans ''card_number'')
      else if MatchString cvvRe text then Some (secret_verdict CategoryFinans ''cvv'')
      else None)"

definition classify_words :: "unicode_env \<Rightarrow> host_env \<Rightarrow> string \<Rightarrow> verdict option" where
  "classify_words u v text = (let folded = Fold u v text in
     case keyword_hit folded (saglikKeywords u v) of
       Some kw \<Rightarrow> Some (secret_verdict CategorySaglik (''keyword:'' @ kw))
     | None \<Rightarrow> (case keyword_hit folded (finansKeywords u v) of
         Some kw \<Rightarrow> Some (secret_verdict CategoryFinans (''keyword:'' @ kw))
       | None \<Rightarrow> (case keyword_hit folded (kimlikKeywords u v) of
           Some kw \<Rightarrow> Some (secret_verdict CategoryKimlik (''keyword:'' @ kw))
         | None \<Rightarrow> None)))"

definition classify_deterministic :: "unicode_env \<Rightarrow> host_env \<Rightarrow> string \<Rightarrow> verdict option" where
  "classify_deterministic u v text = (case classify_numbers text of
     Some d \<Rightarrow> Some d | None \<Rightarrow> classify_words u v text)"

text \<open>The exported function: a miss is a verdict, too.\<close>

definition ClassifyDeterministic :: "unicode_env \<Rightarrow> host_env \<Rightarrow> string \<Rightarrow> verdict" where
  "ClassifyDeterministic u v text = (case classify_deterministic u v text of
     Some d \<Rightarrow> d
   | None \<Rightarrow> \<lparr>vd_secret = False, vd_category = CategoryNone, vd_intent = '''', vd_reason = ''deterministic_no_match''\<rparr>)"

section \<open>The local model\<close>

definition validCategory :: "string \<Rightarrow> bool" where
  "validCategory c \<longleftrightarrow> c \<in> {CategoryFinans, CategorySaglik, CategoryKimlik, CategoryNone}"

datatype classify_error = NoModelWired | ModelError | InvalidCategory string

record chat_env =
  ch_complete :: "string \<Rightarrow> string option"
  ch_decode :: "string \<Rightarrow> (bool \<times> string \<times> string) option"

text \<open>\<open>HTTPQwenClassifier.Classify\<close>: \<open>ch_complete\<close> is \<open>postChatCompletion\<close> with the classifier's prompt.\<close>

definition Qwen_Classify :: "chat_env \<Rightarrow> string \<Rightarrow> classify_error + verdict" where
  "Qwen_Classify ch text = (case ch_complete ch text of
     None \<Rightarrow> Inl ModelError
   | Some content \<Rightarrow> (case ch_decode ch content of
       None \<Rightarrow> Inl ModelError
     | Some (secret, category, intent) \<Rightarrow>
         if \<not> validCategory category then Inl (InvalidCategory category)
         else Inr \<lparr>vd_secret = secret, vd_category = (if secret then category else CategoryNone),
                   vd_intent = intent, vd_reason = ''qwen''\<rparr>))"

text \<open>\<open>Classifier.Classify\<close> returns a verdict with and without an error.\<close>

definition Classifier_Classify :: "unicode_env \<Rightarrow> host_env \<Rightarrow> (string \<Rightarrow> classify_error + verdict) option \<Rightarrow> string
    \<Rightarrow> verdict \<times> classify_error option" where
  "Classifier_Classify u v qwen text = (case classify_deterministic u v text of
     Some d \<Rightarrow> (d, None)
   | None \<Rightarrow> (case qwen of
       None \<Rightarrow> (secret_verdict CategoryUnknown ''qwen_unavailable_fail_closed'', Some NoModelWired)
     | Some q \<Rightarrow> (case q text of
         Inl e \<Rightarrow> (secret_verdict CategoryUnknown ''qwen_error_fail_closed'', Some e)
       | Inr d \<Rightarrow>
           if \<not> validCategory (vd_category d)
           then (secret_verdict CategoryUnknown ''qwen_invalid_category_fail_closed'', Some (InvalidCategory (vd_category d)))
           else (d, None))))"

section \<open>The lane of a task\<close>

definition LaneSecret :: string where "LaneSecret = ''secret''"
definition LaneNormal :: string where "LaneNormal = ''normal''"

text \<open>The adapter: an empty category is \<open>NULL\<close>, and a task without a row is no error.\<close>

definition adapter_SetTaskLane :: "string \<Rightarrow> string \<Rightarrow> string \<Rightarrow> (store, unit res) state" where
  "adapter_SetTaskLane task lane category = do {
     at \<leftarrow> rfc3339Now;
     SetTaskLane lane (if category = '''' then None else Some category) at task
   }"

definition adapter_GetTaskLane :: "string \<Rightarrow> (store, (string \<times> string) option res) state" where
  "adapter_GetTaskLane task = do {
     r \<leftarrow> GetTaskLane task;
     ret (case r of
            Inl e \<Rightarrow> (if e = NoRows then Inr None else Inl e)
          | Inr (lane, category) \<Rightarrow> Inr (Some (lane, case category of None \<Rightarrow> '''' | Some c \<Rightarrow> c)))
   }"

definition mark_if :: "bool \<Rightarrow> string \<Rightarrow> string \<Rightarrow> (store, unit) state" where
  "mark_if wired sid trace = (if wired then do { _ \<leftarrow> MarkSensitiveRead sid trace; ret () } else ret ())"

definition ClassifyForNewTask :: "unicode_env \<Rightarrow> host_env \<Rightarrow> (string \<Rightarrow> classify_error + verdict) option \<Rightarrow> bool
    \<Rightarrow> string \<Rightarrow> string \<Rightarrow> string \<Rightarrow> (store, verdict \<times> classify_error option) state" where
  "ClassifyForNewTask u v qwen marker sid trace text = (case Classifier_Classify u v qwen text of (d, e) \<Rightarrow> do {
     mark_if (vd_secret d \<and> marker) sid trace;
     ret (d, e)
   })"

text \<open>The lane \<open>Escalate\<close> writes, from the verdict and what it believes the lane to be.\<close>

definition widened_lane :: "verdict \<Rightarrow> string \<Rightarrow> string \<Rightarrow> string \<times> string" where
  "widened_lane d old_lane old_category =
     (let lane = (if vd_secret d then LaneSecret else LaneNormal);
          category = (if vd_secret d then vd_category d else CategoryNone)
      in if old_lane = LaneSecret
         then (LaneSecret, if category = CategoryNone \<or> category = '''' then old_category else category)
         else (lane, category))"

definition Escalate :: "unicode_env \<Rightarrow> host_env \<Rightarrow> (string \<Rightarrow> classify_error + verdict) option \<Rightarrow> bool
    \<Rightarrow> string \<Rightarrow> string \<Rightarrow> string \<Rightarrow> (store, (string \<times> string) res) state" where
  "Escalate u v qwen marker task trace text = (case Classifier_Classify u v qwen text of (d, _) \<Rightarrow> do {
     r \<leftarrow> adapter_GetTaskLane task;
     let (old_lane, old_category) = (case r of Inr (Some x) \<Rightarrow> x | _ \<Rightarrow> ('''', ''''));
     let (lane, category) = widened_lane d old_lane old_category;
     r2 \<leftarrow> adapter_SetTaskLane task lane category;
     case r2 of
       Inl e \<Rightarrow> ret (Inl e)
     | Inr _ \<Rightarrow> do {
         mark_if (lane = LaneSecret \<and> marker) trace trace;
         ret (Inr (lane, category))
       }
   })"

section \<open>The hooks of the model proxy\<close>

definition logSecretLaneBlocked :: "bool \<Rightarrow> string \<Rightarrow> string \<Rightarrow> string \<Rightarrow> (store, unit) state" where
  "logSecretLaneBlocked ledger trace task reason =
     (if ledger then do {
        _ \<leftarrow> LogEvent trace ''secretlane_cloud_blocked'' [(''task_id'', JStr task), (''reason'', JStr reason)];
        ret ()
      } else ret ())"

definition NewProxyBackstopHook :: "bool \<Rightarrow> string \<Rightarrow> string \<Rightarrow> (store, hook_error option) state" where
  "NewProxyBackstopHook ledger task trace = do {
     r \<leftarrow> adapter_GetTaskLane task;
     case r of
       Inl e \<Rightarrow> do { logSecretLaneBlocked ledger trace task ''lookup_error''; ret (Some SecretLaneCloudBlocked) }
     | Inr None \<Rightarrow> ret None
     | Inr (Some (lane, category)) \<Rightarrow>
         if lane \<noteq> LaneSecret then ret None
         else do { logSecretLaneBlocked ledger trace task ''secret_lane''; ret (Some SecretLaneCloudBlocked) }
   }"

text \<open>\<open>combinedEgressGateFactory\<close> of \<open>main.go\<close>: the lane first, then the egress gate.\<close>

definition combinedEgressGate :: "host_env \<Rightarrow> gate \<Rightarrow> string \<Rightarrow> int \<Rightarrow> string \<Rightarrow> string \<Rightarrow> int64
    \<Rightarrow> (store, hook_error option) state" where
  "combinedEgressGate v g host port task trace content_length = do {
     blocked \<leftarrow> NewProxyBackstopHook True task trace;
     case blocked of
       Some e \<Rightarrow> ret (Some e)
     | None \<Rightarrow> NewAnthproxyEgressGateHook v g host port task trace content_length
   }"

end
