(* ===== verification/Router.thy ===== *)
theory Router
  imports Secret_Lane
begin

text \<open>
  \<open>kahyad/internal/router\<close>: the table that says which model answers a task (\<open>table.go\<close>) and how the
  intent of a text is obtained (\<open>intent.go\<close>).  The time a classification took is a parameter.
\<close>

section \<open>The table\<close>

definition IntentChat :: string where "IntentChat = ''chat''"
definition ModelOpus :: string where "ModelOpus = ''claude-opus-4-8''"
definition ModelSonnet :: string where "ModelSonnet = ''claude-sonnet-5''"
definition ModelHaiku :: string where "ModelHaiku = ''claude-haiku-4-5''"
definition ModelFable :: string where "ModelFable = ''claude-fable-5''"

record route_input =
  ri_intent :: string
  ri_lane :: string
  ri_deep_think :: bool
  ri_downgraded :: bool
  ri_default_model :: string

record route_decision =
  de_local :: bool
  de_model :: string
  de_reason :: string
  de_derin_during_downgrade :: bool

definition cloud_route :: "string \<Rightarrow> string \<Rightarrow> route_decision" where
  "cloud_route model reason =
     \<lparr>de_local = False, de_model = model, de_reason = reason, de_derin_during_downgrade = False\<rparr>"

definition local_route :: "string \<Rightarrow> route_decision" where
  "local_route reason =
     \<lparr>de_local = True, de_model = '''', de_reason = reason, de_derin_during_downgrade = False\<rparr>"

definition baseRowFor :: "string \<Rightarrow> string \<Rightarrow> string \<times> bool \<times> string" where
  "baseRowFor intent default_model =
     (if intent \<in> {''plan'', ''code_multi_file'', ''hard_exec''} then (ModelOpus, False, ''table_'' @ intent)
      else if intent \<in> {''subagent_exec'', ''fanout''} then (ModelSonnet, False, ''table_'' @ intent)
      else if intent \<in> {''extract'', ''writeback''} then (ModelHaiku, False, ''table_'' @ intent)
      else if intent \<in> {''route'', ''classify''} then ('''', True, ''table_route_classify'')
      else if intent = ''reader'' then (ModelHaiku, False, ''table_reader'')
      else (default_model, False, ''table_default_chat''))"

definition SelectModel :: "route_input \<Rightarrow> route_decision" where
  "SelectModel ri =
     (let lane = (if ri_lane ri = '''' then LaneNormal else ri_lane ri) in
      if lane = LaneSecret then local_route ''secret_lane_pin''
      else if ri_deep_think ri
      then \<lparr>de_local = False, de_model = ModelFable, de_reason = ''deep_think_opt_in'',
            de_derin_during_downgrade = ri_downgraded ri\<rparr>
      else case baseRowFor (ri_intent ri) (ri_default_model ri) of (model, is_local, reason) \<Rightarrow>
        if ri_downgraded ri \<and> \<not> is_local \<and> model = ModelOpus then cloud_route ModelSonnet ''downgrade_opus_to_sonnet''
        else if ri_downgraded ri \<and> \<not> is_local \<and> model = ModelSonnet then local_route ''downgrade_sonnet_to_local''
        else \<lparr>de_local = is_local, de_model = model, de_reason = reason, de_derin_during_downgrade = False\<rparr>)"

definition LogRoutingDecision :: "bool \<Rightarrow> string \<Rightarrow> route_input \<Rightarrow> route_decision \<Rightarrow> (store, unit) state" where
  "LogRoutingDecision ledger trace ri de =
     (if ledger then do {
        _ \<leftarrow> LogEvent trace ''routing_decision''
              [(''intent'', JStr (ri_intent ri)), (''lane'', JStr (ri_lane ri)), (''deep_think'', JBool (ri_deep_think ri)),
               (''downgraded'', JBool (ri_downgraded ri)),
               (''model'', JStr (if de_local de then ''local'' else de_model de)), (''local'', JBool (de_local de)),
               (''reason'', JStr (de_reason de)),
               (''derin_during_downgrade'', JBool (de_derin_during_downgrade de))];
        ret ()
      } else ret ())"

section \<open>The intent of a text\<close>

record intent_result =
  it_intent :: string
  it_source :: string
  it_verdict :: verdict
  it_duration :: int

definition no_verdict :: verdict where
  "no_verdict = \<lparr>vd_secret = False, vd_category = '''', vd_intent = '''', vd_reason = ''''\<rparr>"

definition SourceForVerdict :: "string \<Rightarrow> string" where
  "SourceForVerdict reason =
     (if reason \<in> {''qwen'', ''qwen_error_fail_closed'', ''qwen_invalid_category_fail_closed''}
      then ''model'' else ''deterministic'')"

definition LaneFromVerdict :: "verdict \<Rightarrow> string" where
  "LaneFromVerdict d = (if vd_secret d then LaneSecret else LaneNormal)"

text \<open>The outer option says whether there is a classifier, the inner one whether it has a model.\<close>

definition ClassifyIntent :: "unicode_env \<Rightarrow> host_env \<Rightarrow> (string \<Rightarrow> classify_error + verdict) option option \<Rightarrow> int
    \<Rightarrow> string \<Rightarrow> string \<Rightarrow> intent_result \<times> classify_error option" where
  "ClassifyIntent u v classifier duration deterministic txt =
     (if deterministic \<noteq> '''' then
        (\<lparr>it_intent = deterministic, it_source = ''deterministic'', it_verdict = no_verdict, it_duration = duration\<rparr>, None)
      else case classifier of
        None \<Rightarrow>
          (\<lparr>it_intent = '''', it_source = ''deterministic'',
            it_verdict = secret_verdict CategoryUnknown ''qwen_unavailable_fail_closed'', it_duration = duration\<rparr>,
           Some NoModelWired)
      | Some qwen \<Rightarrow> (case Classifier_Classify u v qwen txt of
            (d, Some e) \<Rightarrow>
              (\<lparr>it_intent = '''', it_source = SourceForVerdict (vd_reason d), it_verdict = d, it_duration = duration\<rparr>, Some e)
          | (d, None) \<Rightarrow>
              (\<lparr>it_intent = vd_intent d, it_source = SourceForVerdict (vd_reason d), it_verdict = d,
                it_duration = duration\<rparr>, None)))"

definition LogIntentClassified :: "bool \<Rightarrow> string \<Rightarrow> intent_result \<Rightarrow> (store, unit) state" where
  "LogIntentClassified ledger trace r =
     (if ledger then do {
        _ \<leftarrow> LogEvent trace ''intent_classified''
              [(''intent'', JStr (it_intent r)), (''duration_ms'', JInt (it_duration r)), (''source'', JStr (it_source r))];
        ret ()
      } else ret ())"

section \<open>What the table promises\<close>

text \<open>The secret lane outranks everything, and only the opt-in selects the dearest model.\<close>

lemma secret_lane_is_local: "ri_lane ri = LaneSecret \<Longrightarrow> de_local (SelectModel ri) \<and> de_model (SelectModel ri) = ''''"
  by (simp add: SelectModel_def LaneSecret_def local_route_def)

lemma fable_only_by_opt_in:
  "ri_default_model ri \<noteq> ModelFable \<Longrightarrow> de_model (SelectModel ri) = ModelFable \<Longrightarrow>
     ri_deep_think ri \<and> ri_lane ri \<noteq> LaneSecret"
  by (auto simp: SelectModel_def baseRowFor_def local_route_def cloud_route_def ModelFable_def ModelOpus_def
      ModelSonnet_def ModelHaiku_def LaneSecret_def LaneNormal_def Let_def split: if_splits)

text \<open>A downgraded decision costs at most as much as the one without the downgrade.\<close>

definition rung :: "route_decision \<Rightarrow> nat" where
  "rung de = (if de_local de then 0 else if de_model de = ModelHaiku then 1 else if de_model de = ModelSonnet then 2
     else if de_model de = ModelOpus then 3 else 4)"

lemma downgrade_one_rung:
  "rung (SelectModel (ri\<lparr>ri_downgraded := True\<rparr>)) \<le> rung (SelectModel (ri\<lparr>ri_downgraded := False\<rparr>))"
  "\<not> ri_deep_think ri \<Longrightarrow> de_model (SelectModel (ri\<lparr>ri_downgraded := True\<rparr>)) \<noteq> ModelOpus"
  by (auto simp: SelectModel_def baseRowFor_def local_route_def cloud_route_def ModelFable_def ModelOpus_def
      ModelSonnet_def ModelHaiku_def Let_def rung_def)

end
