(* ===== verification/Task_Intake.thy ===== *)
theory Task_Intake
  imports Router Cloud_Proxy Task_Outbox Taint
begin

text \<open>
  \<open>POST /v1/task\<close> (\<open>server/task.go\<close>, with the transcription of \<open>server/stt.go\<close>): a prompt is
  classified, routed and made into a task before there is a worker or a proxy; a task of the secret
  lane and a task routed to the local model are answered in the daemon, every other one by a worker
  that talks to the proxy of this task.

  A request runs on an \<open>intake\<close>: the daemon's database and what the request has caused so far, in
  order.  A run of a worker is what it is observed to do: the list of its events, interleaved with
  what the rest of the daemon does to the database meanwhile, and its outcome.  The governor is the
  one at the time of the request.  Of Go's context only what it does to statements appears, as
  failures; JSON encoding and the log lines are not modelled.
\<close>

section \<open>State and surroundings\<close>

datatype intake_message =
    MsgTaskTimeout int
  | MsgTaskUnexpectedExit string
  | MsgSecretLaneModelCallFailed string
  | MsgNoLocalMemory
  | MsgDerinDuringDowngrade
  | MsgParked
  | MsgSttUnexpected string
  | MsgSttNotStarted
  | MsgOfWorker string

datatype sse_event =
    SseText string
  | SseWarning intake_message
  | SseResult string string bool
  | SseError intake_message

datatype intake_effect =
    Rejected int string
  | StreamOpened
  | Streamed sse_event
  | Panicked
  | SpawnedSTT envelope
  | OpenedProxy proxy_cfg
  | ClosedProxy
  | SpawnedWorker envelope
  | Registered int
  | Unregistered
  | AskedLocalModel string
  | Spoke string bool string

record intake =
  ik_store :: store
  ik_out :: "intake_effect list"

datatype answer_error = LocalModelUnavailable | AnswerFailed

text \<open>A worker may report a status of its own, which counts as a success except for the task's status.\<close>

datatype run_status = RunOK | RunError | RunTimeout | RunCloudUnreachable | RunOther string

record run_outcome =
  ro_status :: run_status
  ro_session :: string
  ro_err_msg :: string

datatype worker_event =
    WorkerStart int
  | WorkerDelta string
  | WorkerSession string
  | WorkerClarification
  | Meanwhile "store \<Rightarrow> store"

record intake_env =
  ie_task_store :: bool
  ie_governor :: "governor option"
  ie_ledger :: bool
  ie_marker :: bool
  ie_answerer :: "(string \<Rightarrow> answer_error + string) option"
  ie_machine :: "task_env option"
  ie_durability :: bool
  ie_registry :: bool
  ie_taint_db :: bool
  ie_speaker :: bool
  ie_flusher :: bool
  ie_default_model :: string
  ie_timeout_min :: int
  ie_proxy :: proxy_cfg
  ie_gate :: "(string \<Rightarrow> string \<Rightarrow> int64 \<Rightarrow> (store, hook_error option) state) option"
  ie_listens :: bool
  ie_unicode :: unicode_env
  ie_hosts :: host_env
  ie_intent_ms :: int
  ie_run :: "envelope \<Rightarrow> worker_event list \<times> run_outcome option"

text \<open>\<open>taskRequest\<close>, and the body it is decoded from.\<close>

record task_request =
  tq_prompt :: string
  tq_trace :: string
  tq_deep_think :: bool
  tq_palette :: "jval option"
  tq_audio :: string
  tq_speak :: bool

datatype task_body = BodyTooLarge | BodyInvalid | Body task_request

definition on_store :: "(store, 'a) state \<Rightarrow> (intake, 'a) state" where
  "on_store m = State (\<lambda>s. case run_state m (ik_store s) of (a, d) \<Rightarrow> (a, s\<lparr>ik_store := d\<rparr>))"

definition put_out :: "intake_effect list \<Rightarrow> (intake, unit) state" where
  "put_out es = State (\<lambda>s. ((), s\<lparr>ik_out := ik_out s @ es\<rparr>))"

definition ledger_event :: "intake_env \<Rightarrow> string \<Rightarrow> string \<Rightarrow> payload \<Rightarrow> (intake, unit) state" where
  "ledger_event e trace kind p = on_store
     (if ie_ledger e then do { _ \<leftarrow> LogEvent trace kind p; ret () } else ret ())"

definition set_state :: "string \<Rightarrow> string \<Rightarrow> (intake, unit) state" where
  "set_state task st = on_store (do { ts \<leftarrow> rfc3339Now; _ \<leftarrow> UpdateTaskState st ts task; ret () })"

text \<open>The one stream of a response is opened once; without a flusher the request fails.\<close>

definition open_stream :: "intake_env \<Rightarrow> bool \<Rightarrow> (intake, bool) state" where
  "open_stream e opened =
     (if opened then ret True
      else if \<not> ie_flusher e then do { put_out [Rejected 500 ''streaming unsupported'']; ret False }
      else do { put_out [StreamOpened]; ret True })"

section \<open>Names\<close>

definition NewTaskID :: "(store, string res) state" where
  "NewTaskID = do { r \<leftarrow> rand_read 16; ret (case r of Inl e \<Rightarrow> Inl e | Inr b \<Rightarrow> Inr (''t_'' @ hex_encode b)) }"

definition NewAPIKey :: "(store, string res) state" where
  "NewAPIKey = do { r \<leftarrow> rand_read 16; ret (case r of Inl e \<Rightarrow> Inl e | Inr b \<Rightarrow> Inr (''kahya-task-'' @ hex_encode b)) }"

definition derinDusunPrefix :: string where
  "derinDusunPrefix = ''derin d'' @ u_diaeresis @ s_cedilla @ u_diaeresis @ ''n:''"

definition detectAndStripDerinPrefix :: "string \<Rightarrow> string \<times> bool" where
  "detectAndStripDerinPrefix prompt =
     (if \<not> is_prefix derinDusunPrefix prompt then (prompt, False)
      else (trim_space (drop (length derinDusunPrefix) prompt), True))"

section \<open>Speech to text\<close>

definition sttPlaceholderPrompt :: string where
  "sttPlaceholderPrompt = ''(ses giri'' @ s_cedilla @ ''i transkribe ediliyor)''"

definition stt_envelope :: "intake_env \<Rightarrow> string \<Rightarrow> string \<Rightarrow> stamp \<Rightarrow> string \<Rightarrow> envelope" where
  "stt_envelope e task trace ts path =
     \<lparr>en_schema_version = 1, en_task_id = task, en_trace_id = trace, en_session_id = None, en_kind = ''chat'',
      en_prompt = sttPlaceholderPrompt, en_model = ie_default_model e, en_memory_injection = False,
      en_created_at = ts, en_lane = '''', en_category = '''', en_resume = False, en_mode = ''stt'',
      en_schema = '''', en_intent = '''', en_deep_think = False, en_input_audio_path = path\<rparr>"

definition stt_step :: "worker_event \<Rightarrow> string \<Rightarrow> (intake, string) state" where
  "stt_step ev acc = (case ev of
     WorkerDelta d \<Rightarrow> ret (acc @ d)
   | Meanwhile f \<Rightarrow> do { on_store (State (\<lambda>s. ((), f s))); ret acc }
   | _ \<Rightarrow> ret acc)"

text \<open>\<open>Inl None\<close> is the panic of \<open>NewTaskID\<close>.\<close>

definition transcribeAudioLocally :: "intake_env \<Rightarrow> string \<Rightarrow> string \<Rightarrow> (intake, intake_message option + string) state" where
  "transcribeAudioLocally e trace path = do {
     i \<leftarrow> on_store NewTaskID;
     case i of
       Inl _ \<Rightarrow> ret (Inl None)
     | Inr task \<Rightarrow> do {
         ts \<leftarrow> on_store rfc3339Now;
         let v = stt_envelope e task trace ts path;
         if \<not> envelope_valid v then ret (Inl (Some MsgSttNotStarted))
         else do {
           put_out [SpawnedSTT v];
           acc \<leftarrow> for_each (fst (ie_run e v)) stt_step '''';
           ret (case snd (ie_run e v) of
                  None \<Rightarrow> Inl (Some MsgSttNotStarted)
                | Some oc \<Rightarrow>
                    if ro_status oc \<noteq> RunOK
                    then Inl (Some (if trim_space (ro_err_msg oc) = '''' then MsgSttUnexpected trace
                                    else MsgOfWorker (ro_err_msg oc)))
                    else Inr acc)
         }
       }
   }"

section \<open>Local answers\<close>

definition maybeSpeak :: "intake_env \<Rightarrow> string \<Rightarrow> bool \<Rightarrow> string \<Rightarrow> (intake, unit) state" where
  "maybeSpeak e lane force txt = (if ie_speaker e then put_out [Spoke lane force txt] else ret ())"

definition finishSecretLaneTask :: "intake_env \<Rightarrow> string \<Rightarrow> string \<Rightarrow> string \<Rightarrow> bool \<Rightarrow> answer_error + string
    \<Rightarrow> (intake, unit) state" where
  "finishSecretLaneTask e task trace lane speak r = (case r of
     Inl err \<Rightarrow> do {
       set_state task ''error'';
       ledger_event e trace ''task_error'' [(''task_id'', JStr task), (''status'', JStr ''error'')];
       put_out [Streamed (SseError (if err = LocalModelUnavailable then MsgNoLocalMemory
                                    else MsgSecretLaneModelCallFailed trace))]
     }
   | Inr answer \<Rightarrow> do {
       set_state task ''done'';
       ledger_event e trace ''task_done'' [(''task_id'', JStr task), (''status'', JStr ''ok'')];
       ledger_event e trace ''first_token'' [(''task_id'', JStr task)];
       put_out [Streamed (SseText answer), Streamed (SseResult task '''' True)];
       maybeSpeak e lane speak answer
     })"

definition handleSecretLaneTask :: "intake_env \<Rightarrow> string \<Rightarrow> string \<Rightarrow> string \<Rightarrow> string \<Rightarrow> bool \<Rightarrow> bool
    \<Rightarrow> (intake, unit) state" where
  "handleSecretLaneTask e task trace prompt lane speak opened = do {
     ok \<leftarrow> open_stream e opened;
     if \<not> ok then ret ()
     else case ie_answerer e of
       None \<Rightarrow> finishSecretLaneTask e task trace lane speak (Inl AnswerFailed)
     | Some answer \<Rightarrow> do {
         put_out [AskedLocalModel prompt];
         finishSecretLaneTask e task trace lane speak (answer prompt)
       }
   }"

section \<open>The proxy of a task\<close>

definition task_proxy_cfg :: "intake_env \<Rightarrow> string \<Rightarrow> string \<Rightarrow> string \<Rightarrow> proxy_cfg" where
  "task_proxy_cfg e task trace key = (ie_proxy e)
     \<lparr>pc_task := task, pc_trace := trace, pc_token := key, pc_governor := ie_governor e \<noteq> None,
      pc_ledger := ie_ledger e, pc_pause := True, pc_on_unreachable := True, pc_on_nonretryable := True,
      pc_gate := map_option (\<lambda>factory. factory task trace) (ie_gate e)\<rparr>"

text \<open>\<open>Inl True\<close> is the panic of \<open>NewAPIKey\<close>.\<close>

definition NewTaskProxy :: "intake_env \<Rightarrow> string \<Rightarrow> string \<Rightarrow> (intake, bool + proxy_cfg) state" where
  "NewTaskProxy e task trace = do {
     k \<leftarrow> on_store NewAPIKey;
     case k of
       Inl _ \<Rightarrow> ret (Inl True)
     | Inr key \<Rightarrow> (case New_proxy (task_proxy_cfg e task trace key) of
         None \<Rightarrow> ret (Inl False)
       | Some c \<Rightarrow>
           if \<not> ie_listens e then ret (Inl False)
           else do { put_out [OpenedProxy c]; ret (Inr c) })
   }"

section \<open>A worker's run\<close>

definition persistSessionStarted :: "intake_env \<Rightarrow> string \<Rightarrow> string \<Rightarrow> string \<Rightarrow> (store, unit res) state" where
  "persistSessionStarted e trace task sid = do {
     ts \<leftarrow> rfc3339Now;
     if \<not> ie_taint_db e then UpdateTaskSession (Some sid) ts task
     else do {
       b \<leftarrow> begin_tx;
       case b of
         Inl err \<Rightarrow> ret (Inl err)
       | Inr _ \<Rightarrow> do {
           r \<leftarrow> commit_or_rollback (do {
             x \<leftarrow> UpdateTaskSession (Some sid) ts task;
             case x of Inl err \<Rightarrow> ret (Inl err) | Inr _ \<Rightarrow> taint_InsertClean False trace sid
           });
           (if r = Inl ErrLowerAttempt \<and> ie_ledger e
            then do {
              _ \<leftarrow> LogEvent trace ''taint.lower_attempt''
                    [(''event'', JStr ''taint.lower_attempt''), (''session_id'', JStr sid)];
              ret ()
            } else ret ());
           ret r
         }
     }
   }"

text \<open>The accumulator says whether a token has come, and holds the answer so far.\<close>

definition worker_step :: "intake_env \<Rightarrow> string \<Rightarrow> string \<Rightarrow> worker_event \<Rightarrow> bool \<times> string
    \<Rightarrow> (intake, bool \<times> string) state" where
  "worker_step e trace task ev acc = (case ev of
     WorkerStart pid \<Rightarrow> do {
       put_out (if ie_registry e then [Registered pid] else []);
       on_store (do { ts \<leftarrow> rfc3339Now; _ \<leftarrow> SetTaskWorkerPGID (Some pid) ts task; ret () });
       ret acc
     }
   | WorkerDelta d \<Rightarrow> do {
       (if fst acc then ret () else ledger_event e trace ''first_token'' [(''task_id'', JStr task)]);
       put_out [Streamed (SseText d)];
       ret (True, snd acc @ d)
     }
   | WorkerSession sid \<Rightarrow> do {
       (if sid = '''' then ret () else do { _ \<leftarrow> on_store (persistSessionStarted e trace task sid); ret () });
       ret acc
     }
   | WorkerClarification \<Rightarrow> do {
       ledger_event e trace ''clarification_turn'' [(''task_id'', JStr task)];
       ret acc
     }
   | Meanwhile f \<Rightarrow> do { on_store (State (\<lambda>s. ((), f s))); ret acc })"

record outcome_mapping =
  om_state :: string
  om_kind :: string
  om_event :: sse_event

text \<open>\<open>None\<close> is an error of \<open>spawn.Run\<close> itself.\<close>

definition mapTaskOutcome :: "run_outcome option \<Rightarrow> string \<Rightarrow> string \<Rightarrow> int \<Rightarrow> outcome_mapping" where
  "mapTaskOutcome r trace task timeout = (case r of
     None \<Rightarrow> \<lparr>om_state = ''error'', om_kind = ''task_error'', om_event = SseError (MsgTaskUnexpectedExit trace)\<rparr>
   | Some oc \<Rightarrow> (case ro_status oc of
       RunTimeout \<Rightarrow> \<lparr>om_state = ''error'', om_kind = ''task_timeout'', om_event = SseError (MsgTaskTimeout timeout)\<rparr>
     | RunCloudUnreachable \<Rightarrow> \<lparr>om_state = ''waiting_retry'', om_kind = ''task_waiting_retry'', om_event = SseError MsgParked\<rparr>
     | RunError \<Rightarrow> \<lparr>om_state = ''error'', om_kind = ''task_error'',
          om_event = SseError (if ro_err_msg oc = '''' then MsgTaskUnexpectedExit trace else MsgOfWorker (ro_err_msg oc))\<rparr>
     | _ \<Rightarrow> \<lparr>om_state = ''done'', om_kind = ''task_done'', om_event = SseResult task (ro_session oc) False\<rparr>))"

definition status_text :: "run_outcome option \<Rightarrow> string" where
  "status_text r = (case r of None \<Rightarrow> '''' | Some oc \<Rightarrow> (case ro_status oc of
     RunOK \<Rightarrow> ''ok'' | RunError \<Rightarrow> ''error'' | RunTimeout \<Rightarrow> ''timeout'' | RunCloudUnreachable \<Rightarrow> ''cloud_unreachable''
   | RunOther st \<Rightarrow> st))"

text \<open>A task that ended well and is still executing is done; every other end is left to the resume scan.\<close>

definition finish_status :: "intake_env \<Rightarrow> string \<Rightarrow> string \<Rightarrow> run_outcome option \<Rightarrow> (store, unit) state" where
  "finish_status e trace task r = (case (ie_machine e, r) of
     (Some m, Some oc) \<Rightarrow>
       if ro_status oc = RunOK \<and> ie_durability e then do {
         g \<leftarrow> GetTaskByID task;
         case g of
           Inl _ \<Rightarrow> ret ()
         | Inr t \<Rightarrow>
             if t_status t = StatusExecuting then do { _ \<leftarrow> Transition m trace task StatusDone; ret () } else ret ()
       } else ret ()
   | _ \<Rightarrow> ret ())"

definition run_worker :: "intake_env \<Rightarrow> string \<Rightarrow> string \<Rightarrow> envelope \<Rightarrow> bool \<Rightarrow> (intake, unit) state" where
  "run_worker e trace task v speak = do {
     put_out [SpawnedWorker v];
     acc \<leftarrow> for_each (fst (ie_run e v)) (worker_step e trace task) (False, '''');
     let r = snd (ie_run e v);
     let m = mapTaskOutcome r trace task (ie_timeout_min e);
     set_state task (om_state m);
     ledger_event e trace (om_kind m) [(''task_id'', JStr task), (''status'', JStr (status_text r))];
     on_store (finish_status e trace task r);
     put_out [Streamed (om_event m)];
     (case om_event m of SseResult _ _ _ \<Rightarrow> maybeSpeak e (en_lane v) speak (snd acc) | _ \<Rightarrow> ret ());
     put_out (if ie_registry e then [Unregistered] else [])
   }"

section \<open>The cloud lane\<close>

definition handle_cloud :: "intake_env \<Rightarrow> string \<Rightarrow> string \<Rightarrow> envelope \<Rightarrow> route_decision \<Rightarrow> bool \<Rightarrow> bool
    \<Rightarrow> (intake, unit) state" where
  "handle_cloud e trace task v de speak opened = do {
     (case ie_machine e of
        None \<Rightarrow> ret ()
      | Some m \<Rightarrow> on_store (do { _ \<leftarrow> Transition m trace task StatusExecuting; ret () }));
     p \<leftarrow> NewTaskProxy e task trace;
     case p of
       Inl True \<Rightarrow> put_out [Panicked]
     | Inl False \<Rightarrow>
         put_out [if opened then Streamed (SseError (MsgTaskUnexpectedExit trace))
                  else Rejected 500 ''anthropic proxy init failed'']
     | Inr c \<Rightarrow> do {
         ok \<leftarrow> open_stream e opened;
         (if \<not> ok then ret ()
          else do {
            (if de_derin_during_downgrade de then do {
               ledger_event e trace ''derin_during_downgrade'' [(''task_id'', JStr task)];
               put_out [Streamed (SseWarning MsgDerinDuringDowngrade)]
             } else ret ());
            run_worker e trace task v speak
          });
         put_out [ClosedProxy]
       }
   }"

section \<open>From the prompt to the task\<close>

definition chat_envelope :: "string \<Rightarrow> string \<Rightarrow> string \<Rightarrow> string \<Rightarrow> stamp \<Rightarrow> string \<Rightarrow> string \<Rightarrow> string \<Rightarrow> bool \<Rightarrow> envelope" where
  "chat_envelope task trace prompt model ts lane category intent deep =
     \<lparr>en_schema_version = 1, en_task_id = task, en_trace_id = trace, en_session_id = None, en_kind = ''chat'',
      en_prompt = prompt, en_model = model, en_memory_injection = True, en_created_at = ts, en_lane = lane,
      en_category = category, en_resume = False, en_mode = '''', en_schema = '''', en_intent = intent,
      en_deep_think = deep, en_input_audio_path = ''''\<rparr>"

definition chat_row :: "envelope \<Rightarrow> task_row" where
  "chat_row v =
     \<lparr>t_id = en_task_id v, t_trace = en_trace_id v, t_session = None, t_state = ''running'',
      t_model = Some (en_model v), t_lane = en_lane v,
      t_secret_category = (if en_category v = '''' then None else Some (en_category v)),
      t_status = StatusIntent, t_next_retry = None, t_attempts = 0, t_created = en_created_at v,
      t_updated = en_created_at v, t_worker_pgid = None, t_halted_at = None, t_envelope = Some (EnvelopeJSON v)\<rparr>"

definition insert_and_dispatch :: "intake_env \<Rightarrow> string \<Rightarrow> string \<Rightarrow> envelope \<Rightarrow> route_decision \<Rightarrow> bool \<Rightarrow> bool
    \<Rightarrow> (intake, unit) state" where
  "insert_and_dispatch e trace task v de speak opened =
     (if \<not> envelope_valid v then put_out [Rejected 500 ''invalid task envelope'']
      else do {
        r \<leftarrow> on_store (InsertTask (chat_row v));
        case r of
          Inl _ \<Rightarrow> put_out [Rejected 500 ''task insert failed'']
        | Inr _ \<Rightarrow> do {
            ledger_event e trace ''task_spawned''
              [(''task_id'', JStr task), (''model'', JStr (en_model v)), (''lane'', JStr (en_lane v))];
            if en_lane v = LaneSecret then handleSecretLaneTask e task trace (en_prompt v) (en_lane v) speak opened
            else if de_local de then handleSecretLaneTask e task trace (en_prompt v) (en_lane v) speak opened
            else handle_cloud e trace task v de speak opened
          }
      })"

definition classify_and_route :: "intake_env \<Rightarrow> string \<Rightarrow> string \<Rightarrow> stamp \<Rightarrow> string \<Rightarrow> bool \<Rightarrow> bool \<Rightarrow> bool
    \<Rightarrow> (intake, unit) state" where
  "classify_and_route e trace task ts prompt deep speak opened = do {
     let d = ClassifyDeterministic (ie_unicode e) (ie_hosts e) prompt;
     let lane = (if vd_secret d then LaneSecret else LaneNormal);
     let category = (if vd_secret d then vd_category d else '''');
     on_store (mark_if (vd_secret d \<and> ie_marker e) trace trace);
     let it = fst (ClassifyIntent (ie_unicode e) (ie_hosts e) None (ie_intent_ms e) IntentChat '''');
     on_store (LogIntentClassified (ie_ledger e) trace it);
     t \<leftarrow> on_store now;
     let ri = \<lparr>ri_intent = it_intent it, ri_lane = lane, ri_deep_think = deep,
               ri_downgraded = (case ie_governor e of None \<Rightarrow> False | Some g \<Rightarrow> Downgraded t g),
               ri_default_model = ie_default_model e\<rparr>;
     let de = SelectModel ri;
     on_store (LogRoutingDecision (ie_ledger e) trace ri de);
     insert_and_dispatch e trace task
       (chat_envelope task trace prompt (if de_local de then ie_default_model e else de_model de) ts lane category
          (it_intent it) deep) de speak opened
   }"

definition handle_prompt :: "intake_env \<Rightarrow> string \<Rightarrow> task_request \<Rightarrow> string \<Rightarrow> bool \<Rightarrow> (intake, unit) state" where
  "handle_prompt e trace rq prompt opened =
     (if trim_space prompt = '''' then put_out [Rejected 400 ''prompt must not be empty'']
      else do {
        i \<leftarrow> on_store NewTaskID;
        case i of
          Inl _ \<Rightarrow> put_out [Panicked]
        | Inr task \<Rightarrow> do {
            ts \<leftarrow> on_store rfc3339Now;
            (case tq_palette rq of
               None \<Rightarrow> ret ()
             | Some x \<Rightarrow> ledger_event e trace ''palette_open'' [(''task_id'', JStr task), (''palette_opened_at'', x)]);
            let (bare, matched) = detectAndStripDerinPrefix prompt;
            if trim_space bare = '''' then put_out [Rejected 400 ''prompt must not be empty'']
            else classify_and_route e trace task ts bare (tq_deep_think rq \<or> matched) (tq_speak rq) opened
          }
      })"

definition handle_request :: "intake_env \<Rightarrow> string \<Rightarrow> task_request \<Rightarrow> (intake, unit) state" where
  "handle_request e header_trace rq =
     (let trace = (if tq_trace rq = '''' then header_trace else tq_trace rq) in
      if trim_space (tq_audio rq) = '''' then handle_prompt e trace rq (tq_prompt rq) False
      else if \<not> is_prefix ''/'' (tq_audio rq)
      then put_out [Rejected 400 ''input_audio_path must be an absolute path'']
      else do {
        ok \<leftarrow> open_stream e False;
        if \<not> ok then ret ()
        else do {
          r \<leftarrow> transcribeAudioLocally e trace (tq_audio rq);
          case r of
            Inl None \<Rightarrow> put_out [Panicked]
          | Inl (Some m) \<Rightarrow> put_out [Streamed (SseError m)]
          | Inr transcript \<Rightarrow> handle_prompt e trace rq transcript True
        }
      })"

definition handleTask :: "intake_env \<Rightarrow> string \<Rightarrow> task_body \<Rightarrow> (intake, unit) state" where
  "handleTask e header_trace body =
     (if \<not> ie_task_store e then put_out [Rejected 503 ''task engine not available'']
      else if ie_governor e = None then put_out [Rejected 503 ''anthropic forward-proxy not available'']
      else case body of
        BodyTooLarge \<Rightarrow> put_out [Rejected 413 ''invalid request body'']
      | BodyInvalid \<Rightarrow> put_out [Rejected 400 ''invalid request body'']
      | Body rq \<Rightarrow> handle_request e header_trace rq)"

end
