(* ===== verification/Secret_Lane_Facts.thy ===== *)
theory Secret_Lane_Facts
  imports Secret_Lane Task_Traces Egress_Laws
begin

text \<open>
  What the classifier finds, what a verdict of not secret means, and that the lane of a task only
  widens: \<open>lanes_stick\<close> is kept by every operation on tasks, by the hooks and, on a database whose
  lookup does not fail, by \<open>Escalate\<close>.
\<close>

section \<open>Numbers that stand alone\<close>

lemma accepts_one_then:
  "accepts (Then (OneOf cs) r) p w t \<longleftrightarrow> (\<exists>c v. w = c # v \<and> c \<in> set cs \<and> accepts r (Some c) v t)"
proof
  assume "\<exists>c v. w = c # v \<and> c \<in> set cs \<and> accepts r (Some c) v t"
  then obtain c v where "w = [c] @ v" "c \<in> set cs" "accepts r (last_of p [c]) v t" by auto
  then show "accepts (Then (OneOf cs) r) p w t" unfolding accepts.simps by blast
qed auto

lemma accepts_times: "accepts (times_re (OneOf cs) n) p w t \<longleftrightarrow> length w = n \<and> set w \<subseteq> set cs"
proof (induction n arbitrary: p w)
  case (Suc n)
  show ?case unfolding times_re.simps accepts_one_then Suc by (cases w) auto
qed auto

lemma digit_is_word: "c \<in> set digit_chars \<Longrightarrow> is_word_char c"
  by (auto simp: digit_chars_def is_word_char_def)

text \<open>A text between two places that are no word characters.\<close>

definition alone :: "string \<Rightarrow> string \<Rightarrow> bool" where
  "alone before after \<longleftrightarrow> \<not> word_before (last_of None before) \<and> \<not> word_after after"

lemma accepts_tckn:
  "accepts tcknCandidateRe p w t \<longleftrightarrow>
     length w = 11 \<and> set w \<subseteq> set digit_chars \<and> \<not> word_before p \<and> \<not> word_after t"
proof -
  have first: "word_after (w @ t)" if "length w = 11" "set w \<subseteq> set digit_chars"
    using that digit_is_word by (cases w) (auto simp: word_after_def)
  have final: "word_before (last_of p w)" if "length w = 11" "set w \<subseteq> set digit_chars"
  proof -
    have "w \<noteq> []" using that by auto
    with that show ?thesis
      by (metis digit_is_word in_mono last_in_set last_of_def option.simps(5) word_before_def)
  qed
  show ?thesis
    using first final by (auto simp: tcknCandidateRe_def accepts_times)
qed

lemma isValidTCKN_digits: "isValidTCKN d \<Longrightarrow> length d = 11 \<and> set d \<subseteq> set digit_chars"
  by (auto simp: isValidTCKN_def list_all_iff split: if_splits)

text \<open>A run of digits that stands alone does not overlap another one.\<close>

lemma tckn_candidates:
  "set (FindAllString tcknCandidateRe text) =
     {d. length d = 11 \<and> set d \<subseteq> set digit_chars \<and> (\<exists>u t. text = u @ d @ t \<and> alone u t)}"
proof (intro set_eqI iffI)
  fix d assume "d \<in> set (FindAllString tcknCandidateRe text)"
  then show "d \<in> {d. length d = 11 \<and> set d \<subseteq> set digit_chars \<and> (\<exists>u t. text = u @ d @ t \<and> alone u t)}"
    unfolding FindAllString_def alone_def by (auto dest!: find_all_sound simp: accepts_tckn) blast
next
  fix d assume "d \<in> {d. length d = 11 \<and> set d \<subseteq> set digit_chars \<and> (\<exists>u t. text = u @ d @ t \<and> alone u t)}"
  then obtain u t where d: "length d = 11" "set d \<subseteq> set digit_chars" and eq: "text = u @ d @ t"
    and alone: "\<not> word_before (last_of None u)" "\<not> word_after t"
    unfolding alone_def by blast
  show "d \<in> set (FindAllString tcknCandidateRe text)"
    unfolding FindAllString_def
  proof (rule find_all_complete [OF eq])
    fix u' w' t'
    assume split: "text = u' @ w' @ t'" and acc: "accepts tcknCandidateRe (last_of None u') w' t'"
      and lt: "length u' < length u"
    have w': "set w' \<subseteq> set digit_chars" using acc by (simp add: accepts_tckn)
    show "length u' + length w' \<le> length u"
    proof (rule ccontr)
      assume "\<not> length u' + length w' \<le> length u"
      then obtain us vs where us: "u = u' @ us" "w' = us @ vs" "us \<noteq> []"
        using split_overlap [of u "d @ t" u' w' t'] eq split lt by auto
      then have "last us \<in> set digit_chars" using w' last_in_set [of us] by auto
      with us alone digit_is_word show False by (simp add: last_of_def word_before_def)
    qed
  next
    fix w' t'
    assume "d @ t = w' @ t'" "accepts tcknCandidateRe (last_of None u) w' t'"
    then show "w' = d" using d by (simp add: accepts_tckn)
  qed (use d alone in \<open>auto simp: accepts_tckn\<close>)
qed

theorem tckn_found:
  "list_ex isValidTCKN (FindAllString tcknCandidateRe text)
     \<longleftrightarrow> (\<exists>u d t. text = u @ d @ t \<and> isValidTCKN d \<and> alone u t)"
  unfolding list_ex_iff tckn_candidates using isValidTCKN_digits by blast

section \<open>Verdicts\<close>

lemma contains_text_append: "contains_text (a @ w @ b) w"
proof -
  have pre: "is_prefix w (w @ b)" for w b by (induction w) auto
  show ?thesis
  proof (induction a)
    case Nil
    then show ?case using pre [of w b] by (cases "w @ b") (auto simp: contains_text_def)
  qed (auto simp: contains_text_def)
qed

definition lexicon :: "unicode_env \<Rightarrow> host_env \<Rightarrow> string set" where
  "lexicon u v = set (saglikKeywords u v) \<union> set (finansKeywords u v) \<union> set (kimlikKeywords u v)"

lemma classify_deterministic_secret: "classify_deterministic u v text = Some d \<Longrightarrow> vd_secret d"
  by (auto simp: classify_deterministic_def classify_numbers_def classify_words_def secret_verdict_def Let_def
      split: if_splits option.splits)

lemma keyword_hit_None: "keyword_hit t kws = None \<longleftrightarrow> (\<forall>kw \<in> set kws. \<not> contains_text t kw)"
  by (auto simp: keyword_hit_def find_None_iff)

lemma classify_words_None:
  "classify_words u v text = None \<longleftrightarrow> \<not> (\<exists>kw \<in> lexicon u v. contains_text (Fold u v text) kw)"
  unfolding lexicon_def bex_Un de_Morgan_disj bex_simps
  by (simp add: classify_words_def Let_def keyword_hit_None [symmetric] split: option.splits)

lemma classify_deterministic_None:
  "classify_deterministic u v text = None \<longleftrightarrow>
     \<not> list_ex isValidIBANStructure (FindAllString ibanCandidateRe text)
     \<and> \<not> (\<exists>b d a. text = b @ d @ a \<and> isValidTCKN d \<and> alone b a)
     \<and> \<not> list_ex card_digits (FindAllString cardCandidateRe text)
     \<and> \<not> (\<exists>b w a. text = b @ w @ a \<and> accepts cvvRe (last_of None b) w a)
     \<and> \<not> (\<exists>kw \<in> lexicon u v. contains_text (Fold u v text) kw)"
  by (simp add: classify_deterministic_def classify_numbers_def tckn_found MatchString_iff classify_words_None)
     blast

lemma ClassifyDeterministic_secret:
  "vd_secret (ClassifyDeterministic u v text) \<longleftrightarrow> classify_deterministic u v text \<noteq> None"
  by (auto simp: ClassifyDeterministic_def dest: classify_deterministic_secret split: option.split)

lemma Classifier_Classify_cleared:
  "Classifier_Classify u v qwen text = (d, e) \<Longrightarrow> \<not> vd_secret d \<Longrightarrow>
     e = None \<and> classify_deterministic u v text = None
     \<and> (\<exists>q. qwen = Some q \<and> q text = Inr d \<and> validCategory (vd_category d))"
  by (auto simp: Classifier_Classify_def secret_verdict_def dest: classify_deterministic_secret
      split: option.splits sum.splits if_splits)

section \<open>Lanes\<close>

definition lane_of :: "store \<Rightarrow> string \<Rightarrow> string option" where
  "lane_of s i = map_option t_lane (find (\<lambda>r. t_id r = i) (tasks s))"

definition lanes_stick :: "store \<Rightarrow> store \<Rightarrow> bool" where
  "lanes_stick s s' \<longleftrightarrow> (\<forall>i. lane_of s i = Some LaneSecret \<longrightarrow> lane_of s' i = Some LaneSecret)"

lemma lanes_stick_same: "tasks s' = tasks s \<Longrightarrow> lanes_stick s s'"
  by (simp add: lanes_stick_def lane_of_def)

lemma lanes_stick_update:
  assumes "\<And>r. t_id (f r) = t_id r" and "\<And>r. t_lane r = LaneSecret \<Longrightarrow> t_lane (f r) = LaneSecret"
  shows "lanes_stick s (s\<lparr>tasks := update_where p f (tasks s)\<rparr>)"
proof -
  have "lane_of (s\<lparr>tasks := update_where p f (tasks s)\<rparr>) i
      = map_option (\<lambda>r. t_lane (if p r then f r else r)) (find (\<lambda>r. t_id r = i) (tasks s))" for i
    by (simp add: lane_of_def find_update_where assms(1) option.map_comp comp_def)
  with assms(2) show ?thesis by (auto simp: lanes_stick_def lane_of_def)
qed

interpretation lanes: store_preorder lanes_stick
  by unfold_locales (simp_all add: lanes_stick_same, simp add: lanes_stick_def)

lemma lanes_statements:
  "state_io_rel lanes_stick (SetTaskStatus to at i from)"
  "state_io_rel lanes_stick (IncrementTaskAttempts at i)"
  "state_io_rel lanes_stick (SetTaskNextRetry retry at i)"
  "state_io_rel lanes_stick (SetTaskHaltedAt halted at i)"
  "state_io_rel lanes_stick (SetTaskWorkerPGID pgid at i)"
  "state_io_rel lanes_stick (UpdateTaskSession sid at i)"
  "state_io_rel lanes_stick (UpdateTaskState st at i)"
  "state_io_rel lanes_stick (InsertTask row)"
  unfolding UpdateTaskState_def IncrementTaskAttempts_def SetTaskNextRetry_def SetTaskHaltedAt_def
    SetTaskWorkerPGID_def UpdateTaskSession_def update_task_def SetTaskStatus_def InsertTask_def Let_def
  by (rule lanes.keeps_db; simp add: lanes_stick_update lanes.R_refl split: option.split;
      auto simp: lanes_stick_def lane_of_def find_append)+

interpretation lanes: task_trace lanes_stick
  by unfold_locales
     (rule lanes_statements same_tasks_mono [OF same_tasks_statements(1)]
        same_tasks_mono [OF same_tasks_statements(2)] same_tasks_mono [OF same_tasks_statements(3)]
        same_tasks_mono [OF same_tasks_statements(4)] same_tasks_mono [OF same_tasks_statements(5)]
        same_tasks_mono [OF same_tasks_statements(6)] same_tasks_mono [OF same_tasks_statements(7)]
        same_tasks_mono [OF same_tasks_statements(8)] same_tasks_mono [OF same_tasks_statements(9)] | assumption
      | erule lanes_stick_same
      | rule lanes_stick_same, simp add: rollback_to_def
      | rule lanes_stick_same, simp add: same_task_tables_def
      | rule other_tables_mono [OF others.keeps_halt], rule lanes_stick_same, simp add: other_tables_def)+

section \<open>The hooks\<close>

lemma wp_select_one_cases:
  assumes "\<And>fs. Q (Inl DbError) (s\<lparr>faults := fs\<rparr>)"
    and "\<And>fs. Q (case f (s\<lparr>faults := fs\<rparr>) of None \<Rightarrow> Inl NoRows | Some r \<Rightarrow> Inr r) (s\<lparr>faults := fs\<rparr>)"
  shows "wp (select_one f) Q s"
  unfolding select_one_def by (rule wp_dbI) (use assms in auto)

lemma wp_adapter_GetTaskLane:
  "wp (adapter_GetTaskLane task) (\<lambda>r s'. (\<exists>fs. s' = s\<lparr>faults := fs\<rparr>) \<and> (case r of
      Inl e \<Rightarrow> True | Inr None \<Rightarrow> lane_of s task = None | Inr (Some (lane, category)) \<Rightarrow> lane_of s task = Some lane)) s"
proof -
  have "lane_of s task = map_option fst (map_option (\<lambda>r. (t_lane r, t_secret_category r)) (find (\<lambda>r. t_id r = task) (tasks s)))"
    by (simp add: lane_of_def option.map_comp comp_def)
  then show ?thesis
    unfolding adapter_GetTaskLane_def GetTaskLane_def wp_bind wp_return
    by (intro wp_select_one_cases) (auto split: option.split)
qed

text \<open>A task of the secret lane does not pass the hook, whatever fails.\<close>

theorem backstop_blocks:
  assumes "lane_of s task = Some LaneSecret"
  shows "wp (NewProxyBackstopHook ledger task trace) (\<lambda>r s'. r = Some SecretLaneCloudBlocked) s"
  unfolding NewProxyBackstopHook_def
  apply (rule wp_bind_mono [OF wp_adapter_GetTaskLane])
  using assms by (auto simp: wp_return wp_bind wp_any split: sum.splits option.splits if_splits intro: wp_any)

theorem combined_gate_blocks:
  assumes "lane_of s task = Some LaneSecret"
  shows "wp (combinedEgressGate v g host port task trace n) (\<lambda>r s'. r = Some SecretLaneCloudBlocked) s"
  unfolding combinedEgressGate_def
  by (rule wp_bind_mono [OF backstop_blocks [OF assms]]) (simp add: wp_return)

context store_preorder
begin

lemma keeps_adapter_GetTaskLane [keeps_rules]: "state_io_rel R (adapter_GetTaskLane task)"
  unfolding adapter_GetTaskLane_def by (intro keeps_rules)

lemma keeps_backstop [keeps_rules]: "state_io_rel R (NewProxyBackstopHook ledger task trace)"
  unfolding NewProxyBackstopHook_def logSecretLaneBlocked_def by (intro keeps_rules)

end

section \<open>Escalation\<close>

lemma widened_lane_secret: "fst (widened_lane d LaneSecret category) = LaneSecret"
  "vd_secret d \<Longrightarrow> fst (widened_lane d lane category) = LaneSecret"
  by (auto simp: widened_lane_def Let_def)

text \<open>The first statement on the database succeeds.\<close>

definition lookup_succeeds :: "store \<Rightarrow> bool" where
  "lookup_succeeds s \<longleftrightarrow> (case faults s of [] \<Rightarrow> True | b # _ \<Rightarrow> \<not> b)"

lemma wp_adapter_GetTaskLane_ok:
  assumes "lookup_succeeds s"
  shows "wp (adapter_GetTaskLane task) (\<lambda>r s'. (\<exists>fs. s' = s\<lparr>faults := fs\<rparr>) \<and> (case lane_of s task of
      None \<Rightarrow> r = Inr None | Some lane \<Rightarrow> \<exists>category. r = Inr (Some (lane, category)))) s"
proof -
  have find: "lane_of s task = map_option t_lane (find (\<lambda>r. t_id r = task) (tasks s))" by (simp add: lane_of_def)
  show ?thesis
  proof (cases "faults s")
    case Nil
    have ex: "\<exists>fs. s = s\<lparr>faults := fs\<rparr>" using Nil by (intro exI [of _ "[]"]) simp
    show ?thesis
      unfolding adapter_GetTaskLane_def GetTaskLane_def select_one_def wp_bind wp_return find
      by (simp add: wp_db Nil ex split: option.split)
  next
    case (Cons b bs)
    have ex: "\<exists>fs. s\<lparr>faults := bs\<rparr> = s\<lparr>faults := fs\<rparr>" by blast
    have "\<not> b" using assms Cons by (simp add: lookup_succeeds_def)
    with ex show ?thesis
      unfolding adapter_GetTaskLane_def GetTaskLane_def select_one_def wp_bind wp_return find
      by (simp add: wp_db Cons split: option.split)
  qed
qed

lemma keeps_MarkSensitiveRead_tasks: "state_io_rel same_tasks (MarkSensitiveRead sid trace)"
  unfolding MarkSensitiveRead_def tracker_Mark_def gate_record_def
  by (intro keeps_rules wp_keeps) (auto simp: same_tasks_def wp_State)

text \<open>
  \<open>Escalate\<close> returns the lane it wrote: secret when the text is or when the task was; a task of the
  secret lane stays there when the lookup of its lane succeeds.
\<close>

theorem Escalate_widens:
  assumes "lookup_succeeds s"
  shows "wp (Escalate u v qwen marker task trace txt) (\<lambda>r s'. lanes_stick s s'
    \<and> (case r of Inl e \<Rightarrow> True | Inr (lane, category) \<Rightarrow>
        (vd_secret (fst (Classifier_Classify u v qwen txt)) \<or> lane_of s task = Some LaneSecret \<longrightarrow> lane = LaneSecret)
        \<and> (lane_of s task \<noteq> None \<longrightarrow> lane_of s' task = Some lane))) s"
proof -
  obtain d e where cls: "Classifier_Classify u v qwen txt = (d, e)" by (cases "Classifier_Classify u v qwen txt")
  have mark: "wp (mark_if b sid trace) (\<lambda>_ s'. tasks s' = tasks t) t" for b sid t
    unfolding mark_if_def
    by (auto simp: wp_return wp_bind same_tasks_def intro!: wp_io_rel [OF keeps_MarkSensitiveRead_tasks])
  have setl: "wp (adapter_SetTaskLane task lane category) (\<lambda>r s'. tasks s' = tasks t \<and> (\<exists>x. r = Inl x)
      \<or> (\<exists>c at. tasks s' = update_where (\<lambda>r. t_id r = task)
            (\<lambda>r. r\<lparr>t_lane := lane, t_secret_category := c, t_updated := at\<rparr>) (tasks t) \<and> r = Inr ())) t" for lane category t
    unfolding adapter_SetTaskLane_def rfc3339Now_def SetTaskLane_def
    by (auto simp: wp_bind wp_return wp_now update_task_def intro!: wp_dbI) blast+
  show ?thesis
    unfolding Escalate_def cls prod.case
  proof (rule wp_bind_mono [OF wp_adapter_GetTaskLane_ok [OF assms]], elim conjE exE)
    fix r :: "(string \<times> string) option res" and s1 fs
    assume s1: "s1 = s\<lparr>faults := fs\<rparr>"
      and r: "case lane_of s task of None \<Rightarrow> r = Inr None | Some lane \<Rightarrow> \<exists>category. r = Inr (Some (lane, category))"
    define old where "old = (case r of Inr (Some x) \<Rightarrow> x | _ \<Rightarrow> ('''', ''''))"
    define lc where "lc = widened_lane d (fst old) (snd old)"
    have old: "lane_of s task = Some LaneSecret \<Longrightarrow> fst old = LaneSecret"
      using r by (auto simp: old_def)
    have lc: "vd_secret d \<or> lane_of s task = Some LaneSecret \<Longrightarrow> fst lc = LaneSecret"
      using old widened_lane_secret by (auto simp: lc_def)
    have settled: "lanes_stick s s2 \<and> (lane_of s task \<noteq> None \<longrightarrow> lane_of s2 task = Some (fst lc))"
      if "tasks s2 = update_where (\<lambda>r. t_id r = task)
            (\<lambda>r. r\<lparr>t_lane := fst lc, t_secret_category := c, t_updated := at\<rparr>) (tasks s)" for s2 c at
    proof -
      have eq: "lane_of s2 i = (if i = task then map_option (\<lambda>_. fst lc) (lane_of s i) else lane_of s i)" for i
        unfolding lane_of_def that
        by (subst find_update_where) (auto simp: option.map_comp comp_def dest: find_Some_in intro!: option.map_cong)
      show ?thesis using lc by (auto simp: lanes_stick_def eq)
    qed
    have "wp (do { r2 \<leftarrow> adapter_SetTaskLane task (fst lc) (snd lc);
        case r2 of Inl x \<Rightarrow> ret (Inl x)
        | Inr _ \<Rightarrow> do { mark_if (fst lc = LaneSecret \<and> marker) trace trace; ret (Inr (fst lc, snd lc)) } })
      (\<lambda>r s'. lanes_stick s s' \<and> (case r of Inl e \<Rightarrow> True | Inr (lane, category) \<Rightarrow>
        (vd_secret d \<or> lane_of s task = Some LaneSecret \<longrightarrow> lane = LaneSecret)
        \<and> (lane_of s task \<noteq> None \<longrightarrow> lane_of s' task = Some lane))) s1"
    proof (rule wp_bind_mono [OF setl], elim disjE conjE exE)
      fix r2 :: "unit res" and s2 :: store and c at
      assume s2: "tasks s2 = update_where (\<lambda>r. t_id r = task)
          (\<lambda>r. r\<lparr>t_lane := fst lc, t_secret_category := c, t_updated := at\<rparr>) (tasks s1)" and r2: "r2 = Inr ()"
      have d2: "lanes_stick s t \<and> (lane_of s task \<noteq> None \<longrightarrow> lane_of t task = Some (fst lc))"
        if "tasks t = tasks s2" for t :: store
        by (rule settled) (use that s1 s2 in simp)
      show "wp (case r2 of Inl x \<Rightarrow> ret (Inl x)
        | Inr _ \<Rightarrow> do { mark_if (fst lc = LaneSecret \<and> marker) trace trace; ret (Inr (fst lc, snd lc)) })
        (\<lambda>r s'. lanes_stick s s' \<and> (case r of Inl e \<Rightarrow> True | Inr (lane, category) \<Rightarrow>
          (vd_secret d \<or> lane_of s task = Some LaneSecret \<longrightarrow> lane = LaneSecret)
          \<and> (lane_of s task \<noteq> None \<longrightarrow> lane_of s' task = Some lane))) s2"
        unfolding r2 sum.case wp_bind wp_return
        by (rule wp_mono [OF mark]) (use d2 lc in \<open>simp add: split_beta\<close>)
    qed (use s1 in \<open>simp add: wp_return lanes_stick_same\<close>)
    then show "wp (let (old_lane, old_category) = (case r of Inr (Some x) \<Rightarrow> x | _ \<Rightarrow> ('''', ''''));
        (lane, category) = widened_lane d old_lane old_category in do {
          r2 \<leftarrow> adapter_SetTaskLane task lane category;
          case r2 of Inl x \<Rightarrow> ret (Inl x)
          | Inr _ \<Rightarrow> do { mark_if (lane = LaneSecret \<and> marker) trace trace; ret (Inr (lane, category)) } })
      (\<lambda>r s'. lanes_stick s s' \<and> (case r of Inl e \<Rightarrow> True | Inr (lane, category) \<Rightarrow>
        (vd_secret (fst (d, e)) \<or> lane_of s task = Some LaneSecret \<longrightarrow> lane = LaneSecret)
        \<and> (lane_of s task \<noteq> None \<longrightarrow> lane_of s' task = Some lane))) s1"
      by (simp only: Let_def split_beta fst_conv old_def [symmetric] lc_def [symmetric])
  qed
qed

end
