(* ===== verification/Intake_Facts.thy ===== *)
theory Intake_Facts
  imports Task_Intake Secret_Lane_Facts
begin

text \<open>
  What a request to \<open>POST /v1/task\<close> causes: \<open>emits P\<close> says that the effects added are of a kind,
  \<open>answers\<close> counts those that end a response.  A prompt the classifier calls secret causes neither a
  proxy nor a worker, and the task it makes is of the secret lane.
\<close>

section \<open>Effects added\<close>

definition emits :: "(intake_effect \<Rightarrow> bool) \<Rightarrow> intake \<Rightarrow> intake \<Rightarrow> bool" where
  "emits P s s' \<longleftrightarrow> (\<exists>es. ik_out s' = ik_out s @ es \<and> list_all P es)"

interpretation emits: state_preorder "emits P" for P
proof
  fix s t u :: intake
  show "emits P s s" by (simp add: emits_def)
  assume "emits P s t" "emits P t u"
  then show "emits P s u" by (force simp: emits_def)
qed

lemma emits_on_store [keeps_rules]: "state_io_rel (emits P) (on_store m)"
  by (auto simp: state_io_rel_def on_store_def emits_def split: prod.split)

lemma emits_put_out: "list_all P es \<Longrightarrow> state_io_rel (emits P) (put_out es)"
  by (auto simp: state_io_rel_def put_out_def emits_def)

lemma emits_parts [keeps_rules]:
  "state_io_rel (emits P) (ledger_event e trace kind p)" "state_io_rel (emits P) (set_state task st)"
  unfolding ledger_event_def set_state_def by (intro keeps_rules)+

lemma emits_mono: "state_io_rel (emits P) m \<Longrightarrow> (\<And>x. P x \<Longrightarrow> Q x) \<Longrightarrow> state_io_rel (emits Q) m"
  unfolding state_io_rel_def emits_def by (meson list.pred_mono_strong)

lemma wp_on_store [wp_rules]:
  "wp (on_store m) Q s \<longleftrightarrow> wp m (\<lambda>a d. Q a (s\<lparr>ik_store := d\<rparr>)) (ik_store s)"
  by (simp add: wp_def on_store_def split: prod.split)

lemma wp_put_out [wp_rules]: "wp (put_out es) Q s \<longleftrightarrow> Q () (s\<lparr>ik_out := ik_out s @ es\<rparr>)"
  by (simp add: wp_def put_out_def)

lemma wp_bindI_on_store:
  "(\<And>a d. wp (f a) Q (s\<lparr>ik_store := d\<rparr>)) \<Longrightarrow> wp (State_Monad.bind (on_store m) f) Q s"
  by (simp add: wp_bind wp_on_store wp_any)

section \<open>Kinds of effects\<close>

text \<open>Neither a proxy nor a worker.\<close>

fun stays_local :: "intake_effect \<Rightarrow> bool" where
  "stays_local (OpenedProxy c) \<longleftrightarrow> False"
| "stays_local (SpawnedWorker v) \<longleftrightarrow> False"
| "stays_local _ \<longleftrightarrow> True"

text \<open>What ends the response to a request.\<close>

fun ends_response :: "intake_effect \<Rightarrow> bool" where
  "ends_response (Rejected st msg) \<longleftrightarrow> True"
| "ends_response (Streamed (SseResult task sid is_local)) \<longleftrightarrow> True"
| "ends_response (Streamed (SseError m)) \<longleftrightarrow> True"
| "ends_response Panicked \<longleftrightarrow> True"
| "ends_response _ \<longleftrightarrow> False"

lemma local_open_stream [keeps_rules]: "state_io_rel (emits stays_local) (open_stream e opened)"
  unfolding open_stream_def by (intro keeps_rules emits_put_out) simp_all

lemma local_finish [keeps_rules]:
  "state_io_rel (emits stays_local) (finishSecretLaneTask e task trace lane speak r)"
  unfolding finishSecretLaneTask_def maybeSpeak_def by (intro keeps_rules emits_put_out) simp_all

lemma local_handle [keeps_rules]:
  "state_io_rel (emits stays_local) (handleSecretLaneTask e task trace prompt lane speak opened)"
  unfolding handleSecretLaneTask_def by (intro keeps_rules emits_put_out) simp_all

lemma local_insert:
  "en_lane v = LaneSecret \<or> de_local de \<Longrightarrow> state_io_rel (emits stays_local) (insert_and_dispatch e trace task v de speak opened)"
  unfolding insert_and_dispatch_def by (auto intro!: keeps_rules emits_put_out)

definition cleared :: "intake_env \<Rightarrow> string \<Rightarrow> bool" where
  "cleared e prompt \<longleftrightarrow> \<not> vd_secret (ClassifyDeterministic (ie_unicode e) (ie_hosts e) prompt)"

lemma chat_envelope_fields [simp]:
  "en_lane (chat_envelope task trace prompt model ts lane category intent deep) = lane"
  "en_prompt (chat_envelope task trace prompt model ts lane category intent deep) = prompt"
  "en_task_id (chat_envelope task trace prompt model ts lane category intent deep) = task"
  by (simp_all add: chat_envelope_def)

lemma local_classify:
  "\<not> cleared e prompt \<Longrightarrow> state_io_rel (emits stays_local) (classify_and_route e trace task ts prompt deep speak opened)"
  unfolding classify_and_route_def cleared_def Let_def
  by (intro keeps_rules local_insert) simp

lemma local_prompt:
  "\<not> cleared e (fst (detectAndStripDerinPrefix prompt)) \<Longrightarrow>
     state_io_rel (emits stays_local) (handle_prompt e trace rq prompt opened)"
  unfolding handle_prompt_def Let_def split_beta
  by (intro keeps_rules emits_put_out local_classify) simp_all

text \<open>A worker is given the prompt that was cleared, in the normal lane.\<close>

fun worker_cleared :: "intake_env \<Rightarrow> string \<Rightarrow> intake_effect \<Rightarrow> bool" where
  "worker_cleared e prompt (SpawnedWorker v) \<longleftrightarrow> en_prompt v = prompt \<and> en_lane v = LaneNormal \<and> cleared e prompt"
| "worker_cleared e prompt (OpenedProxy c) \<longleftrightarrow> cleared e prompt"
| "worker_cleared e prompt _ \<longleftrightarrow> True"

lemma local_worker_cleared: "stays_local x \<Longrightarrow> worker_cleared e prompt x"
  by (cases x) auto

lemma cleared_prompt:
  "state_io_rel (emits (worker_cleared e (fst (detectAndStripDerinPrefix prompt)))) (handle_prompt e trace rq prompt opened)"
proof (cases "cleared e (fst (detectAndStripDerinPrefix prompt))")
  case False
  show ?thesis by (rule emits_mono [OF local_prompt [OF False]]) (rule local_worker_cleared)
next
  case True
  let ?P = "worker_cleared e (fst (detectAndStripDerinPrefix prompt))"
  have step: "state_io_rel (emits ?P) (worker_step e t i ev acc)" for t i ev acc
    unfolding worker_step_def by (cases ev) (auto intro!: keeps_rules emits_put_out)
  have cloud: "state_io_rel (emits ?P) (handle_cloud e t i v de speak opened)"
    if "en_prompt v = fst (detectAndStripDerinPrefix prompt)" "en_lane v = LaneNormal" for t i v de speak
    unfolding handle_cloud_def NewTaskProxy_def run_worker_def maybeSpeak_def Let_def
    by (auto intro!: keeps_rules emits_put_out step emits_mono [OF local_open_stream] local_worker_cleared
        simp: True that split: sse_event.split bool.split)
  have insert: "state_io_rel (emits ?P) (insert_and_dispatch e t i v de speak opened)"
    if "en_prompt v = fst (detectAndStripDerinPrefix prompt)" "en_lane v \<in> {LaneNormal, LaneSecret}" for t i v de speak
    unfolding insert_and_dispatch_def
    using that by (auto intro!: keeps_rules emits_put_out cloud emits_mono [OF local_handle] local_worker_cleared)
  show ?thesis
    unfolding handle_prompt_def classify_and_route_def Let_def split_beta
    by (intro keeps_rules emits_put_out insert) simp_all
qed

section \<open>What was asked\<close>

definition spoken :: "worker_event list \<Rightarrow> string" where
  "spoken evs = concat (map (\<lambda>ev. case ev of WorkerDelta d \<Rightarrow> d | _ \<Rightarrow> '''') evs)"

definition stt_runs :: "intake_effect list \<Rightarrow> envelope list" where
  "stt_runs es = List.map_filter (\<lambda>x. case x of SpawnedSTT v \<Rightarrow> Some v | _ \<Rightarrow> None) es"

text \<open>The prompt of a request: what was typed, or what was transcribed.\<close>

definition asked :: "intake_env \<Rightarrow> task_request \<Rightarrow> intake_effect list \<Rightarrow> string option" where
  "asked e rq es =
     (if trim_space (tq_audio rq) = '''' then Some (tq_prompt rq)
      else case stt_runs es of [] \<Rightarrow> None | v # _ \<Rightarrow> Some (spoken (fst (ie_run e v))))"

lemma wp_stt_steps:
  "wp (for_each evs stt_step acc) (\<lambda>r s'. r = acc @ spoken evs \<and> ik_out s' = ik_out s) s"
proof (induction evs arbitrary: acc s)
  case (Cons ev evs)
  have "wp (stt_step ev acc) (\<lambda>r s'. r = acc @ spoken [ev] \<and> ik_out s' = ik_out s) s"
    by (cases ev) (simp_all add: stt_step_def spoken_def wp_return wp_bind wp_on_store wp_State)
  then show ?case
    unfolding for_each.simps
    by (rule wp_bind_mono) (use wp_mono [OF Cons] in \<open>fastforce simp: spoken_def\<close>)
qed (simp add: wp_return spoken_def)

lemma wp_transcribe:
  "wp (transcribeAudioLocally e trace path) (\<lambda>r s'. (r = Inl None \<or> (\<exists>m. r = Inl (Some m))) \<and> emits stays_local s s'
     \<or> (\<exists>v. r = Inr (spoken (fst (ie_run e v))) \<and> ik_out s' = ik_out s @ [SpawnedSTT v])) s"
proof -
  have inner: "wp (do { put_out [SpawnedSTT v]; acc \<leftarrow> for_each (fst (ie_run e v)) stt_step '''';
      ret (case snd (ie_run e v) of None \<Rightarrow> Inl (Some MsgSttNotStarted)
         | Some oc \<Rightarrow> if ro_status oc \<noteq> RunOK
             then Inl (Some (if trim_space (ro_err_msg oc) = '''' then MsgSttUnexpected trace else MsgOfWorker (ro_err_msg oc)))
             else Inr acc) })
    (\<lambda>r s'. (r = Inl None \<or> (\<exists>m. r = Inl (Some m))) \<and> emits stays_local s s'
     \<or> (\<exists>v. r = Inr (spoken (fst (ie_run e v))) \<and> ik_out s' = ik_out s @ [SpawnedSTT v])) t"
    if "ik_out t = ik_out s" for v t
    unfolding wp_bind wp_put_out wp_return
    by (rule wp_mono [OF wp_stt_steps]) (auto simp: that emits_def split: option.split)
  show ?thesis
    unfolding transcribeAudioLocally_def
    by (intro wp_bindI_on_store)
       (auto simp: wp_return Let_def emits_def split: sum.split intro!: wp_bindI_on_store inner [unfolded emits_def])
qed

abbreviation bare :: "string \<Rightarrow> string" where
  "bare prompt \<equiv> fst (detectAndStripDerinPrefix prompt)"

definition only_cleared :: "intake_env \<Rightarrow> task_request \<Rightarrow> intake_effect list \<Rightarrow> bool" where
  "only_cleared e rq es \<longleftrightarrow> (\<forall>x \<in> set es. stays_local x
     \<or> (\<exists>p. asked e rq es = Some p \<and> cleared e (bare p) \<and> worker_cleared e (bare p) x))"

lemma only_clearedI: "list_all stays_local es \<Longrightarrow> only_cleared e rq es"
  by (simp add: only_cleared_def list_all_iff)

lemma wp_handle_request:
  "wp (handle_request e header rq) (\<lambda>_ s'. \<exists>es. ik_out s' = ik_out s @ es \<and> only_cleared e rq es) s"
proof -
  have after: "\<exists>es. ik_out t' = ik_out s @ es \<and> only_cleared e rq es"
    if em: "emits (worker_cleared e (bare p)) t t'" and out: "ik_out t = ik_out s @ xs"
      and loc: "list_all stays_local xs" and say: "\<And>ys. asked e rq (xs @ ys) = Some p" for t t' xs p
  proof -
    obtain ys where ys: "ik_out t' = ik_out t @ ys" "list_all (worker_cleared e (bare p)) ys"
      using em by (auto simp: emits_def)
    have "only_cleared e rq (xs @ ys)"
      unfolding only_cleared_def say
    proof
      fix x assume "x \<in> set (xs @ ys)"
      with loc ys(2) have "stays_local x \<or> worker_cleared e (bare p) x" by (auto simp: list_all_iff)
      then show "stays_local x \<or> (\<exists>q. Some p = Some q \<and> cleared e (bare q) \<and> worker_cleared e (bare q) x)"
        by (cases x) auto
    qed
    with ys out show ?thesis by simp
  qed
  have local: "\<exists>es. ik_out t = ik_out s @ es \<and> only_cleared e rq es" if "emits stays_local s t" for t
    using that by (auto simp: emits_def intro: only_clearedI)
  show ?thesis
  proof (cases "trim_space (tq_audio rq) = ''''")
    case True
    then show ?thesis
      unfolding handle_request_def Let_def
      by (auto intro!: wp_io_rel [OF cleared_prompt] after [where xs = "[]"] simp: asked_def)
  next
    case audio: False
    let ?Q = "\<lambda>_ s'. \<exists>es. ik_out s' = ik_out s @ es \<and> only_cleared e rq es"
    define trace where "trace = (if tq_trace rq = '''' then header else tq_trace rq)"
    have rest: "wp (do { r \<leftarrow> transcribeAudioLocally e trace (tq_audio rq);
        case r of Inl None \<Rightarrow> put_out [Panicked] | Inl (Some m) \<Rightarrow> put_out [Streamed (SseError m)]
        | Inr transcript \<Rightarrow> handle_prompt e trace rq transcript True }) ?Q (s\<lparr>ik_out := ik_out s @ [StreamOpened]\<rparr>)"
    proof (rule wp_bind_mono [OF wp_transcribe], elim disjE conjE exE)
      fix r :: "intake_message option + string" and t :: intake and v
      assume r: "r = Inr (spoken (fst (ie_run e v)))"
        and t: "ik_out t = ik_out (s\<lparr>ik_out := ik_out s @ [StreamOpened]\<rparr>) @ [SpawnedSTT v]"
      show "wp (case r of Inl None \<Rightarrow> put_out [Panicked] | Inl (Some m) \<Rightarrow> put_out [Streamed (SseError m)]
        | Inr transcript \<Rightarrow> handle_prompt e trace rq transcript True) ?Q t"
        unfolding r sum.case
        by (rule wp_io_rel [OF cleared_prompt], rule after [where xs = "[StreamOpened, SpawnedSTT v]"])
           (use t audio in \<open>auto simp: asked_def stt_runs_def List.map_filter_simps\<close>)
    qed (auto simp: wp_put_out emits_def intro!: only_clearedI)
    show ?thesis
      unfolding handle_request_def trace_def [symmetric] Let_def if_not_P [OF audio]
      using rest by (auto simp: wp_put_out wp_bind wp_return open_stream_def intro!: only_clearedI exI)
  qed
qed

section \<open>One answer per request\<close>

fun sse_ends :: "sse_event \<Rightarrow> bool" where
  "sse_ends (SseResult task sid is_local) \<longleftrightarrow> True"
| "sse_ends (SseError m) \<longleftrightarrow> True"
| "sse_ends _ \<longleftrightarrow> False"

fun is_response :: "intake_effect \<Rightarrow> bool" where
  "is_response (Rejected st msg) \<longleftrightarrow> True"
| "is_response StreamOpened \<longleftrightarrow> True"
| "is_response (Streamed ev) \<longleftrightarrow> True"
| "is_response Panicked \<longleftrightarrow> True"
| "is_response _ \<longleftrightarrow> False"

definition response :: "intake_effect list \<Rightarrow> intake_effect list" where
  "response es = filter is_response es"

text \<open>A refusal, a crash, or a stream whose last event, and no other, ends it.\<close>

definition ended_stream :: "intake_effect list \<Rightarrow> bool" where
  "ended_stream r \<longleftrightarrow> (\<exists>evs ev. r = map Streamed (evs @ [ev]) \<and> (\<forall>x \<in> set evs. \<not> sse_ends x) \<and> sse_ends ev)"

definition complete :: "intake_effect list \<Rightarrow> bool" where
  "complete r \<longleftrightarrow> (\<exists>st msg. r = [Rejected st msg]) \<or> r = [Panicked] \<or> (\<exists>r'. r = StreamOpened # r' \<and> ended_stream r')"

definition responds :: "(intake_effect list \<Rightarrow> bool) \<Rightarrow> intake \<Rightarrow> intake \<Rightarrow> bool" where
  "responds P s s' \<longleftrightarrow> (\<exists>es. ik_out s' = ik_out s @ es \<and> P (response es))"

abbreviation silent :: "intake \<Rightarrow> intake \<Rightarrow> bool" where
  "silent \<equiv> emits (\<lambda>x. \<not> is_response x)"

definition running_stream :: "intake_effect list \<Rightarrow> bool" where
  "running_stream r \<longleftrightarrow> (\<exists>evs. r = map Streamed evs \<and> (\<forall>x \<in> set evs. \<not> sse_ends x))"

lemma response_simps [simp]:
  "response [] = []" "response (x # es) = (if is_response x then x # response es else response es)"
  "response (xs @ ys) = response xs @ response ys"
  by (simp_all add: response_def)

lemma silent_response: "list_all (\<lambda>x. \<not> is_response x) es \<Longrightarrow> response es = []"
  by (induction es) auto

lemma running_stream_append: "running_stream a \<Longrightarrow> running_stream b \<Longrightarrow> running_stream (a @ b)"
  unfolding running_stream_def by (metis UnE map_append set_append)

lemma running_then_ended: "running_stream a \<Longrightarrow> ended_stream b \<Longrightarrow> ended_stream (a @ b)"
  unfolding running_stream_def ended_stream_def
  by (elim exE conjE) (rule_tac x = "evs @ evsa" in exI, auto)

interpretation streaming: state_preorder "responds running_stream"
proof
  show "responds running_stream s s" for s :: intake
    by (simp add: responds_def running_stream_def)
  show "responds running_stream s u" if "responds running_stream s t" "responds running_stream t u" for s t u :: intake
    using that unfolding responds_def
    by (metis append_assoc response_simps(3) running_stream_append)
qed

lemma rel_bind:
  "state_io_rel R m \<Longrightarrow> (\<And>a. state_io_rel S (f a)) \<Longrightarrow> (\<And>s t u. R s t \<Longrightarrow> S t u \<Longrightarrow> T s u)
    \<Longrightarrow> state_io_rel T (State_Monad.bind m f)"
  by (fastforce simp: state_io_rel_def split_beta)

lemma silent_responds: "silent s t \<Longrightarrow> responds P t u \<Longrightarrow> responds P s u"
  "responds P s t \<Longrightarrow> silent t u \<Longrightarrow> responds P s u"
  unfolding emits_def responds_def by (metis append_assoc append_Nil append_Nil2 response_simps(3) silent_response)+

lemma silent_bind: "state_io_rel silent m \<Longrightarrow> (\<And>a. state_io_rel (responds P) (f a)) \<Longrightarrow>
    state_io_rel (responds P) (State_Monad.bind m f)"
  by (rule rel_bind [where R = silent and S = "responds P"]) (assumption, blast, erule (1) silent_responds(1))

lemma bind_silent: "state_io_rel (responds P) m \<Longrightarrow> (\<And>a. state_io_rel silent (f a)) \<Longrightarrow>
    state_io_rel (responds P) (State_Monad.bind m f)"
  by (rule rel_bind [where R = "responds P" and S = silent]) (assumption, blast, erule (1) silent_responds(2))

lemma running_then_responds:
  assumes "responds running_stream s t" and "responds ended_stream t u"
  shows "responds ended_stream s u"
proof -
  obtain xs ys where "ik_out t = ik_out s @ xs" "running_stream (response xs)"
    "ik_out u = ik_out t @ ys" "ended_stream (response ys)"
    using assms by (auto simp: responds_def)
  then show ?thesis by (auto simp: responds_def intro!: running_then_ended)
qed

lemma running_bind: "state_io_rel (responds running_stream) m \<Longrightarrow> (\<And>a. state_io_rel (responds ended_stream) (f a)) \<Longrightarrow>
    state_io_rel (responds ended_stream) (State_Monad.bind m f)"
  by (rule rel_bind [where R = "responds running_stream" and S = "responds ended_stream"])
     (assumption, blast, erule (1) running_then_responds)

lemma responds_put_out: "P (response es) \<Longrightarrow> state_io_rel (responds P) (put_out es)"
  by (auto simp: state_io_rel_def put_out_def responds_def)

lemma silent_running: "state_io_rel silent m \<Longrightarrow> state_io_rel (responds running_stream) m"
  unfolding state_io_rel_def responds_def emits_def
  by (metis list.set(1) list.simps(8) running_stream_def silent_response empty_iff)

lemma responds_cases:
  "(\<And>e. state_io_rel R (f e)) \<Longrightarrow> (\<And>x. state_io_rel R (g x)) \<Longrightarrow>
     state_io_rel R (case r of Inl e \<Rightarrow> f e | Inr x \<Rightarrow> g x)"
  "state_io_rel R m \<Longrightarrow> (\<And>x. state_io_rel R (k x)) \<Longrightarrow> state_io_rel R (case q of None \<Rightarrow> m | Some x \<Rightarrow> k x)"
  "state_io_rel R m1 \<Longrightarrow> state_io_rel R m2 \<Longrightarrow> state_io_rel R (if b then m1 else m2)"
  by (auto split: sum.split option.split)

lemma silent_maybeSpeak [keeps_rules]: "state_io_rel silent (maybeSpeak e lane force txt)"
  unfolding maybeSpeak_def by (intro keeps_rules emits_put_out) simp

lemma ended_finish: "state_io_rel (responds ended_stream) (finishSecretLaneTask e task trace lane speak r)"
  unfolding finishSecretLaneTask_def
  by (intro responds_cases silent_bind bind_silent keeps_rules responds_put_out)
     (auto simp: ended_stream_def intro: exI [of _ "[]"] exI [of _ "[x]" for x])

lemma running_worker_step: "state_io_rel (responds running_stream) (worker_step e trace task ev acc)"
proof (cases ev)
  case (WorkerDelta d)
  show ?thesis
    unfolding WorkerDelta worker_step_def worker_event.case
    by (intro streaming.keeps_bind streaming.keeps_return streaming.keeps_if silent_running [OF emits_parts(1)]
        responds_put_out) (auto simp: running_stream_def intro: exI [of _ "[SseText d]"])
qed (auto simp: worker_step_def intro!: silent_running keeps_rules emits_put_out)

lemma ended_run_worker: "state_io_rel (responds ended_stream) (run_worker e trace task v speak)"
proof -
  have "ended_stream [Streamed (om_event (mapTaskOutcome r trace task k))]" for r k
    unfolding ended_stream_def mapTaskOutcome_def
    by (rule exI [of _ "[]"]) (auto split: option.split run_status.split)
  then show ?thesis
    unfolding run_worker_def Let_def
    by (intro silent_bind [OF emits_put_out] running_bind [OF streaming.keeps_for_each [OF running_worker_step]]
        silent_bind [OF emits_parts(1)] silent_bind [OF emits_parts(2)] silent_bind [OF emits_on_store]
        bind_silent [OF responds_put_out])
       (auto intro!: keeps_rules emits_put_out split: sse_event.split)
qed

text \<open>With the stream opened here or before: refused, or ended.\<close>

lemma complete_open:
  assumes "state_io_rel (responds ended_stream) m"
  shows "state_io_rel (responds complete) (do { ok \<leftarrow> open_stream e False; if \<not> ok then ret () else m })"
proof -
  have "wp (do { ok \<leftarrow> open_stream e False; if \<not> ok then ret () else m }) (\<lambda>_ s'. responds complete s s') s" for s
  proof (cases "ie_flusher e")
    case True
    have "responds complete s s'" if "responds ended_stream (s\<lparr>ik_out := ik_out s @ [StreamOpened]\<rparr>) s'" for s'
      using that by (auto simp: responds_def complete_def)
    with True show ?thesis
      by (auto simp: open_stream_def wp_bind wp_put_out wp_return intro!: wp_io_rel [OF assms])
  qed (auto simp: open_stream_def wp_bind wp_put_out wp_return responds_def complete_def)
  then show ?thesis by (rule wp_keeps)
qed

lemma complete_secret: "state_io_rel (responds complete) (handleSecretLaneTask e task trace prompt lane speak False)"
  unfolding handleSecretLaneTask_def
  by (intro complete_open responds_cases silent_bind [OF emits_put_out] ended_finish) simp

lemma silent_NewTaskProxy: "state_io_rel silent (NewTaskProxy e task trace)"
  unfolding NewTaskProxy_def by (intro keeps_rules emits_put_out) simp

lemma silent_start: "state_io_rel silent (case ie_machine e of None \<Rightarrow> ret ()
      | Some m \<Rightarrow> on_store (do { _ \<leftarrow> Transition m trace task StatusExecuting; ret () }))"
  by (intro keeps_rules)

lemma ended_worker_stream: "state_io_rel (responds ended_stream) (do {
    (if de_derin_during_downgrade de then do {
       ledger_event e trace ''derin_during_downgrade'' [(''task_id'', JStr task)];
       put_out [Streamed (SseWarning MsgDerinDuringDowngrade)]
     } else ret ());
    run_worker e trace task v speak
  })"
  by (intro running_bind ended_run_worker streaming.keeps_if streaming.keeps_bind streaming.keeps_return
      silent_running [OF emits_parts(1)] responds_put_out)
     (auto simp: running_stream_def intro: exI [of _ "[SseWarning MsgDerinDuringDowngrade]"])

lemma complete_refused: "state_io_rel (responds complete) (put_out [Panicked])"
  "state_io_rel (responds complete) (put_out [Rejected st msg])"
  by (auto intro!: responds_put_out simp: complete_def)

lemma complete_cloud: "state_io_rel (responds complete) (handle_cloud e trace task v de speak False)"
proof -
  have served: "state_io_rel (responds complete) (do {
         ok \<leftarrow> open_stream e False;
         (if \<not> ok then ret ()
          else do {
            (if de_derin_during_downgrade de then do {
               ledger_event e trace ''derin_during_downgrade'' [(''task_id'', JStr task)];
               put_out [Streamed (SseWarning MsgDerinDuringDowngrade)]
             } else ret ());
            run_worker e trace task v speak
          });
         put_out [ClosedProxy]
       })"
    unfolding bind_assoc [symmetric]
    by (intro bind_silent complete_open ended_worker_stream emits_put_out) simp
  show ?thesis
    unfolding handle_cloud_def
    by (intro silent_bind silent_start silent_NewTaskProxy responds_cases served)
       (auto simp: complete_refused split: bool.split)
qed

lemma complete_prompt: "state_io_rel (responds complete) (handle_prompt e trace rq prompt False)"
  unfolding handle_prompt_def classify_and_route_def insert_and_dispatch_def Let_def split_beta
  by (intro silent_bind responds_cases complete_secret complete_cloud complete_refused keeps_rules)

text \<open>
  With a stream that is open already a refusal may follow it as plain JSON: one answer all the same,
  and nothing after it.
\<close>

definition answered_once :: "intake_effect list \<Rightarrow> bool" where
  "answered_once r \<longleftrightarrow> (\<exists>r' x. r = r' @ [x] \<and> ends_response x \<and> (\<forall>y \<in> set r'. \<not> ends_response y))"

lemma ends_streamed [simp]: "ends_response (Streamed ev) = sse_ends ev"
  by (cases ev) auto

lemma ended_answered: "ended_stream r \<Longrightarrow> answered_once r"
  unfolding ended_stream_def answered_once_def
  by (elim exE conjE, rule_tac x = "map Streamed evs" in exI, rule_tac x = "Streamed ev" in exI) auto

lemma complete_answered: "complete r \<Longrightarrow> answered_once r"
proof -
  have opened: "answered_once (StreamOpened # r')" if "answered_once r'" for r'
    using that unfolding answered_once_def by (elim exE conjE, rule_tac x = "StreamOpened # r'a" in exI) auto
  have single: "answered_once [x]" if "ends_response x" for x
    using that unfolding answered_once_def by (intro exI [of _ "[]"]) simp
  show "complete r \<Longrightarrow> answered_once r"
    by (auto simp: complete_def intro!: opened single intro: ended_answered)
qed

lemma responds_mono: "state_io_rel (responds P) m \<Longrightarrow> (\<And>r. P r \<Longrightarrow> Q r) \<Longrightarrow> state_io_rel (responds Q) m"
  unfolding state_io_rel_def responds_def by meson

lemma once_put_out: "is_response x \<Longrightarrow> ends_response x \<Longrightarrow> state_io_rel (responds answered_once) (put_out [x])"
  by (rule responds_put_out) (auto simp: answered_once_def)

lemma open_stream_opened: "open_stream e True = ret True"
  by (simp add: open_stream_def)

lemma bind_ret: "State_Monad.bind (ret x) f = f x"
  by (simp add: State_Monad.bind_def State_Monad.return_def)

lemma once_opened_local: "state_io_rel (responds answered_once) (handleSecretLaneTask e task trace prompt lane speak True)"
  unfolding handleSecretLaneTask_def open_stream_opened bind_ret
  by (auto intro!: silent_bind emits_put_out responds_mono [OF ended_finish] ended_answered split: option.split)

lemma once_opened_cloud: "state_io_rel (responds answered_once) (handle_cloud e trace task v de speak True)"
proof -
  have served: "state_io_rel (responds answered_once) (do {
         (do {
            (if de_derin_during_downgrade de then do {
               ledger_event e trace ''derin_during_downgrade'' [(''task_id'', JStr task)];
               put_out [Streamed (SseWarning MsgDerinDuringDowngrade)]
             } else ret ());
            run_worker e trace task v speak
          });
         put_out [ClosedProxy]
       })"
    by (rule bind_silent [OF responds_mono [OF ended_worker_stream ended_answered] emits_put_out]) simp_all
  have refused: "state_io_rel (responds answered_once) (case b of True \<Rightarrow> put_out [Panicked]
      | False \<Rightarrow> put_out [if True then Streamed (SseError m) else Rejected st msg])" for b m st msg
    by (cases b) (simp_all add: once_put_out)
  show ?thesis
    unfolding handle_cloud_def open_stream_opened bind_ret not_True_eq_False if_False
    by (rule silent_bind [OF silent_start], rule silent_bind [OF silent_NewTaskProxy],
        rule responds_cases(1), rule refused, rule served)
qed

lemma once_opened_prompt: "state_io_rel (responds answered_once) (handle_prompt e trace rq prompt True)"
  unfolding handle_prompt_def classify_and_route_def insert_and_dispatch_def Let_def split_beta
  by (intro silent_bind responds_cases once_opened_local once_opened_cloud once_put_out keeps_rules) simp_all

lemma silent_transcribe: "state_io_rel silent (transcribeAudioLocally e trace path)"
proof -
  have step: "state_io_rel silent (stt_step ev acc)" for ev acc
    unfolding stt_step_def by (cases ev) (auto intro!: keeps_rules)
  show ?thesis
    unfolding transcribeAudioLocally_def Let_def by (intro keeps_rules emits_put_out step) simp_all
qed

lemma once_request:
  "state_io_rel (responds (\<lambda>r. answered_once r \<and> (trim_space (tq_audio rq) = '''' \<longrightarrow> complete r))) (handle_request e header rq)"
proof (cases "trim_space (tq_audio rq) = ''''")
  case True
  then show ?thesis
    unfolding handle_request_def Let_def
    by (simp add: responds_mono [OF complete_prompt] complete_answered)
next
  case audio: False
  define trace where "trace = (if tq_trace rq = '''' then header else tq_trace rq)"
  have rest: "state_io_rel (responds answered_once) (do { r \<leftarrow> transcribeAudioLocally e trace (tq_audio rq);
      case r of Inl None \<Rightarrow> put_out [Panicked] | Inl (Some m) \<Rightarrow> put_out [Streamed (SseError m)]
      | Inr transcript \<Rightarrow> handle_prompt e trace rq transcript True })" (is "state_io_rel _ ?rest")
    by (intro silent_bind silent_transcribe responds_cases once_opened_prompt once_put_out) simp_all
  have "wp (do { ok \<leftarrow> open_stream e False; if \<not> ok then ret () else ?rest }) (\<lambda>_ s'. responds answered_once s s') s" for s
  proof (cases "ie_flusher e")
    case True
    have more: "responds answered_once s s'" if run: "responds answered_once (s\<lparr>ik_out := ik_out s @ [StreamOpened]\<rparr>) s'" for s'
    proof -
      obtain es where "ik_out s' = ik_out (s\<lparr>ik_out := ik_out s @ [StreamOpened]\<rparr>) @ es" "answered_once (response es)"
        using run unfolding responds_def by blast
      moreover then obtain r x where "response es = r @ [x]" "ends_response x" "\<forall>y \<in> set r. \<not> ends_response y"
        by (auto simp: answered_once_def)
      ultimately show ?thesis
        unfolding responds_def answered_once_def
        by (intro exI [of _ "StreamOpened # es"] conjI exI [of _ "StreamOpened # r"] exI [of _ x]) auto
    qed
    have "wp ?rest (\<lambda>_ s'. responds answered_once s s') (s\<lparr>ik_out := ik_out s @ [StreamOpened]\<rparr>)"
      by (rule wp_io_rel [OF rest]) (rule more)
    with True show ?thesis by (simp add: open_stream_def wp_bind wp_put_out wp_return)
  next
    case False
    have "responds answered_once s (s\<lparr>ik_out := ik_out s @ [Rejected st msg]\<rparr>)" for st msg
      unfolding responds_def answered_once_def
      by (rule exI [of _ "[Rejected st msg]"]) (auto intro: exI [of _ "[]"])
    with False show ?thesis by (simp add: open_stream_def wp_bind wp_put_out wp_return)
  qed
  then have "state_io_rel (responds answered_once) (do { ok \<leftarrow> open_stream e False; if \<not> ok then ret () else ?rest })"
    by (rule wp_keeps)
  then have "state_io_rel (responds answered_once) (handle_request e header rq)"
    unfolding handle_request_def trace_def [symmetric] Let_def if_not_P [OF audio]
    by (intro responds_cases once_put_out) simp_all
  with audio show ?thesis by simp
qed

lemma once_task:
  "state_io_rel (responds (\<lambda>r. answered_once r
     \<and> (\<forall>rq. body = Body rq \<longrightarrow> trim_space (tq_audio rq) = '''' \<longrightarrow> complete r))) (handleTask e header body)"
  (is "state_io_rel (responds ?P) _")
proof -
  have refused: "state_io_rel (responds P) (put_out [Rejected st msg])" if "\<And>r. complete r \<Longrightarrow> P r" for P st msg
    by (rule responds_mono [OF complete_refused(2)]) (rule that)
  have "state_io_rel (responds ?P) (case body of
        BodyTooLarge \<Rightarrow> put_out [Rejected 413 ''invalid request body'']
      | BodyInvalid \<Rightarrow> put_out [Rejected 400 ''invalid request body'']
      | Body rq \<Rightarrow> handle_request e header rq)"
  proof (cases body)
    case (Body rq)
    show ?thesis unfolding Body task_body.case by (rule responds_mono [OF once_request]) auto
  qed (simp_all add: refused complete_answered)
  then show ?thesis
    unfolding handleTask_def by (intro responds_cases refused) (simp_all add: complete_answered)
qed

section \<open>The lane of the task made\<close>

text \<open>Tasks of the secret lane stay there, and new ones are of it.\<close>

definition only_secret_new :: "store \<Rightarrow> store \<Rightarrow> bool" where
  "only_secret_new s s' \<longleftrightarrow> lanes_stick s s' \<and> (\<forall>i l. lane_of s i = None \<longrightarrow> lane_of s' i = Some l \<longrightarrow> l = LaneSecret)"

lemma only_secret_new_same: "tasks s' = tasks s \<Longrightarrow> only_secret_new s s'"
  by (simp add: only_secret_new_def lanes_stick_same) (simp add: lane_of_def)

interpretation secret_new: store_preorder only_secret_new
proof
  show "only_secret_new s u" if "only_secret_new s t" "only_secret_new t u" for s t u :: store
    unfolding only_secret_new_def
  proof (intro conjI allI impI)
    show "lanes_stick s u" using that lanes.R_trans by (auto simp: only_secret_new_def)
    fix i l assume "lane_of s i = None" "lane_of u i = Some l"
    with that show "l = LaneSecret"
      by (cases "lane_of t i") (auto simp: only_secret_new_def lanes_stick_def)
  qed
qed (simp_all add: only_secret_new_same)

lemma secret_new_same_tasks: "state_io_rel same_tasks m \<Longrightarrow> state_io_rel only_secret_new m"
  by (auto simp: state_io_rel_def same_tasks_def split_beta intro: only_secret_new_same)

lemma secret_new_statements:
  "state_io_rel only_secret_new (UpdateTaskState st ts i)"
  "t_lane row = LaneSecret \<Longrightarrow> state_io_rel only_secret_new (InsertTask row)"
proof -
  have none: "lane_of (s\<lparr>tasks := update_where p f (tasks s)\<rparr>) i = None"
    if "lane_of s i = None" "\<And>r. t_id (f r) = t_id r" for s p f i
    using that by (simp add: lane_of_def find_update_where)
  show "state_io_rel only_secret_new (UpdateTaskState st ts i)"
    unfolding UpdateTaskState_def update_task_def
    by (rule secret_new.keeps_db) (auto simp: only_secret_new_def none intro!: lanes_stick_update)
  show "t_lane row = LaneSecret \<Longrightarrow> state_io_rel only_secret_new (InsertTask row)"
    unfolding InsertTask_def
    by (rule secret_new.keeps_db) (auto simp: only_secret_new_def lanes_stick_def lane_of_def find_append
        split: if_splits option.splits)
qed

definition intake_secret_new :: "intake \<Rightarrow> intake \<Rightarrow> bool" where
  "intake_secret_new s s' \<longleftrightarrow> only_secret_new (ik_store s) (ik_store s')"

interpretation made_secret: state_preorder intake_secret_new
  by unfold_locales (auto simp: intake_secret_new_def secret_new.R_refl intro: secret_new.R_trans)

lemma intake_on_store: "state_io_rel only_secret_new m \<Longrightarrow> state_io_rel intake_secret_new (on_store m)"
  by (simp add: state_io_rel_def on_store_def intake_secret_new_def split_beta)

lemma intake_put_out [keeps_rules]: "state_io_rel intake_secret_new (put_out es)"
  by (simp add: state_io_rel_def put_out_def intake_secret_new_def secret_new.R_refl)

lemma made_secret_ledger [keeps_rules]: "state_io_rel intake_secret_new (ledger_event e trace kind p)"
  "state_io_rel intake_secret_new (set_state task st)"
  unfolding ledger_event_def set_state_def rfc3339Now_def
  by (intro intake_on_store keeps_rules secret_new_statements)+

lemma made_secret_local [keeps_rules]:
  "state_io_rel intake_secret_new (handleSecretLaneTask e task trace prompt lane speak opened)"
  unfolding handleSecretLaneTask_def finishSecretLaneTask_def maybeSpeak_def open_stream_def
  by (intro keeps_rules)

lemma made_secret_insert:
  "en_lane v = LaneSecret \<Longrightarrow> state_io_rel intake_secret_new (insert_and_dispatch e trace task v de speak opened)"
  unfolding insert_and_dispatch_def
  by (auto intro!: keeps_rules intake_on_store secret_new_statements simp: chat_row_def)

lemma made_secret_prompt:
  assumes "\<not> cleared e (bare prompt)"
  shows "state_io_rel intake_secret_new (handle_prompt e trace rq prompt opened)"
proof -
  have mark: "state_io_rel intake_secret_new (on_store (mark_if b sid tr))" for b sid tr
    unfolding mark_if_def
    by (intro intake_on_store keeps_rules secret_new_same_tasks [OF keeps_MarkSensitiveRead_tasks])
  have logs: "state_io_rel intake_secret_new (on_store (LogIntentClassified b tr it))"
    "state_io_rel intake_secret_new (on_store (LogRoutingDecision b tr ri de))" for b tr it ri de
    unfolding LogIntentClassified_def LogRoutingDecision_def by (intro intake_on_store keeps_rules)+
  have "state_io_rel intake_secret_new (classify_and_route e trace task ts (bare prompt) deep speak opened)"
    for task ts deep speak
    unfolding classify_and_route_def Let_def
    by (intro keeps_rules mark logs intake_on_store made_secret_insert) (use assms in \<open>simp add: cleared_def\<close>)
  then show ?thesis
    unfolding handle_prompt_def Let_def split_beta NewTaskID_def rfc3339Now_def
    by (intro keeps_rules intake_on_store)
qed

end
