(* ===== verification/Intake_Props.thy ===== *)
theory Intake_Props
  imports Intake_Facts Task_Props Cloud_Props Egress_Props
begin

text \<open>
  The properties of task intake and of the secret lane, each with a witness, and what the classifier
  and its users do not do.  The witnesses send a prompt with an identity number to a daemon whose
  database is empty.
\<close>

section \<open>A daemon and two prompts\<close>

definition demo_intake :: intake_env where
  "demo_intake = \<lparr>ie_task_store = True, ie_governor = Some (NewGovernor plain_limits), ie_ledger = False,
     ie_marker = False, ie_answerer = Some (\<lambda>_. Inr ''ok''), ie_machine = None, ie_durability = True,
     ie_registry = True, ie_taint_db = True, ie_speaker = False, ie_flusher = True,
     ie_default_model = ''claude-opus-4-8'', ie_timeout_min = 10, ie_proxy = plain_cfg,
     ie_gate = Some (combinedEgressGate demo_hosts demo_gate ''api.test'' 443), ie_listens = True,
     ie_unicode = demo_unicode, ie_hosts = demo_hosts, ie_intent_ms = 0,
     ie_run = (\<lambda>_. ([WorkerDelta ''hi''], Some \<lparr>ro_status = RunOK, ro_session = ''s'', ro_err_msg = ''''\<rparr>))\<rparr>"

lemma demo_intake_simps [simp]:
  "ie_task_store demo_intake" "ie_governor demo_intake = Some (NewGovernor plain_limits)" "\<not> ie_ledger demo_intake"
  "\<not> ie_marker demo_intake" "ie_answerer demo_intake = Some (\<lambda>_. Inr ''ok'')" "ie_machine demo_intake = None"
  "\<not> ie_speaker demo_intake" "ie_flusher demo_intake" "ie_default_model demo_intake = ''claude-opus-4-8''"
  "ie_gate demo_intake = Some (combinedEgressGate demo_hosts demo_gate ''api.test'' 443)"
  "ie_unicode demo_intake = demo_unicode" "ie_hosts demo_intake = demo_hosts"
  "ie_run demo_intake = (\<lambda>_. ([WorkerDelta ''hi''], Some \<lparr>ro_status = RunOK, ro_session = ''s'', ro_err_msg = ''''\<rparr>))"
  by (simp_all add: demo_intake_def)

definition demo_prompt :: string where "demo_prompt = ''id 10000000146''"

definition demo_request :: task_request where
  "demo_request = \<lparr>tq_prompt = demo_prompt, tq_trace = ''tr'', tq_deep_think = True, tq_palette = None,
     tq_audio = '''', tq_speak = False\<rparr>"

definition demo_start :: intake where
  "demo_start = \<lparr>ik_store = empty_store\<lparr>entropy := [Some ''k'']\<rparr>, ik_out = []\<rparr>"

definition demo_id :: string where
  "demo_id = ''t_6b000000000000000000000000000000''"

lemma demo_NewTaskID: "run_state NewTaskID (empty_store\<lparr>entropy := [Some ''k'']\<rparr>) = (Inr demo_id, empty_store)"
  by code_simp

lemma demo_prompt_secret: "vd_secret (ClassifyDeterministic demo_unicode demo_hosts demo_prompt)"
proof -
  have "demo_prompt = ''id '' @ ''10000000146'' @ ''''" by (simp add: demo_prompt_def)
  moreover have "isValidTCKN ''10000000146''" "alone ''id '' ''''"
    by (code_simp, simp add: alone_def word_before_def word_after_def last_of_def is_word_char_def)
  ultimately show ?thesis
    unfolding ClassifyDeterministic_secret classify_deterministic_None by blast
qed

lemma demo_bare: "bare demo_prompt = demo_prompt" "trim_space demo_prompt \<noteq> ''''"
  by code_simp+

lemma demo_not_cleared: "\<not> cleared demo_intake (bare demo_prompt)"
  unfolding cleared_def demo_bare by (simp add: demo_prompt_secret)

lemma demo_texts: "trim_space demo_id \<noteq> ''''" "trim_space ''tr'' \<noteq> ''''"
  "''claude-opus-4-8'' \<in> set AllowedModels" "trim_space '''' = ''''"
  by code_simp+

lemmas intake_eval = handleTask_def handle_request_def handle_prompt_def classify_and_route_def insert_and_dispatch_def
  handleSecretLaneTask_def finishSecretLaneTask_def maybeSpeak_def open_stream_def put_out_def on_store_def
  ledger_event_def set_state_def mark_if_def LogIntentClassified_def LogRoutingDecision_def now_def rfc3339Now_def
  SelectModel_def local_route_def envelope_valid_def chat_envelope_def chat_row_def InsertTask_def UpdateTaskState_def
  update_task_def db_def Let_def prod.case_eq_if



section \<open>What the classifier says\<close>



section \<open>Where a prompt goes\<close>

text \<open>
  C17. Whatever a request to \<open>POST /v1/task\<close> is, a proxy to the provider and a worker are started only
  for a prompt, typed or transcribed, that the classifier has cleared, and the worker is given just
  that prompt in the normal lane: a secret prompt is answered by the local model or not at all.
\<close>

theorem secret_prompts_stay_local:
  assumes "run_state (handleTask e header body) s = ((), s')"
  shows "\<exists>es. ik_out s' = ik_out s @ es \<and> (\<forall>x \<in> set es. \<not> stays_local x \<longrightarrow>
    (\<exists>rq p. body = Body rq \<and> asked e rq es = Some p
       \<and> \<not> vd_secret (ClassifyDeterministic (ie_unicode e) (ie_hosts e) (bare p))
       \<and> (\<forall>v. x = SpawnedWorker v \<longrightarrow> en_prompt v = bare p \<and> en_lane v = LaneNormal)))"
proof -
  have "wp (handleTask e header body) (\<lambda>_ s'. \<exists>es. ik_out s' = ik_out s @ es
      \<and> (list_all stays_local es \<or> (\<exists>rq. body = Body rq \<and> only_cleared e rq es))) s"
    unfolding handleTask_def
    by (cases body) (auto simp: wp_put_out intro: wp_mono [OF wp_handle_request])
  from wp_run [OF this assms] obtain es where es: "ik_out s' = ik_out s @ es"
    "list_all stays_local es \<or> (\<exists>rq. body = Body rq \<and> only_cleared e rq es)" by blast
  have given: "en_prompt v = q \<and> en_lane v = LaneNormal" if "worker_cleared e q (SpawnedWorker v)" for q v
    using that by simp
  from es show ?thesis
    by (intro exI [of _ es]) (fastforce simp: list_all_iff only_cleared_def cleared_def dest: given)
qed

theorem secret_prompts_stay_local_witness:
  "list_all stays_local (ik_out (snd (run_state (handleTask demo_intake '''' (Body demo_request)) demo_start)))"
proof -
  obtain s' where run: "run_state (handleTask demo_intake '''' (Body demo_request)) demo_start = ((), s')"
    by (metis old.unit.exhaust prod.collapse)
  from secret_prompts_stay_local [OF run] have "\<forall>x \<in> set (ik_out s'). \<not> stays_local x \<longrightarrow>
      \<not> vd_secret (ClassifyDeterministic demo_unicode demo_hosts (bare demo_prompt))"
    by (auto simp: demo_start_def demo_request_def asked_def demo_texts)
  then show ?thesis by (auto simp: run demo_bare demo_prompt_secret list_all_iff)
qed




section \<open>What a request is answered\<close>



section \<open>What the code does not do\<close>

text \<open>A card number after other digits, and an IBAN before an amount, are not found.\<close>

lemma card_number_missed:
  "classify_numbers ''4111 1111 1111 1111'' \<noteq> None" "classify_numbers ''2024 4111 1111 1111 1111'' = None"
  by code_simp+

lemma iban_missed:
  "classify_numbers ''TR330006100519786457841326'' \<noteq> None" "classify_numbers ''TR330006100519786457841326 500 TL'' = None"
  by code_simp+

text \<open>The lexicon has the word for a bank transfer, which is in many a harmless word.\<close>

lemma harmless_word_is_secret:
  assumes "Fold u v ''eft'' = ''eft''" and "Fold u v ''turn left'' = ''turn left''"
  shows "vd_secret (ClassifyDeterministic u v ''turn left'')"
proof -
  have "''eft'' \<in> lexicon u v"
    unfolding lexicon_def finansKeywords_def foldAll_def by (simp add: assms(1))
  moreover have "contains_text (Fold u v ''turn left'') ''eft''"
    using contains_text_append [of "''turn l''" "''eft''" "''''"] by (simp add: assms(2))
  ultimately show ?thesis unfolding ClassifyDeterministic_secret classify_deterministic_None by blast
qed

text \<open>\<open>Escalate\<close> takes a failed lookup of the lane for a task that has none.\<close>

lemma escalate_lowers_the_lane:
  assumes "lane_of s task = Some LaneSecret" and "faults s = [True]"
    and "\<not> vd_secret (fst (Classifier_Classify u v qwen msg))"
  shows "\<exists>s'. run_state (Escalate u v qwen marker task trace msg) s = (Inr (LaneNormal, CategoryNone), s')
    \<and> lane_of s' task = Some LaneNormal"
proof -
  from assms(1) obtain z where z: "find (\<lambda>r. t_id r = task) (tasks s) = Some z" by (auto simp: lane_of_def)
  with find_Some_in [OF z] assms show ?thesis
    by (simp add: Escalate_def adapter_GetTaskLane_def GetTaskLane_def select_one_def db_def adapter_SetTaskLane_def
        rfc3339Now_def now_def SetTaskLane_def update_task_def mark_if_def widened_lane_def LaneSecret_def LaneNormal_def
        lane_of_def find_update_where split_beta Let_def)
qed

text \<open>Once a stream is open for a recording, a refusal is written into it as the body of an error.\<close>

definition demo_recording :: task_request where
  "demo_recording = demo_request\<lparr>tq_prompt := '''', tq_audio := ''/a.wav''\<rparr>"

lemma refusal_after_the_stream_opened:
  "\<exists>s' v. run_state (handleTask (demo_intake\<lparr>ie_run := (\<lambda>_. ([], Some \<lparr>ro_status = RunOK, ro_session = '''', ro_err_msg = ''''\<rparr>))\<rparr>)
       '''' (Body demo_recording)) demo_start = ((), s')
     \<and> ik_out s' = [StreamOpened, SpawnedSTT v, Rejected 400 ''prompt must not be empty'']"
proof -
  have "trim_space ''/a.wav'' = ''/a.wav''" "trim_space sttPlaceholderPrompt \<noteq> ''''" "is_prefix ''/'' ''/a.wav''"
    by code_simp+
  then show ?thesis
    by (simp add: intake_eval demo_recording_def demo_request_def demo_start_def demo_texts demo_NewTaskID
        transcribeAudioLocally_def stt_envelope_def)
qed

end
