(* ===== verification/Spec2Isabelle.thy ===== *)
theory Spec2Isabelle
  imports Policy_Props Task_Props Egress_Props Ledger_Props Cloud_Props Fs_Props Intake_Props
begin

text \<open>
  A verification library for the daemon \<open>kahyad\<close> of this repository: a personal assistant whose
  worker processes act only through the daemon.  Paths below are relative to \<open>src/\<close>.

  \<^bold>\<open>The program.\<close>  A prompt is classified before anything else: one with a secret makes a task of the
  secret lane, which a local model answers inside the daemon; any other is routed to a model and given
  to a worker behind a proxy of its own.  A task is a row of \<open>tasks\<close> and moves through a status machine.  A worker that
  runs it asks the policy engine before every tool call (\<open>Check\<close>), which answers allow, deny or
  \<^emph>\<open>needs approval\<close> from the tool's class, a ladder of earned autonomy, the taint of the session and
  whether the task has been halted; a person approves or denies, and what is approved is a one-time
  token bound to the bytes of the call.  Effects are recorded as receipts so that an interrupted
  task is resumed without repeating them; work is handed to dispatchers through an outbox with
  leases.  All bytes that leave the machine pass the egress gate, the calls of the model provider also a
  cost governor.  The file tools run the same checks, work on paths they have
  canonicalised and confined, and keep what an undo needs.  What happened is appended to a ledger with
  a running digest whose checkpoints are anchored outside the machine.

  \<^bold>\<open>Theories and the code they model.\<close>
  \<^item> \<open>Kahya_Prelude\<close>: results (\<open>error + 'a\<close>), the rule collections, a weakest-precondition calculus
    for the state monad of the library, the locale \<open>state_preorder\<close>.  \<open>Go_Path\<close>, \<open>Go_Net\<close>,
    \<open>Go_Float\<close>, \<open>Sha256\<close>: what the code uses of Go's \<open>path/filepath\<close>, \<open>net\<close>, \<open>float64\<close> and calendar
    arithmetic and \<open>crypto/sha256\<close>, as executable definitions.
  \<^item> \<open>Store\<close>, \<open>Policy_Store\<close>, \<open>Task_Store\<close>: the database.  One record \<open>store\<close> has a list of rows per
    table, the clock, the entropy read, and a schedule of database failures (\<open>faults\<close>): every
    statement of \<open>store/sqlcgen/queries.sql.go\<close> a modelled component runs is a definition that may
    fail as the schedule says and then changes nothing.
  \<^item> \<open>Canon\<close> (\<open>internal/canon\<close>), \<open>Taint\<close> (\<open>internal/taint\<close>), \<open>Policy_Loader\<close> (\<open>policy/schema.go\<close>,
    \<open>loader.go\<close>), \<open>Policy_Engine\<close> (\<open>policy/engine.go\<close>, \<open>tokens.go\<close>, \<open>halt.go\<close>,
    \<open>session_resolver.go\<close>).
  \<^item> \<open>Task_Machine\<close> (\<open>internal/task\<close>), \<open>Task_Outbox\<close> (\<open>outbox/dispatcher.go\<close>, \<open>halt/executor.go\<close>;
    the halt runs the engine's \<open>InvalidateApprovalsForTask\<close>).
  \<^item> \<open>Egress\<close> (\<open>internal/egress\<close>: gate, budget, allow-list, tracker, hook of the model proxy),
    \<open>Egress_Proxy\<close> (\<open>egress/proxy.go\<close>, \<open>registry.go\<close>, \<open>server/egress.go\<close>).
  \<^item> \<open>Text_Fold\<close> (\<open>textnorm/fold.go\<close>), \<open>Go_Regexp\<close> (the part of Go's \<open>regexp\<close> the classifier uses),
    \<open>Secret_Lane\<close> (\<open>internal/secretlane\<close> with \<open>server/secretlane_adapter.go\<close> and the composed gate of
    \<open>main.go\<close>), \<open>Router\<close> (\<open>internal/router\<close>), \<open>Task_Intake\<close> (\<open>handleTask\<close> of \<open>server/task.go\<close> and
    \<open>server/stt.go\<close>): a request runs on an \<open>intake\<close>, the database and the list of what the request has
    caused, and calls the classifier, the router, the task machine, the taint tracker and the
    construction of the cloud proxy.
  \<^item> \<open>Ledger_Anchor\<close> (\<open>internal/ledgerdigest\<close>, \<open>internal/anchor\<close>).
  \<^item> \<open>Cloud_Usage\<close> (\<open>anthproxy/usage.go\<close>, \<open>fable5.go\<close>, \<open>internal/cloudretry\<close>), \<open>Cloud_Governor\<close>
    (\<open>anthproxy/governor.go\<close>), \<open>Cloud_Proxy\<close> (\<open>anthproxy/retry.go\<close>, \<open>proxy.go\<close>; its gate is the hook of
    \<open>Egress\<close>).
  \<^item> \<open>Fs_Tree\<close>: inodes, links, open directories and \<open>os.Root\<close>, with the system calls the tools make.
    \<open>Fs_Tool\<close> (\<open>mcp/fs/paths.go\<close>, \<open>server.go\<close>, \<open>undo.go\<close>, wired by \<open>server/fs.go\<close>) runs on a
    \<open>tool_state\<close> that holds the tree, the database, the undo records and a schedule of what other
    processes do, and which calls fail, between its own calls; it calls \<open>Check\<close>, \<open>ConsumeApprovalToken\<close>
    and the tracker of \<open>Egress\<close>.  \<open>Go_Encoding\<close>: base 64 and JSON string literals; \<open>Fs_Eval\<close>: code
    equations for plain ASCII.

  Names are those of the source.  Where one source function is long, its consecutive parts are
  separate definitions (\<open>check_ladder\<close> of \<open>Check\<close>, \<open>serve_body\<close> of \<open>ServeHTTP\<close>), composed as the
  code composes them; two functions of the same name get the component as a prefix.  A Go error is
  \<open>Inl\<close>, a value \<open>Inr\<close>; \<open>int64\<close> is a 64-bit word read with \<open>sint\<close> wherever a sum can wrap around.

  \<^bold>\<open>How the proofs are built.\<close>  A property of a whole component is a relation between the state
  before and after.  The locale \<open>state_preorder\<close> closes any preorder under the monad's constructs;
  \<open>store_preorder\<close> adds the indifference to failures, entropy and new events; \<open>engine_preorder\<close>,
  \<open>engine_writes\<close>, \<open>task_preorder\<close> and \<open>egress_preorder\<close> say what a relation has to tolerate of the
  statements a component runs, and prove once that every operation of the component keeps it;
  \<open>look_preorder\<close>, \<open>read_preorder\<close> and \<open>fs_preorder\<close> do so for the file tools, on top of the laws of the
  engine and the gate they call; \<open>engine_trace\<close> and \<open>task_trace\<close> extend this to sequences of calls interleaved with time.  The
  interpretations on the model's own relations (\<open>burnt_forward\<close>, \<open>ledger_grows\<close>, \<open>keeps_range\<close>,
  \<open>no_rise\<close>, \<open>status_moves\<close>, \<open>keeps_live_unique\<close>, \<open>outbox_settles\<close>, \<open>marks_grow\<close>, \<open>spent_grows\<close>,
  \<open>ok_kept\<close>, \<open>lanes_stick\<close>, \<open>emits\<close> and others) are in the \<open>_Laws\<close>, \<open>_Ladder\<close>, \<open>_Relations\<close> and \<open>_Traces\<close> theories.  The
  locale \<open>one_shot\<close> is the contract of a row that can be consumed once; tokens, pending approvals and
  revocations interpret it.  The \<open>_Facts\<close> theories say what an operation returns on every branch, the
  \<open>_Props\<close> theories hold the properties and their witnesses on small databases.

  \<^bold>\<open>What is shown.\<close>
  \<^item> Policy: an allow comes only from a registered tool whose class and level license it, for a clean
    session, and carries a token bound to the call; every error is a deny; a decision on an approval
    and the use of a token happen once in any sequence of calls under any failures; only \<open>Promote\<close>
    raises a level; a halt kills the credentials; text is canonical after \<open>Normalize\<close>; taint does not
    go down; a policy that loads satisfies the hard rules.
  \<^item> Tasks: statuses follow the table and terminal ones are final, also between racing callers; the
    operations refine the table seen as a function on the map of statuses; a call has one live
    attempt, is replayed from its receipt, and leaves nothing when it fails; an interrupted risky call
    blocks; outbox rows settle, and a lease excludes other claims; a halted task stays halted.
  \<^item> Egress: an admission is licensed and within the budget over any sequence of operations, a marked
    session is confined, the proxy connects only where licensed, IP literals are compared by address.
  \<^item> Ledger: an honest ledger verifies; a replaced history that verifies has the honest prefix up to
    its last checkpoint, or breaks SHA-256 (stated as a collision that is exhibited).
  \<^item> Cloud: a task stays within its ceiling however requests interleave; reservations are those of
    requests in flight; a request is a run of the governor; retries stop at the first verdict; each
    alarm fires once a day; a restart rebuilds the totals.
  \<^item> File tools: a change has passed the gates with the path and the bytes it is about, and the bytes
    an approval is bound to determine both; canonical paths go through no links; a write lands on the
    path that was checked and changes nothing else; a delete loses no file whichever call fails; an
    undo puts back the bytes it recorded or nothing; file trees stay well formed; a session that has
    read a secret is confined.
  \<^item> Intake: a verdict of the classifier has a declarative meaning (\<open>accepts\<close> against the backtracking
    matcher \<open>runs\<close>); a proxy and a worker are started only for a prompt that was cleared; the task of a
    secret prompt stays in the secret lane under all operations on tasks and its proxy forwards
    nothing; every request is answered once.
  Lemmas named \<open>finding_\<close> or described as observations show where the code departs from its intent
  (integer sums that wrap around, the missing edge from \<open>intent\<close> to \<open>user_halted\<close>, a departed client
  that is never recorded, a parent directory that is swapped between check and write, a card number
  the classifier misses, a lane that a failed lookup lowers).

  \<^bold>\<open>Bounds.\<close>  No fuel is used where the source loops without a bound of its own.  \<open>claimIntent\<close> has the
  source's limit of attempts, the search for a temporary name its ten thousand; \<open>walk\<close> stops at the
  kernel's limit of links; the search for a free name in the trash is a \<open>partial_function\<close>, so not
  returning is a value (\<open>NeverReturns\<close>); the readers of IP literals (\<open>ipv6_groups\<close>, at most nine groups) and of
  numbers recurse on the text or on a bound no input can exceed; \<open>retry_loop\<close> recurses on the
  attempts left; \<open>trim_by\<close> on the length.

  \<^bold>\<open>Parameters.\<close>  Unicode normalisation and property tables (\<open>unicode_env\<close>), lower-casing and
  \<open>idna\<close> of host names (\<open>host_env\<close>), the JSON and SSE codec (\<open>wire_env\<close>), the doublestar glob matcher,
  DNS and connections of the proxy, the process of a worker (for intake: the
  list of its events, interleaved with what others do to the database, and its outcome), the local
  model, git and keys (\<open>anchor_env\<close>), the answers
  of the model provider (\<open>transport\<close>), and of the file tools' surroundings the working directory, the
  limit of links, the umask, git and the content classifier (\<open>fs_env\<close>).  Properties hold for all of them; the witnesses choose one.
  Other goroutines appear as arbitrary steps in between (\<open>px_meanwhile\<close>, traces, schedules), other processes as functions on the
  file tree between two system calls.  \<open>EvalSymlinks\<close>, \<open>MkdirAll\<close> and one probe of the trash are
  single steps; permission bits of directories and errors of closing a file are not modelled.

  \<^bold>\<open>Floating point.\<close>  A \<open>float64\<close> is a rational that is rounded to 53 bits after every operation
  (\<open>round64\<close>: nearest, ties to even, subnormals included); overflow to infinity does not occur below
  2 to the 1024 and is not modelled; \<open>math.Pow\<close> is the exact power.  The pools of reserved dollars
  may therefore drift by rounding, as in the code: the exact sums are those of tokens.

  \<^bold>\<open>Not modelled.\<close>  The HTTP and MCP servers' request decoding, the command line client, the
  construction of the daemon and its configuration, chat surfaces, process supervision, model calls
  and prompts, backups, schedulers and log files: I/O around the components above.  The components
  of the manifest say so one by one.
\<close>

end
